(* ===== verification/Ind_Prelude.thy ===== *)
theory Ind_Prelude
  imports Main "HOL-Library.Char_ord" "HOL-Library.List_Lexorder"
begin

text \<open>
  Shared vocabulary of the development.

  \<^item> \<open>time\<close> is a Unix timestamp; every operation that reads the clock in the Go code takes the
    instant as an argument.
  \<^item> A SQL statement either runs or fails. An operation that issues statements takes a fault plan
    \<open>flt\<close>: \<open>flt k\<close> says that the k-th statement of this call fails (a lost connection, a
    full disk), in which case Go sees a driver error, here \<open>DBError\<close>. The constant plan
    \<open>no_faults\<close> is the ordinary run.
  \<^item> A table is the list of its rows in rowid order; the helpers below are the SQL forms the
    services use (\<open>SELECT\<close>, \<open>UPDATE ... WHERE\<close>, \<open>DELETE ... WHERE\<close>, \<open>ORDER BY ... LIMIT ... OFFSET\<close>).
  \<^item> \<open>i64\<close> is the two's complement normalisation of Go's \<open>int64\<close> arithmetic.
\<close>

section \<open>Named collections\<close>

named_theorems table_simps \<open>rewriting of the SQL table helpers\<close>
named_theorems svc_defs \<open>the service operations, unfolded to their table updates\<close>
named_theorems inv_intros \<open>operations keep the component invariants\<close>

section \<open>Types shared by the components\<close>

type_synonym time = int
type_synonym faults = "nat \<Rightarrow> bool"

text \<open>The Go errors the services return: driver errors, constraint violations reported by the
  database, the exported sentinels, and errors built from a message.\<close>

datatype error =
    DBError
  | FKViolation
  | UniqueViolation
  | ErrMsg string
  | ErrUploadNotFound
  | ErrNoRows
  | ErrWalletNotFound
  | ErrNoDefaultWallet
  | ErrDeleteDefault
  | ErrQuotaNotFound
  | ErrQuotaExceeded
  | ErrQuotaDuplicate
  | ErrQuotaEntityRequired
  | ErrQuotaEntityNotFound
  | ErrQuotaInvalidEntityType
  | ErrInvalid
  | ErrIO
  | ErrNotReady
  | ErrOverBudget
  | ErrCanceled

abbreviation no_faults :: faults where
  "no_faults \<equiv> (\<lambda>_. False)"

definition later :: "nat \<Rightarrow> faults \<Rightarrow> faults" where
  "later n flt = (\<lambda>k. flt (n + k))"

section \<open>SQL table helpers\<close>

definition update_where :: "('r \<Rightarrow> bool) \<Rightarrow> ('r \<Rightarrow> 'r) \<Rightarrow> 'r list \<Rightarrow> 'r list" where
  "update_where P f rs = map (\<lambda>r. if P r then f r else r) rs"

definition delete_where :: "('r \<Rightarrow> bool) \<Rightarrow> 'r list \<Rightarrow> 'r list" where
  "delete_where P rs = filter (\<lambda>r. \<not> P r) rs"

definition rows_affected :: "('r \<Rightarrow> bool) \<Rightarrow> 'r list \<Rightarrow> int" where
  "rows_affected P rs = int (length (filter P rs))"

definition limit_offset :: "int \<Rightarrow> int \<Rightarrow> 'r list \<Rightarrow> 'r list" where
  "limit_offset l off rs = take (nat l) (drop (nat off) rs)"

definition order_asc :: "('r \<Rightarrow> 'k::linorder) \<Rightarrow> 'r list \<Rightarrow> 'r list" where
  "order_asc k rs = sort_key k rs"

text \<open>Descending order; rows with equal keys may come back in any order in SQL, here in reverse
  rowid order.\<close>

definition order_desc :: "('r \<Rightarrow> 'k::linorder) \<Rightarrow> 'r list \<Rightarrow> 'r list" where
  "order_desc k rs = rev (sort_key k rs)"

definition max_id :: "int list \<Rightarrow> int" where
  "max_id xs = foldr max xs 0"

text \<open>A table with an AUTOINCREMENT key: the ids are distinct, positive and at most the counter.\<close>

definition keyed :: "('r \<Rightarrow> int) \<Rightarrow> int \<Rightarrow> 'r list \<Rightarrow> bool" where
  "keyed k seq rs \<longleftrightarrow> distinct (map k rs) \<and> (\<forall>r \<in> set rs. 0 < k r \<and> k r \<le> seq) \<and> 0 \<le> seq"

section \<open>Machine integers\<close>

definition i64 :: "int \<Rightarrow> int" where
  "i64 x = (x + 2 ^ 63) mod 2 ^ 64 - 2 ^ 63"

definition is_i64 :: "int \<Rightarrow> bool" where
  "is_i64 x \<longleftrightarrow> - (2 ^ 63) \<le> x \<and> x < 2 ^ 63"

definition u64 :: "nat \<Rightarrow> nat" where
  "u64 x = x mod 2 ^ 64"

text \<open>Go's integer division truncates towards zero.\<close>

definition quot :: "int \<Rightarrow> int \<Rightarrow> int" where
  "quot a b = sgn a * sgn b * (\<bar>a\<bar> div \<bar>b\<bar>)"

section \<open>Lemmas\<close>

lemma later_simp [simp]: "later n flt k = flt (n + k)"
  by (simp add: later_def)

lemma later_no_faults [simp]: "later n no_faults = no_faults"
  by (simp add: later_def)

lemma update_where_Nil [table_simps]: "update_where P f [] = []"
  by (simp add: update_where_def)

lemma update_where_Cons [table_simps]:
  "update_where P f (r # rs) = (if P r then f r else r) # update_where P f rs"
  by (simp add: update_where_def)

lemma length_update_where [simp]: "length (update_where P f rs) = length rs"
  by (simp add: update_where_def)

lemma set_update_where:
  "r \<in> set (update_where P f rs) \<longleftrightarrow> (\<exists>r0 \<in> set rs. r = (if P r0 then f r0 else r0))"
  by (auto simp: update_where_def)

lemma map_update_where_id:
  "(\<And>r. k (f r) = k r) \<Longrightarrow> map k (update_where P f rs) = map k rs"
  by (simp add: update_where_def)

lemma update_where_none: "(\<And>r. r \<in> set rs \<Longrightarrow> \<not> P r) \<Longrightarrow> update_where P f rs = rs"
  by (simp add: update_where_def map_idI)

lemma set_delete_where [simp]: "set (delete_where P rs) = {r \<in> set rs. \<not> P r}"
  by (simp add: delete_where_def)

lemma delete_where_Nil [table_simps]: "delete_where P [] = []"
  by (simp add: delete_where_def)

lemma delete_where_Cons [table_simps]:
  "delete_where P (r # rs) = (if P r then delete_where P rs else r # delete_where P rs)"
  by (simp add: delete_where_def)

lemma distinct_map_delete: "distinct (map k rs) \<Longrightarrow> distinct (map k (delete_where P rs))"
  by (simp add: delete_where_def distinct_map_filter)

lemma rows_affected_zero: "rows_affected P rs = 0 \<longleftrightarrow> (\<forall>r \<in> set rs. \<not> P r)"
  by (auto simp: rows_affected_def filter_empty_conv)

lemma rows_affected_nonneg [simp]: "0 \<le> rows_affected P rs"
  by (simp add: rows_affected_def)

lemma set_order_asc [simp]: "set (order_asc k rs) = set rs"
  by (simp add: order_asc_def)

lemma set_order_desc [simp]: "set (order_desc k rs) = set rs"
  by (simp add: order_desc_def)

lemma length_order_asc [simp]: "length (order_asc k rs) = length rs"
  by (simp add: order_asc_def)

lemma length_order_desc [simp]: "length (order_desc k rs) = length rs"
  by (simp add: order_desc_def)

lemma order_asc_Cons_min:
  assumes "order_asc k rs = r # rest"
  shows "r \<in> set rs" and "v \<in> set rs \<Longrightarrow> k r \<le> k v"
proof -
  have s: "sorted (map k (r # rest))" and m: "set (r # rest) = set rs"
    using assms unfolding order_asc_def by (metis sorted_sort_key, metis set_sort)
  show "r \<in> set rs" using m by auto
  show "k r \<le> k v" if "v \<in> set rs"
    using s m that by auto
qed

lemma order_asc_Nil: "order_asc k rs = [] \<longleftrightarrow> rs = []"
  by (metis length_0_conv length_order_asc)

lemma set_limit_offset: "set (limit_offset l off rs) \<subseteq> set rs"
  by (auto simp: limit_offset_def dest: in_set_takeD in_set_dropD)

lemma length_limit_offset: "length (limit_offset l off rs) \<le> nat l"
  by (simp add: limit_offset_def)

lemma sorted_limit_offset:
  "sorted (map k rs) \<Longrightarrow> sorted (map k (limit_offset l off rs))"
  by (simp add: limit_offset_def take_map [symmetric] drop_map [symmetric] sorted_wrt_drop sorted_wrt_take)

lemma max_id_ge: "x \<in> set xs \<Longrightarrow> x \<le> max_id xs"
  by (induction xs) (auto simp: max_id_def le_max_iff_disj)

lemma max_id_nonneg [simp]: "0 \<le> max_id xs"
  by (induction xs) (auto simp: max_id_def le_max_iff_disj)

lemma max_id_in: "max_id xs = 0 \<or> max_id xs \<in> set xs"
  by (induction xs) (auto simp: max_id_def max_def)

lemma i64_id [simp]: "is_i64 x \<Longrightarrow> i64 x = x"
  by (simp add: i64_def is_i64_def)

lemma is_i64_i64 [simp]: "is_i64 (i64 x)"
  by (simp add: i64_def is_i64_def)

lemma u64_id [simp]: "x < 2 ^ 64 \<Longrightarrow> u64 x = x"
  by (simp add: u64_def)

lemma u64_bound [simp]: "u64 x < 2 ^ 64"
  by (simp add: u64_def)

lemma quot_nonneg: "0 \<le> a \<Longrightarrow> 0 < b \<Longrightarrow> quot a b = a div b"
  by (cases "a = 0") (simp_all add: quot_def)

lemma find_SomeD: "find P xs = Some x \<Longrightarrow> x \<in> set xs \<and> P x"
  by (metis find_Some_iff nth_mem)

lemma find_NoneD: "find P xs = None \<Longrightarrow> x \<in> set xs \<Longrightarrow> \<not> P x"
  by (simp add: find_None_iff)

lemma find_map_same:
  "(\<And>r. r \<in> set rs \<Longrightarrow> P (f r) = P r) \<Longrightarrow> find P (map f rs) = map_option f (find P rs)"
  by (induction rs) auto

lemma distinct_map_find:
  "distinct (map k rs) \<Longrightarrow> r \<in> set rs \<Longrightarrow> find (\<lambda>x. k x = k r) rs = Some r"
  by (induction rs) force+

lemma keyed_Nil [simp]: "keyed k seq [] \<longleftrightarrow> 0 \<le> seq"
  by (simp add: keyed_def)

lemma keyed_append:
  assumes "keyed k seq rs" and "k r = seq + 1"
  shows "keyed k (seq + 1) (rs @ [r])"
proof -
  have "k r \<notin> k ` set rs"
    using assms by (force simp: keyed_def)
  moreover have "\<forall>x \<in> set rs. 0 < k x \<and> k x \<le> seq + 1"
    using assms(1) by (force simp: keyed_def)
  ultimately show ?thesis
    using assms by (simp add: keyed_def)
qed

lemma keyed_update:
  assumes "keyed k seq rs" and "\<And>r. k (f r) = k r"
  shows "keyed k seq (update_where P f rs)"
  using assms by (auto simp: keyed_def set_update_where map_update_where_id)

lemma keyed_filter: "keyed k seq rs \<Longrightarrow> keyed k seq (filter P rs)"
  by (auto simp: keyed_def distinct_map_filter)

lemma keyed_delete: "keyed k seq rs \<Longrightarrow> keyed k seq (delete_where P rs)"
  by (simp add: delete_where_def keyed_filter)

lemma keyed_inj: "keyed k seq rs \<Longrightarrow> r \<in> set rs \<Longrightarrow> r' \<in> set rs \<Longrightarrow> k r = k r' \<Longrightarrow> r = r'"
  by (auto simp: keyed_def distinct_map dest: inj_onD)

lemma keyed_fresh: "keyed k seq rs \<Longrightarrow> seq < x \<Longrightarrow> x \<notin> k ` set rs"
  by (force simp: keyed_def)

lemma keyed_find: "keyed k seq rs \<Longrightarrow> r \<in> set rs \<Longrightarrow> find (\<lambda>x. k x = k r) rs = Some r"
  by (simp add: keyed_def distinct_map_find)

lemma find_append:
  "find P (xs @ ys) = (case find P xs of None \<Rightarrow> find P ys | Some x \<Rightarrow> Some x)"
  by (induction xs) auto

lemma find_filter_other:
  "(\<And>x. P x \<Longrightarrow> Q x) \<Longrightarrow> find P (filter Q xs) = find P xs"
  by (induction xs) auto

lemma map_of_filter_other:
  "map_of (filter (\<lambda>x. fst x \<noteq> k) xs) k' = (if k' = k then None else map_of xs k')"
  by (induction xs) auto

lemma find_unique:
  assumes "x \<in> set xs" and "P x" and "\<And>y. y \<in> set xs \<Longrightarrow> P y \<Longrightarrow> y = x"
  shows "find P xs = Some x"
proof (cases "find P xs")
  case None
  then show ?thesis using find_NoneD [OF None assms(1)] assms(2) by simp
next
  case (Some y)
  then show ?thesis using find_SomeD [OF Some] assms(3) by blast
qed

end
