(* ===== verification/Hash.thy ===== *)
theory Hash
  imports Ind_Prelude "HOL-Library.Word"
begin

text \<open>
  The digests the program uses as identities: SHA-256 (Go's \<open>crypto/sha256\<close>, the FIPS 180-4
  algorithm), hex encoding and decoding (\<open>encoding/hex\<close>), the download-cache key of an upload
  (\<open>downloadcache.KeyForIdentifier\<close>) and the check that a key is safe as a file name
  (\<open>downloadcache.keyValid\<close>). Go strings are byte strings, so a \<open>string\<close> is a list of bytes
  (\<open>char\<close>).
\<close>

unbundle bit_operations_syntax

type_synonym u32 = "32 word"

section \<open>SHA-256\<close>

definition rotr32 :: "nat \<Rightarrow> u32 \<Rightarrow> u32" where
  "rotr32 n x = drop_bit n x OR push_bit (32 - n) x"

definition ssig0 :: "u32 \<Rightarrow> u32" where
  "ssig0 x = rotr32 7 x XOR rotr32 18 x XOR drop_bit 3 x"

definition ssig1 :: "u32 \<Rightarrow> u32" where
  "ssig1 x = rotr32 17 x XOR rotr32 19 x XOR drop_bit 10 x"

definition bsig0 :: "u32 \<Rightarrow> u32" where
  "bsig0 x = rotr32 2 x XOR rotr32 13 x XOR rotr32 22 x"

definition bsig1 :: "u32 \<Rightarrow> u32" where
  "bsig1 x = rotr32 6 x XOR rotr32 11 x XOR rotr32 25 x"

definition sha_ch :: "u32 \<Rightarrow> u32 \<Rightarrow> u32 \<Rightarrow> u32" where
  "sha_ch x y z = (x AND y) XOR (NOT x AND z)"

definition sha_maj :: "u32 \<Rightarrow> u32 \<Rightarrow> u32 \<Rightarrow> u32" where
  "sha_maj x y z = (x AND y) XOR (x AND z) XOR (y AND z)"

definition sha_k :: "u32 list" where
  "sha_k =
    [1116352408, 1899447441, 3049323471, 3921009573, 961987163, 1508970993, 2453635748, 2870763221,
     3624381080, 310598401, 607225278, 1426881987, 1925078388, 2162078206, 2614888103, 3248222580,
     3835390401, 4022224774, 264347078, 604807628, 770255983, 1249150122, 1555081692, 1996064986,
     2554220882, 2821834349, 2952996808, 3210313671, 3336571891, 3584528711, 113926993, 338241895,
     666307205, 773529912, 1294757372, 1396182291, 1695183700, 1986661051, 2177026350, 2456956037,
     2730485921, 2820302411, 3259730800, 3345764771, 3516065817, 3600352804, 4094571909, 275423344,
     430227734, 506948616, 659060556, 883997877, 958139571, 1322822218, 1537002063, 1747873779,
     1955562222, 2024104815, 2227730452, 2361852424, 2428436474, 2756734187, 3204031479, 3329325298]"

type_synonym sha_state = "u32 \<times> u32 \<times> u32 \<times> u32 \<times> u32 \<times> u32 \<times> u32 \<times> u32"

definition sha_init :: sha_state where
  "sha_init = (1779033703, 3144134277, 1013904242, 2773480762, 1359893119, 2600822924, 528734635, 1541459225)"

fun be_bytes :: "nat \<Rightarrow> int \<Rightarrow> string" where
  "be_bytes 0 x = []"
| "be_bytes (Suc n) x = be_bytes n (x div 256) @ [char_of (x mod 256)]"

definition sha_pad :: "string \<Rightarrow> string" where
  "sha_pad m = m @ [CHR 0x80] @ replicate ((119 - length m mod 64) mod 64) (CHR 0x00) @ be_bytes 8 (8 * int (length m))"

fun be_words :: "string \<Rightarrow> u32 list" where
  "be_words (a # b # c # d # cs) =
     word_of_int (of_char a * 16777216 + of_char b * 65536 + of_char c * 256 + of_char d) # be_words cs"
| "be_words _ = []"

fun sha_schedule :: "nat \<Rightarrow> u32 list \<Rightarrow> u32 list" where
  "sha_schedule 0 w = w"
| "sha_schedule (Suc n) w =
     (let t = length w
      in sha_schedule n (w @ [ssig1 (w ! (t - 2)) + w ! (t - 7) + ssig0 (w ! (t - 15)) + w ! (t - 16)]))"

fun sha_round :: "(u32 \<times> u32) \<Rightarrow> sha_state \<Rightarrow> sha_state" where
  "sha_round (k, w) (a, b, c, d, e, f, g, h) =
     (let t1 = h + bsig1 e + sha_ch e f g + k + w;
          t2 = bsig0 a + sha_maj a b c
      in (t1 + t2, a, b, c, d + t1, e, f, g))"

fun sha_add :: "sha_state \<Rightarrow> sha_state \<Rightarrow> sha_state" where
  "sha_add (a, b, c, d, e, f, g, h) (a', b', c', d', e', f', g', h') =
     (a + a', b + b', c + c', d + d', e + e', f + f', g + g', h + h')"

definition sha_block :: "sha_state \<Rightarrow> u32 list \<Rightarrow> sha_state" where
  "sha_block s w = sha_add s (fold sha_round (zip sha_k (sha_schedule 48 w)) s)"

function sha_blocks :: "sha_state \<Rightarrow> u32 list \<Rightarrow> sha_state" where
  "sha_blocks s w = (if length w < 16 then s else sha_blocks (sha_block s (take 16 w)) (drop 16 w))"
  by pat_completeness auto
termination
  by (relation "measure (\<lambda>(s, w). length w)") auto

declare sha_blocks.simps [simp del]

fun sha_words :: "sha_state \<Rightarrow> u32 list" where
  "sha_words (a, b, c, d, e, f, g, h) = [a, b, c, d, e, f, g, h]"

text \<open>\<open>sha256.Sum256\<close>: the 32 digest bytes.\<close>

definition sha256 :: "string \<Rightarrow> string" where
  "sha256 m = concat (map (\<lambda>w. be_bytes 4 (uint w)) (sha_words (sha_blocks sha_init (be_words (sha_pad m)))))"

section \<open>Hex encoding\<close>

definition hex_digit :: "nat \<Rightarrow> char" where
  "hex_digit n = (if n < 10 then char_of (48 + n) else char_of (87 + n))"

text \<open>\<open>hex.EncodeToString\<close>: two lower-case digits per byte.\<close>

definition hex_encode :: "string \<Rightarrow> string" where
  "hex_encode bs = concat (map (\<lambda>c. [hex_digit (of_char c div 16), hex_digit (of_char c mod 16)]) bs)"

text \<open>\<open>hex.DecodeString\<close> accepts digits of either case and an even number of them.\<close>

definition hex_value :: "char \<Rightarrow> nat option" where
  "hex_value c =
     (let n = of_char c :: nat
      in if 48 \<le> n \<and> n \<le> 57 then Some (n - 48)
         else if 97 \<le> n \<and> n \<le> 102 then Some (n - 87)
         else if 65 \<le> n \<and> n \<le> 70 then Some (n - 55)
         else None)"

fun hex_decode :: "string \<Rightarrow> string option" where
  "hex_decode [] = Some []"
| "hex_decode [c] = None"
| "hex_decode (a # b # cs) =
     (case (hex_value a, hex_value b, hex_decode cs) of
        (Some x, Some y, Some r) \<Rightarrow> Some (char_of (16 * x + y) # r)
      | _ \<Rightarrow> None)"

section \<open>Cache keys\<close>

definition KeyForIdentifier :: "string \<Rightarrow> string" where
  "KeyForIdentifier ident =
     (if ident = [] then [] else hex_encode (sha256 (''indelible-download-v1:'' @ ident)))"

definition lower_hex_char :: "char \<Rightarrow> bool" where
  "lower_hex_char c \<longleftrightarrow>
     (let n = of_char c :: nat in (48 \<le> n \<and> n \<le> 57) \<or> (97 \<le> n \<and> n \<le> 102))"

definition keyValid :: "string \<Rightarrow> bool" where
  "keyValid key \<longleftrightarrow> 16 \<le> length key \<and> length key \<le> 128 \<and> list_all lower_hex_char key"

section \<open>Lemmas\<close>

lemma length_be_bytes [simp]: "length (be_bytes n x) = n"
  by (induction n arbitrary: x) auto

lemma length_sha_words [simp]: "length (sha_words s) = 8"
  by (cases s rule: sha_words.cases) simp

lemma length_concat_const: "(\<And>x. x \<in> set xs \<Longrightarrow> length (f x) = n) \<Longrightarrow> length (concat (map f xs)) = n * length xs"
  by (induction xs) auto

lemma length_sha256 [simp]: "length (sha256 m) = 32"
  by (simp add: sha256_def length_concat_const [where n = 4])

lemma length_hex_encode [simp]: "length (hex_encode bs) = 2 * length bs"
  by (simp add: hex_encode_def length_concat_const [where n = 2])

lemma of_char_hex_digit: "n < 16 \<Longrightarrow> of_char (hex_digit n) = (if n < 10 then 48 + n else 87 + n :: nat)"
  by (simp add: hex_digit_def of_char_of)

lemma of_char_less_256: "of_char (c :: char) < (256 :: nat)"
  by (rule of_char_mod_256 [THEN subst]) simp

lemma of_char_high_nibble: "of_char (c :: char) div 16 < (16 :: nat)"
  using of_char_less_256 [of c] by (simp add: less_mult_imp_div_less)

lemma lower_hex_hex_digit: "n < 16 \<Longrightarrow> lower_hex_char (hex_digit n)"
  by (auto simp: lower_hex_char_def of_char_hex_digit Let_def)

lemma hex_encode_lower: "list_all lower_hex_char (hex_encode bs)"
  by (auto simp: hex_encode_def list_all_iff intro!: lower_hex_hex_digit of_char_high_nibble)

lemma hex_value_digit: "n < 16 \<Longrightarrow> hex_value (hex_digit n) = Some n"
  by (auto simp: hex_value_def of_char_hex_digit Let_def)

lemma hex_decode_encode: "hex_decode (hex_encode bs) = Some bs"
proof (induction bs)
  case Nil
  show ?case by (simp add: hex_encode_def)
next
  case (Cons b bs)
  have lt: "of_char b div 16 < (16 :: nat)"
    by (rule of_char_high_nibble)
  have "char_of (16 * (of_char b div 16) + of_char b mod 16 :: nat) = b"
    by simp
  moreover have "hex_encode (b # bs) =
      hex_digit (of_char b div 16) # hex_digit (of_char b mod 16) # hex_encode bs"
    by (simp add: hex_encode_def)
  ultimately show ?case
    using Cons.IH lt by (simp add: hex_value_digit)
qed

lemma KeyForIdentifier_valid: "ident \<noteq> [] \<Longrightarrow> keyValid (KeyForIdentifier ident)"
  by (simp add: KeyForIdentifier_def keyValid_def hex_encode_lower)

lemma KeyForIdentifier_empty: "KeyForIdentifier ident = [] \<longleftrightarrow> ident = []"
  by (auto simp: KeyForIdentifier_def dest: arg_cong [where f = length])

end
