(* ===== verification/Schema.thy ===== *)
theory Schema
  imports Hash
begin

text \<open>
  The database the services share: one record field per table the modelled services use, each table
  a list of rows in rowid order, with the AUTOINCREMENT counters beside them. The rows follow the
  Go structs (\<open>services.Upload\<close>, \<open>services.Transaction\<close>, \<open>services.Wallet\<close>, \<open>services.Quota\<close>,
  \<open>services.PurgeLogEntry\<close>) together with the columns only SQL touches (\<open>cache_key\<close>,
  \<open>payment_floor_txn_id\<close>, \<open>deleted_at\<close>). A nullable column is an option. The
  invariant \<open>db_ok\<close> says what the primary keys and the AUTOINCREMENT counters guarantee.
\<close>

section \<open>Rows\<close>

datatype upload_status = Queued | Processing | Completed | Failed | AlreadyStored

datatype visibility = Public | Private

record upload =
  u_id :: int
  u_uuid :: string
  u_user :: int
  u_token :: "int option"
  u_filename :: string
  u_original :: string
  u_size :: int
  u_ctype :: string
  u_visibility :: visibility
  u_status :: upload_status
  u_detail :: "string option"
  u_address :: "string option"
  u_est_cost :: "string option"
  u_actual_cost :: "string option"
  u_error :: "string option"
  u_temp :: "string option"
  u_datamap :: "string option"
  u_backoff_until :: "time option"
  u_backoff_attempt :: int
  u_last_quoted :: "string option"
  u_queued_at :: time
  u_processing_at :: "time option"
  u_completed_at :: "time option"
  u_failed_at :: "time option"
  u_created_at :: time
  u_cache_key :: "string option"
  u_floor :: int

record txn =
  t_id :: int
  t_wallet :: int
  t_upload :: "int option"
  t_type :: string
  t_amount :: string
  t_balance :: string
  t_hash :: "string option"
  t_created_at :: time

record wallet =
  w_id :: int
  w_name :: string
  w_address :: string
  w_encrypted_key :: string
  w_default :: bool
  w_payment_balance :: string
  w_gas_balance :: string
  w_created_at :: time
  w_updated_at :: time

record purge_row =
  p_id :: int
  p_key :: string
  p_deleted_at :: time

record quota =
  q_id :: int
  q_type :: string
  q_entity :: "string option"
  q_max :: int
  q_enabled :: bool
  q_created_at :: time
  q_updated_at :: time

record api_token =
  k_id :: int
  k_department :: "string option"

section \<open>The database\<close>

record db =
  uploads :: "upload list"
  upload_seq :: int
  transactions :: "txn list"
  txn_seq :: int
  purge_log :: "purge_row list"
  purge_seq :: int
  file_tags :: "(int \<times> string \<times> string) list"
  collection_files :: "(int \<times> int) list"
  quotas :: "quota list"
  quota_seq :: int
  wallets :: "wallet list"
  wallet_seq :: int
  users :: "int list"
  groups :: "int list"
  group_members :: "(int \<times> int) list"
  api_tokens :: "api_token list"

definition status_text :: "upload_status \<Rightarrow> string" where
  "status_text s = (case s of Queued \<Rightarrow> ''queued'' | Processing \<Rightarrow> ''processing''
     | Completed \<Rightarrow> ''completed'' | Failed \<Rightarrow> ''failed'' | AlreadyStored \<Rightarrow> ''already_stored'')"

definition visibility_text :: "visibility \<Rightarrow> string" where
  "visibility_text v = (case v of Public \<Rightarrow> ''public'' | Private \<Rightarrow> ''private'')"

definition upload_row :: "db \<Rightarrow> int \<Rightarrow> upload option" where
  "upload_row s i = find (\<lambda>u. u_id u = i) (uploads s)"

text \<open>What the schema guarantees: ids are unique and below the AUTOINCREMENT counter, uuids are
  unique, and every transaction that names an upload names one that exists (the foreign key
  \<open>transactions.upload_id REFERENCES uploads(id)\<close>).\<close>

definition fk_uploads :: "db \<Rightarrow> bool" where
  "fk_uploads s \<longleftrightarrow> (\<forall>t \<in> set (transactions s). \<forall>i. t_upload t = Some i \<longrightarrow> i \<in> u_id ` set (uploads s))"

definition fk_wallets :: "db \<Rightarrow> bool" where
  "fk_wallets s \<longleftrightarrow> (\<forall>t \<in> set (transactions s). t_wallet t \<in> w_id ` set (wallets s))"

definition db_ok :: "db \<Rightarrow> bool" where
  "db_ok s \<longleftrightarrow>
     keyed u_id (upload_seq s) (uploads s) \<and> distinct (map u_uuid (uploads s)) \<and>
     keyed t_id (txn_seq s) (transactions s) \<and>
     keyed p_id (purge_seq s) (purge_log s) \<and>
     keyed q_id (quota_seq s) (quotas s) \<and>
     keyed w_id (wallet_seq s) (wallets s) \<and>
     fk_uploads s \<and> fk_wallets s"

definition empty_db :: db where
  "empty_db = \<lparr>uploads = [], upload_seq = 0, transactions = [], txn_seq = 0, purge_log = [], purge_seq = 0,
     file_tags = [], collection_files = [], quotas = [], quota_seq = 0, wallets = [], wallet_seq = 0, users = [], groups = [],
     group_members = [], api_tokens = []\<rparr>"

section \<open>Lemmas\<close>

lemma db_ok_empty: "db_ok empty_db"
  by (simp add: db_ok_def empty_db_def fk_uploads_def fk_wallets_def)

lemma upload_row_SomeD: "upload_row s i = Some u \<Longrightarrow> u \<in> set (uploads s) \<and> u_id u = i"
  unfolding upload_row_def by (drule find_SomeD) simp

lemma upload_row_NoneD: "upload_row s i = None \<Longrightarrow> u \<in> set (uploads s) \<Longrightarrow> u_id u \<noteq> i"
  unfolding upload_row_def by (drule find_NoneD) auto

lemma upload_row_unique:
  "db_ok s \<Longrightarrow> u \<in> set (uploads s) \<Longrightarrow> upload_row s (u_id u) = Some u"
  unfolding upload_row_def db_ok_def by (blast intro: keyed_find)

lemma upload_row_iff:
  "db_ok s \<Longrightarrow> upload_row s i = Some u \<longleftrightarrow> u \<in> set (uploads s) \<and> u_id u = i"
  using upload_row_SomeD upload_row_unique by blast

text \<open>How a row reads after an UPDATE that keeps the ids: one rule for every service operation.\<close>

lemma upload_row_update:
  assumes "\<And>u. u_id (f u) = u_id u"
  shows "upload_row (s\<lparr>uploads := update_where P f (uploads s)\<rparr>) i =
           map_option (\<lambda>u. if P u then f u else u) (upload_row s i)"
  unfolding upload_row_def update_where_def by (simp add: find_map_same assms)

lemma upload_row_other_table [simp]:
  "upload_row (s\<lparr>transactions := x\<rparr>) i = upload_row s i"
  "upload_row (s\<lparr>txn_seq := y\<rparr>) i = upload_row s i"
  "upload_row (s\<lparr>purge_log := p\<rparr>) i = upload_row s i"
  "upload_row (s\<lparr>purge_seq := y\<rparr>) i = upload_row s i"
  "upload_row (s\<lparr>file_tags := ft\<rparr>) i = upload_row s i"
  "upload_row (s\<lparr>collection_files := cf\<rparr>) i = upload_row s i"
  "upload_row (s\<lparr>quotas := q\<rparr>) i = upload_row s i"
  "upload_row (s\<lparr>quota_seq := y\<rparr>) i = upload_row s i"
  "upload_row (s\<lparr>upload_seq := y\<rparr>) i = upload_row s i"
  "upload_row (s\<lparr>wallets := ws\<rparr>) i = upload_row s i"
  "upload_row (s\<lparr>wallet_seq := y\<rparr>) i = upload_row s i"
  by (simp_all add: upload_row_def)

lemma db_ok_update_uploads:
  assumes "db_ok s" and ids: "\<And>u. u_id (f u) = u_id u" and uuids: "\<And>u. u_uuid (f u) = u_uuid u"
  shows "db_ok (s\<lparr>uploads := update_where P f (uploads s)\<rparr>)"
proof -
  let ?us = "update_where P f (uploads s)"
  have m: "map u_uuid ?us = map u_uuid (uploads s)" "map u_id ?us = map u_id (uploads s)"
    by (simp_all add: map_update_where_id ids uuids)
  have "u_id ` set ?us = u_id ` set (uploads s)"
    using m(2) by (metis set_map)
  then show ?thesis
    using assms(1) m(1) by (simp add: db_ok_def fk_uploads_def fk_wallets_def keyed_update ids)
qed

end
