(* ===== verification/Upload_Service.thy ===== *)
theory Upload_Service
  imports Schema
begin

text \<open>
  \<open>internal/services/upload.go\<close>: the upload queue. Every method of \<open>UploadService\<close> is one
  definition over the database record, with its statements, guards and error returns. A method that
  only reads returns \<open>error + 'a\<close>; a method that writes returns \<open>(error + 'a) \<times> db\<close>. The clock
  is the argument \<open>now\<close>, the fresh UUID of \<open>Create\<close> an argument too.

  \<open>dialect\<close> matters in one place: \<open>ListByUserFiltered\<close> compares \<open>created_at\<close> with a
  text in the form \<open>2006-01-02T15:04:05Z\<close>. PostgreSQL compares instants; SQLite keeps the
  column as the text \<open>2006-01-02 15:04:05\<close> and compares byte by byte, and the blank sorts
  before the \<open>T\<close>, so two instants of one day compare by that byte alone.
\<close>

section \<open>Reading\<close>

definition Upload_GetByID :: "faults \<Rightarrow> int \<Rightarrow> db \<Rightarrow> error + upload" where
  "Upload_GetByID flt i s =
     (if flt 0 then Inl DBError
      else case upload_row s i of None \<Rightarrow> Inl ErrUploadNotFound | Some u \<Rightarrow> Inr u)"

definition Upload_GetByUUID :: "faults \<Rightarrow> string \<Rightarrow> db \<Rightarrow> error + upload" where
  "Upload_GetByUUID flt uid s =
     (if flt 0 then Inl DBError
      else case find (\<lambda>u. u_uuid u = uid) (uploads s) of None \<Rightarrow> Inl ErrUploadNotFound | Some u \<Rightarrow> Inr u)"

definition clamp_limit :: "int \<Rightarrow> int" where
  "clamp_limit limit = (if limit \<le> 0 \<or> 100 < limit then 50 else limit)"

definition ListByUser :: "faults \<Rightarrow> int \<Rightarrow> int \<Rightarrow> int \<Rightarrow> db \<Rightarrow> error + (upload list \<times> int)" where
  "ListByUser flt userID limit offset s =
     (let limit = clamp_limit limit;
          rows = filter (\<lambda>u. u_user u = userID) (uploads s);
          total = int (length rows)
      in if flt 0 then Inl DBError
         else if flt 1 then Inl DBError
         else Inr (limit_offset limit offset (order_desc u_created_at rows), total))"

definition Upload_ListAll :: "faults \<Rightarrow> int \<Rightarrow> int \<Rightarrow> db \<Rightarrow> error + (upload list \<times> int)" where
  "Upload_ListAll flt limit offset s =
     (let limit = clamp_limit limit;
          total = int (length (uploads s))
      in if flt 0 then Inl DBError
         else if flt 1 then Inl DBError
         else Inr (limit_offset limit offset (order_desc u_created_at (uploads s)), total))"

datatype dialect = SQLite | Postgres

definition seconds_per_day :: int where
  "seconds_per_day = 86400"

definition created_at_ge :: "dialect \<Rightarrow> time \<Rightarrow> time \<Rightarrow> bool" where
  "created_at_ge d created arg =
     (case d of Postgres \<Rightarrow> arg \<le> created
      | SQLite \<Rightarrow> arg div seconds_per_day < created div seconds_per_day)"

definition created_at_le :: "dialect \<Rightarrow> time \<Rightarrow> time \<Rightarrow> bool" where
  "created_at_le d created arg =
     (case d of Postgres \<Rightarrow> created \<le> arg
      | SQLite \<Rightarrow> created div seconds_per_day \<le> arg div seconds_per_day)"

record upload_list_options =
  o_user :: int
  o_limit :: int
  o_offset :: int
  o_sort_by :: string
  o_sort_order :: string
  o_status :: string
  o_from :: "time option"
  o_to :: "time option"

datatype sort_column = ByCreatedAt | ByFileSize | ByOriginalFilename | ByStatus

definition valid_sorts :: "string \<Rightarrow> sort_column option" where
  "valid_sorts = [''created_at'' \<mapsto> ByCreatedAt, ''file_size'' \<mapsto> ByFileSize,
                  ''filename'' \<mapsto> ByOriginalFilename, ''status'' \<mapsto> ByStatus]"

definition order_rows :: "sort_column \<Rightarrow> bool \<Rightarrow> upload list \<Rightarrow> upload list" where
  "order_rows col asc rows =
     (case col of
        ByCreatedAt \<Rightarrow> (if asc then order_asc u_created_at rows else order_desc u_created_at rows)
      | ByFileSize \<Rightarrow> (if asc then order_asc u_size rows else order_desc u_size rows)
      | ByOriginalFilename \<Rightarrow> (if asc then order_asc u_original rows else order_desc u_original rows)
      | ByStatus \<Rightarrow> (if asc then order_asc (\<lambda>u. status_text (u_status u)) rows
                    else order_desc (\<lambda>u. status_text (u_status u)) rows))"

definition list_conditions :: "dialect \<Rightarrow> upload_list_options \<Rightarrow> upload \<Rightarrow> bool" where
  "list_conditions d opts u \<longleftrightarrow>
     u_user u = o_user opts \<and>
     (o_status opts \<noteq> [] \<longrightarrow> status_text (u_status u) = o_status opts) \<and>
     (case o_from opts of None \<Rightarrow> True | Some t \<Rightarrow> created_at_ge d (u_created_at u) t) \<and>
     (case o_to opts of None \<Rightarrow> True | Some t \<Rightarrow> created_at_le d (u_created_at u) t)"

definition ListByUserFiltered ::
  "dialect \<Rightarrow> faults \<Rightarrow> upload_list_options \<Rightarrow> db \<Rightarrow> error + (upload list \<times> int)" where
  "ListByUserFiltered d flt opts s =
     (let limit = clamp_limit (o_limit opts);
          sortCol = (case valid_sorts (o_sort_by opts) of Some col \<Rightarrow> col | None \<Rightarrow> ByCreatedAt);
          asc = (o_sort_order opts = ''asc'');
          rows = filter (list_conditions d opts) (uploads s);
          total = int (length rows)
      in if flt 0 then Inl DBError
         else if flt 1 then Inl DBError
         else Inr (limit_offset limit (o_offset opts) (order_rows sortCol asc rows), total))"

definition ListByUserCursor ::
  "faults \<Rightarrow> int \<Rightarrow> int \<Rightarrow> int \<Rightarrow> bool \<Rightarrow> db \<Rightarrow> error + upload list" where
  "ListByUserCursor flt userID limit cursorID forward s =
     (let limit = clamp_limit limit;
          page = (if forward
             then limit_offset limit 0 (order_desc u_id (filter (\<lambda>u. u_user u = userID \<and> u_id u < cursorID) (uploads s)))
             else limit_offset limit 0 (order_asc u_id (filter (\<lambda>u. u_user u = userID \<and> cursorID < u_id u) (uploads s))))
      in if flt 0 then Inl DBError
         else Inr (if \<not> forward \<and> page \<noteq> [] then rev page else page))"

definition CountByStatus :: "faults \<Rightarrow> db \<Rightarrow> error + (upload_status \<Rightarrow> int option)" where
  "CountByStatus flt s =
     (if flt 0 then Inl DBError
      else Inr (\<lambda>st. let n = rows_affected (\<lambda>u. u_status u = st) (uploads s)
                     in if n = 0 then None else Some n))"

definition StatusDetailPaidUnfinalized :: string where
  "StatusDetailPaidUnfinalized = ''paid_unfinalized''"

definition StatusDetailPaymentUnconfirmed :: string where
  "StatusDetailPaymentUnconfirmed = ''payment_unconfirmed''"

definition gas_backoff_detail :: string where
  "gas_backoff_detail = ''gas_backoff''"

definition publish_candidate :: "upload \<Rightarrow> bool" where
  "publish_candidate u \<longleftrightarrow>
     u_status u = Completed \<and> u_visibility u = Private \<and> u_address u = None \<and>
     u_datamap u \<noteq> None \<and> u_datamap u \<noteq> Some []"

definition ListPrivatePublishCandidates :: "faults \<Rightarrow> int \<Rightarrow> db \<Rightarrow> error + upload list" where
  "ListPrivatePublishCandidates flt limit s =
     (let rows = order_asc u_id (filter publish_candidate (uploads s))
      in if flt 0 then Inl DBError
         else Inr (if 0 < limit then take (nat limit) rows else rows))"

definition keeps_temp :: "upload \<Rightarrow> bool" where
  "keeps_temp u \<longleftrightarrow>
     u_temp u \<noteq> None \<and> u_temp u \<noteq> Some [] \<and>
     (u_status u \<in> {Queued, Processing} \<or>
      u_detail u \<in> {Some StatusDetailPaidUnfinalized, Some StatusDetailPaymentUnconfirmed})"

definition ListActiveTempPaths :: "faults \<Rightarrow> db \<Rightarrow> error + string list" where
  "ListActiveTempPaths flt s =
     (if flt 0 then Inl DBError
      else Inr (map (\<lambda>u. the (u_temp u)) (filter keeps_temp (uploads s))))"

section \<open>Queueing\<close>

definition new_upload ::
  "int \<Rightarrow> string \<Rightarrow> time \<Rightarrow> int \<Rightarrow> int option \<Rightarrow> string \<Rightarrow> string \<Rightarrow> int \<Rightarrow> string \<Rightarrow> visibility \<Rightarrow> string
     \<Rightarrow> string option \<Rightarrow> upload" where
  "new_upload i uid now userID tokenID filename originalFilename fileSize contentType vis tempPath estimatedCost =
     \<lparr>u_id = i, u_uuid = uid, u_user = userID, u_token = tokenID, u_filename = filename,
      u_original = originalFilename, u_size = fileSize, u_ctype = contentType, u_visibility = vis,
      u_status = Queued, u_detail = None, u_address = None, u_est_cost = estimatedCost,
      u_actual_cost = None, u_error = None, u_temp = Some tempPath, u_datamap = None,
      u_backoff_until = None, u_backoff_attempt = 0, u_last_quoted = None, u_queued_at = now,
      u_processing_at = None, u_completed_at = None, u_failed_at = None, u_created_at = now,
      u_cache_key = None, u_floor = 0\<rparr>"

definition Upload_Create ::
  "faults \<Rightarrow> time \<Rightarrow> string \<Rightarrow> int \<Rightarrow> int option \<Rightarrow> string \<Rightarrow> string \<Rightarrow> int \<Rightarrow> string \<Rightarrow> visibility \<Rightarrow> string
     \<Rightarrow> string option \<Rightarrow> db \<Rightarrow> (error + upload) \<times> db" where
  "Upload_Create flt now uid userID tokenID filename originalFilename fileSize contentType vis tempPath
      estimatedCost s =
     (if flt 0 then (Inl DBError, s)
      else if uid \<in> u_uuid ` set (uploads s) then (Inl UniqueViolation, s)
      else if userID \<notin> set (users s) \<or>
              (\<exists>k. tokenID = Some k \<and> k \<notin> k_id ` set (api_tokens s)) then (Inl FKViolation, s)
      else let i = upload_seq s + 1;
               row = new_upload i uid now userID tokenID filename originalFilename fileSize contentType
                       vis tempPath estimatedCost;
               s' = s\<lparr>uploads := uploads s @ [row], upload_seq := i\<rparr>
           in (Upload_GetByID (later 1 flt) i s', s'))"

definition dequeueable :: "time \<Rightarrow> upload \<Rightarrow> bool" where
  "dequeueable now u \<longleftrightarrow>
     u_status u = Queued \<and> (case u_backoff_until u of None \<Rightarrow> True | Some t \<Rightarrow> t \<le> now)"

definition next_queued :: "time \<Rightarrow> db \<Rightarrow> upload option" where
  "next_queued now s =
     (case order_asc u_queued_at (filter (dequeueable now) (uploads s)) of [] \<Rightarrow> None | u # _ \<Rightarrow> Some u)"

definition claim_upload :: "time \<Rightarrow> upload \<Rightarrow> upload" where
  "claim_upload now u = u\<lparr>u_status := Processing, u_processing_at := Some now\<rparr>"

text \<open>The statements are \<open>Begin\<close>, the SELECT, the UPDATE, \<open>Commit\<close> and, after the
  transaction, \<open>GetByID\<close>; an error before the commit rolls back.\<close>

definition DequeueNext :: "faults \<Rightarrow> time \<Rightarrow> db \<Rightarrow> (error + upload option) \<times> db" where
  "DequeueNext flt now s =
     (if flt 0 then (Inl DBError, s)
      else if flt 1 then (Inl DBError, s)
      else case next_queued now s of
          None \<Rightarrow> (Inr None, s)
        | Some u \<Rightarrow>
            if flt 2 then (Inl DBError, s)
            else let s' = s\<lparr>uploads := update_where (\<lambda>r. u_id r = u_id u \<and> u_status r = Queued)
                                         (claim_upload now) (uploads s)\<rparr>
                 in if flt 3 then (Inl DBError, s)
                    else (map_sum id Some (Upload_GetByID (later 4 flt) (u_id u) s'), s'))"

definition touch :: "time \<Rightarrow> upload \<Rightarrow> upload" where
  "touch now u = u\<lparr>u_processing_at := Some now\<rparr>"

definition exec_update ::
  "faults \<Rightarrow> (upload \<Rightarrow> bool) \<Rightarrow> (upload \<Rightarrow> upload) \<Rightarrow> db \<Rightarrow> (error + int) \<times> db" where
  "exec_update flt P f s =
     (if flt 0 then (Inl DBError, s)
      else (Inr (rows_affected P (uploads s)), s\<lparr>uploads := update_where P f (uploads s)\<rparr>))"

text \<open>\<open>return err\<close> of a plain UPDATE.\<close>

definition err_only :: "(error + 'a) \<times> db \<Rightarrow> (error + unit) \<times> db" where
  "err_only r = (map_sum id (\<lambda>_. ()) (fst r), snd r)"

text \<open>The guarded updates report zero affected rows as an error.\<close>

definition err_if_none :: "string \<Rightarrow> (error + int) \<times> db \<Rightarrow> (error + unit) \<times> db" where
  "err_if_none msg r =
     (case fst r of Inl e \<Rightarrow> Inl e | Inr n \<Rightarrow> if n = 0 then Inl (ErrMsg msg) else Inr (), snd r)"

definition SetGasBackoff ::
  "faults \<Rightarrow> int \<Rightarrow> time \<Rightarrow> int \<Rightarrow> string \<Rightarrow> db \<Rightarrow> (error + unit) \<times> db" where
  "SetGasBackoff flt i backoffUntil attempt quotedCost s =
     err_only (exec_update flt (\<lambda>u. u_id u = i)
       (\<lambda>u. u\<lparr>u_status := Queued, u_detail := Some gas_backoff_detail, u_backoff_until := Some backoffUntil,
              u_backoff_attempt := attempt, u_last_quoted := Some quotedCost, u_processing_at := None\<rparr>) s)"

definition ClearBackoff :: "faults \<Rightarrow> int \<Rightarrow> db \<Rightarrow> (error + unit) \<times> db" where
  "ClearBackoff flt i s =
     err_only (exec_update flt (\<lambda>u. u_id u = i) (\<lambda>u. u\<lparr>u_detail := None, u_backoff_until := None\<rparr>) s)"

definition RequeueStuckExcept ::
  "faults \<Rightarrow> time \<Rightarrow> int \<Rightarrow> int list \<Rightarrow> db \<Rightarrow> (error + int) \<times> db" where
  "RequeueStuckExcept flt now timeout exclude s =
     (let cutoff = now - timeout
      in exec_update flt
           (\<lambda>u. u_status u = Processing \<and>
                (case u_processing_at u of None \<Rightarrow> False | Some t \<Rightarrow> t < cutoff) \<and>
                u_id u \<notin> set exclude)
           (\<lambda>u. u\<lparr>u_status := Queued, u_processing_at := None\<rparr>) s)"

definition RequeueStuck :: "faults \<Rightarrow> time \<Rightarrow> int \<Rightarrow> db \<Rightarrow> (error + int) \<times> db" where
  "RequeueStuck flt now timeoutMinutes s = RequeueStuckExcept flt now (timeoutMinutes * 60) [] s"

definition TouchProcessing :: "faults \<Rightarrow> time \<Rightarrow> int \<Rightarrow> db \<Rightarrow> (error + unit) \<times> db" where
  "TouchProcessing flt now i s =
     err_only (exec_update flt (\<lambda>u. u_id u = i \<and> u_status u = Processing) (touch now) s)"

definition Upload_Cancel :: "faults \<Rightarrow> time \<Rightarrow> int \<Rightarrow> db \<Rightarrow> (error + unit) \<times> db" where
  "Upload_Cancel flt now i s =
     err_if_none ''upload cannot be cancelled in its current state''
       (exec_update flt (\<lambda>u. u_id u = i \<and> u_status u \<in> {Queued, Processing})
         (\<lambda>u. u\<lparr>u_status := Failed, u_error := Some ''Cancelled by user'', u_detail := None,
                u_backoff_until := None, u_failed_at := Some now, u_temp := None\<rparr>) s)"

text \<open>The subquery of Retry: the latest transaction of the upload, 0 when it has none.\<close>

definition latest_txn :: "db \<Rightarrow> int \<Rightarrow> int" where
  "latest_txn s i = max_id (map t_id (filter (\<lambda>t. t_upload t = Some i) (transactions s)))"

definition Upload_Retry :: "faults \<Rightarrow> time \<Rightarrow> int \<Rightarrow> db \<Rightarrow> (error + unit) \<times> db" where
  "Upload_Retry flt now i s =
     err_if_none ''only failed uploads can be retried''
       (exec_update flt (\<lambda>u. u_id u = i \<and> u_status u = Failed)
         (\<lambda>u. u\<lparr>u_status := Queued, u_detail := None, u_error := None, u_backoff_until := None,
                u_backoff_attempt := 0, u_last_quoted := None, u_failed_at := None,
                u_processing_at := None, u_queued_at := now, u_floor := latest_txn s (u_id u)\<rparr>) s)"

definition ForceRetry :: "faults \<Rightarrow> int \<Rightarrow> db \<Rightarrow> (error + unit) \<times> db" where
  "ForceRetry flt i s =
     err_if_none ''upload is not in gas backoff''
       (exec_update flt
         (\<lambda>u. u_id u = i \<and> u_status u = Queued \<and> u_detail u = Some gas_backoff_detail)
         (\<lambda>u. u\<lparr>u_status := Queued, u_detail := None, u_backoff_until := None, u_processing_at := None\<rparr>) s)"

section \<open>Terminal outcomes\<close>

definition MarkCompleted :: "faults \<Rightarrow> time \<Rightarrow> int \<Rightarrow> string \<Rightarrow> string \<Rightarrow> db \<Rightarrow> (error + unit) \<times> db" where
  "MarkCompleted flt now i dataMap actualCost s =
     err_only (exec_update flt (\<lambda>u. u_id u = i)
       (\<lambda>u. u\<lparr>u_status := Completed, u_datamap := Some dataMap, u_actual_cost := Some actualCost,
              u_cache_key := Some (KeyForIdentifier dataMap), u_completed_at := Some now, u_temp := None\<rparr>) s)"

definition MarkCompletedPublic ::
  "faults \<Rightarrow> time \<Rightarrow> int \<Rightarrow> string \<Rightarrow> string \<Rightarrow> db \<Rightarrow> (error + unit) \<times> db" where
  "MarkCompletedPublic flt now i datamapAddress actualCost s =
     err_only (exec_update flt (\<lambda>u. u_id u = i)
       (\<lambda>u. u\<lparr>u_status := Completed, u_address := Some datamapAddress, u_actual_cost := Some actualCost,
              u_cache_key := Some (KeyForIdentifier datamapAddress), u_completed_at := Some now,
              u_temp := None\<rparr>) s)"

definition MarkAlreadyStored :: "faults \<Rightarrow> time \<Rightarrow> int \<Rightarrow> string \<Rightarrow> string \<Rightarrow> db \<Rightarrow> (error + unit) \<times> db" where
  "MarkAlreadyStored flt now i dataMap actualCost s =
     err_only (exec_update flt (\<lambda>u. u_id u = i)
       (\<lambda>u. u\<lparr>u_status := AlreadyStored, u_datamap := Some dataMap, u_actual_cost := Some actualCost,
              u_cache_key := Some (KeyForIdentifier dataMap), u_completed_at := Some now, u_temp := None\<rparr>) s)"

definition MarkAlreadyStoredPublic ::
  "faults \<Rightarrow> time \<Rightarrow> int \<Rightarrow> string \<Rightarrow> string \<Rightarrow> db \<Rightarrow> (error + unit) \<times> db" where
  "MarkAlreadyStoredPublic flt now i datamapAddress actualCost s =
     err_only (exec_update flt (\<lambda>u. u_id u = i)
       (\<lambda>u. u\<lparr>u_status := AlreadyStored, u_address := Some datamapAddress, u_actual_cost := Some actualCost,
              u_cache_key := Some (KeyForIdentifier datamapAddress), u_completed_at := Some now,
              u_temp := None\<rparr>) s)"

definition MarkPublished :: "faults \<Rightarrow> int \<Rightarrow> string \<Rightarrow> db \<Rightarrow> (error + unit) \<times> db" where
  "MarkPublished flt i datamapAddress s =
     err_only (exec_update flt (\<lambda>u. u_id u = i)
       (\<lambda>u. u\<lparr>u_visibility := Public, u_address := Some datamapAddress\<rparr>) s)"

definition MarkFailed :: "faults \<Rightarrow> time \<Rightarrow> int \<Rightarrow> string \<Rightarrow> db \<Rightarrow> (error + unit) \<times> db" where
  "MarkFailed flt now i errMsg s =
     err_only (exec_update flt (\<lambda>u. u_id u = i)
       (\<lambda>u. u\<lparr>u_status := Failed, u_error := Some errMsg, u_failed_at := Some now, u_temp := None\<rparr>) s)"

definition MarkFailedPreserveTemp ::
  "faults \<Rightarrow> time \<Rightarrow> int \<Rightarrow> string \<Rightarrow> string \<Rightarrow> db \<Rightarrow> (error + unit) \<times> db" where
  "MarkFailedPreserveTemp flt now i errMsg detail s =
     err_only (exec_update flt (\<lambda>u. u_id u = i)
       (\<lambda>u. u\<lparr>u_status := Failed, u_error := Some errMsg, u_detail := Some detail,
              u_failed_at := Some now\<rparr>) s)"

section \<open>Deletion and the purge log\<close>

text \<open>The loop of \<open>CacheKeys\<close> runs over the local DataMap, then the network address; a key is
  appended unless the list already starts with it.\<close>

definition add_cache_key :: "string option \<Rightarrow> string list \<Rightarrow> string list" where
  "add_cache_key ident keys =
     (case ident of
        None \<Rightarrow> keys
      | Some i \<Rightarrow>
          if i = [] then keys
          else let k = KeyForIdentifier i
               in if keys = [] \<or> hd keys \<noteq> k then keys @ [k] else keys)"

definition CacheKeys :: "upload \<Rightarrow> string list" where
  "CacheKeys u = fold add_cache_key [u_datamap u, u_address u] []"

fun log_purges :: "time \<Rightarrow> string list \<Rightarrow> db \<Rightarrow> db" where
  "log_purges now [] s = s"
| "log_purges now (k # ks) s =
     log_purges now ks
       (s\<lparr>purge_log := purge_log s @ [\<lparr>p_id = purge_seq s + 1, p_key = k, p_deleted_at = now\<rparr>],
          purge_seq := purge_seq s + 1\<rparr>)"

definition deletable :: "int \<Rightarrow> upload \<Rightarrow> bool" where
  "deletable i u \<longleftrightarrow> u_id u = i \<and> u_status u \<in> {Failed, Completed, AlreadyStored}"

definition delete_refused :: error where
  "delete_refused = ErrMsg ''only failed, completed, or already-stored uploads can be deleted''"

text \<open>One transaction: \<open>Begin\<close> (statement 0), the SELECT (1), one INSERT per cache key, the
  deletes from \<open>file_tags\<close>, \<open>collection_files\<close> and \<open>uploads\<close>, \<open>Commit\<close>; every
  error rolls all of it back. The row delete is refused by the foreign key of \<open>transactions\<close>
  while a transaction still names the upload.\<close>

definition Upload_Delete :: "faults \<Rightarrow> time \<Rightarrow> int \<Rightarrow> db \<Rightarrow> (error + unit) \<times> db" where
  "Upload_Delete flt now i s =
     (if flt 0 then (Inl DBError, s)
      else if flt 1 then (Inl DBError, s)
      else case upload_row s i of
          None \<Rightarrow> (Inl delete_refused, s)
        | Some u \<Rightarrow>
            let keys = CacheKeys u;
                n = length keys;
                s1 = log_purges now keys s;
                s2 = s1\<lparr>file_tags := delete_where (\<lambda>(up, _, _). up = i) (file_tags s1)\<rparr>;
                s3 = s2\<lparr>collection_files := delete_where (\<lambda>(_, up). up = i) (collection_files s2)\<rparr>;
                s4 = s3\<lparr>uploads := delete_where (deletable i) (uploads s3)\<rparr>
            in if list_ex (\<lambda>k. flt (2 + k)) [0..<n] then (Inl DBError, s)
               else if flt (2 + n) then (Inl DBError, s)
               else if flt (3 + n) then (Inl DBError, s)
               else if flt (4 + n) then (Inl DBError, s)
               else if deletable i u \<and> (\<exists>t \<in> set (transactions s3). t_upload t = Some i)
                    then (Inl FKViolation, s)
               else if rows_affected (deletable i) (uploads s3) = 0 then (Inl delete_refused, s)
               else if flt (5 + n) then (Inl DBError, s)
               else (Inr (), s4))"

definition PurgeLogSince :: "faults \<Rightarrow> int \<Rightarrow> int \<Rightarrow> db \<Rightarrow> error + (int \<times> string) list" where
  "PurgeLogSince flt after limit s =
     (if flt 0 then Inl DBError
      else Inr (map (\<lambda>p. (p_id p, p_key p))
                 (limit_offset limit 0 (order_asc p_id (filter (\<lambda>p. after < p_id p) (purge_log s))))))"

definition MaxPurgeLogID :: "faults \<Rightarrow> db \<Rightarrow> error + int" where
  "MaxPurgeLogID flt s = (if flt 0 then Inl DBError else Inr (max_id (map p_id (purge_log s))))"

definition PrunePurgeLog :: "faults \<Rightarrow> time \<Rightarrow> db \<Rightarrow> (error + int) \<times> db" where
  "PrunePurgeLog flt before s =
     (if flt 0 then (Inl DBError, s)
      else (Inr (rows_affected (\<lambda>p. p_deleted_at p < before) (purge_log s)),
            s\<lparr>purge_log := delete_where (\<lambda>p. p_deleted_at p < before) (purge_log s)\<rparr>))"

definition cache_key_chunk :: nat where
  "cache_key_chunk = 500"

text \<open>One round of \<open>CacheKeyVisibility\<close>: the rows whose key is in the batch, the last one of a
  key winning.\<close>

definition visibility_batch ::
  "string list \<Rightarrow> db \<Rightarrow> (string \<rightharpoonup> visibility) \<Rightarrow> (string \<rightharpoonup> visibility)" where
  "visibility_batch batch s live =
     fold (\<lambda>u m. case u_cache_key u of None \<Rightarrow> m
                | Some k \<Rightarrow> if k \<in> set batch then m(k \<mapsto> u_visibility u) else m)
       (uploads s) live"

function CacheKeyVisibility_from ::
  "faults \<Rightarrow> string list \<Rightarrow> db \<Rightarrow> (string \<rightharpoonup> visibility) \<Rightarrow> error + (string \<rightharpoonup> visibility)" where
  "CacheKeyVisibility_from flt keys s live =
     (if keys = [] then Inr live
      else if flt 0 then Inl DBError
      else CacheKeyVisibility_from (later 1 flt) (drop cache_key_chunk keys) s
             (visibility_batch (take cache_key_chunk keys) s live))"
  by pat_completeness auto
termination
  by (relation "measure (\<lambda>(flt, keys, s, live). length keys)") (auto simp: cache_key_chunk_def)

declare CacheKeyVisibility_from.simps [simp del]

definition CacheKeyVisibility :: "faults \<Rightarrow> string list \<Rightarrow> db \<Rightarrow> error + (string \<rightharpoonup> visibility)" where
  "CacheKeyVisibility flt keys s = CacheKeyVisibility_from flt keys s Map.empty"

text \<open>\<open>BackfillCacheKeys\<close>: the identifier of a row, the SELECT's guard, and the update loop,
  which stops at the first failing UPDATE with the rows stamped so far.\<close>

definition content_id :: "upload \<Rightarrow> string" where
  "content_id u =
     (let d = (case u_datamap u of None \<Rightarrow> [] | Some x \<Rightarrow> x)
      in if d = [] then (case u_address u of None \<Rightarrow> [] | Some x \<Rightarrow> x) else d)"

definition backfill_row :: "upload \<Rightarrow> bool" where
  "backfill_row u \<longleftrightarrow>
     u_cache_key u = None \<and>
     ((u_datamap u \<noteq> None \<and> u_datamap u \<noteq> Some []) \<or> (u_address u \<noteq> None \<and> u_address u \<noteq> Some []))"

fun backfill_loop :: "faults \<Rightarrow> (int \<times> string) list \<Rightarrow> int \<Rightarrow> db \<Rightarrow> (error option \<times> int) \<times> db" where
  "backfill_loop flt [] n s = ((None, n), s)"
| "backfill_loop flt ((i, k) # todo) n s =
     (if flt 0 then ((Some DBError, n), s)
      else backfill_loop (later 1 flt) todo (n + 1)
             (s\<lparr>uploads := update_where (\<lambda>u. u_id u = i) (\<lambda>u. u\<lparr>u_cache_key := Some k\<rparr>) (uploads s)\<rparr>))"

definition BackfillCacheKeys :: "faults \<Rightarrow> db \<Rightarrow> (error option \<times> int) \<times> db" where
  "BackfillCacheKeys flt s =
     (if flt 0 then ((Some DBError, 0), s)
      else let todo = map (\<lambda>u. (u_id u, KeyForIdentifier (content_id u)))
                       (filter (\<lambda>u. content_id u \<noteq> []) (filter backfill_row (uploads s)))
           in backfill_loop (later 1 flt) todo 0 s)"

section \<open>Lemmas\<close>

declare SetGasBackoff_def [svc_defs] ClearBackoff_def [svc_defs]
  RequeueStuckExcept_def [svc_defs] RequeueStuck_def [svc_defs] TouchProcessing_def [svc_defs]
  Upload_Cancel_def [svc_defs] ForceRetry_def [svc_defs]
  MarkCompleted_def [svc_defs] MarkCompletedPublic_def [svc_defs] MarkAlreadyStored_def [svc_defs]
  MarkAlreadyStoredPublic_def [svc_defs] MarkPublished_def [svc_defs] MarkFailed_def [svc_defs]
  MarkFailedPreserveTemp_def [svc_defs]

lemma snd_err_only [simp]: "snd (err_only r) = snd r"
  by (simp add: err_only_def)

lemma snd_err_if_none [simp]: "snd (err_if_none msg r) = snd r"
  by (simp add: err_if_none_def)

lemma snd_exec_update:
  "snd (exec_update flt P f s) = (if flt 0 then s else s\<lparr>uploads := update_where P f (uploads s)\<rparr>)"
  by (simp add: exec_update_def)

lemma exec_update_row:
  assumes "\<And>u. u_id (f u) = u_id u"
  shows "upload_row (snd (exec_update flt P f s)) i =
           map_option (\<lambda>u. if \<not> flt 0 \<and> P u then f u else u) (upload_row s i)"
  using upload_row_update [OF assms] by (cases "upload_row s i") (auto simp: snd_exec_update)

lemma exec_update_frame [simp]:
  "transactions (snd (exec_update flt P f s)) = transactions s"
  "txn_seq (snd (exec_update flt P f s)) = txn_seq s"
  "purge_log (snd (exec_update flt P f s)) = purge_log s"
  "quotas (snd (exec_update flt P f s)) = quotas s"
  "wallets (snd (exec_update flt P f s)) = wallets s"
  by (simp_all add: snd_exec_update)

lemma db_ok_exec_update [inv_intros]:
  assumes "db_ok s" and "\<And>u. u_id (f u) = u_id u" and "\<And>u. u_uuid (f u) = u_uuid u"
  shows "db_ok (snd (exec_update flt P f s))"
  using assms by (simp add: snd_exec_update db_ok_update_uploads)

lemma claim_upload_id [simp]:
  "u_id (claim_upload now u) = u_id u" "u_uuid (claim_upload now u) = u_uuid u"
  "u_status (claim_upload now u) = Processing" "u_floor (claim_upload now u) = u_floor u"
  by (simp_all add: claim_upload_def)

lemma touch_id [simp]:
  "u_id (touch now u) = u_id u" "u_uuid (touch now u) = u_uuid u" "u_floor (touch now u) = u_floor u"
  by (simp_all add: touch_def)

subsection \<open>Dequeueing\<close>

lemma next_queued_SomeD:
  assumes "next_queued now s = Some u"
  shows "u \<in> set (uploads s)" and "dequeueable now u"
    and "v \<in> set (uploads s) \<Longrightarrow> dequeueable now v \<Longrightarrow> u_queued_at u \<le> u_queued_at v"
proof -
  obtain us where us: "order_asc u_queued_at (filter (dequeueable now) (uploads s)) = u # us"
    using assms by (auto simp: next_queued_def split: list.splits)
  show "u \<in> set (uploads s)" and "dequeueable now u"
    using order_asc_Cons_min(1) [OF us] by auto
  show "u_queued_at u \<le> u_queued_at v" if "v \<in> set (uploads s)" "dequeueable now v"
    using order_asc_Cons_min(2) [OF us, of v] that by auto
qed

lemma next_queued_None: "next_queued now s = None \<longleftrightarrow> (\<forall>u \<in> set (uploads s). \<not> dequeueable now u)"
proof -
  have "next_queued now s = None \<longleftrightarrow> order_asc u_queued_at (filter (dequeueable now) (uploads s)) = []"
    by (simp add: next_queued_def split: list.split)
  then show ?thesis by (simp add: order_asc_Nil filter_empty_conv)
qed

definition claimed :: "time \<Rightarrow> upload \<Rightarrow> db \<Rightarrow> db" where
  "claimed now u s =
     s\<lparr>uploads := update_where (\<lambda>r. u_id r = u_id u \<and> u_status r = Queued) (claim_upload now) (uploads s)\<rparr>"

lemma claimed_row:
  assumes "db_ok s" and "u \<in> set (uploads s)" and "u_status u = Queued"
  shows "upload_row (claimed now u s) i = (if i = u_id u then Some (claim_upload now u) else upload_row s i)"
proof -
  have "upload_row s (u_id u) = Some u"
    using assms(1,2) by (rule upload_row_unique)
  then have "?thesis" if "i = u_id u"
    using assms(3) that by (simp add: claimed_def upload_row_update)
  moreover have "?thesis" if "i \<noteq> u_id u"
    using that by (cases "upload_row s i") (auto simp: claimed_def upload_row_update dest: upload_row_SomeD)
  ultimately show ?thesis by blast
qed

text \<open>A dequeue in terms of the row it selects: the three ways it can end.\<close>

lemma DequeueNext_cases:
  assumes "db_ok s"
  shows "DequeueNext flt now s =
     (if flt 0 \<or> flt 1 then (Inl DBError, s)
      else case next_queued now s of
          None \<Rightarrow> (Inr None, s)
        | Some u \<Rightarrow> if flt 2 \<or> flt 3 then (Inl DBError, s)
                    else if flt 4 then (Inl DBError, claimed now u s)
                    else (Inr (Some (claim_upload now u)), claimed now u s))"
proof (cases "next_queued now s")
  case None
  then show ?thesis by (simp add: DequeueNext_def)
next
  case (Some u)
  have "u \<in> set (uploads s)" "u_status u = Queued"
    using next_queued_SomeD(1,2) [OF Some] by (auto simp: dequeueable_def)
  then have "upload_row (claimed now u s) (u_id u) = Some (claim_upload now u)"
    by (simp add: claimed_row assms)
  then show ?thesis
    using Some by (simp add: DequeueNext_def Upload_GetByID_def claimed_def [symmetric] Let_def)
qed

lemma db_ok_claimed [inv_intros]: "db_ok s \<Longrightarrow> db_ok (claimed now u s)"
  by (simp add: claimed_def db_ok_update_uploads)

lemma db_ok_DequeueNext [inv_intros]: "db_ok s \<Longrightarrow> db_ok (snd (DequeueNext flt now s))"
  by (auto simp: DequeueNext_cases intro: db_ok_claimed split: option.splits)

subsection \<open>Creation\<close>

lemma db_ok_append_upload:
  assumes "db_ok s" and "u_id row = upload_seq s + 1" and "u_uuid row \<notin> u_uuid ` set (uploads s)"
  shows "db_ok (s\<lparr>uploads := uploads s @ [row], upload_seq := upload_seq s + 1\<rparr>)"
proof -
  have "fk_uploads (s\<lparr>uploads := uploads s @ [row], upload_seq := upload_seq s + 1\<rparr>)"
    using assms(1) by (auto simp: db_ok_def fk_uploads_def)
  then show ?thesis
    using assms by (simp add: db_ok_def fk_wallets_def keyed_append)
qed

lemma db_ok_Create [inv_intros]:
  assumes "db_ok s"
  shows "db_ok (snd (Upload_Create flt now uid userID tokenID fn orig sz ct vis tmp est s))"
  using db_ok_append_upload [OF assms] by (simp add: Upload_Create_def Let_def new_upload_def assms)

subsection \<open>Deletion\<close>

lemma log_purges_uploads [simp]:
  "uploads (log_purges now ks s) = uploads s" "transactions (log_purges now ks s) = transactions s"
  "file_tags (log_purges now ks s) = file_tags s" "collection_files (log_purges now ks s) = collection_files s"
  "upload_seq (log_purges now ks s) = upload_seq s" "txn_seq (log_purges now ks s) = txn_seq s"
  "quotas (log_purges now ks s) = quotas s" "quota_seq (log_purges now ks s) = quota_seq s"
  "wallets (log_purges now ks s) = wallets s" "wallet_seq (log_purges now ks s) = wallet_seq s"
  by (induction ks arbitrary: s) auto

lemma log_purges_keys: "map p_key (purge_log (log_purges now ks s)) = map p_key (purge_log s) @ ks"
  by (induction ks arbitrary: s) auto

lemma log_purges_new:
  "\<exists>new. purge_log (log_purges now ks s) = purge_log s @ new \<and> (\<forall>p \<in> set new. purge_seq s < p_id p)"
proof (induction ks arbitrary: s)
  case Nil
  show ?case by simp
next
  case (Cons k ks)
  let ?p = "\<lparr>p_id = purge_seq s + 1, p_key = k, p_deleted_at = now\<rparr>"
  obtain new where "purge_log (log_purges now (k # ks) s) = (purge_log s @ [?p]) @ new"
    and "\<forall>p \<in> set new. purge_seq s + 1 < p_id p"
    using Cons.IH [of "s\<lparr>purge_log := purge_log s @ [?p], purge_seq := purge_seq s + 1\<rparr>"] by auto
  then show ?case by (intro exI [of _ "?p # new"]) auto
qed

lemma db_ok_log_purge_one:
  assumes "db_ok s"
  shows "db_ok (s\<lparr>purge_log := purge_log s @ [\<lparr>p_id = purge_seq s + 1, p_key = k, p_deleted_at = now\<rparr>],
                  purge_seq := purge_seq s + 1\<rparr>)"
  using assms by (simp add: db_ok_def fk_uploads_def fk_wallets_def keyed_append)

lemma db_ok_log_purges [inv_intros]: "db_ok s \<Longrightarrow> db_ok (log_purges now ks s)"
  by (induction ks arbitrary: s) (simp_all add: db_ok_log_purge_one)

lemma db_ok_delete_upload:
  assumes "db_ok s" and "\<forall>t \<in> set (transactions s). t_upload t \<noteq> Some i"
  shows "db_ok (s\<lparr>uploads := delete_where (deletable i) (uploads s)\<rparr>)"
proof -
  have "fk_uploads (s\<lparr>uploads := delete_where (deletable i) (uploads s)\<rparr>)"
    using assms by (fastforce simp: db_ok_def fk_uploads_def deletable_def)
  then show ?thesis
    using assms(1) by (simp add: db_ok_def fk_wallets_def keyed_delete distinct_map_delete)
qed

text \<open>The state a committed delete leaves.\<close>

definition deleted :: "time \<Rightarrow> upload \<Rightarrow> db \<Rightarrow> db" where
  "deleted now u s =
     (log_purges now (CacheKeys u) s)
       \<lparr>file_tags := delete_where (\<lambda>(up, _, _). up = u_id u) (file_tags s),
        collection_files := delete_where (\<lambda>(_, up). up = u_id u) (collection_files s),
        uploads := delete_where (deletable (u_id u)) (uploads s)\<rparr>"

lemma Upload_Delete_cases:
  assumes "db_ok s"
  obtains (unchanged) e where "Upload_Delete flt now i s = (Inl e, s)"
  | (committed) u where "Upload_Delete flt now i s = (Inr (), deleted now u s)" and "upload_row s i = Some u"
      and "deletable i u" and "\<forall>t \<in> set (transactions s). t_upload t \<noteq> Some i"
proof (cases "upload_row s i")
  case None
  then have "\<exists>e. Upload_Delete flt now i s = (Inl e, s)"
    by (simp add: Upload_Delete_def)
  then show ?thesis using unchanged by blast
next
  case (Some u)
  then have i: "u_id u = i" using upload_row_SomeD by blast
  show ?thesis
  proof (cases "fst (Upload_Delete flt now i s)")
    case (Inl e)
    then have "Upload_Delete flt now i s = (Inl e, s)"
      using Some by (auto simp: Upload_Delete_def Let_def split: if_splits)
    then show ?thesis by (rule unchanged)
  next
    case (Inr x)
    have nz: "rows_affected (deletable i) (uploads s) \<noteq> 0"
      using Inr Some by (auto simp: Upload_Delete_def Let_def split: if_splits)
    have "deletable i u"
    proof -
      obtain r where "r \<in> set (uploads s)" "deletable i r"
        using nz by (auto simp: rows_affected_zero)
      then show ?thesis
        using upload_row_unique [OF assms, of r] Some by (simp add: deletable_def)
    qed
    moreover have "\<not> (deletable i u \<and> (\<exists>t \<in> set (transactions s). t_upload t = Some i))"
      using Inr Some by (auto simp: Upload_Delete_def Let_def split: if_splits)
    moreover have "Upload_Delete flt now i s = (Inr (), deleted now u s)"
      using Inr Some i by (simp add: Upload_Delete_def Let_def deleted_def split: if_splits)
    ultimately show ?thesis
      using committed [of u] Some by blast
  qed
qed

end
