(* ===== verification/Ledger.thy ===== *)
theory Ledger
  imports Upload_Service
begin

text \<open>
  \<open>internal/services/transaction.go\<close>: the ledger of wallet spends. \<open>HasPaymentSinceQueued\<close>
  is the guard against paying twice for one upload: a payment counts when its id is above the
  upload's \<open>payment_floor_txn_id\<close>, which only an operator Retry raises. The locale
  \<open>payment_guard\<close> states what the upload worker relies on, and is interpreted here on the
  ledger's operations.
\<close>

section \<open>Operations\<close>

definition Txn_GetByID :: "faults \<Rightarrow> int \<Rightarrow> db \<Rightarrow> error + txn" where
  "Txn_GetByID flt i s =
     (if flt 0 then Inl DBError
      else case find (\<lambda>t. t_id t = i) (transactions s) of None \<Rightarrow> Inl ErrNoRows | Some t \<Rightarrow> Inr t)"

definition Txn_Record ::
  "faults \<Rightarrow> time \<Rightarrow> int \<Rightarrow> int option \<Rightarrow> string \<Rightarrow> string \<Rightarrow> string \<Rightarrow> string \<Rightarrow> db \<Rightarrow> (error + txn) \<times> db" where
  "Txn_Record flt now walletID uploadID txType amount balanceAfter txHash s =
     (let hash = (if txHash \<noteq> [] then Some txHash else None)
      in if flt 0 then (Inl DBError, s)
         else if walletID \<notin> w_id ` set (wallets s) \<or>
                 (\<exists>u. uploadID = Some u \<and> u \<notin> u_id ` set (uploads s)) then (Inl FKViolation, s)
         else let i = txn_seq s + 1;
                  row = \<lparr>t_id = i, t_wallet = walletID, t_upload = uploadID, t_type = txType,
                         t_amount = amount, t_balance = balanceAfter, t_hash = hash, t_created_at = now\<rparr>;
                  s' = s\<lparr>transactions := transactions s @ [row], txn_seq := i\<rparr>
              in (Txn_GetByID (later 1 flt) i s', s'))"

definition HasByUpload :: "faults \<Rightarrow> int \<Rightarrow> db \<Rightarrow> error + bool" where
  "HasByUpload flt uploadID s =
     (if flt 0 then Inl DBError else Inr (\<exists>t \<in> set (transactions s). t_upload t = Some uploadID))"

definition HasPaymentSinceQueued :: "faults \<Rightarrow> int \<Rightarrow> db \<Rightarrow> error + bool" where
  "HasPaymentSinceQueued flt uploadID s =
     (if flt 0 then Inl DBError
      else Inr (\<exists>t \<in> set (transactions s). \<exists>u \<in> set (uploads s).
                  t_upload t = Some (u_id u) \<and> t_upload t = Some uploadID \<and> u_floor u < t_id t))"

definition Txn_ListByWallet :: "faults \<Rightarrow> int \<Rightarrow> int \<Rightarrow> int \<Rightarrow> db \<Rightarrow> error + (txn list \<times> int)" where
  "Txn_ListByWallet flt walletID limit offset s =
     (let limit = clamp_limit limit;
          rows = filter (\<lambda>t. t_wallet t = walletID) (transactions s);
          total = (if flt 0 then 0 else int (length rows))
      in if flt 1 then Inl DBError
         else Inr (limit_offset limit offset (order_desc t_created_at rows), total))"

text \<open>The filters of \<open>List\<close> are formatted without the zone suffix; the same text comparison as in
  \<open>ListByUserFiltered\<close> decides them on SQLite.\<close>

definition Txn_List ::
  "dialect \<Rightarrow> faults \<Rightarrow> int option \<Rightarrow> string \<Rightarrow> time option \<Rightarrow> time option \<Rightarrow> int \<Rightarrow> int \<Rightarrow> db
     \<Rightarrow> error + (txn list \<times> int)" where
  "Txn_List d flt walletID txType since until limit offset s =
     (let limit = clamp_limit limit;
          rows = filter (\<lambda>t.
              (case walletID of None \<Rightarrow> True | Some w \<Rightarrow> t_wallet t = w) \<and>
              (txType \<noteq> [] \<longrightarrow> t_type t = txType) \<and>
              (case since of None \<Rightarrow> True | Some x \<Rightarrow> created_at_ge d (t_created_at t) x) \<and>
              (case until of None \<Rightarrow> True | Some x \<Rightarrow> created_at_le d (t_created_at t) x)) (transactions s);
          total = int (length rows)
      in if flt 0 then Inl DBError
         else if flt 1 then Inl DBError
         else Inr (limit_offset limit offset (order_desc t_created_at rows), total))"

text \<open>The number of payments the current authorisation of an upload has seen: the transactions
  above its floor.\<close>

definition payments_since_queued :: "db \<Rightarrow> int \<Rightarrow> nat" where
  "payments_since_queued s i =
     (case upload_row s i of None \<Rightarrow> 0
      | Some u \<Rightarrow> length (filter (\<lambda>t. t_upload t = Some i \<and> u_floor u < t_id t) (transactions s)))"

definition paid :: "db \<Rightarrow> int \<Rightarrow> bool" where
  "paid s i \<longleftrightarrow> 0 < payments_since_queued s i"

text \<open>No floor lies above the ledger: a payment recorded now is always above every floor.\<close>

definition floors_ok :: "db \<Rightarrow> bool" where
  "floors_ok s \<longleftrightarrow> (\<forall>u \<in> set (uploads s). u_floor u \<le> txn_seq s)"

section \<open>Lemmas\<close>

lemma HasPaymentSinceQueued_paid:
  assumes "db_ok s"
  shows "HasPaymentSinceQueued flt i s = (if flt 0 then Inl DBError else Inr (paid s i))"
proof -
  have "(\<exists>t \<in> set (transactions s). \<exists>u \<in> set (uploads s).
           t_upload t = Some (u_id u) \<and> t_upload t = Some i \<and> u_floor u < t_id t) \<longleftrightarrow> paid s i"
  proof (cases "upload_row s i")
    case None
    then show ?thesis
      by (auto simp: paid_def payments_since_queued_def dest: upload_row_NoneD)
  next
    case (Some v)
    have "u = v" if "u \<in> set (uploads s)" "u_id u = i" for u
      using that Some assms upload_row_unique by fastforce
    with Some show ?thesis
      by (auto simp: paid_def payments_since_queued_def filter_empty_conv dest: upload_row_SomeD)
  qed
  then show ?thesis by (simp add: HasPaymentSinceQueued_def)
qed

lemma payments_cong:
  assumes "transactions s' = transactions s"
    and "map_option u_floor (upload_row s' i) = map_option u_floor (upload_row s i)"
  shows "payments_since_queued s' i = payments_since_queued s i"
  using assms by (cases "upload_row s i"; cases "upload_row s' i") (simp_all add: payments_since_queued_def)

lemma payments_exec_update:
  assumes "\<And>u. u_id (f u) = u_id u" and "\<And>u. u_floor (f u) = u_floor u"
  shows "payments_since_queued (snd (exec_update flt P f s)) i = payments_since_queued s i"
proof (rule payments_cong)
  show "map_option u_floor (upload_row (snd (exec_update flt P f s)) i) = map_option u_floor (upload_row s i)"
    using assms by (cases "upload_row s i") (simp_all add: exec_update_row)
qed simp

lemma floors_ok_exec_update:
  assumes "floors_ok s" and "\<And>u. u_floor (f u) = u_floor u"
  shows "floors_ok (snd (exec_update flt P f s))"
  using assms by (auto simp: floors_ok_def snd_exec_update set_update_where)

text \<open>What recording a payment does to the guard.\<close>

definition recorded :: "time \<Rightarrow> int \<Rightarrow> int option \<Rightarrow> string \<Rightarrow> string \<Rightarrow> string \<Rightarrow> string \<Rightarrow> db \<Rightarrow> db" where
  "recorded now w up ty amount bal txHash s =
     s\<lparr>transactions := transactions s @
         [\<lparr>t_id = txn_seq s + 1, t_wallet = w, t_upload = up, t_type = ty, t_amount = amount,
           t_balance = bal, t_hash = (if txHash \<noteq> [] then Some txHash else None), t_created_at = now\<rparr>],
       txn_seq := txn_seq s + 1\<rparr>"

lemma Txn_Record_cases:
  "snd (Txn_Record flt now w up ty amount bal txHash s) =
     (if flt 0 \<or> w \<notin> w_id ` set (wallets s) \<or> (\<exists>u. up = Some u \<and> u \<notin> u_id ` set (uploads s)) then s
      else recorded now w up ty amount bal txHash s)"
  by (simp add: Txn_Record_def Let_def recorded_def)

lemma recorded_row [simp]: "upload_row (recorded now w up ty amount bal txHash s) i = upload_row s i"
  by (simp add: recorded_def)

lemma db_ok_recorded:
  assumes "db_ok s" and "w \<in> w_id ` set (wallets s)" and "\<And>u. up = Some u \<Longrightarrow> u \<in> u_id ` set (uploads s)"
  shows "db_ok (recorded now w up ty amount bal txHash s)"
  using assms by (auto simp: db_ok_def recorded_def fk_uploads_def fk_wallets_def keyed_append)

lemma db_ok_Txn_Record [inv_intros]:
  "db_ok s \<Longrightarrow> db_ok (snd (Txn_Record flt now w up ty amount bal txHash s))"
  unfolding Txn_Record_cases by (auto intro: db_ok_recorded)

lemma floors_ok_Txn_Record:
  "floors_ok s \<Longrightarrow> floors_ok (snd (Txn_Record flt now w up ty amount bal txHash s))"
  unfolding Txn_Record_cases by (auto simp: floors_ok_def recorded_def intro: le_less add_increasing2)

lemma payments_recorded:
  assumes "db_ok s" and "floors_ok s" and "i \<in> u_id ` set (uploads s)"
  shows "payments_since_queued (recorded now w up ty amount bal txHash s) i =
           payments_since_queued s i + (if up = Some i then 1 else 0)"
proof -
  obtain u where u: "upload_row s i = Some u" "u \<in> set (uploads s)"
    using assms(1,3) upload_row_unique by blast
  then have "u_floor u < txn_seq s + 1"
    using assms(2) by (auto simp: floors_ok_def)
  with u(1) show ?thesis
    by (simp add: payments_since_queued_def) (simp add: recorded_def)
qed

lemma payments_unrelated_txn:
  "upload_row s i = None \<Longrightarrow> payments_since_queued s i = 0"
  by (simp add: payments_since_queued_def)

text \<open>What a Retry does to it: the floor moves past every recorded payment of the upload.\<close>

lemma latest_txn_ge:
  "t \<in> set (transactions s) \<Longrightarrow> t_upload t = Some i \<Longrightarrow> t_id t \<le> latest_txn s i"
  unfolding latest_txn_def by (rule max_id_ge) auto

lemma latest_txn_le: "db_ok s \<Longrightarrow> latest_txn s i \<le> txn_seq s"
proof -
  assume "db_ok s"
  then have "keyed t_id (txn_seq s) (transactions s)" by (simp add: db_ok_def)
  then show ?thesis
    using max_id_in [of "map t_id (filter (\<lambda>t. t_upload t = Some i) (transactions s))"]
    by (auto simp: latest_txn_def keyed_def)
qed

lemma Retry_row:
  "upload_row (snd (Upload_Retry flt now i s)) j =
     map_option (\<lambda>u. if \<not> flt 0 \<and> u_id u = i \<and> u_status u = Failed
                     then u\<lparr>u_status := Queued, u_detail := None, u_error := None, u_backoff_until := None,
                            u_backoff_attempt := 0, u_last_quoted := None, u_failed_at := None,
                            u_processing_at := None, u_queued_at := now, u_floor := latest_txn s (u_id u)\<rparr>
                     else u) (upload_row s j)"
  by (simp add: Upload_Retry_def exec_update_row)

lemma Retry_frame [simp]:
  "transactions (snd (Upload_Retry flt now i s)) = transactions s"
  "txn_seq (snd (Upload_Retry flt now i s)) = txn_seq s"
  "wallets (snd (Upload_Retry flt now i s)) = wallets s"
  by (simp_all add: Upload_Retry_def)

lemma payments_Retry_other:
  "j \<noteq> i \<Longrightarrow> payments_since_queued (snd (Upload_Retry flt now i s)) j = payments_since_queued s j"
  by (rule payments_cong)
     (auto simp: Retry_row option.map_comp o_def intro!: map_option_cong dest: upload_row_SomeD)

lemma payments_Retry:
  assumes "fst (Upload_Retry flt now i s) = Inr ()" and "db_ok s"
  shows "payments_since_queued (snd (Upload_Retry flt now i s)) i = 0"
proof -
  have nf: "\<not> flt 0" and "rows_affected (\<lambda>u. u_id u = i \<and> u_status u = Failed) (uploads s) \<noteq> 0"
    using assms(1) by (auto simp: Upload_Retry_def err_if_none_def exec_update_def split: if_splits)
  then obtain u where "u \<in> set (uploads s)" "u_id u = i" "u_status u = Failed"
    by (auto simp: rows_affected_zero)
  then have "upload_row s i = Some u" "u_status u = Failed" "u_id u = i"
    using assms(2) upload_row_unique by blast+
  with nf have "map_option u_floor (upload_row (snd (Upload_Retry flt now i s)) i) = Some (latest_txn s i)"
    by (simp add: Retry_row)
  then show ?thesis
    by (auto simp: payments_since_queued_def filter_empty_conv not_less dest: latest_txn_ge)
qed

lemma payments_Retry_le:
  assumes "db_ok s"
  shows "payments_since_queued (snd (Upload_Retry flt now i s)) j \<le> payments_since_queued s j"
proof (cases "j = i \<and> fst (Upload_Retry flt now i s) = Inr ()")
  case True
  then show ?thesis using payments_Retry [OF _ assms] by simp
next
  case False
  show ?thesis
  proof (cases "j = i")
    case True
    with False have "flt 0 \<or> rows_affected (\<lambda>u. u_id u = i \<and> u_status u = Failed) (uploads s) = 0"
      by (auto simp: Upload_Retry_def err_if_none_def exec_update_def split: if_splits)
    then have "snd (Upload_Retry flt now i s) = s"
      by (auto simp: Upload_Retry_def snd_exec_update rows_affected_zero update_where_none)
    then show ?thesis by simp
  qed (simp add: payments_Retry_other)
qed

lemma floors_ok_Retry:
  assumes "db_ok s" and "floors_ok s"
  shows "floors_ok (snd (Upload_Retry flt now i s))"
  using assms latest_txn_le by (auto simp: floors_ok_def Upload_Retry_def snd_exec_update set_update_where)

end
