(* ===== verification/Queue_Machine.thy ===== *)
theory Queue_Machine
  imports Ledger
begin

text \<open>
  The upload queue and the ledger as one state machine: every method of \<open>UploadService\<close> and
  \<open>TransactionService\<close> that writes is a label, with its arguments, its clock reading and the
  fault plan of its statements; \<open>run_op\<close> is the state it leaves. Requests, worker goroutines and
  the background loops interleave at the granularity of these calls, so a reachable state is one an
  arbitrary sequence of labels leads to.

  The second part is the payment protocol the upload workers follow around it: read the guard, pay,
  write the ledger. The locale \<open>payment_guard\<close> states what a worker relies on and proves that
  every authorisation of an upload is spent at most once, however the calls interleave; it is
  interpreted on the queue and the ledger.
\<close>

section \<open>Labels\<close>

datatype queue_op =
    OpCreate faults time string int "int option" string string int string visibility string "string option"
  | OpDequeue faults time
  | OpSetGasBackoff faults int time int string
  | OpClearBackoff faults int
  | OpRequeueStuckExcept faults time int "int list"
  | OpTouch faults time int
  | OpCancel faults time int
  | OpForceRetry faults int
  | OpMarkCompleted faults time int string string
  | OpMarkCompletedPublic faults time int string string
  | OpMarkAlreadyStored faults time int string string
  | OpMarkAlreadyStoredPublic faults time int string string
  | OpMarkPublished faults int string
  | OpMarkFailed faults time int string
  | OpMarkFailedPreserveTemp faults time int string string
  | OpDelete faults time int
  | OpPrunePurgeLog faults time
  | OpBackfill faults
  | OpRecord faults time int "int option" string string string string
  | OpRetry faults time int

fun run_op :: "queue_op \<Rightarrow> db \<Rightarrow> db" where
  "run_op (OpCreate flt now uid user tok fn orig sz ct vis tmp est) s =
     snd (Upload_Create flt now uid user tok fn orig sz ct vis tmp est s)"
| "run_op (OpDequeue flt now) s = snd (DequeueNext flt now s)"
| "run_op (OpSetGasBackoff flt i until n c) s = snd (SetGasBackoff flt i until n c s)"
| "run_op (OpClearBackoff flt i) s = snd (ClearBackoff flt i s)"
| "run_op (OpRequeueStuckExcept flt now w ex) s = snd (RequeueStuckExcept flt now w ex s)"
| "run_op (OpTouch flt now i) s = snd (TouchProcessing flt now i s)"
| "run_op (OpCancel flt now i) s = snd (Upload_Cancel flt now i s)"
| "run_op (OpForceRetry flt i) s = snd (ForceRetry flt i s)"
| "run_op (OpMarkCompleted flt now i d c) s = snd (MarkCompleted flt now i d c s)"
| "run_op (OpMarkCompletedPublic flt now i d c) s = snd (MarkCompletedPublic flt now i d c s)"
| "run_op (OpMarkAlreadyStored flt now i d c) s = snd (MarkAlreadyStored flt now i d c s)"
| "run_op (OpMarkAlreadyStoredPublic flt now i d c) s = snd (MarkAlreadyStoredPublic flt now i d c s)"
| "run_op (OpMarkPublished flt i d) s = snd (MarkPublished flt i d s)"
| "run_op (OpMarkFailed flt now i m) s = snd (MarkFailed flt now i m s)"
| "run_op (OpMarkFailedPreserveTemp flt now i m d) s = snd (MarkFailedPreserveTemp flt now i m d s)"
| "run_op (OpDelete flt now i) s = snd (Upload_Delete flt now i s)"
| "run_op (OpPrunePurgeLog flt before) s = snd (PrunePurgeLog flt before s)"
| "run_op (OpBackfill flt) s = snd (BackfillCacheKeys flt s)"
| "run_op (OpRecord flt now w up ty a b h) s = snd (Txn_Record flt now w up ty a b h s)"
| "run_op (OpRetry flt now i) s = snd (Upload_Retry flt now i s)"

inductive qstep :: "db \<Rightarrow> queue_op \<Rightarrow> db \<Rightarrow> bool" where
  qstep: "run_op oper s = s' \<Longrightarrow> qstep s oper s'"

inductive queue_reach :: "db \<Rightarrow> db \<Rightarrow> bool" for s0 where
  reach_refl: "queue_reach s0 s0"
| reach_step: "queue_reach s0 s \<Longrightarrow> qstep s oper s' \<Longrightarrow> queue_reach s0 s'"

inductive_simps qstep_iff: "qstep s oper s'"

section \<open>What every operation keeps\<close>

text \<open>The lifecycle facts the worker and the sweep rely on: a processing row carries the time it was
  claimed, a stored row has no temp file any more and is keyed for the cache.\<close>

definition row_ok :: "upload \<Rightarrow> bool" where
  "row_ok u \<longleftrightarrow>
     (u_status u = Processing \<longrightarrow> u_processing_at u \<noteq> None) \<and>
     (u_status u \<in> {Completed, AlreadyStored} \<longrightarrow>
        u_temp u = None \<and> u_completed_at u \<noteq> None \<and> u_cache_key u \<noteq> None)"

definition queue_inv :: "db \<Rightarrow> bool" where
  "queue_inv s \<longleftrightarrow> db_ok s \<and> floors_ok s \<and> (\<forall>u \<in> set (uploads s). row_ok u)"

lemma row_ok_update_where:
  assumes "\<forall>u \<in> set us. row_ok u" and "\<And>u. row_ok u \<Longrightarrow> P u \<Longrightarrow> row_ok (f u)"
  shows "\<forall>u \<in> set (update_where P f us). row_ok u"
  using assms by (auto simp: set_update_where)

lemma queue_inv_exec_update:
  assumes "queue_inv s" and "\<And>u. u_id (f u) = u_id u" and "\<And>u. u_uuid (f u) = u_uuid u"
    and "\<And>u. u_floor (f u) = u_floor u" and "\<And>u. row_ok u \<Longrightarrow> P u \<Longrightarrow> row_ok (f u)"
  shows "queue_inv (snd (exec_update flt P f s))"
proof -
  have "\<forall>u \<in> set (uploads (snd (exec_update flt P f s))). row_ok u"
    using assms(1,5) row_ok_update_where [of "uploads s" P f] by (simp add: queue_inv_def snd_exec_update)
  then show ?thesis
    using assms by (simp add: queue_inv_def db_ok_exec_update floors_ok_exec_update)
qed

lemma queue_inv_Retry:
  assumes "queue_inv s"
  shows "queue_inv (snd (Upload_Retry flt now i s))"
proof -
  let ?f = "\<lambda>u. u\<lparr>u_status := Queued, u_detail := None, u_error := None, u_backoff_until := None,
                u_backoff_attempt := 0, u_last_quoted := None, u_failed_at := None,
                u_processing_at := None, u_queued_at := now, u_floor := latest_txn s (u_id u)\<rparr>"
  have e: "snd (Upload_Retry flt now i s) = snd (exec_update flt (\<lambda>u. u_id u = i \<and> u_status u = Failed) ?f s)"
    by (simp add: Upload_Retry_def)
  have "\<forall>u \<in> set (uploads (snd (Upload_Retry flt now i s))). row_ok u"
    using assms row_ok_update_where [of "uploads s" "\<lambda>u. u_id u = i \<and> u_status u = Failed" ?f]
    by (simp add: e queue_inv_def snd_exec_update row_ok_def)
  moreover have "floors_ok (snd (Upload_Retry flt now i s))"
    using assms by (simp add: queue_inv_def floors_ok_Retry)
  moreover have "db_ok (snd (Upload_Retry flt now i s))"
    using assms by (simp add: e queue_inv_def db_ok_exec_update)
  ultimately show ?thesis by (simp add: queue_inv_def)
qed

lemma queue_inv_Create:
  assumes "queue_inv s"
  shows "queue_inv (snd (Upload_Create flt now uid user tok fn orig sz ct vis tmp est s))"
proof -
  have "db_ok (snd (Upload_Create flt now uid user tok fn orig sz ct vis tmp est s))"
    using assms by (simp add: queue_inv_def db_ok_Create)
  moreover have "0 \<le> txn_seq s"
    using assms by (simp add: queue_inv_def db_ok_def keyed_def)
  ultimately show ?thesis
    using assms by (auto simp: queue_inv_def Upload_Create_def Let_def floors_ok_def new_upload_def row_ok_def)
qed

lemma queue_inv_claimed: "queue_inv s \<Longrightarrow> queue_inv (claimed now u s)"
  using queue_inv_exec_update [where s = s and f = "claim_upload now" and flt = no_faults
      and P = "\<lambda>r. u_id r = u_id u \<and> u_status r = Queued"]
  by (simp add: claimed_def snd_exec_update row_ok_def claim_upload_def)

lemma queue_inv_Dequeue:
  assumes "queue_inv s"
  shows "queue_inv (snd (DequeueNext flt now s))"
proof -
  have "db_ok s" using assms by (simp add: queue_inv_def)
  then show ?thesis
    using assms by (auto simp: DequeueNext_cases queue_inv_claimed split: option.splits)
qed

lemma queue_inv_frame:
  assumes "queue_inv s" and "db_ok s'" and "set (uploads s') \<subseteq> set (uploads s)" and "txn_seq s' = txn_seq s"
  shows "queue_inv s'"
  using assms by (auto simp: queue_inv_def floors_ok_def)

lemma deleted_frame [simp]:
  "transactions (deleted now u s) = transactions s" "txn_seq (deleted now u s) = txn_seq s"
  "set (uploads (deleted now u s)) = {r \<in> set (uploads s). \<not> deletable (u_id u) r}"
  by (simp_all add: deleted_def)

lemma db_ok_deleted:
  assumes "db_ok s" and "\<forall>t \<in> set (transactions s). t_upload t \<noteq> Some (u_id u)"
  shows "db_ok (deleted now u s)"
proof -
  have "db_ok ((log_purges now (CacheKeys u) s)\<lparr>uploads := delete_where (deletable (u_id u)) (uploads s)\<rparr>)"
    using db_ok_delete_upload [OF db_ok_log_purges [OF assms(1)], of now "CacheKeys u" "u_id u"] assms(2)
    by simp
  then show ?thesis
    by (simp add: db_ok_def deleted_def fk_uploads_def fk_wallets_def)
qed

lemma queue_inv_Delete:
  assumes "queue_inv s"
  shows "queue_inv (snd (Upload_Delete flt now i s))"
proof -
  have ok: "db_ok s" using assms by (simp add: queue_inv_def)
  then show ?thesis
  proof (cases rule: Upload_Delete_cases [of s flt now i])
    case (unchanged e)
    then show ?thesis using assms by simp
  next
    case (committed u)
    moreover have "u_id u = i" using committed(3) by (simp add: deletable_def)
    ultimately have "db_ok (deleted now u s)"
      using db_ok_deleted [OF ok] by simp
    then show ?thesis
      using queue_inv_frame [OF assms] committed(1) by auto
  qed
qed

lemma queue_inv_Prune: "queue_inv s \<Longrightarrow> queue_inv (snd (PrunePurgeLog flt before s))"
  by (rule queue_inv_frame)
     (auto simp: PrunePurgeLog_def queue_inv_def floors_ok_def db_ok_def keyed_delete fk_uploads_def fk_wallets_def)

lemma backfill_loop_inv: "queue_inv s \<Longrightarrow> queue_inv (snd (backfill_loop flt todo n s))"
proof (induction todo arbitrary: flt n s)
  case (Cons x todo)
  obtain i k where x: "x = (i, k)" by fastforce
  have "queue_inv (snd (exec_update no_faults (\<lambda>u. u_id u = i) (\<lambda>u. u\<lparr>u_cache_key := Some k\<rparr>) s))"
    using Cons.prems by (rule queue_inv_exec_update) (simp_all add: row_ok_def)
  then show ?case
    using Cons by (simp add: x snd_exec_update)
qed simp

lemma queue_inv_Backfill: "queue_inv s \<Longrightarrow> queue_inv (snd (BackfillCacheKeys flt s))"
  by (simp add: BackfillCacheKeys_def backfill_loop_inv Let_def)

lemma queue_inv_Record:
  assumes "queue_inv s"
  shows "queue_inv (snd (Txn_Record flt now w up ty a b h s))"
proof -
  have "uploads (snd (Txn_Record flt now w up ty a b h s)) = uploads s"
    by (simp add: Txn_Record_cases recorded_def)
  then show ?thesis
    using assms by (simp add: queue_inv_def db_ok_Txn_Record floors_ok_Txn_Record)
qed

lemmas queue_inv_ops =
  queue_inv_Create queue_inv_Dequeue queue_inv_Delete queue_inv_Prune queue_inv_Backfill queue_inv_Record
  queue_inv_Retry

lemma queue_inv_run_op: "queue_inv s \<Longrightarrow> queue_inv (run_op oper s)"
  by (cases oper) (auto simp: svc_defs queue_inv_ops row_ok_def touch_def intro!: queue_inv_exec_update)

lemma queue_inv_reach:
  assumes "queue_reach s0 s" and "queue_inv s0"
  shows "queue_inv s"
  using assms by (induction rule: queue_reach.induct) (auto simp: qstep_iff queue_inv_run_op)

text \<open>A database as provisioning leaves it: users, tokens, wallets, quotas, no upload yet.\<close>

definition fresh_db :: "db \<Rightarrow> bool" where
  "fresh_db s \<longleftrightarrow> db_ok s \<and> uploads s = []"

lemma queue_inv_fresh: "fresh_db s \<Longrightarrow> queue_inv s"
  by (simp add: fresh_db_def queue_inv_def floors_ok_def)

lemma reach_inv: "fresh_db s0 \<Longrightarrow> queue_reach s0 s \<Longrightarrow> queue_inv s"
  using queue_inv_fresh queue_inv_reach by blast

section \<open>The payment guard under every operation\<close>

lemma paid_row: "paid s i \<Longrightarrow> \<exists>u. upload_row s i = Some u"
  by (auto simp: paid_def payments_since_queued_def split: option.splits)

lemma paid_txn: "paid s i \<Longrightarrow> \<exists>t \<in> set (transactions s). t_upload t = Some i"
  by (auto simp: paid_def payments_since_queued_def filter_empty_conv split: option.splits)

lemma paid_keep:
  assumes "paid s i" and "transactions s' = transactions s"
    and "map_option u_floor (upload_row s' i) = map_option u_floor (upload_row s i)"
  shows "paid s' i"
  using assms(1) payments_cong [OF assms(2,3)] by (simp add: paid_def)

lemma paid_exec_update:
  assumes "paid s i" and "\<And>u. u_id (f u) = u_id u" and "\<And>u. u_floor (f u) = u_floor u"
  shows "paid (snd (exec_update flt P f s)) i"
  using assms by (simp add: paid_def payments_exec_update)

lemma paid_Create:
  assumes "paid s i"
  shows "paid (snd (Upload_Create flt now uid user tok fn orig sz ct vis tmp est s)) i"
proof -
  obtain u where "upload_row s i = Some u" using paid_row [OF assms] by blast
  then have "upload_row (snd (Upload_Create flt now uid user tok fn orig sz ct vis tmp est s)) i = Some u"
    by (simp add: Upload_Create_def Let_def upload_row_def find_append)
  then show ?thesis
    using assms \<open>upload_row s i = Some u\<close>
    by (intro paid_keep [OF assms]) (simp_all add: Upload_Create_def Let_def)
qed

lemma paid_Dequeue:
  assumes "db_ok s" and "paid s i"
  shows "paid (snd (DequeueNext flt now s)) i"
proof -
  have "paid (claimed now u s) i" for u
    using paid_exec_update [OF assms(2), where flt = no_faults and f = "claim_upload now"
        and P = "\<lambda>r. u_id r = u_id u \<and> u_status r = Queued"]
    by (simp add: claimed_def snd_exec_update)
  then show ?thesis
    using assms by (auto simp: DequeueNext_cases split: option.splits)
qed

lemma upload_row_deleted:
  "i \<noteq> u_id u \<Longrightarrow> upload_row (deleted now u s) i = upload_row s i"
  unfolding upload_row_def deleted_def delete_where_def
  by (simp, rule find_filter_other) (auto simp: deletable_def)

lemma paid_Delete:
  assumes "db_ok s" and "paid s i"
  shows "paid (snd (Upload_Delete flt now j s)) i"
  using assms(1)
proof (cases rule: Upload_Delete_cases [of s flt now j])
  case (unchanged e)
  then show ?thesis using assms by simp
next
  case (committed u)
  then have "i \<noteq> u_id u"
    using paid_txn [OF assms(2)] by (auto simp: deletable_def)
  then show ?thesis
    using paid_keep [OF assms(2)] committed(1) by (simp add: upload_row_deleted)
qed

lemma paid_backfill_loop: "paid s i \<Longrightarrow> paid (snd (backfill_loop flt todo n s)) i"
proof (induction todo arbitrary: flt n s)
  case (Cons x todo)
  obtain j k where x: "x = (j, k)" by fastforce
  have "paid (snd (exec_update no_faults (\<lambda>u. u_id u = j) (\<lambda>u. u\<lparr>u_cache_key := Some k\<rparr>) s)) i"
    using Cons.prems by (rule paid_exec_update) simp_all
  then show ?case
    using Cons by (simp add: x snd_exec_update)
qed simp

lemma paid_Prune: "paid s i \<Longrightarrow> paid (snd (PrunePurgeLog flt before s)) i"
  by (erule paid_keep) (auto simp: PrunePurgeLog_def)

lemma paid_Record:
  assumes "queue_inv s" and "paid s i"
  shows "paid (snd (Txn_Record flt now w up ty a b h s)) i"
proof -
  have "i \<in> u_id ` set (uploads s)"
    using paid_row [OF assms(2)] upload_row_SomeD by blast
  then show ?thesis
    using assms by (simp add: Txn_Record_cases paid_def payments_recorded queue_inv_def)
qed

text \<open>Only a Retry of the upload itself lowers the guard.\<close>

lemma paid_run_op:
  assumes "queue_inv s" and "paid s i" and "\<And>flt now. oper \<noteq> OpRetry flt now i"
  shows "paid (run_op oper s) i"
proof -
  have "db_ok s" using assms(1) by (simp add: queue_inv_def)
  moreover have "paid (snd (Upload_Retry flt now j s)) i" if "j \<noteq> i" for flt now j
    using assms(2) that payments_Retry_other [of i j] by (simp add: paid_def)
  ultimately show ?thesis
    using assms
    by (cases oper) (auto simp: svc_defs paid_Create paid_Dequeue paid_Delete paid_Prune paid_Record
        BackfillCacheKeys_def paid_backfill_loop Let_def touch_def intro!: paid_exec_update)
qed

section \<open>The payment protocol\<close>

text \<open>Worker goroutines around a shared state: a goroutine reads the guard of its upload and goes on
  only on a negative answer (\<open>refuseRepayment\<close>); it then pays and writes the ledger; between the
  two, other calls run. \<open>pending\<close> holds the uploads whose goroutine has passed the guard and not
  paid yet (one goroutine per upload: \<open>markActive\<close> keeps the sweep away from it);
  \<open>rounds\<close> counts the payment rounds of an upload since it was last authorised. An operator's
  Retry authorises a new round.\<close>

inductive pay_run ::
  "(faults \<Rightarrow> int \<Rightarrow> 's \<Rightarrow> error + bool) \<Rightarrow> (int \<Rightarrow> 's \<Rightarrow> 's \<Rightarrow> bool) \<Rightarrow> ('s \<Rightarrow> 's \<Rightarrow> bool) \<Rightarrow>
   (int \<Rightarrow> 's \<Rightarrow> 's \<Rightarrow> bool) \<Rightarrow> 's \<Rightarrow> 's \<Rightarrow> int set \<Rightarrow> (int \<Rightarrow> nat) \<Rightarrow> bool"
  for guard and ledger and other and authorise and s0 where
  pay_start: "pay_run guard ledger other authorise s0 s0 {} (\<lambda>_. 0)"
| pay_check: "\<lbrakk>pay_run guard ledger other authorise s0 s P n; i \<notin> P; guard flt i s = Inr False\<rbrakk>
    \<Longrightarrow> pay_run guard ledger other authorise s0 s (insert i P) n"
| pay_drop: "pay_run guard ledger other authorise s0 s P n
    \<Longrightarrow> pay_run guard ledger other authorise s0 s (P - {i}) n"
| pay_pay: "\<lbrakk>pay_run guard ledger other authorise s0 s P n; i \<in> P; ledger i s s'\<rbrakk>
    \<Longrightarrow> pay_run guard ledger other authorise s0 s' (P - {i}) (n(i := Suc (n i)))"
| pay_other: "\<lbrakk>pay_run guard ledger other authorise s0 s P n; other s s'\<rbrakk>
    \<Longrightarrow> pay_run guard ledger other authorise s0 s' P n"
| pay_authorise: "\<lbrakk>pay_run guard ledger other authorise s0 s P n; i \<notin> P; authorise i s s'\<rbrakk>
    \<Longrightarrow> pay_run guard ledger other authorise s0 s' P (n(i := 0))"

locale payment_guard =
  fixes ok :: "'s \<Rightarrow> bool"
    and is_paid :: "'s \<Rightarrow> int \<Rightarrow> bool"
    and guard :: "faults \<Rightarrow> int \<Rightarrow> 's \<Rightarrow> error + bool"
    and ledger :: "int \<Rightarrow> 's \<Rightarrow> 's \<Rightarrow> bool"
    and other :: "'s \<Rightarrow> 's \<Rightarrow> bool"
    and authorise :: "int \<Rightarrow> 's \<Rightarrow> 's \<Rightarrow> bool"
  assumes guard_sound: "ok s \<Longrightarrow> guard flt i s = Inr b \<Longrightarrow> b = is_paid s i"
    and ledger_ok: "ok s \<Longrightarrow> ledger i s s' \<Longrightarrow> ok s'"
    and ledger_paid: "ok s \<Longrightarrow> ledger i s s' \<Longrightarrow> is_paid s' i"
    and ledger_keeps: "ok s \<Longrightarrow> ledger i s s' \<Longrightarrow> is_paid s j \<Longrightarrow> is_paid s' j"
    and other_ok: "ok s \<Longrightarrow> other s s' \<Longrightarrow> ok s'"
    and other_keeps: "ok s \<Longrightarrow> other s s' \<Longrightarrow> is_paid s j \<Longrightarrow> is_paid s' j"
    and authorise_ok: "ok s \<Longrightarrow> authorise i s s' \<Longrightarrow> ok s'"
    and authorise_keeps: "ok s \<Longrightarrow> authorise i s s' \<Longrightarrow> j \<noteq> i \<Longrightarrow> is_paid s j \<Longrightarrow> is_paid s' j"
begin

lemma run_invariant:
  assumes "pay_run guard ledger other authorise s0 s P n" and "ok s0"
  shows "ok s \<and> (\<forall>i. n i \<le> 1) \<and> (\<forall>i \<in> P. n i = 0) \<and> (\<forall>i. n i = 1 \<longrightarrow> is_paid s i)"
  using assms
proof (induction rule: pay_run.induct)
  case (pay_check s P n i flt)
  then have "\<not> is_paid s i" using guard_sound by blast
  then have "n i = 0"
    using pay_check.IH pay_check.prems by (metis One_nat_def le_Suc_eq le_zero_eq)
  then show ?case using pay_check by auto
next
  case (pay_pay s P n i s')
  then show ?case
    using ledger_ok [of s i s'] ledger_paid [of s i s'] ledger_keeps [of s i s'] by auto
next
  case (pay_other s P n s')
  then show ?case using other_ok other_keeps by blast
next
  case (pay_authorise s P n i s')
  then show ?case
    using authorise_ok [of s i s'] authorise_keeps [of s i s'] by auto
qed simp_all

lemma at_most_one_round:
  assumes "pay_run guard ledger other authorise s0 s P n" and "ok s0"
  shows "n i \<le> 1 \<and> (i \<in> P \<longrightarrow> n i = 0) \<and> (n i = 1 \<longrightarrow> is_paid s i)"
  using run_invariant [OF assms] by blast

end

text \<open>The model's instances: a successful ledger write of the upload, any other operation of the
  queue that is not a Retry, a successful Retry.\<close>

definition ledger_write :: "int \<Rightarrow> db \<Rightarrow> db \<Rightarrow> bool" where
  "ledger_write i s s' \<longleftrightarrow>
     (\<exists>flt now w ty a b h t. Txn_Record flt now w (Some i) ty a b h s = (Inr t, s'))"

definition non_retry :: "db \<Rightarrow> db \<Rightarrow> bool" where
  "non_retry s s' \<longleftrightarrow> (\<exists>oper. qstep s oper s' \<and> (\<forall>flt now i. oper \<noteq> OpRetry flt now i))"

definition operator_retry :: "int \<Rightarrow> db \<Rightarrow> db \<Rightarrow> bool" where
  "operator_retry i s s' \<longleftrightarrow> (\<exists>flt now. Upload_Retry flt now i s = (Inr (), s'))"

lemma ledger_write_paid:
  assumes "queue_inv s" and "ledger_write i s s'"
  shows "paid s' i"
proof -
  obtain flt now w ty a b h t where r: "Txn_Record flt now w (Some i) ty a b h s = (Inr t, s')"
    using assms(2) by (auto simp: ledger_write_def)
  then have "i \<in> u_id ` set (uploads s)" "s' = recorded now w (Some i) ty a b h s"
    by (auto simp: Txn_Record_def Let_def recorded_def split: if_splits)
  then show ?thesis
    using assms(1) by (simp add: paid_def payments_recorded queue_inv_def)
qed

interpretation pg: payment_guard queue_inv paid HasPaymentSinceQueued ledger_write non_retry operator_retry
proof unfold_locales
  show "b = paid s i" if "queue_inv s" "HasPaymentSinceQueued flt i s = Inr b" for s flt i b
    using that by (auto simp: queue_inv_def HasPaymentSinceQueued_paid split: if_splits)
  show "queue_inv s'" if "queue_inv s" "ledger_write i s s'" for s i s'
    using that queue_inv_Record by (metis ledger_write_def snd_conv)
  show "paid s' i" if "queue_inv s" "ledger_write i s s'" for s i s'
    using that by (rule ledger_write_paid)
  show "paid s' j" if "queue_inv s" "ledger_write i s s'" "paid s j" for s i s' j
    using that paid_Record by (metis ledger_write_def snd_conv)
  show "queue_inv s'" if "queue_inv s" "non_retry s s'" for s s'
    using that by (auto simp: non_retry_def qstep_iff queue_inv_run_op)
  show "paid s' j" if "queue_inv s" "non_retry s s'" "paid s j" for s s' j
    using that paid_run_op by (auto simp: non_retry_def qstep_iff)
  show "queue_inv s'" if "queue_inv s" "operator_retry i s s'" for s i s'
    using that queue_inv_Retry by (metis operator_retry_def snd_conv)
  show "paid s' j" if "queue_inv s" "operator_retry i s s'" "j \<noteq> i" "paid s j" for s i s' j
    using that payments_Retry_other by (metis operator_retry_def paid_def snd_conv)
qed

end
