(* ===== verification/Upload_Properties.thy ===== *)
theory Upload_Properties
  imports Queue_Machine
begin

text \<open>
  What the upload queue promises to its callers, on top of \<open>Upload_Service\<close>: the order and the
  exclusiveness of dequeueing, the exactness of the stuck-upload sweep, cursor pagination without
  gaps or repeats, atomic deletion with its purge-log trail, the chunked visibility lookup against
  its one-pass reference, and the cache-key backfill. The sample database \<open>sample_db\<close> is the
  input of the witnesses.
\<close>

section \<open>A sample database\<close>

definition sample_upload :: "int \<Rightarrow> upload_status \<Rightarrow> time \<Rightarrow> upload" where
  "sample_upload i st q =
     (new_upload i (replicate (nat i) CHR ''u'') q 1 None ''f'' ''f'' 10 ''t'' Private ''/tmp/f'' None)
       \<lparr>u_status := st, u_processing_at := (if st = Processing then Some q else None)\<rparr>"

definition sample_db :: db where
  "sample_db = empty_db
     \<lparr>uploads := [sample_upload 1 Queued 30, sample_upload 2 Processing 10, sample_upload 3 Queued 20,
                  sample_upload 4 Failed 5],
      upload_seq := 4, users := [1],
      wallets := [\<lparr>w_id = 1, w_name = ''w'', w_address = ''0xa'', w_encrypted_key = ''k'', w_default = True,
                   w_payment_balance = ''0'', w_gas_balance = ''0'', w_created_at = 0, w_updated_at = 0\<rparr>],
      wallet_seq := 1\<rparr>"

lemmas sample_defs = sample_db_def sample_upload_def new_upload_def empty_db_def

lemma sample_db_ok: "db_ok sample_db"
  by (simp add: db_ok_def sample_defs keyed_def fk_uploads_def fk_wallets_def numeral_eq_Suc)

lemma sample_queue_inv: "queue_inv sample_db"
  using sample_db_ok by (simp add: queue_inv_def floors_ok_def row_ok_def) (simp add: sample_defs)

section \<open>Dequeueing\<close>

text \<open>A dequeue that returns an upload returns the one queued longest among those eligible (queued and
  past their backoff), claimed now; its row is the only one changed.\<close>

theorem dequeue_claims_oldest:
  assumes "db_ok s" and "DequeueNext flt now s = (Inr (Some v), s')"
  shows "\<exists>u \<in> set (uploads s). dequeueable now u \<and>
           (\<forall>r \<in> set (uploads s). dequeueable now r \<longrightarrow> u_queued_at u \<le> u_queued_at r) \<and>
           v = claim_upload now u \<and>
           (\<forall>i. upload_row s' i = (if i = u_id u then Some v else upload_row s i))"
proof -
  obtain u where u: "next_queued now s = Some u" "v = claim_upload now u" "s' = claimed now u s"
    using assms by (auto simp: DequeueNext_cases split: if_splits option.splits)
  note d = next_queued_SomeD [OF u(1)]
  then have "upload_row s' i = (if i = u_id u then Some v else upload_row s i)" for i
    using u claimed_row [OF assms(1) d(1)] by (simp add: dequeueable_def)
  then show ?thesis using d u(2) by blast
qed

theorem dequeue_claims_oldest_witness:
  "DequeueNext no_faults 100 sample_db =
     (Inr (Some (claim_upload 100 (sample_upload 3 Queued 20))), claimed 100 (sample_upload 3 Queued 20) sample_db) \<and>
   (\<exists>u \<in> set (uploads sample_db). dequeueable 100 u \<and>
      (\<forall>r \<in> set (uploads sample_db). dequeueable 100 r \<longrightarrow> u_queued_at u \<le> u_queued_at r) \<and>
      claim_upload 100 (sample_upload 3 Queued 20) = claim_upload 100 u \<and>
      (\<forall>i. upload_row (claimed 100 (sample_upload 3 Queued 20) sample_db) i =
             (if i = u_id u then Some (claim_upload 100 (sample_upload 3 Queued 20)) else upload_row sample_db i)))"
proof -
  have "next_queued 100 sample_db = Some (sample_upload 3 Queued 20)"
    by (simp add: next_queued_def sample_defs dequeueable_def order_asc_def)
  then have r: "DequeueNext no_faults 100 sample_db =
     (Inr (Some (claim_upload 100 (sample_upload 3 Queued 20))), claimed 100 (sample_upload 3 Queued 20) sample_db)"
    by (simp add: DequeueNext_cases sample_db_ok)
  show ?thesis using r dequeue_claims_oldest [OF sample_db_ok r] by blast
qed

lemma filter_dequeueable_claimed:
  assumes "db_ok s" and "u \<in> set (uploads s)" and "u_status u = Queued"
  shows "filter (dequeueable now) (uploads (claimed now u s)) =
           filter (\<lambda>r. u_id r \<noteq> u_id u) (filter (dequeueable now) (uploads s))"
proof -
  have eq: "u_status r = Queued" if "r \<in> set (uploads s)" "u_id r = u_id u" for r
    using upload_row_unique [OF assms(1) that(1)] upload_row_unique [OF assms(1,2)] that(2) assms(3)
    by (metis option.inject)
  have "filter (dequeueable now) (update_where (\<lambda>r. u_id r = u_id u \<and> u_status r = Queued) (claim_upload now) rs) =
          filter (\<lambda>r. u_id r \<noteq> u_id u) (filter (dequeueable now) rs)" if "set rs \<subseteq> set (uploads s)" for rs
    using that eq by (induction rs) (auto simp: table_simps dequeueable_def claim_upload_def)
  then show ?thesis by (simp add: claimed_def)
qed

lemma order_asc_filter: "order_asc k (filter P rs) = filter P (order_asc k rs)"
  by (simp add: order_asc_def filter_sort)

lemma order_asc_distinct: "distinct (map k rs) \<Longrightarrow> distinct (map k (order_asc f rs))"
  by (simp add: order_asc_def distinct_map)

text \<open>The abstract queue behind the table: the eligible uploads, longest waiting first.\<close>

definition queue_view :: "time \<Rightarrow> db \<Rightarrow> int list" where
  "queue_view now s = map u_id (order_asc u_queued_at (filter (dequeueable now) (uploads s)))"

lemma dequeue_view:
  assumes "db_ok s"
  shows "queue_view now s = [] \<Longrightarrow> DequeueNext no_faults now s = (Inr None, s)"
    and "queue_view now s = i # q \<Longrightarrow>
         \<exists>u s'. DequeueNext no_faults now s = (Inr (Some u), s') \<and> u_id u = i \<and> u_status u = Processing \<and>
           queue_view now s' = q \<and> db_ok s'"
proof -
  let ?q = "\<lambda>s. order_asc u_queued_at (filter (dequeueable now) (uploads s))"
  show "DequeueNext no_faults now s = (Inr None, s)" if "queue_view now s = []"
    using that assms by (simp add: queue_view_def DequeueNext_cases next_queued_def)
  show "\<exists>u s'. DequeueNext no_faults now s = (Inr (Some u), s') \<and> u_id u = i \<and> u_status u = Processing \<and>
      queue_view now s' = q \<and> db_ok s'" if v: "queue_view now s = i # q"
  proof -
    obtain u us where us: "?q s = u # us" "u_id u = i" "map u_id us = q" using v by (auto simp: queue_view_def)
    then have n: "next_queued now s = Some u" by (simp add: next_queued_def)
    have u: "u \<in> set (uploads s)" "u_status u = Queued"
      using next_queued_SomeD(1,2) [OF n] by (auto simp: dequeueable_def)
    have "distinct (map u_id (u # us))"
      using assms unfolding us(1) [symmetric]
      by (intro order_asc_distinct) (simp add: db_ok_def keyed_def distinct_map_filter)
    then have "filter (\<lambda>r. u_id r \<noteq> u_id u) us = us" by (intro filter_True) (auto simp: image_iff)
    then have "?q (claimed now u s) = us"
      unfolding filter_dequeueable_claimed [OF assms u] order_asc_filter [of _ "\<lambda>r. u_id r \<noteq> u_id u"] us(1) by simp
    then show ?thesis
      using n us db_ok_claimed [OF assms] assms by (simp add: DequeueNext_cases queue_view_def claim_upload_def)
  qed
qed

lemma insort_key_snoc: "f a \<le> f x \<Longrightarrow> insort_key f a (ys @ [x]) = insort_key f a ys @ [x]"
  by (induction ys) auto

lemma order_asc_snoc: "\<forall>r \<in> set rs. k r \<le> k x \<Longrightarrow> order_asc k (rs @ [x]) = order_asc k rs @ [x]"
  unfolding order_asc_def by (induction rs) (simp_all add: insort_key_snoc)



text \<open>A worker that keeps dequeueing at one instant gets the eligible uploads in queueing order.\<close>

fun drain :: "nat \<Rightarrow> time \<Rightarrow> db \<Rightarrow> upload list \<times> db" where
  "drain 0 now s = ([], s)"
| "drain (Suc n) now s =
     (case DequeueNext no_faults now s of
        (Inr (Some u), s') \<Rightarrow> (let (us, s'') = drain n now s' in (u # us, s''))
      | (_, s') \<Rightarrow> ([], s'))"

lemma drain_in_queue_order: "db_ok s \<Longrightarrow> map u_id (fst (drain n now s)) = take n (queue_view now s)"
proof (induction n arbitrary: s)
  case (Suc n)
  show ?case
  proof (cases "queue_view now s")
    case Nil
    then show ?thesis using dequeue_view(1) [OF Suc.prems] by simp
  next
    case (Cons i q)
    then obtain u s' where "DequeueNext no_faults now s = (Inr (Some u), s')" "u_id u = i" "queue_view now s' = q" "db_ok s'"
      using dequeue_view(2) [OF Suc.prems] by blast
    then show ?thesis using Cons Suc.IH [of s'] by (simp split: prod.split) (metis fst_conv)
  qed
qed simp

section \<open>The stuck-upload sweep\<close>

definition stuck_upload :: "time \<Rightarrow> int list \<Rightarrow> upload \<Rightarrow> bool" where
  "stuck_upload cutoff exclude u \<longleftrightarrow>
     u_status u = Processing \<and> (\<exists>t. u_processing_at u = Some t \<and> t < cutoff) \<and> u_id u \<notin> set exclude"

lemma RequeueStuckExcept_stuck:
  "RequeueStuckExcept flt now timeout exclude s =
     exec_update flt (stuck_upload (now - timeout) exclude) (\<lambda>u. u\<lparr>u_status := Queued, u_processing_at := None\<rparr>) s"
proof -
  have "(\<lambda>u. u_status u = Processing \<and>
                (case u_processing_at u of None \<Rightarrow> False | Some t \<Rightarrow> t < now - timeout) \<and>
                u_id u \<notin> set exclude) = stuck_upload (now - timeout) exclude"
    by (rule ext) (simp add: stuck_upload_def split: option.splits)
  then show ?thesis by (simp add: RequeueStuckExcept_def Let_def)
qed

text \<open>In a reachable state the sweep requeues exactly the processing rows without progress since the
  cutoff that this process is not working on: those become dequeueable or keep their backoff, every
  other row is as before, and the count returned is the number of rows moved. An upload in flight in
  this process is never handed to a second goroutine by it.\<close>

theorem sweep_exact:
  assumes "fresh_db s0" and "queue_reach s0 s"
    and "RequeueStuckExcept flt now timeout exclude s = (Inr n, s')"
  shows "n = int (card {i. \<exists>u. upload_row s i = Some u \<and> stuck_upload (now - timeout) exclude u}) \<and>
         (\<forall>i u. upload_row s i = Some u \<longrightarrow>
            (if stuck_upload (now - timeout) exclude u
             then \<exists>u'. upload_row s' i = Some u' \<and> u_status u' = Queued \<and> u_processing_at u' = None \<and>
                       u_temp u' = u_temp u \<and> u_floor u' = u_floor u
             else upload_row s' i = Some u)) \<and>
         (\<forall>i \<in> set exclude. upload_row s' i = upload_row s i) \<and>
         (\<forall>i u. upload_row s i = Some u \<and> u_status u = Processing \<and> i \<notin> set exclude \<and>
            upload_row s' i = Some u \<longrightarrow> (\<exists>t. u_processing_at u = Some t \<and> now - timeout \<le> t))"
proof -
  let ?P = "stuck_upload (now - timeout) exclude"
  have inv: "queue_inv s" using assms(1,2) by (rule reach_inv)
  then have ok: "db_ok s" by (simp add: queue_inv_def)
  have n: "n = rows_affected ?P (uploads s)" and nf: "\<not> flt 0"
    and s': "s' = snd (exec_update flt ?P (\<lambda>u. u\<lparr>u_status := Queued, u_processing_at := None\<rparr>) s)"
    using assms(3) by (auto simp: RequeueStuckExcept_stuck exec_update_def split: if_splits)
  have row: "upload_row s' i = map_option (\<lambda>u. if ?P u then u\<lparr>u_status := Queued, u_processing_at := None\<rparr> else u)
               (upload_row s i)" for i
    using nf by (simp add: s' exec_update_row)
  have "{i. \<exists>u. upload_row s i = Some u \<and> ?P u} = u_id ` set (filter ?P (uploads s))"
    using upload_row_iff [OF ok] by auto
  moreover have "card (u_id ` set (filter ?P (uploads s))) = length (filter ?P (uploads s))"
    using ok distinct_card [of "map u_id (filter ?P (uploads s))"]
    by (simp add: db_ok_def keyed_def distinct_map_filter)
  ultimately have c: "n = int (card {i. \<exists>u. upload_row s i = Some u \<and> ?P u})"
    by (simp add: n rows_affected_def)
  have ex: "\<forall>i \<in> set exclude. upload_row s' i = upload_row s i"
    unfolding row by (auto simp: stuck_upload_def dest: upload_row_SomeD intro!: option.map_ident_strong)
  have fresh: "\<exists>t. u_processing_at u = Some t \<and> now - timeout \<le> t"
    if "upload_row s i = Some u" "u_status u = Processing" "i \<notin> set exclude" "upload_row s' i = Some u" for i u
  proof -
    have "\<not> ?P u"
    proof
      assume "?P u"
      then have "u_status (the (upload_row s' i)) = Queued" using that(1) by (simp add: row)
      then show False using that(2,4) by simp
    qed
    moreover have "row_ok u" "u_id u = i"
      using inv that(1) upload_row_SomeD by (auto simp: queue_inv_def)
    ultimately show ?thesis using that by (auto simp: stuck_upload_def row_ok_def not_less)
  qed
  have changed: "\<forall>i u. upload_row s i = Some u \<longrightarrow>
            (if ?P u
             then \<exists>u'. upload_row s' i = Some u' \<and> u_status u' = Queued \<and> u_processing_at u' = None \<and>
                       u_temp u' = u_temp u \<and> u_floor u' = u_floor u
             else upload_row s' i = Some u)"
    by (simp add: row)
  have "\<forall>i u. upload_row s i = Some u \<and> u_status u = Processing \<and> i \<notin> set exclude \<and>
            upload_row s' i = Some u \<longrightarrow> (\<exists>t. u_processing_at u = Some t \<and> now - timeout \<le> t)"
    using fresh by blast
  with c changed ex show ?thesis by (intro conjI)
qed

definition sample_fresh :: db where
  "sample_fresh = sample_db\<lparr>uploads := [], upload_seq := 0\<rparr>"

definition sample_created :: db where
  "sample_created = run_op (OpCreate no_faults 5 ''u'' 1 None ''f'' ''f'' 10 ''t'' Private ''/tmp/f'' None) sample_fresh"

definition sample_busy :: db where
  "sample_busy = run_op (OpDequeue no_faults 7) sample_created"

lemma sample_fresh_ok: "fresh_db sample_fresh"
  using sample_db_ok by (simp add: fresh_db_def sample_fresh_def db_ok_def fk_uploads_def fk_wallets_def)
    (simp add: sample_defs)

lemma sample_busy_reach: "queue_reach sample_fresh sample_busy"
  unfolding sample_busy_def sample_created_def by (meson queue_reach.intros qstep.intros)

lemma sample_created_val:
  "sample_created = sample_fresh\<lparr>uploads := [new_upload 1 ''u'' 5 1 None ''f'' ''f'' 10 ''t'' Private ''/tmp/f'' None],
     upload_seq := 1\<rparr>"
  by (simp add: sample_created_def sample_fresh_def sample_defs Upload_Create_def Let_def)

lemma sample_busy_val:
  "sample_busy = sample_fresh\<lparr>uploads :=
       [claim_upload 7 (new_upload 1 ''u'' 5 1 None ''f'' ''f'' 10 ''t'' Private ''/tmp/f'' None)], upload_seq := 1\<rparr>"
  by (simp add: sample_busy_def sample_created_val DequeueNext_def next_queued_def dequeueable_def order_asc_def
      new_upload_def update_where_def Let_def)

theorem sweep_exact_witness:
  "\<exists>s'. RequeueStuckExcept no_faults 10000 60 [] sample_busy = (Inr 1, s') \<and>
        (\<exists>u'. upload_row s' 1 = Some u' \<and> u_status u' = Queued)"
proof -
  let ?u = "claim_upload 7 (new_upload 1 ''u'' 5 1 None ''f'' ''f'' 10 ''t'' Private ''/tmp/f'' None)"
  have r: "upload_row sample_busy 1 = Some ?u" "stuck_upload (10000 - 60) [] ?u"
    by (simp_all add: sample_busy_val upload_row_def stuck_upload_def claim_upload_def new_upload_def)
  obtain s' where s': "RequeueStuckExcept no_faults 10000 60 [] sample_busy = (Inr 1, s')"
    using r(2) by (simp add: RequeueStuckExcept_stuck exec_update_def rows_affected_def sample_busy_val)
  show ?thesis
    using sweep_exact [OF sample_fresh_ok sample_busy_reach s'] s' r by fastforce
qed

section \<open>Cursor pagination\<close>

text \<open>The rows of a user below a cursor, newest first: what forward paging has still to show.\<close>

definition below_cursor :: "int \<Rightarrow> int \<Rightarrow> db \<Rightarrow> upload list" where
  "below_cursor userID c s = order_desc u_id (filter (\<lambda>u. u_user u = userID \<and> u_id u < c) (uploads s))"

lemma filter_prefix_sorted:
  fixes k :: "'a \<Rightarrow> int"
  assumes "sorted_wrt (\<lambda>a b. k b < k a) (xs @ y # ys)"
  shows "filter (\<lambda>r. k r < k y) (xs @ y # ys) = ys"
proof -
  have "filter (\<lambda>r. k r < k y) xs = []" and "filter (\<lambda>r. k r < k y) ys = ys"
    using assms by (auto simp: sorted_wrt_append filter_empty_conv intro!: filter_True)
  then show ?thesis by simp
qed

lemma sorted_wrt_below:
  assumes "db_ok s"
  shows "sorted_wrt (\<lambda>a b. u_id b < u_id a) (below_cursor userID c s)"
proof -
  let ?xs = "filter (\<lambda>u. u_user u = userID \<and> u_id u < c) (uploads s)"
  have "distinct (map u_id (sort_key u_id ?xs))"
    using assms by (simp add: distinct_map db_ok_def keyed_def inj_on_def)
  then have "sorted_wrt (\<lambda>a b. u_id a < u_id b) (sort_key u_id ?xs)"
    using sorted_sort_key [of u_id ?xs] strict_sorted_iff [of "map u_id (sort_key u_id ?xs)"]
    by (simp add: sorted_wrt_map)
  then show ?thesis
    by (simp add: below_cursor_def order_desc_def sorted_wrt_rev)
qed

text \<open>Paging forward shows every upload of the user below the cursor exactly once, newest first: a
  page is a prefix of what remains, and the rows after its last one are precisely what the next
  cursor selects; an empty page means nothing remains.\<close>

theorem cursor_pages_partition:
  assumes "db_ok s" and "ListByUserCursor flt userID limit c True s = Inr page"
  shows "(page = [] \<longrightarrow> below_cursor userID c s = []) \<and>
         (page \<noteq> [] \<longrightarrow> below_cursor userID c s = page @ below_cursor userID (u_id (last page)) s) \<and>
         int (length page) \<le> 100"
proof -
  let ?all = "below_cursor userID c s" and ?n = "nat (clamp_limit limit)"
  have page: "page = take ?n ?all" and n: "0 < ?n" "?n \<le> 100"
    using assms(2) by (auto simp: ListByUserCursor_def below_cursor_def limit_offset_def Let_def clamp_limit_def
        split: if_splits)
  have "?all = page @ below_cursor userID (u_id (last page)) s" if ne: "page \<noteq> []"
  proof -
    obtain xs y where xy: "page = xs @ [y]" using ne rev_exhaust by blast
    define ys where "ys = drop ?n ?all"
    have all: "?all = xs @ y # ys"
      using append_take_drop_id [of ?n ?all] unfolding page [symmetric] xy ys_def by simp
    have "u_id y < c"
    proof -
      have "y \<in> set ?all" by (simp add: all)
      then show ?thesis by (simp add: below_cursor_def)
    qed
    then have "below_cursor userID (u_id y) s = filter (\<lambda>r. u_id r < u_id y) ?all"
      by (simp add: below_cursor_def order_desc_def filter_sort rev_filter [symmetric])
        (rule arg_cong [of _ _ "sort_key u_id"], rule filter_cong, auto)
    also have "\<dots> = ys"
      using sorted_wrt_below [OF assms(1), of userID c] unfolding all by (rule filter_prefix_sorted)
    finally show ?thesis using all xy by simp
  qed
  then show ?thesis using page n by auto
qed

theorem cursor_pages_partition_witness:
  "\<exists>page. ListByUserCursor no_faults 1 2 100 True sample_db = Inr page \<and> map u_id page = [4, 3] \<and>
      below_cursor 1 100 sample_db = page @ below_cursor 1 3 sample_db"
proof -
  obtain page where p: "ListByUserCursor no_faults 1 2 100 True sample_db = Inr page" "map u_id page = [4, 3]"
    by (simp add: ListByUserCursor_def sample_defs limit_offset_def order_desc_def clamp_limit_def)
  then have "page \<noteq> []" "u_id (last page) = 3" by (auto simp: map_eq_Cons_conv)
  then show ?thesis
    using cursor_pages_partition [OF sample_db_ok p(1)] p by auto
qed

section \<open>Deletion\<close>

text \<open>A delete either fails and leaves the database as it was, or it removes exactly the upload (which
  was in a terminal status) together with its tags and collection links, and appends its cache keys
  to the purge log under ids above every earlier one.\<close>

theorem delete_all_or_nothing:
  assumes "db_ok s" and "Upload_Delete flt now i s = (r, s')"
  shows "case r of
           Inl e \<Rightarrow> s' = s
         | Inr _ \<Rightarrow>
             \<exists>u. upload_row s i = Some u \<and> u_status u \<in> {Failed, Completed, AlreadyStored} \<and>
                 upload_row s' i = None \<and> (\<forall>j. j \<noteq> i \<longrightarrow> upload_row s' j = upload_row s j) \<and>
                 (\<forall>t. t \<in> set (file_tags s') \<longleftrightarrow> t \<in> set (file_tags s) \<and> fst t \<noteq> i) \<and>
                 (\<forall>c. c \<in> set (collection_files s') \<longleftrightarrow> c \<in> set (collection_files s) \<and> snd c \<noteq> i) \<and>
                 (\<exists>new. purge_log s' = purge_log s @ new \<and> map p_key new = CacheKeys u \<and>
                        (\<forall>p \<in> set new. purge_seq s < p_id p))"
  using assms(1)
proof (cases rule: Upload_Delete_cases [of s flt now i])
  case (unchanged e)
  then show ?thesis using assms by auto
next
  case (committed u)
  have i: "u_id u = i" and st: "u_status u \<in> {Failed, Completed, AlreadyStored}"
    using committed(3) by (auto simp: deletable_def)
  have gone: "upload_row s' i = None"
  proof -
    have "r \<notin> set (uploads s')" if "u_id r = i" for r
      using committed that assms i upload_row_unique [OF assms(1), of r] by (auto simp: deletable_def)
    then show ?thesis by (metis not_None_eq upload_row_SomeD)
  qed
  have "map p_key (purge_log s') = map p_key (purge_log s) @ CacheKeys u"
    using committed(1) assms(2) by (simp add: deleted_def log_purges_keys)
  moreover obtain new where new: "purge_log s' = purge_log s @ new" "\<forall>p \<in> set new. purge_seq s < p_id p"
    using committed(1) assms(2) log_purges_new [of now "CacheKeys u" s] by (auto simp: deleted_def)
  ultimately have "\<exists>new. purge_log s' = purge_log s @ new \<and> map p_key new = CacheKeys u \<and>
                        (\<forall>p \<in> set new. purge_seq s < p_id p)"
    by (intro exI [of _ new]) simp
  moreover have "\<forall>j. j \<noteq> i \<longrightarrow> upload_row s' j = upload_row s j"
    using committed(1) assms(2) i by (auto simp: upload_row_deleted)
  ultimately show ?thesis
    using committed(1,2) assms(2) i st gone by (auto simp: deleted_def)
qed

lemma sample_row4: "upload_row sample_db 4 = Some (sample_upload 4 Failed 5)"
  by (simp add: upload_row_def sample_defs)

theorem delete_all_or_nothing_witness:
  "\<exists>s'. Upload_Delete no_faults 50 4 sample_db = (Inr (), s') \<and> upload_row s' 4 = None \<and>
        (\<forall>j. j \<noteq> 4 \<longrightarrow> upload_row s' j = upload_row sample_db j)"
proof -
  have "fst (Upload_Delete no_faults 50 4 sample_db) = Inr ()"
    unfolding Upload_Delete_def sample_row4
    by (simp add: sample_defs deletable_def rows_affected_def CacheKeys_def add_cache_key_def list_ex_iff)
  then obtain s' where "Upload_Delete no_faults 50 4 sample_db = (Inr (), s')"
    by (metis prod.collapse)
  then show ?thesis using delete_all_or_nothing [OF sample_db_ok] by fastforce
qed

text \<open>An upload with a recorded payment can never be deleted: the foreign key of the ledger refuses the
  row delete, whatever the status, and the whole transaction rolls back.\<close>

theorem delete_of_paid_upload_refused:
  assumes "db_ok s" and "HasByUpload no_faults i s = Inr True"
  shows "\<exists>e. Upload_Delete flt now i s = (Inl e, s)"
  using assms(1)
proof (cases rule: Upload_Delete_cases [of s flt now i])
  case (unchanged e)
  then show ?thesis by blast
next
  case (committed u)
  then show ?thesis using assms(2) by (auto simp: HasByUpload_def)
qed

definition sample_paid :: db where
  "sample_paid = snd (Txn_Record no_faults 9 1 (Some 4) ''upload'' ''5'' ''0'' ''0xh'' sample_db)"

lemma sample_paid_val: "sample_paid = recorded 9 1 (Some 4) ''upload'' ''5'' ''0'' ''0xh'' sample_db"
  by (simp add: sample_paid_def Txn_Record_cases) (simp add: sample_defs)

lemma sample_paid_ok: "db_ok sample_paid"
  using db_ok_Txn_Record [OF sample_db_ok] by (simp add: sample_paid_def)

theorem delete_of_paid_upload_refused_witness:
  "Upload_Delete no_faults 50 4 sample_paid = (Inl FKViolation, sample_paid)"
proof -
  have t: "HasByUpload no_faults 4 sample_paid = Inr True"
    by (simp add: HasByUpload_def sample_paid_val recorded_def)
  obtain e where e: "Upload_Delete no_faults 50 4 sample_paid = (Inl e, sample_paid)"
    using delete_of_paid_upload_refused [OF sample_paid_ok t] by blast
  moreover have "fst (Upload_Delete no_faults 50 4 sample_paid) = Inl FKViolation"
    by (simp add: Upload_Delete_def sample_paid_val sample_row4 Let_def)
      (simp add: recorded_def sample_defs deletable_def CacheKeys_def add_cache_key_def)
  ultimately show ?thesis by simp
qed

section \<open>Preserved sources\<close>

text \<open>The operations that name the upload they work on.\<close>

fun names_upload :: "int \<Rightarrow> queue_op \<Rightarrow> bool" where
  "names_upload i (OpSetGasBackoff _ j _ _ _) = (i = j)"
| "names_upload i (OpClearBackoff _ j) = (i = j)"
| "names_upload i (OpTouch _ _ j) = (i = j)"
| "names_upload i (OpCancel _ _ j) = (i = j)"
| "names_upload i (OpForceRetry _ j) = (i = j)"
| "names_upload i (OpMarkCompleted _ _ j _ _) = (i = j)"
| "names_upload i (OpMarkCompletedPublic _ _ j _ _) = (i = j)"
| "names_upload i (OpMarkAlreadyStored _ _ j _ _) = (i = j)"
| "names_upload i (OpMarkAlreadyStoredPublic _ _ j _ _) = (i = j)"
| "names_upload i (OpMarkPublished _ j _) = (i = j)"
| "names_upload i (OpMarkFailed _ _ j _) = (i = j)"
| "names_upload i (OpMarkFailedPreserveTemp _ _ j _ _) = (i = j)"
| "names_upload i (OpDelete _ _ j) = (i = j)"
| "names_upload i (OpRetry _ _ j) = (i = j)"
| "names_upload i _ = False"

text \<open>A failed row whose source must survive for recovery.\<close>

definition preserved :: "string \<Rightarrow> upload \<Rightarrow> bool" where
  "preserved p u \<longleftrightarrow>
     u_status u = Failed \<and> u_temp u = Some p \<and> p \<noteq> [] \<and>
     u_detail u \<in> {Some StatusDetailPaidUnfinalized, Some StatusDetailPaymentUnconfirmed}"

definition preserved_at :: "int \<Rightarrow> string \<Rightarrow> db \<Rightarrow> bool" where
  "preserved_at i p s \<longleftrightarrow> (\<exists>u. upload_row s i = Some u \<and> preserved p u)"

lemma preserved_exec_update:
  assumes "preserved_at i p s" and "\<And>u. u_id (f u) = u_id u"
    and "\<And>u. u_id u = i \<Longrightarrow> preserved p u \<Longrightarrow> P u \<Longrightarrow> preserved p (f u)"
  shows "preserved_at i p (snd (exec_update flt P f s))"
proof -
  obtain u where u: "upload_row s i = Some u" "preserved p u"
    using assms(1) by (auto simp: preserved_at_def)
  have "u_id u = i" using upload_row_SomeD [OF u(1)] by simp
  then have "preserved p (if \<not> flt 0 \<and> P u then f u else u)"
    using u(2) assms(3) by simp
  then show ?thesis
    by (simp add: preserved_at_def exec_update_row [OF assms(2)] u(1))
qed

lemma preserved_same_row: "preserved_at i p s \<Longrightarrow> upload_row s' i = upload_row s i \<Longrightarrow> preserved_at i p s'"
  by (simp add: preserved_at_def)

lemma preserved_backfill: "preserved_at i p s \<Longrightarrow> preserved_at i p (snd (backfill_loop flt todo n s))"
proof (induction todo arbitrary: flt n s)
  case (Cons x todo)
  obtain j k where x: "x = (j, k)" by fastforce
  have "preserved_at i p (snd (exec_update no_faults (\<lambda>u. u_id u = j) (\<lambda>u. u\<lparr>u_cache_key := Some k\<rparr>) s))"
    using Cons.prems by (rule preserved_exec_update) (simp_all add: preserved_def)
  then show ?case using Cons by (simp add: x snd_exec_update)
qed simp

lemma preserved_Create:
  "preserved_at i p s \<Longrightarrow>
   preserved_at i p (snd (Upload_Create flt now uid user tok fn orig sz ct vis tmp est s))"
  by (auto simp: preserved_at_def Upload_Create_def Let_def upload_row_def find_append)

lemma preserved_Dequeue:
  assumes "db_ok s" and "preserved_at i p s"
  shows "preserved_at i p (snd (DequeueNext flt now s))"
proof -
  have "preserved_at i p (claimed now u s)" for u
    using preserved_exec_update [OF assms(2), where flt = no_faults and f = "claim_upload now"
        and P = "\<lambda>r. u_id r = u_id u \<and> u_status r = Queued"]
    by (simp add: claimed_def snd_exec_update preserved_def)
  then show ?thesis using assms by (auto simp: DequeueNext_cases split: option.splits)
qed

lemma preserved_Delete:
  assumes "db_ok s" and "preserved_at i p s" and "i \<noteq> j"
  shows "preserved_at i p (snd (Upload_Delete flt now j s))"
  using assms(1)
proof (cases rule: Upload_Delete_cases [of s flt now j])
  case (committed u)
  then show ?thesis
    using assms(2,3) by (intro preserved_same_row [OF assms(2)]) (simp add: upload_row_deleted deletable_def)
qed (use assms in simp)

lemma preserved_run_op:
  assumes "queue_inv s" and "preserved_at i p s" and "\<not> names_upload i oper"
  shows "preserved_at i p (run_op oper s)"
proof -
  have "db_ok s" using assms(1) by (simp add: queue_inv_def)
  moreover have "preserved_at i p (snd (Txn_Record flt now w up ty a b h s))" for flt now w up ty a b h
    by (rule preserved_same_row [OF assms(2)]) (simp add: Txn_Record_cases)
  moreover have "preserved_at i p (snd (PrunePurgeLog flt before s))" for flt before
    by (rule preserved_same_row [OF assms(2)]) (simp add: PrunePurgeLog_def)
  ultimately show ?thesis
    using assms(2,3)
    by (cases oper) (auto simp: svc_defs preserved_Create preserved_Dequeue preserved_Delete Upload_Retry_def
        BackfillCacheKeys_def preserved_backfill Let_def touch_def preserved_def intro!: preserved_exec_update)
qed

lemma preserved_listed:
  assumes "preserved_at i p s"
  shows "ListActiveTempPaths no_faults s = Inr ps \<Longrightarrow> p \<in> set ps"
proof -
  obtain u where "u \<in> set (uploads s)" "preserved p u"
    using assms upload_row_SomeD by (auto simp: preserved_at_def)
  then show "ListActiveTempPaths no_faults s = Inr ps \<Longrightarrow> p \<in> set ps"
    by (force simp: ListActiveTempPaths_def preserved_def keeps_temp_def)
qed

text \<open>Once an upload is failed with its source preserved, its temp path stays in the list the temp
  garbage collector must keep, through any run of operations that do not name that upload.\<close>

theorem preserved_source_stays_listed:
  assumes "queue_inv s" and "upload_row s i = Some u" and "u_temp u = Some p" and "p \<noteq> []"
    and "d \<in> {StatusDetailPaidUnfinalized, StatusDetailPaymentUnconfirmed}"
    and "MarkFailedPreserveTemp flt now i msg d s = (Inr (), s1)"
    and "\<forall>oper \<in> set ops. \<not> names_upload i oper"
  shows "\<exists>ps. ListActiveTempPaths no_faults (fold run_op ops s1) = Inr ps \<and> p \<in> set ps"
proof -
  have s1: "s1 = snd (MarkFailedPreserveTemp flt now i msg d s)" and nf: "\<not> flt 0"
    using assms(6) by (auto simp: MarkFailedPreserveTemp_def err_only_def exec_update_def split: if_splits)
  have "preserved_at i p s1 \<and> queue_inv s1"
    using assms(1-5) nf upload_row_SomeD [OF assms(2)] queue_inv_run_op [OF assms(1), of "OpMarkFailedPreserveTemp flt now i msg d"]
    by (auto simp: s1 preserved_at_def MarkFailedPreserveTemp_def exec_update_row preserved_def)
  then have "preserved_at i p (fold run_op ops s1)"
    using assms(7)
    by (induction ops arbitrary: s1) (auto simp: preserved_run_op queue_inv_run_op)
  from preserved_listed [OF this] show ?thesis
    unfolding ListActiveTempPaths_def by simp
qed

theorem preserved_source_stays_listed_witness:
  "\<exists>s1 ps. MarkFailedPreserveTemp no_faults 60 2 ''e'' StatusDetailPaidUnfinalized sample_db = (Inr (), s1) \<and>
     ListActiveTempPaths no_faults (fold run_op [OpDequeue no_faults 70] s1) = Inr ps \<and> ''/tmp/f'' \<in> set ps"
proof -
  obtain s1 where s1: "MarkFailedPreserveTemp no_faults 60 2 ''e'' StatusDetailPaidUnfinalized sample_db = (Inr (), s1)"
    by (simp add: MarkFailedPreserveTemp_def err_only_def exec_update_def)
  have "upload_row sample_db 2 = Some (sample_upload 2 Processing 10)"
    by (simp add: upload_row_def sample_defs)
  then show ?thesis
    using preserved_source_stays_listed [OF sample_queue_inv _ _ _ _ s1, of _ "''/tmp/f''" "[OpDequeue no_faults 70]"] s1
    by (simp add: sample_upload_def new_upload_def)
qed

section \<open>Cache keys\<close>

text \<open>The reference the chunked lookup is compared with: the visibility of the last row with the key.\<close>

definition last_visibility :: "db \<Rightarrow> string \<Rightarrow> visibility option" where
  "last_visibility s k = map_option u_visibility (find (\<lambda>u. u_cache_key u = Some k) (rev (uploads s)))"

lemma visibility_batch_lookup:
  "visibility_batch batch s live k =
     (if k \<in> set batch \<and> last_visibility s k \<noteq> None then last_visibility s k else live k)"
proof -
  have "fold (\<lambda>u m. case u_cache_key u of None \<Rightarrow> m
                | Some k \<Rightarrow> if k \<in> set batch then m(k \<mapsto> u_visibility u) else m) us live k =
          (case find (\<lambda>u. u_cache_key u = Some k) (rev us) of
             Some u \<Rightarrow> if k \<in> set batch then Some (u_visibility u) else live k
           | None \<Rightarrow> live k)" for us
    by (induction us rule: rev_induct) (auto split: option.splits)
  from this [of "uploads s"] show ?thesis
    unfolding visibility_batch_def last_visibility_def by (auto split: option.split)
qed

lemma set_take_drop: "k \<in> set xs \<longleftrightarrow> k \<in> set (take n xs) \<or> k \<in> set (drop n xs)"
  by (metis Un_iff append_take_drop_id set_append)

lemma CacheKeyVisibility_from_lookup:
  "CacheKeyVisibility_from flt keys s live = Inr m \<Longrightarrow>
   m k = (if k \<in> set keys \<and> last_visibility s k \<noteq> None then last_visibility s k else live k)"
proof (induction flt keys s live rule: CacheKeyVisibility_from.induct)
  case (1 flt keys s live)
  show ?case
  proof (cases "keys = []")
    case True
    then show ?thesis using "1.prems" by (simp add: CacheKeyVisibility_from.simps)
  next
    case False
    then have nf: "\<not> flt 0" and r: "CacheKeyVisibility_from (later 1 flt) (drop cache_key_chunk keys) s
             (visibility_batch (take cache_key_chunk keys) s live) = Inr m"
      using "1.prems" by (auto simp: CacheKeyVisibility_from.simps [of flt keys] split: if_splits)
    show ?thesis
      using "1.IH" [OF False nf r] set_take_drop [of k keys cache_key_chunk]
      by (auto simp: visibility_batch_lookup)
  qed
qed

lemma CacheKeyVisibility_from_total: "\<exists>m. CacheKeyVisibility_from no_faults keys s live = Inr m"
proof (induction "length keys" arbitrary: keys live rule: less_induct)
  case less
  show ?case
  proof (cases "keys = []")
    case True
    then show ?thesis by (simp add: CacheKeyVisibility_from.simps)
  next
    case False
    then have "length (drop cache_key_chunk keys) < length keys"
      by (simp add: cache_key_chunk_def)
    from less [OF this] False show ?thesis
      by (simp add: CacheKeyVisibility_from.simps [of no_faults keys])
  qed
qed

lemma cache_key_visibility_lookup:
  "CacheKeyVisibility no_faults keys s =
     Inr (\<lambda>k. if k \<in> set keys then last_visibility s k else None)"
proof -
  obtain m where m: "CacheKeyVisibility_from no_faults keys s Map.empty = Inr m"
    using CacheKeyVisibility_from_total by blast
  have "m = (\<lambda>k. if k \<in> set keys then last_visibility s k else None)"
    by (rule ext) (auto simp: CacheKeyVisibility_from_lookup [OF m])
  then show ?thesis using m by (simp add: CacheKeyVisibility_def)
qed

text \<open>The lookup in chunks of 500 keys returns what one pass over the table would: for every key asked
  for, the visibility of its last row, and nothing for any other key. It returns whenever its
  statements do.\<close>

theorem cache_key_visibility_reference:
  "CacheKeyVisibility no_faults keys s =
     Inr (\<lambda>k. if k \<in> set keys then last_visibility s k else None)"
  by (rule cache_key_visibility_lookup)

lemma content_id_nonempty: "backfill_row u \<Longrightarrow> content_id u \<noteq> []"
  by (auto simp: backfill_row_def content_id_def Let_def split: option.splits)

lemma backfill_loop_uploads:
  assumes "distinct (map fst todo)"
  shows "backfill_loop no_faults todo n s =
     ((None, n + int (length todo)),
      s\<lparr>uploads := map (\<lambda>u. case map_of todo (u_id u) of None \<Rightarrow> u | Some k \<Rightarrow> u\<lparr>u_cache_key := Some k\<rparr>) (uploads s)\<rparr>)"
  using assms
proof (induction todo arbitrary: n s)
  case (Cons x todo)
  obtain i k where x: "x = (i, k)" by fastforce
  have "map_of todo i = None" using Cons.prems by (simp add: x map_of_eq_None_iff)
  then show ?case
    using Cons by (auto simp: x update_where_def split: option.splits)
qed simp

definition backfilled :: "upload \<Rightarrow> upload" where
  "backfilled u = (if backfill_row u then u\<lparr>u_cache_key := Some (KeyForIdentifier (content_id u))\<rparr> else u)"

lemma backfill_todo_map:
  assumes "distinct (map u_id us)" and "u \<in> set us"
  shows "map_of (map (\<lambda>u. (u_id u, KeyForIdentifier (content_id u))) (filter backfill_row us)) (u_id u) =
           (if backfill_row u then Some (KeyForIdentifier (content_id u)) else None)"
  using assms by (induction us) (auto simp: map_of_eq_None_iff image_iff)

lemma BackfillCacheKeys_spec:
  assumes "db_ok s"
  shows "BackfillCacheKeys no_faults s =
           ((None, rows_affected backfill_row (uploads s)), s\<lparr>uploads := map backfilled (uploads s)\<rparr>)"
proof -
  let ?todo = "map (\<lambda>u. (u_id u, KeyForIdentifier (content_id u))) (filter backfill_row (uploads s))"
  have d: "distinct (map u_id (uploads s))" using assms by (simp add: db_ok_def keyed_def)
  have f: "filter (\<lambda>u. content_id u \<noteq> []) (filter backfill_row (uploads s)) = filter backfill_row (uploads s)"
    by (rule filter_True) (simp add: content_id_nonempty)
  have "map (\<lambda>u. case map_of ?todo (u_id u) of None \<Rightarrow> u | Some k \<Rightarrow> u\<lparr>u_cache_key := Some k\<rparr>) (uploads s) =
          map backfilled (uploads s)"
    by (rule map_cong [OF refl]) (simp add: backfill_todo_map [OF d] backfilled_def)
  moreover have "distinct (map fst ?todo)"
    using d by (simp add: o_def distinct_map_filter)
  ultimately show ?thesis
    unfolding BackfillCacheKeys_def f
    by (simp add: backfill_loop_uploads rows_affected_def)
qed

text \<open>The startup backfill stamps every row that has content but no cache key with the key the serve
  path derives, touches nothing else, and a second run finds nothing to do.\<close>

theorem backfill_complete_idempotent:
  assumes "db_ok s" and "BackfillCacheKeys no_faults s = ((err, n), s')"
  shows "err = None \<and> uploads s' = map backfilled (uploads s) \<and>
         (\<forall>u \<in> set (uploads s'). content_id u \<noteq> [] \<longrightarrow> u_cache_key u \<noteq> None) \<and>
         BackfillCacheKeys no_faults s' = ((None, 0), s')"
proof -
  have s': "s' = s\<lparr>uploads := map backfilled (uploads s)\<rparr>" and e: "err = None"
    using assms BackfillCacheKeys_spec [OF assms(1)] by auto
  have done_: "\<not> backfill_row (backfilled u)" for u
    by (simp add: backfilled_def backfill_row_def)
  have ids: "map u_id (map backfilled (uploads s)) = map u_id (uploads s)"
    by (simp add: backfilled_def)
  have "db_ok s'"
    using db_ok_update_uploads [OF assms(1), where P = backfill_row
        and f = "\<lambda>u. u\<lparr>u_cache_key := Some (KeyForIdentifier (content_id u))\<rparr>"]
    by (simp add: s' update_where_def backfilled_def [abs_def])
  moreover have "map backfilled (uploads s') = uploads s'"
  proof (rule map_idI)
    fix u assume "u \<in> set (uploads s')"
    then have "\<not> backfill_row u" using done_ by (auto simp: s')
    then show "backfilled u = u" by (simp add: backfilled_def)
  qed
  moreover have "rows_affected backfill_row (uploads s') = 0"
    using done_ by (auto simp: rows_affected_zero s')
  ultimately have again: "BackfillCacheKeys no_faults s' = ((None, 0), s')"
    by (simp add: BackfillCacheKeys_spec)
  have "u_cache_key (backfilled u) \<noteq> None" if "content_id (backfilled u) \<noteq> []" for u
    using that by (auto simp: backfilled_def backfill_row_def content_id_def Let_def split: option.splits if_splits)
  then show ?thesis using e again by (auto simp: s')
qed

theorem backfill_complete_idempotent_witness:
  "\<exists>n s'. BackfillCacheKeys no_faults sample_db = ((None, n), s') \<and> BackfillCacheKeys no_faults s' = ((None, 0), s')"
  using backfill_complete_idempotent [OF sample_db_ok] BackfillCacheKeys_spec [OF sample_db_ok] by blast

text \<open>The keys a deletion purges are exactly the keys of the identifiers the upload carries, without
  repeats, and the key the serve path looks up comes first.\<close>

theorem cache_keys_cover_serve_key:
  "set (CacheKeys u) = {KeyForIdentifier x | x. x \<noteq> [] \<and> (u_datamap u = Some x \<or> u_address u = Some x)} \<and>
   distinct (CacheKeys u) \<and>
   (content_id u \<noteq> [] \<longrightarrow> CacheKeys u \<noteq> [] \<and> hd (CacheKeys u) = KeyForIdentifier (content_id u))"
  by (cases "u_datamap u"; cases "u_address u")
     (auto simp: CacheKeys_def add_cache_key_def content_id_def Let_def, metis)

theorem cache_keys_cover_serve_key_witness:
  "hd (CacheKeys ((sample_upload 1 Completed 5)\<lparr>u_datamap := Some ''ab'', u_address := Some ''cd''\<rparr>)) =
     KeyForIdentifier ''ab''"
  using cache_keys_cover_serve_key [of "(sample_upload 1 Completed 5)\<lparr>u_datamap := Some ''ab'', u_address := Some ''cd''\<rparr>"]
  by (simp add: content_id_def)

section \<open>The queue over time\<close>

text \<open>C13: from a provisioned database, every sequence of queue and ledger operations, with any statement
  failing at any point, keeps the keys unique and below their counters and the references of the
  ledger intact; a processing row always carries the time it was claimed, and a stored row has no
  temp file and is keyed for the cache.\<close>

theorem queue_reachable_invariant:
  assumes "fresh_db s0" and "queue_reach s0 s"
  shows "db_ok s \<and> (\<forall>u \<in> set (uploads s). u_floor u \<le> txn_seq s) \<and>
         (\<forall>u \<in> set (uploads s). (u_status u = Processing \<longrightarrow> u_processing_at u \<noteq> None) \<and>
            (u_status u \<in> {Completed, AlreadyStored} \<longrightarrow>
               u_temp u = None \<and> u_completed_at u \<noteq> None \<and> u_cache_key u \<noteq> None))"
  using reach_inv [OF assms] by (auto simp: queue_inv_def floors_ok_def row_ok_def)

theorem queue_reachable_invariant_witness:
  "queue_reach sample_fresh sample_busy \<and> u_processing_at (hd (uploads sample_busy)) \<noteq> None"
proof -
  have "hd (uploads sample_busy) \<in> set (uploads sample_busy)" "u_status (hd (uploads sample_busy)) = Processing"
    by (simp_all add: sample_busy_val)
  then show ?thesis
    using queue_reachable_invariant [OF sample_fresh_ok sample_busy_reach] sample_busy_reach by blast
qed


lemma sample_paid_write: "ledger_write 4 sample_db sample_paid"
proof -
  have "fst (Txn_Record no_faults 9 1 (Some 4) ''upload'' ''5'' ''0'' ''0xh'' sample_db) =
          Inr (last (transactions sample_paid))"
    by (simp add: Txn_Record_def sample_paid_val recorded_def Txn_GetByID_def Let_def) (simp add: sample_defs)
  then show ?thesis
    unfolding ledger_write_def sample_paid_def by (metis prod.collapse)
qed


text \<open>The payment guard answers true from the moment a payment of the upload is recorded; every
  operation other than a Retry of that upload keeps it so; a successful Retry clears it for that
  upload alone.\<close>

theorem payment_guard_lifecycle:
  assumes "queue_inv s"
  shows "(\<forall>s'. ledger_write i s s' \<longrightarrow> HasPaymentSinceQueued no_faults i s' = Inr True) \<and>
         (\<forall>oper. HasPaymentSinceQueued no_faults i s = Inr True \<and> (\<forall>flt now. oper \<noteq> OpRetry flt now i) \<longrightarrow>
            HasPaymentSinceQueued no_faults i (run_op oper s) = Inr True) \<and>
         (\<forall>s'. operator_retry i s s' \<longrightarrow> HasPaymentSinceQueued no_faults i s' = Inr False \<and>
            (\<forall>j. j \<noteq> i \<longrightarrow> HasPaymentSinceQueued no_faults j s' = HasPaymentSinceQueued no_faults j s))"
proof -
  have ok: "db_ok s" using assms by (simp add: queue_inv_def)
  note guard = HasPaymentSinceQueued_paid
  have "HasPaymentSinceQueued no_faults i s' = Inr True" if "ledger_write i s s'" for s'
    using that pg.ledger_ok [OF assms that] ledger_write_paid [OF assms that] by (simp add: queue_inv_def guard)
  moreover have "HasPaymentSinceQueued no_faults i (run_op oper s) = Inr True"
    if "HasPaymentSinceQueued no_faults i s = Inr True" "\<forall>flt now. oper \<noteq> OpRetry flt now i" for oper
    using that paid_run_op [OF assms, of i oper] queue_inv_run_op [OF assms, of oper] ok
    by (simp add: guard queue_inv_def)
  moreover have "HasPaymentSinceQueued no_faults i s' = Inr False \<and>
      (\<forall>j. j \<noteq> i \<longrightarrow> HasPaymentSinceQueued no_faults j s' = HasPaymentSinceQueued no_faults j s)"
    if r: "operator_retry i s s'" for s'
  proof -
    obtain flt now where "Upload_Retry flt now i s = (Inr (), s')"
      using r by (auto simp: operator_retry_def)
    then have "payments_since_queued s' i = 0" "\<forall>j. j \<noteq> i \<longrightarrow> payments_since_queued s' j = payments_since_queued s j"
      using payments_Retry [of flt now i s] payments_Retry_other [of _ i flt now s] ok by auto
    then show ?thesis
      using pg.authorise_ok [OF assms r] ok by (simp add: guard paid_def queue_inv_def)
  qed
  ultimately show ?thesis by blast
qed

theorem payment_guard_lifecycle_witness:
  "HasPaymentSinceQueued no_faults 4 sample_paid = Inr True \<and>
   HasPaymentSinceQueued no_faults 4 (run_op (OpDequeue no_faults 100) sample_paid) = Inr True"
proof -
  have "queue_inv sample_paid"
    using queue_inv_Record [OF sample_queue_inv] by (simp add: sample_paid_def)
  moreover have "HasPaymentSinceQueued no_faults 4 sample_paid = Inr True"
    using payment_guard_lifecycle [OF sample_queue_inv, of 4] sample_paid_write by blast
  ultimately show ?thesis
    using payment_guard_lifecycle [of sample_paid 4] by blast
qed

section \<open>Time filters on SQLite\<close>

text \<open>On SQLite the lower time filter of the upload list misses every upload of the filter's own day,
  also one created later that day; on PostgreSQL it selects by the instant.\<close>

theorem sqlite_from_filter_drops_same_day:
  assumes "o_from opts = Some t" and "t \<le> u_created_at u"
    and "u_created_at u div seconds_per_day = t div seconds_per_day"
  shows "\<not> list_conditions SQLite opts u \<and>
         (u_user u = o_user opts \<and> o_status opts = [] \<and> o_to opts = None \<longrightarrow> list_conditions Postgres opts u)"
  using assms by (simp add: list_conditions_def created_at_ge_def)

theorem sqlite_from_filter_drops_same_day_witness:
  "let opts = \<lparr>o_user = 1, o_limit = 0, o_offset = 0, o_sort_by = [], o_sort_order = [], o_status = [],
               o_from = Some 86400, o_to = None\<rparr>
   in \<not> list_conditions SQLite opts (sample_upload 1 Queued 90000) \<and>
      list_conditions Postgres opts (sample_upload 1 Queued 90000)"
  unfolding Let_def
  using sqlite_from_filter_drops_same_day [of "\<lparr>o_user = 1, o_limit = 0, o_offset = 0, o_sort_by = [],
      o_sort_order = [], o_status = [], o_from = Some 86400, o_to = None\<rparr>" 86400 "sample_upload 1 Queued 90000"]
  by (simp add: sample_upload_def new_upload_def seconds_per_day_def)

end
