(* ===== verification/Download_Cache.thy ===== *)
theory Download_Cache
  imports Schema "HOL-Library.Sublist"
begin

text \<open>
  \<open>internal/downloadcache\<close>: the index over the promoted files of one instance
  (\<open>downloadcache.go\<close>), the admission counter (\<open>counter.go\<close>), fill coalescing
  (\<open>flight.go\<close>) and the counters (\<open>metrics.go\<close>).

  The file system is part of the state: \<open>files\<close> maps a path to the node there, a regular file
  with its size or something else (a symlink, a device). Directories are implicit. Each operation
  takes a fault plan for its file-system calls and the clock. An operation that holds the mutex
  throughout is one definition; \<open>Get\<close> and \<open>Open\<close>, which release it around the
  \<open>Lstat\<close>, are a lookup followed by a second part that may run later against a changed
  store. The warning clock of \<open>unlinkLocked\<close> only limits logging and is left out.
\<close>

section \<open>State\<close>

record entry =
  e_size :: int
  e_access :: time
  e_gen :: nat

datatype fnode = Regular int | Irregular

record metrics =
  m_hits :: int
  m_misses :: int
  m_bytes_served :: int
  m_bytes_fetch :: int
  m_promoted_read_through :: int
  m_promoted_seeded :: int
  m_min_uses_rejects :: int
  m_coalesced_waits :: int
  m_coalesce_timeouts :: int
  m_evicted_budget :: int
  m_evicted_inactive :: int
  m_evicted_pressure :: int
  m_evicted_bytes :: int
  m_self_heal_drops :: int
  m_purged :: int

definition no_metrics :: metrics where
  "no_metrics = \<lparr>m_hits = 0, m_misses = 0, m_bytes_served = 0, m_bytes_fetch = 0, m_promoted_read_through = 0,
     m_promoted_seeded = 0, m_min_uses_rejects = 0, m_coalesced_waits = 0, m_coalesce_timeouts = 0,
     m_evicted_budget = 0, m_evicted_inactive = 0, m_evicted_pressure = 0, m_evicted_bytes = 0,
     m_self_heal_drops = 0, m_purged = 0\<rparr>"

record store =
  s_root :: string
  s_entries :: "(string \<times> entry) list"
  s_bytes :: int
  s_ready :: bool
  s_genSeq :: nat
  s_metrics :: metrics
  s_files :: "(string \<times> fnode) list"

definition Store_New :: "string \<Rightarrow> (string \<times> fnode) list \<Rightarrow> store" where
  "Store_New dir fs = \<lparr>s_root = dir, s_entries = [], s_bytes = 0, s_ready = False, s_genSeq = 0,
     s_metrics = no_metrics, s_files = fs\<rparr>"

definition cache_path :: "string \<Rightarrow> string \<Rightarrow> string" where
  "cache_path root key = root @ ''/'' @ take 2 key @ ''/'' @ take 2 (drop 2 key) @ ''/'' @ key"

text \<open>Association lists for the Go map and the file system.\<close>

definition put :: "'k \<Rightarrow> 'v \<Rightarrow> ('k \<times> 'v) list \<Rightarrow> ('k \<times> 'v) list" where
  "put k v xs = (k, v) # filter (\<lambda>x. fst x \<noteq> k) xs"

definition del :: "'k \<Rightarrow> ('k \<times> 'v) list \<Rightarrow> ('k \<times> 'v) list" where
  "del k xs = filter (\<lambda>x. fst x \<noteq> k) xs"

definition entry_of :: "store \<Rightarrow> string \<Rightarrow> entry option" where
  "entry_of st key = map_of (s_entries st) key"

definition file_at :: "store \<Rightarrow> string \<Rightarrow> fnode option" where
  "file_at st p = map_of (s_files st) p"

definition purge_count :: "int \<Rightarrow> store \<Rightarrow> store" where
  "purge_count n st = st\<lparr>s_metrics := (s_metrics st)\<lparr>m_purged := m_purged (s_metrics st) + n\<rparr>\<rparr>"

definition heal_count :: "int \<Rightarrow> store \<Rightarrow> store" where
  "heal_count n st = st\<lparr>s_metrics := (s_metrics st)\<lparr>m_self_heal_drops := m_self_heal_drops (s_metrics st) + n\<rparr>\<rparr>"

definition hit_count :: "int \<Rightarrow> store \<Rightarrow> store" where
  "hit_count sz st = st\<lparr>s_metrics := (s_metrics st)\<lparr>m_hits := m_hits (s_metrics st) + 1,
     m_bytes_served := m_bytes_served (s_metrics st) + sz\<rparr>\<rparr>"

section \<open>Removal\<close>

definition unlinkLocked :: "faults \<Rightarrow> string \<Rightarrow> store \<Rightarrow> (error + bool) \<times> store" where
  "unlinkLocked flt key st =
     (if \<not> keyValid key then (Inr False, st)
      else let p = cache_path (s_root st) key
           in if flt 0 then (Inl ErrIO, st)
              else if file_at st p = None then (Inr False, st)
              else (Inr True, st\<lparr>s_files := del p (s_files st)\<rparr>))"

text \<open>Taking an entry out of the index.\<close>

definition forget :: "string \<Rightarrow> entry \<Rightarrow> store \<Rightarrow> store" where
  "forget key e st = st\<lparr>s_bytes := s_bytes st - e_size e, s_entries := del key (s_entries st)\<rparr>"

definition Store_Drop :: "faults \<Rightarrow> string \<Rightarrow> store \<Rightarrow> error option \<times> store" where
  "Store_Drop flt key st =
     (case unlinkLocked flt key st of
        (Inl e, st1) \<Rightarrow> (Some e, st1)
      | (Inr removed, st1) \<Rightarrow>
          let (removed, st2) = (case entry_of st1 key of
                                  Some e \<Rightarrow> (True, forget key e st1)
                                | None \<Rightarrow> (removed, st1))
          in (None, if removed then purge_count 1 st2 else st2))"

definition DropGen :: "faults \<Rightarrow> string \<Rightarrow> nat \<Rightarrow> store \<Rightarrow> bool \<times> store" where
  "DropGen flt key gen st =
     (case entry_of st key of
        None \<Rightarrow> (False, st)
      | Some e \<Rightarrow>
          if e_gen e \<noteq> gen then (False, st)
          else case unlinkLocked flt key st of
                 (Inl _, st1) \<Rightarrow> (False, st1)
               | (Inr _, st1) \<Rightarrow> (True, forget key e st1))"

section \<open>Lookup\<close>

text \<open>The first critical section: the size and generation of the entry.\<close>

definition lookup_entry :: "string \<Rightarrow> store \<Rightarrow> (int \<times> nat) option" where
  "lookup_entry key st = map_option (\<lambda>e. (e_size e, e_gen e)) (entry_of st key)"

definition stat_ok :: "faults \<Rightarrow> nat \<Rightarrow> string \<Rightarrow> int \<Rightarrow> store \<Rightarrow> bool" where
  "stat_ok flt k key sz st \<longleftrightarrow> \<not> flt k \<and> file_at st (cache_path (s_root st) key) = Some (Regular sz)"

definition touch_entry :: "time \<Rightarrow> string \<Rightarrow> store \<Rightarrow> store" where
  "touch_entry now key st =
     (case entry_of st key of
        None \<Rightarrow> st
      | Some e \<Rightarrow> st\<lparr>s_entries := map (\<lambda>(k, e). (k, if k = key then e\<lparr>e_access := now\<rparr> else e)) (s_entries st)\<rparr>)"

definition self_heal :: "faults \<Rightarrow> string \<Rightarrow> nat \<Rightarrow> store \<Rightarrow> store" where
  "self_heal flt key gen st =
     (case DropGen flt key gen st of (dropped, st1) \<Rightarrow> if dropped then heal_count 1 st1 else st1)"

definition Get_finish :: "faults \<Rightarrow> time \<Rightarrow> string \<Rightarrow> int \<Rightarrow> nat \<Rightarrow> store \<Rightarrow> string option \<times> store" where
  "Get_finish flt now key sz gen st =
     (if \<not> stat_ok flt 0 key sz st then (None, self_heal (later 1 flt) key gen st)
      else (Some (cache_path (s_root st) key), touch_entry now key st))"

definition Store_Get :: "faults \<Rightarrow> time \<Rightarrow> string \<Rightarrow> store \<Rightarrow> string option \<times> store" where
  "Store_Get flt now key st =
     (case lookup_entry key st of
        None \<Rightarrow> (None, st)
      | Some (sz, gen) \<Rightarrow> Get_finish flt now key sz gen st)"

text \<open>\<open>Open\<close>: \<open>Lstat\<close> (fault 0), \<open>os.Open\<close> (fault 1), \<open>fstat\<close> of the descriptor (fault
  2). The descriptor is the node it was opened on.\<close>

definition Open_finish :: "faults \<Rightarrow> time \<Rightarrow> string \<Rightarrow> int \<Rightarrow> nat \<Rightarrow> store \<Rightarrow> fnode option \<times> store" where
  "Open_finish flt now key sz gen st =
     (if \<not> stat_ok flt 0 key sz st then (None, self_heal (later 3 flt) key gen st)
      else if flt 1 then (None, self_heal (later 3 flt) key gen st)
      else if \<not> stat_ok flt 2 key sz st then (None, self_heal (later 3 flt) key gen st)
      else (file_at st (cache_path (s_root st) key), hit_count sz (touch_entry now key st)))"

definition Store_Open :: "faults \<Rightarrow> time \<Rightarrow> string \<Rightarrow> store \<Rightarrow> fnode option \<times> store" where
  "Store_Open flt now key st =
     (case lookup_entry key st of
        None \<Rightarrow> (None, st)
      | Some (sz, gen) \<Rightarrow> Open_finish flt now key sz gen st)"

section \<open>Promotion\<close>

text \<open>Statements: \<open>Lstat\<close> of the source (0), \<open>MkdirAll\<close> (1), \<open>Rename\<close> (2).\<close>

definition PromoteIfFits ::
  "faults \<Rightarrow> time \<Rightarrow> string \<Rightarrow> string \<Rightarrow> int \<Rightarrow> store \<Rightarrow> (error + string) \<times> store" where
  "PromoteIfFits flt now key srcPath budget st =
     (if \<not> keyValid key then (Inl ErrInvalid, st)
      else if flt 0 then (Inl ErrIO, st)
      else case file_at st srcPath of
          None \<Rightarrow> (Inl ErrIO, st)
        | Some Irregular \<Rightarrow> (Inl ErrInvalid, st)
        | Some (Regular sz) \<Rightarrow>
            if \<not> s_ready st then (Inl ErrNotReady, st)
            else let delta = (case entry_of st key of Some old \<Rightarrow> sz - e_size old | None \<Rightarrow> sz)
                 in if s_bytes st + delta > budget then (Inl ErrOverBudget, st)
                    else let dst = cache_path (s_root st) key
                         in if flt 1 then (Inl ErrIO, st)
                            else if flt 2 then (Inl ErrIO, st)
                            else (Inr dst,
                              st\<lparr>s_files := put dst (Regular sz) (del srcPath (s_files st)),
                                 s_genSeq := s_genSeq st + 1,
                                 s_entries := put key \<lparr>e_size = sz, e_access = now, e_gen = s_genSeq st + 1\<rparr> (s_entries st),
                                 s_bytes := s_bytes st + delta\<rparr>))"

section \<open>Snapshots, boot scan, statistics\<close>

record victim =
  v_key :: string
  v_gen :: nat
  v_size :: int
  v_access :: time

definition Oldest :: "int \<Rightarrow> store \<Rightarrow> victim list" where
  "Oldest n st =
     (let victims = order_asc v_access
            (map (\<lambda>(k, e). \<lparr>v_key = k, v_gen = e_gen e, v_size = e_size e, v_access = e_access e\<rparr>) (s_entries st))
      in if 0 \<le> n \<and> n < int (length victims) then take (nat n) victims else victims)"

definition base_name :: "string \<Rightarrow> string" where
  "base_name p = rev (takeWhile (\<lambda>c. c \<noteq> CHR ''/'') (rev p))"

text \<open>What \<open>WalkDir\<close> meets at one file: a stray is removed (a failing removal is ignored), a
  valid file is adopted unless its \<open>Info\<close> fails or the key is indexed already. Faults:
  the context (0, cancelled), the removal (1), \<open>Info\<close> (2).\<close>

definition scan_file :: "faults \<Rightarrow> time \<Rightarrow> string \<times> fnode \<Rightarrow> store \<Rightarrow> store" where
  "scan_file flt now f st =
     (let key = base_name (fst f);
          stray = (if flt 1 then st else st\<lparr>s_files := del (fst f) (s_files st)\<rparr>)
      in case snd f of
           Irregular \<Rightarrow> stray
         | Regular sz \<Rightarrow>
             if \<not> keyValid key \<or> cache_path (s_root st) key \<noteq> fst f then stray
             else if flt 2 then st
             else if entry_of st key \<noteq> None then st
             else st\<lparr>s_genSeq := s_genSeq st + 1,
                     s_entries := put key \<lparr>e_size = sz, e_access = now, e_gen = s_genSeq st + 1\<rparr> (s_entries st),
                     s_bytes := s_bytes st + sz\<rparr>)"

fun scan_walk :: "faults \<Rightarrow> time \<Rightarrow> (string \<times> fnode) list \<Rightarrow> store \<Rightarrow> bool \<times> store" where
  "scan_walk flt now [] st = (True, st)"
| "scan_walk flt now (f # fs) st =
     (if flt 0 then (False, st) else scan_walk (later 3 flt) now fs (scan_file flt now f st))"

definition under_root :: "store \<Rightarrow> string \<Rightarrow> bool" where
  "under_root st p \<longleftrightarrow> prefix (s_root st @ ''/'') p"

definition Store_Scan :: "faults \<Rightarrow> time \<Rightarrow> store \<Rightarrow> error option \<times> store" where
  "Store_Scan flt now st =
     (let fs = order_asc fst (filter (\<lambda>f. under_root st (fst f)) (s_files st));
          (done, st1) = scan_walk flt now fs st
      in if done then (None, st1\<lparr>s_ready := True\<rparr>) else (Some ErrCanceled, st1))"

definition Store_Stats :: "store \<Rightarrow> int \<times> int" where
  "Store_Stats st = (int (length (s_entries st)), s_bytes st)"

definition Metrics_Snapshot :: "store \<Rightarrow> metrics" where
  "Metrics_Snapshot st = s_metrics st"

section \<open>Admission counter and fill coalescing\<close>

record counter =
  c_counts :: "(string \<times> int) list"
  c_cap :: int

definition Bump :: "string \<Rightarrow> counter \<Rightarrow> int \<times> counter" where
  "Bump key c =
     (let counts = (if int (length (c_counts c)) \<ge> c_cap c \<and> map_of (c_counts c) key = None then [] else c_counts c);
          n = (case map_of counts key of None \<Rightarrow> 0 | Some n \<Rightarrow> n) + 1
      in (n, c\<lparr>c_counts := put key n counts\<rparr>))"

text \<open>A channel is the number of its \<open>Begin\<close>; \<open>f_closed\<close> holds the closed ones.\<close>

record flight =
  f_inflight :: "(string \<times> nat) list"
  f_next :: nat
  f_closed :: "nat list"

definition Flight_Begin :: "string \<Rightarrow> flight \<Rightarrow> (bool \<times> nat) \<times> flight" where
  "Flight_Begin key f =
     (case map_of (f_inflight f) key of
        Some ch \<Rightarrow> ((False, ch), f)
      | None \<Rightarrow> ((True, f_next f), f\<lparr>f_inflight := put key (f_next f) (f_inflight f), f_next := f_next f + 1\<rparr>))"

definition Flight_Finish :: "string \<Rightarrow> flight \<Rightarrow> flight" where
  "Flight_Finish key f =
     (case map_of (f_inflight f) key of
        Some ch \<Rightarrow> f\<lparr>f_closed := ch # f_closed f, f_inflight := del key (f_inflight f)\<rparr>
      | None \<Rightarrow> f)"

section \<open>Lemmas\<close>

lemma map_of_put [simp]: "map_of (put k v xs) k' = (if k' = k then Some v else map_of xs k')"
  by (simp add: put_def map_of_filter_other)

lemma map_of_del [simp]: "map_of (del k xs) k' = (if k' = k then None else map_of xs k')"
  by (simp add: del_def map_of_filter_other)

lemma distinct_del: "distinct (map f xs) \<Longrightarrow> distinct (map f (del k xs))"
  by (simp add: del_def distinct_map_filter)

lemma set_del: "set (del k xs) = {x \<in> set xs. fst x \<noteq> k}"
  by (simp add: del_def)

lemma set_put: "set (put k v xs) = insert (k, v) {x \<in> set xs. fst x \<noteq> k}"
  by (simp add: put_def)

lemma distinct_put: "distinct (map fst xs) \<Longrightarrow> distinct (map fst (put k v xs))"
  by (auto simp: put_def distinct_map_filter)

lemma sum_del:
  fixes f :: "'k \<times> 'v \<Rightarrow> int"
  assumes "distinct (map fst xs)"
  shows "sum_list (map f (del k xs)) =
           sum_list (map f xs) - (case map_of xs k of None \<Rightarrow> 0 | Some v \<Rightarrow> f (k, v))"
  using assms
proof (induction xs)
  case (Cons x xs)
  show ?case
  proof (cases "fst x = k")
    case True
    have "fst y \<noteq> k" if "y \<in> set xs" for y
      using Cons.prems True that by (auto simp: image_iff)
    then have "del k (x # xs) = xs"
      using True by (simp add: del_def filter_True)
    then show ?thesis using True by (cases x) simp
  next
    case False
    then show ?thesis using Cons by (cases x) (simp add: del_def)
  qed
qed (simp add: del_def)

definition entry_sizes :: "(string \<times> entry) list \<Rightarrow> int" where
  "entry_sizes es = sum_list (map (\<lambda>x. e_size (snd x)) es)"

lemma entry_sizes_del:
  "distinct (map fst es) \<Longrightarrow> entry_sizes (del k es) = entry_sizes es - (case map_of es k of None \<Rightarrow> 0 | Some e \<Rightarrow> e_size e)"
  by (simp add: entry_sizes_def sum_del split: option.split)

lemma entry_sizes_put:
  "distinct (map fst es) \<Longrightarrow>
   entry_sizes (put k e es) = entry_sizes es - (case map_of es k of None \<Rightarrow> 0 | Some e \<Rightarrow> e_size e) + e_size e"
  using entry_sizes_del [of es k] by (simp add: entry_sizes_def put_def del_def)

text \<open>The index invariant: one entry per key, valid keys, generations that are unique and were issued,
  and a running total that is the sum of the entries.\<close>

definition store_ok :: "store \<Rightarrow> bool" where
  "store_ok st \<longleftrightarrow>
     distinct (map fst (s_entries st)) \<and>
     s_bytes st = entry_sizes (s_entries st) \<and>
     distinct (map (\<lambda>x. e_gen (snd x)) (s_entries st)) \<and>
     (\<forall>(k, e) \<in> set (s_entries st). keyValid k \<and> 0 \<le> e_size e \<and> e_gen e \<le> s_genSeq st) \<and>
     distinct (map fst (s_files st)) \<and>
     (\<forall>p sz. (p, Regular sz) \<in> set (s_files st) \<longrightarrow> 0 \<le> sz)"

text \<open>The disk invariant: once the boot scan is complete, every file under the cache root is an indexed
  entry of its recorded size, so nothing on disk escapes the accounting.\<close>

definition disk_ok :: "store \<Rightarrow> bool" where
  "disk_ok st \<longleftrightarrow>
     (\<forall>(p, f) \<in> set (s_files st). under_root st p \<longrightarrow>
        (\<exists>k e. (k, e) \<in> set (s_entries st) \<and> p = cache_path (s_root st) k \<and> f = Regular (e_size e)))"

lemma store_ok_New: "distinct (map fst fs) \<Longrightarrow> (\<forall>p sz. (p, Regular sz) \<in> set fs \<longrightarrow> 0 \<le> sz) \<Longrightarrow> store_ok (Store_New dir fs)"
  by (simp add: store_ok_def Store_New_def entry_sizes_def)

lemma entry_of_iff:
  assumes "store_ok st"
  shows "entry_of st k = Some e \<longleftrightarrow> (k, e) \<in> set (s_entries st)"
  using assms by (simp add: entry_of_def store_ok_def)

lemma entry_ofD:
  assumes "store_ok st" and "entry_of st k = Some e"
  shows "keyValid k" and "0 \<le> e_size e" and "e_gen e \<le> s_genSeq st"
  using assms entry_of_iff [OF assms(1)] by (auto simp: store_ok_def)

lemma file_at_iff: "store_ok st \<Longrightarrow> file_at st p = Some f \<longleftrightarrow> (p, f) \<in> set (s_files st)"
  by (simp add: file_at_def store_ok_def)

lemma cache_path_inj: 
  assumes "cache_path r k = cache_path r k'" and "keyValid k" and "keyValid k'"
  shows "k = k'"
proof -
  have "drop (length r + 7) (cache_path r k) = k" if "keyValid k" for k
  proof -
    have "16 \<le> length k" using that by (simp add: keyValid_def)
    then have "min (length k - 2) 2 = 2" "min (length k) 2 = 2" by linarith+
    then show ?thesis by (simp add: cache_path_def)
  qed
  then show ?thesis using assms by metis
qed

lemma under_root_cache_path: "under_root st (cache_path (s_root st) k)"
  by (simp add: under_root_def cache_path_def)

lemma store_ok_metrics [simp]:
  "store_ok (purge_count n st) = store_ok st" "store_ok (heal_count n st) = store_ok st"
  "store_ok (hit_count n st) = store_ok st"
  by (simp_all add: store_ok_def purge_count_def heal_count_def hit_count_def)

lemma store_fields_metrics [simp]:
  "s_entries (purge_count n st) = s_entries st" "s_files (purge_count n st) = s_files st"
  "s_root (purge_count n st) = s_root st" "s_genSeq (purge_count n st) = s_genSeq st"
  "s_entries (heal_count n st) = s_entries st" "s_files (heal_count n st) = s_files st"
  "s_root (heal_count n st) = s_root st" "s_genSeq (heal_count n st) = s_genSeq st"
  "s_entries (hit_count n st) = s_entries st" "s_files (hit_count n st) = s_files st"
  "s_root (hit_count n st) = s_root st" "s_genSeq (hit_count n st) = s_genSeq st"
  "s_ready (purge_count n st) = s_ready st" "s_ready (heal_count n st) = s_ready st"
  "s_ready (hit_count n st) = s_ready st" "s_bytes (purge_count n st) = s_bytes st"
  "s_bytes (heal_count n st) = s_bytes st" "s_bytes (hit_count n st) = s_bytes st"
  by (simp_all add: purge_count_def heal_count_def hit_count_def)

lemma store_ok_forget:
  assumes "store_ok st" and "entry_of st k = Some e"
  shows "store_ok (forget k e st)"
  using assms entry_sizes_del [of "s_entries st" k]
  by (auto simp: store_ok_def forget_def entry_of_def distinct_del set_del)

lemma store_ok_unlink: "store_ok st \<Longrightarrow> store_ok (st\<lparr>s_files := del p (s_files st)\<rparr>)"
  by (auto simp: store_ok_def distinct_del set_del)

text \<open>Removal, in terms of what it leaves.\<close>

lemma unlinkLocked_cases:
  assumes "unlinkLocked flt k st = (r, st1)"
  shows "s_entries st1 = s_entries st \<and> s_bytes st1 = s_bytes st \<and> s_root st1 = s_root st \<and>
         s_genSeq st1 = s_genSeq st \<and> s_ready st1 = s_ready st \<and>
         (case r of Inl _ \<Rightarrow> st1 = st
          | Inr _ \<Rightarrow> keyValid k \<longrightarrow> s_files st1 = del (cache_path (s_root st) k) (s_files st)) \<and>
         (\<not> keyValid k \<longrightarrow> st1 = st)"
proof -
  have "del p fs = fs" if "map_of fs p = None" for p and fs :: "(string \<times> fnode) list"
    using that by (force simp: del_def map_of_eq_None_iff intro!: filter_True)
  then show ?thesis
    using assms by (auto simp: unlinkLocked_def file_at_def Let_def split: if_splits)
qed

lemma entry_of_unlink: "unlinkLocked flt k st = (r, st1) \<Longrightarrow> entry_of st1 j = entry_of st j"
  using unlinkLocked_cases [of flt k st r st1] by (simp add: entry_of_def)

lemma store_ok_unlinkLocked:
  assumes "store_ok st" and "unlinkLocked flt k st = (r, st1)"
  shows "store_ok st1"
  using assms store_ok_unlink by (auto simp: unlinkLocked_def Let_def split: if_splits)

text \<open>The state after a removal that acted: the file of the key is gone and so is its entry.\<close>

definition removed_key :: "string \<Rightarrow> store \<Rightarrow> store \<Rightarrow> bool" where
  "removed_key k st st1 \<longleftrightarrow>
     s_root st1 = s_root st \<and> s_genSeq st1 = s_genSeq st \<and> s_ready st1 = s_ready st \<and>
     s_entries st1 = del k (s_entries st) \<and> s_files st1 = del (cache_path (s_root st) k) (s_files st) \<and>
     s_bytes st1 = s_bytes st - (case entry_of st k of None \<Rightarrow> 0 | Some e \<Rightarrow> e_size e)"

lemma DropGen_cases:
  assumes "store_ok st"
  obtains (kept) "DropGen flt k gen st = (False, st)"
  | (gone) e st1 where "DropGen flt k gen st = (True, st1)" and "entry_of st k = Some e" and "e_gen e = gen"
      and "removed_key k st st1"
proof (cases "entry_of st k")
  case None
  then show ?thesis using kept by (simp add: DropGen_def)
next
  case (Some e)
  obtain r st1 where u: "unlinkLocked flt k st = (r, st1)" by fastforce
  note c = unlinkLocked_cases [OF u]
  show ?thesis
  proof (cases "e_gen e = gen \<and> (\<exists>b. r = Inr b)")
    case True
    then obtain b where b: "r = Inr b" by blast
    have "DropGen flt k gen st = (True, forget k e st1)"
      using True b Some u by (simp add: DropGen_def)
    moreover have "removed_key k st (forget k e st1)"
      using c b entry_ofD(1) [OF assms Some] Some by (simp add: removed_key_def forget_def)
    ultimately show ?thesis using gone Some True by blast
  next
    case False
    then have "DropGen flt k gen st = (False, st)"
      using Some u c by (auto simp: DropGen_def split: sum.splits)
    then show ?thesis by (rule kept)
  qed
qed

lemma store_ok_removed:
  assumes "store_ok st" and "removed_key k st st1"
  shows "store_ok st1"
  using assms entry_sizes_del [of "s_entries st" k]
  by (auto simp: store_ok_def removed_key_def entry_of_def distinct_del set_del)

lemma disk_ok_removed:
  assumes "store_ok st" and "disk_ok st" and "removed_key k st st1"
  shows "disk_ok st1"
proof -
  have "\<exists>k e. (k, e) \<in> set (s_entries st1) \<and> p = cache_path (s_root st1) k \<and> f = Regular (e_size e)"
    if "(p, f) \<in> set (s_files st1)" "under_root st1 p" for p f
  proof -
    have "p \<noteq> cache_path (s_root st) k" "(p, f) \<in> set (s_files st)" "under_root st p"
      using that assms(3) by (auto simp: removed_key_def set_del under_root_def)
    then obtain j e where "(j, e) \<in> set (s_entries st)" "p = cache_path (s_root st) j" "f = Regular (e_size e)"
      using assms(2) unfolding disk_ok_def by blast
    then show ?thesis
      using \<open>p \<noteq> cache_path (s_root st) k\<close> assms(3) by (auto simp: removed_key_def set_del)
  qed
  then show ?thesis by (auto simp: disk_ok_def)
qed

lemma Store_Drop_cases:
  assumes "store_ok st"
  obtains (stuck) e where "Store_Drop flt k st = (Some e, st)"
  | (gone) st1 where "Store_Drop flt k st = (None, st1)" and "keyValid k" and "removed_key k st st1"
  | (invalid) "Store_Drop flt k st = (None, st)" and "\<not> keyValid k"
proof -
  obtain r st1 where u: "unlinkLocked flt k st = (r, st1)" by fastforce
  note c = unlinkLocked_cases [OF u]
  have e: "entry_of st1 k = entry_of st k" using u by (rule entry_of_unlink)
  have del: "del k (s_entries st) = s_entries st" if "entry_of st k = None"
    using that by (force simp: del_def entry_of_def map_of_eq_None_iff intro!: filter_True)
  show ?thesis
  proof (cases r)
    case (Inl x)
    then have "Store_Drop flt k st = (Some x, st)" using c u by (simp add: Store_Drop_def)
    then show ?thesis by (rule stuck)
  next
    case (Inr b)
    show ?thesis
    proof (cases "keyValid k")
      case True
      obtain st2 where st2: "Store_Drop flt k st = (None, st2)" "removed_key k st st2"
        using Inr u c True e del
        by (cases "entry_of st k"; cases b) (auto simp: Store_Drop_def removed_key_def forget_def)
      then show ?thesis using gone True by blast
    next
      case False
      then have "entry_of st k = None"
        using entry_ofD(1) [OF assms] by (cases "entry_of st k") auto
      then have "Store_Drop flt k st = (None, st)"
        using False by (simp add: Store_Drop_def unlinkLocked_def)
      then show ?thesis using False by (rule invalid)
    qed
  qed
qed

text \<open>Promotion.\<close>

lemma PromoteIfFits_cases:
  assumes "store_ok st"
  obtains (refused) e where "PromoteIfFits flt now k src budget st = (Inl e, st)"
  | (promoted) sz st1 where
      "PromoteIfFits flt now k src budget st = (Inr (cache_path (s_root st) k), st1)"
      and "keyValid k" and "file_at st src = Some (Regular sz)" and "s_ready st"
      and "s_root st1 = s_root st" and "s_genSeq st1 = s_genSeq st + 1" and "s_ready st1"
      and "s_entries st1 = put k \<lparr>e_size = sz, e_access = now, e_gen = s_genSeq st + 1\<rparr> (s_entries st)"
      and "s_files st1 = put (cache_path (s_root st) k) (Regular sz) (del src (s_files st))"
      and "s_bytes st1 = s_bytes st + sz - (case entry_of st k of None \<Rightarrow> 0 | Some e \<Rightarrow> e_size e)"
      and "s_bytes st1 \<le> budget"
proof (cases "PromoteIfFits flt now k src budget st")
  case (Pair r st1)
  show ?thesis
  proof (cases r)
    case (Inl e)
    then have "st1 = st"
      using Pair by (auto simp: PromoteIfFits_def Let_def split: if_splits option.splits fnode.splits)
    then show ?thesis using refused Inl Pair by simp
  next
    case (Inr p)
    then obtain sz where f: "file_at st src = Some (Regular sz)"
      using Pair by (auto simp: PromoteIfFits_def Let_def split: if_splits option.splits fnode.splits)
    show ?thesis
      by (rule promoted [of st1 sz])
         (use Inr Pair f in \<open>auto simp: PromoteIfFits_def Let_def split: if_splits option.splits\<close>)
  qed
qed

lemma gen_fresh:
  assumes "store_ok st" and "(k, e) \<in> set (s_entries st)"
  shows "e_gen e \<noteq> Suc (s_genSeq st)"
  using assms by (force simp: store_ok_def)

lemma store_ok_put:
  assumes "store_ok st" and "keyValid k" and "0 \<le> sz" and "distinct (map fst fs)"
    and "\<forall>p sz. (p, Regular sz) \<in> set fs \<longrightarrow> 0 \<le> sz"
  shows "store_ok (st\<lparr>s_files := fs, s_genSeq := s_genSeq st + 1,
            s_entries := put k \<lparr>e_size = sz, e_access = now, e_gen = s_genSeq st + 1\<rparr> (s_entries st),
            s_bytes := s_bytes st + sz - (case entry_of st k of None \<Rightarrow> 0 | Some e \<Rightarrow> e_size e)\<rparr>)"
proof -
  have "distinct (map (\<lambda>x. e_gen (snd x)) (filter (\<lambda>x. fst x \<noteq> k) (s_entries st)))"
    using assms(1) by (simp add: store_ok_def distinct_map_filter)
  then have "distinct (map (\<lambda>x. e_gen (snd x)) (put k \<lparr>e_size = sz, e_access = now, e_gen = s_genSeq st + 1\<rparr> (s_entries st)))"
    using gen_fresh [OF assms(1)] by (fastforce simp: put_def)
  then show ?thesis
    using assms entry_sizes_put [of "s_entries st" k] by (auto simp: store_ok_def entry_of_def distinct_put set_put)
qed

lemma store_ok_Promote:
  assumes "store_ok st"
  shows "store_ok (snd (PromoteIfFits flt now k src budget st))"
  using assms
proof (cases rule: PromoteIfFits_cases [of st flt now k src budget])
  case (promoted sz st1)
  let ?fs = "put (cache_path (s_root st) k) (Regular sz) (del src (s_files st))"
  have sz: "0 \<le> sz" using assms promoted(3) by (auto simp: file_at_iff store_ok_def)
  have "distinct (map fst ?fs)" "\<forall>p sz. (p, Regular sz) \<in> set ?fs \<longrightarrow> 0 \<le> sz"
    using assms sz by (auto simp: store_ok_def distinct_put distinct_del set_put set_del)
  from store_ok_put [OF assms promoted(2) sz this, of now] show ?thesis
    using promoted by (simp add: store_ok_def)
qed (use assms in simp)

lemma disk_ok_Promote:
  assumes "store_ok st" and "disk_ok st"
  shows "disk_ok (snd (PromoteIfFits flt now k src budget st))"
  using assms(1)
proof (cases rule: PromoteIfFits_cases [of st flt now k src budget])
  case (promoted sz st1)
  have "\<exists>j e. (j, e) \<in> set (s_entries st1) \<and> p = cache_path (s_root st1) j \<and> f = Regular (e_size e)"
    if pf: "(p, f) \<in> set (s_files st1)" "under_root st1 p" for p f
  proof (cases "p = cache_path (s_root st) k")
    case True
    then have "f = Regular sz" using pf promoted(9) by (simp add: set_put)
    moreover have "(k, \<lparr>e_size = sz, e_access = now, e_gen = s_genSeq st + 1\<rparr>) \<in> set (s_entries st1)"
      using promoted(8) by (simp add: set_put)
    ultimately show ?thesis using True promoted(5) by force
  next
    case False
    then have "(p, f) \<in> set (s_files st)" "under_root st p"
      using pf promoted by (auto simp: set_put set_del under_root_def)
    then obtain j e where "(j, e) \<in> set (s_entries st)" "p = cache_path (s_root st) j" "f = Regular (e_size e)"
      using assms(2) unfolding disk_ok_def by blast
    then show ?thesis using False promoted(5,8) by (auto simp: set_put)
  qed
  then show ?thesis using promoted(1) by (auto simp: disk_ok_def)
qed (use assms in simp)

text \<open>Lookups.\<close>

lemma touch_entry_fields [simp]:
  "s_files (touch_entry now k st) = s_files st" "s_root (touch_entry now k st) = s_root st"
  "s_genSeq (touch_entry now k st) = s_genSeq st" "s_ready (touch_entry now k st) = s_ready st"
  "s_bytes (touch_entry now k st) = s_bytes st" "length (s_entries (touch_entry now k st)) = length (s_entries st)"
  by (simp_all add: touch_entry_def split: option.split)

lemma touch_entry_map:
  "s_entries (touch_entry now k st) =
     map (\<lambda>(j, e). (j, if j = k then e\<lparr>e_access := now\<rparr> else e)) (s_entries st)"
proof (cases "entry_of st k")
  case None
  then have "\<forall>x \<in> set (s_entries st). fst x \<noteq> k"
    by (auto simp: entry_of_def map_of_eq_None_iff)
  then have "map (\<lambda>(j, e). (j, if j = k then e\<lparr>e_access := now\<rparr> else e)) (s_entries st) = s_entries st"
    by (intro map_idI) auto
  then show ?thesis using None by (simp add: touch_entry_def)
qed (simp add: touch_entry_def)

lemma store_ok_touch: "store_ok st \<Longrightarrow> store_ok (touch_entry now k st)"
proof -
  assume ok: "store_ok st"
  let ?f = "\<lambda>(j, e). (j, if j = k then e\<lparr>e_access := now\<rparr> else e)"
  have "map fst (map ?f es) = map fst es" "entry_sizes (map ?f es) = entry_sizes es"
    "map (\<lambda>x. e_gen (snd x)) (map ?f es) = map (\<lambda>x. e_gen (snd x)) es" for es
    by (induction es) (auto simp: entry_sizes_def)
  note eqs = this
  have "\<forall>(j, e) \<in> set (map ?f (s_entries st)). keyValid j \<and> 0 \<le> e_size e \<and> e_gen e \<le> s_genSeq st"
    using ok by (auto simp: store_ok_def split: prod.splits)
  then show ?thesis using ok unfolding store_ok_def touch_entry_map touch_entry_fields eqs by blast
qed

lemma disk_ok_touch: "disk_ok st \<Longrightarrow> disk_ok (touch_entry now k st)"
proof -
  assume ok: "disk_ok st"
  have "\<exists>e'. (j, e') \<in> set (s_entries (touch_entry now k st)) \<and> e_size e' = e_size e"
    if "(j, e) \<in> set (s_entries st)" for j e
    using that by (intro exI [of _ "if j = k then e\<lparr>e_access := now\<rparr> else e"]) (force simp: touch_entry_map)
  then show ?thesis
    using ok unfolding disk_ok_def under_root_def touch_entry_fields by fastforce
qed

lemma disk_ok_metrics [simp]:
  "disk_ok (purge_count n st) = disk_ok st" "disk_ok (heal_count n st) = disk_ok st"
  "disk_ok (hit_count n st) = disk_ok st"
  by (simp_all add: disk_ok_def under_root_def)

lemma store_ok_DropGen: "store_ok st \<Longrightarrow> store_ok (snd (DropGen flt k gen st))"
  by (cases rule: DropGen_cases [of st flt k gen]) (auto intro: store_ok_removed)

lemma disk_ok_DropGen: "store_ok st \<Longrightarrow> disk_ok st \<Longrightarrow> disk_ok (snd (DropGen flt k gen st))"
  by (cases rule: DropGen_cases [of st flt k gen]) (auto intro: disk_ok_removed)

lemma store_ok_Drop: "store_ok st \<Longrightarrow> store_ok (snd (Store_Drop flt k st))"
  by (cases rule: Store_Drop_cases [of st flt k]) (auto intro: store_ok_removed)

lemma disk_ok_Drop: "store_ok st \<Longrightarrow> disk_ok st \<Longrightarrow> disk_ok (snd (Store_Drop flt k st))"
  by (cases rule: Store_Drop_cases [of st flt k]) (auto intro: disk_ok_removed)

lemma self_heal_ok:
  "store_ok st \<Longrightarrow> store_ok (self_heal flt k gen st)"
  "store_ok st \<Longrightarrow> disk_ok st \<Longrightarrow> disk_ok (self_heal flt k gen st)"
  using store_ok_DropGen [of st flt k gen] disk_ok_DropGen [of st flt k gen]
  by (auto simp: self_heal_def split: prod.splits)

lemma Open_finish_ok:
  "store_ok st \<Longrightarrow> store_ok (snd (Open_finish flt now k sz gen st))"
  "store_ok st \<Longrightarrow> disk_ok st \<Longrightarrow> disk_ok (snd (Open_finish flt now k sz gen st))"
  by (auto simp: Open_finish_def self_heal_ok store_ok_touch disk_ok_touch)

lemma Get_finish_ok:
  "store_ok st \<Longrightarrow> store_ok (snd (Get_finish flt now k sz gen st))"
  "store_ok st \<Longrightarrow> disk_ok st \<Longrightarrow> disk_ok (snd (Get_finish flt now k sz gen st))"
  by (auto simp: Get_finish_def self_heal_ok store_ok_touch disk_ok_touch)

text \<open>The boot scan.\<close>

definition indexed :: "store \<Rightarrow> string \<times> fnode \<Rightarrow> bool" where
  "indexed st f \<longleftrightarrow>
     (\<exists>k e. (k, e) \<in> set (s_entries st) \<and> fst f = cache_path (s_root st) k \<and> snd f = Regular (e_size e))"

definition scan_inv :: "(string \<times> fnode) list \<Rightarrow> store \<Rightarrow> bool" where
  "scan_inv todo st \<longleftrightarrow>
     store_ok st \<and> distinct (map fst todo) \<and> set todo \<subseteq> set (s_files st) \<and>
     (\<forall>f \<in> set (s_files st). under_root st (fst f) \<longrightarrow> f \<in> set todo \<or> indexed st f) \<and>
     (\<forall>(k, e) \<in> set (s_entries st). cache_path (s_root st) k \<notin> fst ` set todo)"

lemma scan_file_root [simp]: "s_root (scan_file flt now f st) = s_root st"
  by (auto simp: scan_file_def Let_def split: fnode.splits)

lemma store_ok_scan_file:
  assumes "store_ok st" and "f \<in> set (s_files st)"
  shows "store_ok (scan_file flt now f st)"
proof (cases "\<exists>sz. snd f = Regular sz \<and> keyValid (base_name (fst f)) \<and>
          cache_path (s_root st) (base_name (fst f)) = fst f \<and> \<not> flt 2 \<and> entry_of st (base_name (fst f)) = None")
  case True
  then obtain sz where sz: "snd f = Regular sz" by blast
  then have "(fst f, Regular sz) \<in> set (s_files st)" using assms(2) by (cases f) simp
  then have "0 \<le> sz" using assms(1) by (auto simp: store_ok_def)
  with True sz assms(1) show ?thesis
    using store_ok_put [of st "base_name (fst f)" sz "s_files st" now]
    by (auto simp: scan_file_def Let_def store_ok_def)
next
  case False
  then show ?thesis
    using assms store_ok_unlink by (auto simp: scan_file_def Let_def split: fnode.splits)
qed

lemma scan_step:
  assumes "scan_inv (f # todo) st"
  shows "scan_inv todo (scan_file no_faults now f st)"
proof -
  let ?st = "scan_file no_faults now f st" and ?k = "base_name (fst f)"
  have ok: "store_ok st" and f: "f \<in> set (s_files st)" and d: "distinct (map fst (f # todo))"
    and todo: "set todo \<subseteq> set (s_files st)"
    and cov: "\<forall>g \<in> set (s_files st). under_root st (fst g) \<longrightarrow> g \<in> set (f # todo) \<or> indexed st g"
    and new: "\<forall>(k, e) \<in> set (s_entries st). cache_path (s_root st) k \<notin> fst ` set (f # todo)"
    using assms by (simp_all add: scan_inv_def)
  have ok': "store_ok ?st" using ok f by (rule store_ok_scan_file)
  show ?thesis
  proof (cases "\<exists>sz. snd f = Regular sz \<and> keyValid ?k \<and> cache_path (s_root st) ?k = fst f")
    case True
    then obtain sz where sz: "snd f = Regular sz" "keyValid ?k" "cache_path (s_root st) ?k = fst f" by blast
    have "entry_of st ?k = None"
    proof (rule ccontr)
      assume "entry_of st ?k \<noteq> None"
      then obtain e where "(?k, e) \<in> set (s_entries st)" using entry_of_iff [OF ok] by auto
      then show False using new sz(3) by fastforce
    qed
    then have st: "s_files ?st = s_files st"
      "s_entries ?st = put ?k \<lparr>e_size = sz, e_access = now, e_gen = s_genSeq st + 1\<rparr> (s_entries st)"
      using sz by (simp_all add: scan_file_def Let_def)
    have k: "(?k, \<lparr>e_size = sz, e_access = now, e_gen = s_genSeq st + 1\<rparr>) \<in> set (s_entries ?st)"
      by (simp add: st set_put)
    have "indexed ?st f"
      unfolding indexed_def using k sz by force
    moreover have "indexed ?st g" if ix: "indexed st g" for g
    proof -
      obtain j e where j: "(j, e) \<in> set (s_entries st)" "fst g = cache_path (s_root st) j" "snd g = Regular (e_size e)"
        using ix by (auto simp: indexed_def)
      then have "j \<noteq> ?k" using new sz(3) by fastforce
      then show ?thesis using j unfolding indexed_def by (auto simp: st set_put)
    qed
    ultimately have "\<forall>g \<in> set (s_files ?st). under_root ?st (fst g) \<longrightarrow> g \<in> set todo \<or> indexed ?st g"
      using cov by (auto simp: st under_root_def)
    moreover have "\<forall>(j, e) \<in> set (s_entries ?st). cache_path (s_root ?st) j \<notin> fst ` set todo"
      using new d sz(3) by (auto simp: st set_put)
    ultimately show ?thesis using ok' d todo by (simp add: scan_inv_def st)
  next
    case False
    then have st: "?st = st\<lparr>s_files := del (fst f) (s_files st)\<rparr>"
      by (auto simp: scan_file_def Let_def split: fnode.splits)
    have "\<forall>g \<in> set (s_files ?st). under_root ?st (fst g) \<longrightarrow> g \<in> set todo \<or> indexed ?st g"
      using cov by (auto simp: st set_del under_root_def indexed_def)
    moreover have "set todo \<subseteq> set (s_files ?st)"
      using todo d by (auto simp: st set_del image_iff)
    ultimately show ?thesis using ok' d new by (auto simp: scan_inv_def st)
  qed
qed

lemma scan_walk_inv:
  "scan_inv todo st \<Longrightarrow> scan_walk no_faults now todo st = (b, st1) \<Longrightarrow> b \<and> scan_inv [] st1 \<and> s_root st1 = s_root st"
proof (induction todo arbitrary: st)
  case (Cons f todo)
  then show ?case using Cons.IH [OF scan_step [OF Cons.prems(1), of now]] by simp
qed simp

lemma Store_Scan_ok:
  assumes "store_ok st" and "s_entries st = []" and "Store_Scan no_faults now st = (r, st1)"
  shows "r = None \<and> store_ok st1 \<and> disk_ok st1 \<and> s_ready st1 \<and> s_root st1 = s_root st"
proof -
  let ?fs = "order_asc fst (filter (\<lambda>f. under_root st (fst f)) (s_files st))"
  have "distinct (map fst ?fs)"
    using assms(1) by (simp add: store_ok_def order_asc_def distinct_map inj_on_def)
  then have "scan_inv ?fs st"
    using assms by (auto simp: scan_inv_def)
  moreover obtain b st2 where w: "scan_walk no_faults now ?fs st = (b, st2)" by fastforce
  ultimately have "b \<and> scan_inv [] st2 \<and> s_root st2 = s_root st" by (rule scan_walk_inv)
  moreover have "disk_ok st2" if "scan_inv [] st2"
    using that by (fastforce simp: scan_inv_def disk_ok_def indexed_def)
  ultimately show ?thesis
    using assms(3) w by (auto simp: Store_Scan_def scan_inv_def store_ok_def disk_ok_def under_root_def)
qed

section \<open>The cache over time\<close>

text \<open>The calls of serving goroutines, upload workers, deletes and the sweeper, in any order; a lookup
  whose first part ran earlier finishes with the size and generation it saw then.\<close>

datatype cache_op =
    CDrop faults string
  | CDropGen faults string nat
  | CGetFinish faults time string int nat
  | COpenFinish faults time string int nat
  | CPromote faults time string string int

fun run_cop :: "cache_op \<Rightarrow> store \<Rightarrow> store" where
  "run_cop (CDrop flt k) st = snd (Store_Drop flt k st)"
| "run_cop (CDropGen flt k g) st = snd (DropGen flt k g st)"
| "run_cop (CGetFinish flt now k sz g) st = snd (Get_finish flt now k sz g st)"
| "run_cop (COpenFinish flt now k sz g) st = snd (Open_finish flt now k sz g st)"
| "run_cop (CPromote flt now k src budget) st = snd (PromoteIfFits flt now k src budget st)"

inductive cache_reach :: "store \<Rightarrow> store \<Rightarrow> bool" for st0 where
  cache_refl: "cache_reach st0 st0"
| cache_op: "cache_reach st0 st \<Longrightarrow> cache_reach st0 (run_cop c st)"

lemma store_ok_run_cop: "store_ok st \<Longrightarrow> store_ok (run_cop c st)"
  by (cases c) (simp_all add: store_ok_Drop store_ok_DropGen Get_finish_ok Open_finish_ok store_ok_Promote)

lemma disk_ok_run_cop: "store_ok st \<Longrightarrow> disk_ok st \<Longrightarrow> disk_ok (run_cop c st)"
  by (cases c) (simp_all add: disk_ok_Drop disk_ok_DropGen Get_finish_ok Open_finish_ok disk_ok_Promote)

lemma cache_reach_ok:
  assumes "cache_reach st0 st" and "store_ok st0"
  shows "store_ok st \<and> (disk_ok st0 \<longrightarrow> disk_ok st)"
  using assms by (induction rule: cache_reach.induct) (auto simp: store_ok_run_cop disk_ok_run_cop)

end
