(* ===== verification/Cache_Properties.thy ===== *)
theory Cache_Properties
  imports Download_Cache
begin

text \<open>
  What the download cache promises: the accounting covers the disk, admission respects the budget, a
  stale eviction decision never removes fresher bytes, a purge that reports success leaves nothing
  behind, one leader per fill, and a bounded admission counter.
\<close>

section \<open>Accounting\<close>

text \<open>The bytes of the regular files under the cache root.\<close>

definition node_bytes :: "fnode \<Rightarrow> int" where
  "node_bytes f = (case f of Regular n \<Rightarrow> n | Irregular \<Rightarrow> 0)"

definition disk_bytes :: "store \<Rightarrow> int" where
  "disk_bytes st = sum_list (map (\<lambda>f. node_bytes (snd f)) (filter (\<lambda>f. under_root st (fst f)) (s_files st)))"

lemma disk_bytes_le:
  assumes "store_ok st" and "disk_ok st"
  shows "disk_bytes st \<le> s_bytes st"
proof -
  let ?F = "{f \<in> set (s_files st). under_root st (fst f)}" and ?E = "set (s_entries st)"
  let ?img = "\<lambda>x. (cache_path (s_root st) (fst x), Regular (e_size (snd x)))"
  have df: "distinct (s_files st)" and de: "distinct (s_entries st)"
    using assms(1) by (auto simp: store_ok_def distinct_map)
  have "disk_bytes st = (\<Sum>f \<in> ?F. node_bytes (snd f))"
    unfolding disk_bytes_def using df by (subst sum_list_distinct_conv_sum_set) auto
  also have "\<dots> \<le> (\<Sum>f \<in> ?img ` ?E. node_bytes (snd f))"
  proof (rule sum_mono2)
    show "?F \<subseteq> ?img ` ?E"
    proof
      fix f assume f: "f \<in> ?F"
      then obtain k e where "(k, e) \<in> ?E" "fst f = cache_path (s_root st) k" "snd f = Regular (e_size e)"
        using assms(2) unfolding disk_ok_def by (cases f) auto
      then show "f \<in> ?img ` ?E"
        by (intro image_eqI [of _ _ "(k, e)"]) (simp_all add: prod_eq_iff)
    qed
    show "\<And>b. b \<in> ?img ` ?E - ?F \<Longrightarrow> 0 \<le> node_bytes (snd b)"
      using assms(1) by (auto simp: store_ok_def node_bytes_def)
  qed simp
  also have "\<dots> = (\<Sum>x \<in> ?E. e_size (snd x))"
  proof (subst sum.reindex)
    show "inj_on ?img ?E"
    proof (rule inj_onI)
      fix x y assume xy: "x \<in> ?E" "y \<in> ?E" "?img x = ?img y"
      then have "keyValid (fst x)" "keyValid (fst y)" using assms(1) by (auto simp: store_ok_def)
      then have "fst x = fst y" using xy(3) cache_path_inj by blast
      then show "x = y"
        using xy(1,2) assms(1) by (auto simp: store_ok_def distinct_map dest: inj_onD)
    qed
  qed (simp add: node_bytes_def)
  also have "\<dots> = s_bytes st"
    using assms(1) de by (simp add: store_ok_def entry_sizes_def sum_list_distinct_conv_sum_set)
  finally show ?thesis .
qed

fun promote_budget_le :: "int \<Rightarrow> cache_op \<Rightarrow> bool" where
  "promote_budget_le B (CPromote _ _ _ _ budget) = (budget \<le> B)"
| "promote_budget_le B _ = True"

lemma removed_key_bytes: "store_ok st \<Longrightarrow> removed_key k st st1 \<Longrightarrow> s_bytes st1 \<le> s_bytes st"
  using entry_ofD(2) [of st k] by (cases "entry_of st k") (auto simp: removed_key_def)

lemma self_heal_bytes:
  assumes "store_ok st"
  shows "s_bytes (self_heal flt k gen st) \<le> s_bytes st"
  using assms
proof (cases rule: DropGen_cases [of st flt k gen])
  case (gone e st1)
  then show ?thesis using removed_key_bytes [OF assms] by (simp add: self_heal_def)
qed (simp add: self_heal_def)

lemma run_cop_bytes:
  assumes "store_ok st" and "promote_budget_le B c"
  shows "s_bytes (run_cop c st) \<le> max B (s_bytes st)"
proof (cases c)
  case (CDrop flt k)
  show ?thesis
    using assms(1) removed_key_bytes [OF assms(1), of k] unfolding CDrop
    by (cases rule: Store_Drop_cases [of st flt k]) (simp_all add: le_max_iff_disj)
next
  case (CDropGen flt k g)
  show ?thesis
    using assms(1) removed_key_bytes [OF assms(1), of k] unfolding CDropGen
    by (cases rule: DropGen_cases [of st flt k g]) (simp_all add: le_max_iff_disj)
next
  case (CGetFinish flt now k sz g)
  have "s_bytes (self_heal (later 1 flt) k g st) \<le> s_bytes st"
    using assms(1) by (rule self_heal_bytes)
  then show ?thesis by (simp add: CGetFinish Get_finish_def le_max_iff_disj)
next
  case (COpenFinish flt now k sz g)
  have "s_bytes (self_heal (later 3 flt) k g st) \<le> s_bytes st"
    using assms(1) by (rule self_heal_bytes)
  then show ?thesis by (simp add: COpenFinish Open_finish_def le_max_iff_disj)
next
  case (CPromote flt now k src budget)
  show ?thesis
    using assms unfolding CPromote
    by (cases rule: PromoteIfFits_cases [of st flt now k src budget]) auto
qed

text \<open>C27: after a boot scan, whatever sequence of lookups, promotions, evictions and purges runs, and
  whichever file operations fail, the running total is the exact sum of the entries, the regular
  files under the cache root never hold more bytes than that total, and the total never exceeds
  the largest budget a promotion was admitted against or what the scan adopted.\<close>

theorem cache_accounting_covers_disk:
  assumes "distinct (map fst fs)" and "\<forall>p sz. (p, Regular sz) \<in> set fs \<longrightarrow> 0 \<le> sz"
    and "Store_Scan no_faults now (Store_New dir fs) = (r, st0)"
    and "list_all (promote_budget_le B) ops" and "st = fold run_cop ops st0"
  shows "s_bytes st = entry_sizes (s_entries st) \<and> disk_bytes st \<le> s_bytes st \<and>
         s_bytes st \<le> max B (s_bytes st0)"
proof -
  have new: "store_ok (Store_New dir fs)" "s_entries (Store_New dir fs) = []"
    using store_ok_New [OF assms(1,2)] by (simp_all add: Store_New_def)
  have init: "store_ok st0" "disk_ok st0"
    using Store_Scan_ok [OF new assms(3)] by auto
  have "store_ok (fold run_cop ops st1) \<and> disk_ok (fold run_cop ops st1) \<and>
        s_bytes (fold run_cop ops st1) \<le> max B (s_bytes st1)"
    if "store_ok st1" "disk_ok st1" for st1
    using assms(4) that
  proof (induction ops arbitrary: st1)
    case (Cons c ops)
    then have ok: "store_ok (run_cop c st1)" "disk_ok (run_cop c st1)"
      and le: "s_bytes (run_cop c st1) \<le> max B (s_bytes st1)" and l: "list_all (promote_budget_le B) ops"
      by (simp_all add: store_ok_run_cop disk_ok_run_cop run_cop_bytes)
    have "max B (s_bytes (run_cop c st1)) \<le> max B (s_bytes st1)" using le by simp
    with Cons.IH [OF l ok] show ?case by (simp del: max.bounded_iff)
  qed simp
  from this [OF init] have "store_ok st" "disk_ok st" "s_bytes st \<le> max B (s_bytes st0)"
    by (simp_all add: assms(5))
  moreover have "s_bytes st = entry_sizes (s_entries st)"
    using calculation(1) unfolding store_ok_def by blast
  ultimately show ?thesis using disk_bytes_le [of st] by blast
qed

definition sample_key :: string where
  "sample_key = ''0123456789abcdef''"

lemma sample_key_valid: "keyValid sample_key"
  by (simp add: keyValid_def sample_key_def lower_hex_char_def)

theorem cache_accounting_covers_disk_witness:
  "\<exists>r st0. Store_Scan no_faults 1 (Store_New ''/c'' [(''/tmp/x'', Regular 7)]) = (r, st0) \<and>
     disk_bytes (run_cop (CPromote no_faults 2 sample_key ''/tmp/x'' 10) st0) \<le> 10"
proof -
  obtain r st0 where s: "Store_Scan no_faults 1 (Store_New ''/c'' [(''/tmp/x'', Regular 7)]) = (r, st0)"
    by fastforce
  then have "s_bytes st0 = 0"
    by (auto simp: Store_Scan_def Store_New_def order_asc_def under_root_def prefix_def Let_def split: prod.splits)
  then show ?thesis
    using cache_accounting_covers_disk [OF _ _ s, of 10 "[CPromote no_faults 2 sample_key ''/tmp/x'' 10]"] s by auto
qed

section \<open>Admission\<close>

text \<open>A promotion either changes nothing or moves the source into the cache within the budget: its bytes
  replace those of the same key, the source path is gone, the total and the disk stay within the
  budget, and the new entry serves the promoted size. Before the scan nothing is admitted.\<close>

theorem promote_within_budget:
  assumes "store_ok st" and "disk_ok st" and "PromoteIfFits flt now key src budget st = (r, st')"
    and "src \<noteq> cache_path (s_root st) key"
  shows "case r of
           Inl e \<Rightarrow> st' = st
         | Inr p \<Rightarrow> s_ready st \<and> s_bytes st' \<le> budget \<and> disk_bytes st' \<le> budget \<and> file_at st' src = None \<and>
             (\<exists>sz. file_at st src = Some (Regular sz) \<and> file_at st' p = Some (Regular sz) \<and>
                   map_option e_size (entry_of st' key) = Some sz) \<and>
             (\<forall>k. k \<noteq> key \<longrightarrow> entry_of st' k = entry_of st k)"
  using assms(1)
proof (cases rule: PromoteIfFits_cases [of st flt now key src budget])
  case (refused e)
  then show ?thesis using assms by auto
next
  case (promoted sz st1)
  have "disk_bytes st1 \<le> s_bytes st1"
    using disk_bytes_le store_ok_Promote [OF assms(1), of flt now key src budget]
      disk_ok_Promote [OF assms(1,2), of flt now key src budget] promoted(1) by simp
  then show ?thesis
    using promoted assms(3,4) by (auto simp: file_at_def entry_of_def)
qed

definition sample_store :: store where
  "sample_store = \<lparr>s_root = ''/c'', s_entries = [], s_bytes = 0, s_ready = True, s_genSeq = 0,
     s_metrics = no_metrics, s_files = [(''/tmp/x'', Regular 7)]\<rparr>"

lemma sample_store_ok: "store_ok sample_store" "disk_ok sample_store"
  by (simp_all add: store_ok_def disk_ok_def sample_store_def entry_sizes_def under_root_def prefix_def)

theorem promote_within_budget_witness:
  "\<exists>st'. PromoteIfFits no_faults 2 sample_key ''/tmp/x'' 10 sample_store = (Inr (cache_path ''/c'' sample_key), st') \<and>
         s_bytes st' \<le> 10 \<and> file_at st' ''/tmp/x'' = None"
proof -
  obtain st' where p: "PromoteIfFits no_faults 2 sample_key ''/tmp/x'' 10 sample_store =
      (Inr (cache_path ''/c'' sample_key), st')"
    using sample_key_valid by (simp add: PromoteIfFits_def sample_store_def file_at_def entry_of_def Let_def)
  then show ?thesis
    using promote_within_budget [OF sample_store_ok p] by (simp add: sample_store_def cache_path_def)
qed

section \<open>Eviction decisions that went stale\<close>

lemma removed_key_entry: "removed_key k st st1 \<Longrightarrow> j \<noteq> k \<Longrightarrow> entry_of st1 j = entry_of st j"
  by (simp add: removed_key_def entry_of_def)

lemma removed_key_gone: "removed_key k st st1 \<Longrightarrow> entry_of st1 k = None"
  by (simp add: removed_key_def entry_of_def)

text \<open>An entry keeps its generation and size until it is replaced by one of a fresh generation.\<close>

definition older_same :: "store \<Rightarrow> store \<Rightarrow> bool" where
  "older_same st0 st \<longleftrightarrow>
     s_genSeq st0 \<le> s_genSeq st \<and> s_root st = s_root st0 \<and>
     (\<forall>k e. entry_of st k = Some e \<and> e_gen e \<le> s_genSeq st0 \<longrightarrow>
        (\<exists>e0. entry_of st0 k = Some e0 \<and> e_gen e0 = e_gen e \<and> e_size e0 = e_size e))"

lemma older_same_removed:
  assumes "older_same st0 st" and "removed_key k st st1"
  shows "older_same st0 st1"
  using assms removed_key_entry [OF assms(2)] removed_key_gone [OF assms(2)]
  by (auto simp: older_same_def) (simp_all add: removed_key_def, metis option.distinct(1))

lemma entry_of_touch:
  "entry_of (touch_entry now k st) j = map_option (\<lambda>e. if j = k then e\<lparr>e_access := now\<rparr> else e) (entry_of st j)"
proof -
  have "map_of (map (\<lambda>(j, e). (j, if j = k then e\<lparr>e_access := now\<rparr> else e)) es) j =
          map_option (\<lambda>e. if j = k then e\<lparr>e_access := now\<rparr> else e) (map_of es j)" for es
    by (induction es) auto
  then show ?thesis by (simp add: entry_of_def touch_entry_map)
qed

lemma older_same_touch:
  assumes "older_same st0 st"
  shows "older_same st0 (touch_entry now k st)"
proof -
  have "\<exists>e. entry_of st j = Some e \<and> e_gen e = e_gen e' \<and> e_size e = e_size e'"
    if "entry_of (touch_entry now k st) j = Some e'" for j e'
    using that by (auto simp: entry_of_touch)
  then show ?thesis
    using assms by (fastforce simp: older_same_def)
qed

lemma older_same_counts [simp]:
  "older_same st0 (purge_count n st) = older_same st0 st" "older_same st0 (heal_count n st) = older_same st0 st"
  "older_same st0 (hit_count n st) = older_same st0 st"
  by (simp_all add: older_same_def entry_of_def)

lemma older_same_heal:
  assumes "store_ok st" and "older_same st0 st"
  shows "older_same st0 (self_heal flt k gen st)"
  using assms(1)
proof (cases rule: DropGen_cases [of st flt k gen])
  case (gone e st1)
  then show ?thesis using older_same_removed [OF assms(2)] by (simp add: self_heal_def)
qed (simp add: self_heal_def assms(2))

lemma older_same_run_cop:
  assumes "store_ok st" and "older_same st0 st"
  shows "older_same st0 (run_cop c st)"
proof (cases c)
  case (CDrop flt k)
  show ?thesis
    using assms older_same_removed [OF assms(2), of k] unfolding CDrop
    by (cases rule: Store_Drop_cases [of st flt k]) simp_all
next
  case (CDropGen flt k g)
  show ?thesis
    using assms older_same_removed [OF assms(2), of k] unfolding CDropGen
    by (cases rule: DropGen_cases [of st flt k g]) simp_all
next
  case (CPromote flt now k src budget)
  have "older_same st0 (snd (PromoteIfFits flt now k src budget st))"
    using assms(1)
  proof (cases rule: PromoteIfFits_cases [of st flt now k src budget])
    case (promoted sz st1)
    have "\<exists>e0. entry_of st0 j = Some e0 \<and> e_gen e0 = e_gen e \<and> e_size e0 = e_size e"
      if "entry_of st1 j = Some e" "e_gen e \<le> s_genSeq st0" for j e
    proof -
      have "j \<noteq> k" using that promoted(8) assms(2) by (auto simp: entry_of_def older_same_def)
      then show ?thesis using that promoted(8) assms(2) by (simp add: entry_of_def older_same_def)
    qed
    then show ?thesis using promoted(1,5,6) assms(2) by (auto simp: older_same_def)
  qed (use assms(2) in simp)
  then show ?thesis by (simp add: CPromote)
qed (use assms older_same_heal older_same_touch in \<open>simp_all add: Get_finish_def Open_finish_def\<close>)

lemma older_same_reach:
  assumes "cache_reach st0 st" and "store_ok st0"
  shows "store_ok st \<and> older_same st0 st"
  using assms
proof (induction rule: cache_reach.induct)
  case cache_refl
  then show ?case by (simp add: older_same_def)
next
  case (cache_op st c)
  then show ?case by (simp add: store_ok_run_cop older_same_run_cop)
qed

lemma Oldest_entry:
  assumes "v \<in> set (Oldest n st)"
  shows "\<exists>e. (v_key v, e) \<in> set (s_entries st) \<and> e_gen e = v_gen v \<and> e_size e = v_size v \<and> e_access e = v_access v"
proof -
  have "v \<in> set (order_asc v_access
      (map (\<lambda>(k, e). \<lparr>v_key = k, v_gen = e_gen e, v_size = e_size e, v_access = e_access e\<rparr>) (s_entries st)))"
    using assms by (auto simp: Oldest_def Let_def split: if_splits dest: in_set_takeD)
  then obtain k e where "(k, e) \<in> set (s_entries st)"
      "v = \<lparr>v_key = k, v_gen = e_gen e, v_size = e_size e, v_access = e_access e\<rparr>"
    by auto
  then show ?thesis by auto
qed

text \<open>Acting on a victim of an old snapshot is always safe: if \<open>DropGen\<close> removes anything, it is
  the very promotion the snapshot saw, with the size it saw; an entry promoted since then keeps its
  index entry and its file.\<close>

theorem stale_eviction_never_hits_fresh_entry:
  assumes "store_ok st0" and "v \<in> set (Oldest n st0)" and "cache_reach st0 st"
    and "DropGen flt (v_key v) (v_gen v) st = (acted, st')"
  shows "(acted \<longrightarrow> (\<exists>e. entry_of st (v_key v) = Some e \<and> e_size e = v_size v \<and> e_gen e \<le> s_genSeq st0) \<and>
                    s_bytes st' = s_bytes st - v_size v) \<and>
         (\<forall>k e. entry_of st k = Some e \<and> s_genSeq st0 < e_gen e \<longrightarrow>
            entry_of st' k = Some e \<and>
            file_at st' (cache_path (s_root st) k) = file_at st (cache_path (s_root st) k))"
proof -
  have ok: "store_ok st" and old: "older_same st0 st"
    using older_same_reach [OF assms(3,1)] by auto
  obtain e0 where e0: "entry_of st0 (v_key v) = Some e0" "e_gen e0 = v_gen v" "e_size e0 = v_size v"
    using Oldest_entry [OF assms(2)] entry_of_iff [OF assms(1)] by blast
  have le: "v_gen v \<le> s_genSeq st0" using entry_ofD(3) [OF assms(1) e0(1)] e0(2) by simp
  show ?thesis
    using ok
  proof (cases rule: DropGen_cases [of st flt "v_key v" "v_gen v"])
    case kept
    then show ?thesis using assms(4) by auto
  next
    case (gone e st1)
    have "e_size e = v_size v"
      using old gone(2,3) le e0 unfolding older_same_def by (metis option.inject)
    moreover have "k \<noteq> v_key v" if "entry_of st k = Some e'" "s_genSeq st0 < e_gen e'" for k e'
      using that gone(2,3) le by auto
    moreover have "file_at st1 (cache_path (s_root st) k) = file_at st (cache_path (s_root st) k)"
      if "k \<noteq> v_key v" "entry_of st k = Some e'" for k e'
      using that gone(2,4) cache_path_inj [of "s_root st" k "v_key v"] entry_ofD(1) [OF ok]
      by (auto simp: removed_key_def file_at_def)
    ultimately show ?thesis
      using assms(4) gone le removed_key_entry [OF gone(4)] by (auto simp: removed_key_def)
  qed
qed

definition sample_filled :: store where
  "sample_filled = snd (PromoteIfFits no_faults 2 sample_key ''/tmp/x'' 10 sample_store)"

lemma sample_filled_val:
  "sample_filled = sample_store\<lparr>s_files := [(cache_path ''/c'' sample_key, Regular 7)], s_genSeq := 1,
     s_entries := [(sample_key, \<lparr>e_size = 7, e_access = 2, e_gen = 1\<rparr>)], s_bytes := 7\<rparr>"
  using sample_key_valid
  by (simp add: sample_filled_def PromoteIfFits_def sample_store_def file_at_def entry_of_def Let_def put_def del_def)

lemma sample_filled_ok: "store_ok sample_filled"
  using store_ok_Promote [OF sample_store_ok(1)] by (simp add: sample_filled_def)

theorem stale_eviction_never_hits_fresh_entry_witness:
  "\<exists>st'. DropGen no_faults sample_key 1 sample_filled = (True, st') \<and> s_bytes st' = s_bytes sample_filled - 7"
proof -
  let ?v = "\<lparr>v_key = sample_key, v_gen = 1, v_size = 7, v_access = 2\<rparr>"
  have v: "?v \<in> set (Oldest (-1) sample_filled)"
    by (simp add: Oldest_def sample_filled_val)
  have "fst (DropGen no_faults sample_key 1 sample_filled) = True"
    using sample_key_valid
    by (simp add: DropGen_def entry_of_def sample_filled_val unlinkLocked_def file_at_def sample_store_def Let_def)
  then obtain st' where d: "DropGen no_faults (v_key ?v) (v_gen ?v) sample_filled = (True, st')"
    by (metis prod.collapse victim.select_convs(1,2))
  show ?thesis
    using stale_eviction_never_hits_fresh_entry [OF sample_filled_ok v cache_reach.cache_refl d] d by simp
qed

section \<open>Purging\<close>

text \<open>A purge that reports success leaves neither an index entry nor a file of that key on this
  instance, also when the key was never indexed; a purge that fails changes nothing, so the bytes
  stay accounted; other keys are never affected.\<close>

theorem purge_success_means_gone:
  assumes "store_ok st" and "keyValid key" and "Store_Drop flt key st = (r, st')"
  shows "(r = None \<longrightarrow> entry_of st' key = None \<and> file_at st' (cache_path (s_root st') key) = None) \<and>
         (r \<noteq> None \<longrightarrow> st' = st) \<and>
         (\<forall>k. k \<noteq> key \<longrightarrow> entry_of st' k = entry_of st k) \<and>
         (\<forall>k. k \<noteq> key \<and> keyValid k \<longrightarrow>
            file_at st' (cache_path (s_root st) k) = file_at st (cache_path (s_root st) k))"
  using assms(1)
proof (cases rule: Store_Drop_cases [of st flt key])
  case (gone st1)
  then show ?thesis
    using assms removed_key_entry [OF gone(3)] removed_key_gone [OF gone(3)] cache_path_inj
    by (auto simp: removed_key_def file_at_def)
qed (use assms in auto)

theorem purge_success_means_gone_witness:
  "\<exists>st'. Store_Drop no_faults sample_key sample_filled = (None, st') \<and> entry_of st' sample_key = None \<and>
         file_at st' (cache_path (s_root st') sample_key) = None"
proof -
  have "fst (Store_Drop no_faults sample_key sample_filled) = None"
    using sample_key_valid by (simp add: Store_Drop_def unlinkLocked_def Let_def split: prod.splits option.splits)
  then obtain st' where "Store_Drop no_faults sample_key sample_filled = (None, st')"
    by (metis prod.collapse)
  then show ?thesis
    using purge_success_means_gone [OF sample_filled_ok sample_key_valid] by blast
qed

text \<open>A lookup that hits hands out a regular file of the recorded size, counted as a hit of that size;
  on any mismatch it misses, and the entry it removes is only the one it looked up.\<close>

theorem open_hit_serves_recorded_file:
  assumes "store_ok st" and "Store_Open flt now key st = (r, st')"
  shows "case r of
           Some f \<Rightarrow> (\<exists>e. entry_of st key = Some e \<and> f = Regular (e_size e) \<and>
                       file_at st (cache_path (s_root st) key) = Some f \<and>
                       entry_of st' key = Some (e\<lparr>e_access := now\<rparr>) \<and>
                       m_bytes_served (s_metrics st') = m_bytes_served (s_metrics st) + e_size e)
         | None \<Rightarrow> (\<forall>k. k \<noteq> key \<longrightarrow> entry_of st' k = entry_of st k) \<and>
                   (entry_of st' key = None \<or> entry_of st' key = entry_of st key)"
proof (cases "entry_of st key")
  case None
  then show ?thesis using assms(2) by (auto simp: Store_Open_def lookup_entry_def)
next
  case (Some e)
  have heal: "(\<forall>k. k \<noteq> key \<longrightarrow> entry_of (self_heal flt' key g st) k = entry_of st k) \<and>
      (entry_of (self_heal flt' key g st) key = None \<or> entry_of (self_heal flt' key g st) key = entry_of st key)" for flt' g
    using assms(1)
  proof (cases rule: DropGen_cases [of st flt' key g])
    case (gone e' st1)
    then show ?thesis
      using removed_key_entry [OF gone(4)] removed_key_gone [OF gone(4)]
      by (auto simp: self_heal_def entry_of_def)
  qed (simp add: self_heal_def)
  have hit: "entry_of (hit_count n (touch_entry now key st)) key = Some (e\<lparr>e_access := now\<rparr>)" for n
    using Some entry_of_touch [of now key st key] by (simp add: entry_of_def)
  have fin: "Open_finish flt now key (e_size e) (e_gen e) st = (r, st')"
    using assms(2) Some by (simp add: Store_Open_def lookup_entry_def)
  show ?thesis
  proof (cases "stat_ok flt 0 key (e_size e) st \<and> \<not> flt 1 \<and> stat_ok flt 2 key (e_size e) st")
    case True
    then have "r = Some (Regular (e_size e))" "st' = hit_count (e_size e) (touch_entry now key st)"
      using fin by (auto simp: Open_finish_def stat_ok_def)
    then show ?thesis
      using True Some hit by (simp add: stat_ok_def) (simp add: hit_count_def touch_entry_def Some)
  next
    case False
    then have "r = None" "st' = self_heal (later 3 flt) key (e_gen e) st"
      using fin by (auto simp: Open_finish_def split: if_splits)
    then show ?thesis using heal by simp
  qed
qed

theorem open_hit_serves_recorded_file_witness:
  "\<exists>st'. Store_Open no_faults 9 sample_key sample_filled = (Some (Regular 7), st') \<and>
         m_bytes_served (s_metrics st') = m_bytes_served (s_metrics sample_filled) + 7"
proof -
  have "fst (Store_Open no_faults 9 sample_key sample_filled) = Some (Regular 7)"
    by (simp add: Store_Open_def lookup_entry_def entry_of_def sample_filled_val Open_finish_def stat_ok_def
        file_at_def sample_store_def)
  then obtain st' where "Store_Open no_faults 9 sample_key sample_filled = (Some (Regular 7), st')"
    by (metis prod.collapse)
  then show ?thesis
    using open_hit_serves_recorded_file [OF sample_filled_ok] by fastforce
qed

section \<open>Fill coalescing and admission counting\<close>

lemma length_put_same:
  "distinct (map fst xs) \<Longrightarrow> map_of xs k = Some v \<Longrightarrow> length (put k x xs) = length xs"
proof (induction xs)
  case (Cons y ys)
  show ?case
  proof (cases "fst y = k")
    case True
    then have "filter (\<lambda>x. fst x \<noteq> k) ys = ys"
      using Cons.prems(1) by (intro filter_True) (auto simp: image_iff)
    then show ?thesis using True by (simp add: put_def)
  next
    case False
    then show ?thesis using Cons by (cases y) (simp add: put_def)
  qed
qed simp

definition flight_ok :: "flight \<Rightarrow> bool" where
  "flight_ok f \<longleftrightarrow>
     distinct (map fst (f_inflight f)) \<and> distinct (map snd (f_inflight f)) \<and>
     (\<forall>(k, ch) \<in> set (f_inflight f). ch < f_next f \<and> ch \<notin> set (f_closed f)) \<and>
     (\<forall>ch \<in> set (f_closed f). ch < f_next f)"

datatype flight_op = FBegin string | FFinish string

fun run_fop :: "flight_op \<Rightarrow> flight \<Rightarrow> flight" where
  "run_fop (FBegin k) f = snd (Flight_Begin k f)"
| "run_fop (FFinish k) f = Flight_Finish k f"

lemma flight_ok_Begin: "flight_ok f \<Longrightarrow> flight_ok (snd (Flight_Begin k f))"
proof (cases "map_of (f_inflight f) k")
  case None
  assume ok: "flight_ok f"
  have "put k (f_next f) (f_inflight f) = (k, f_next f) # f_inflight f"
    using None by (force simp: put_def map_of_eq_None_iff intro!: filter_True)
  then have "snd (Flight_Begin k f) = f\<lparr>f_inflight := (k, f_next f) # f_inflight f, f_next := Suc (f_next f)\<rparr>"
    using None by (simp add: Flight_Begin_def)
  moreover have "k \<notin> fst ` set (f_inflight f)" using None by (simp add: map_of_eq_None_iff)
  ultimately show ?thesis
    using ok by (auto simp: flight_ok_def less_Suc_eq)
qed (simp add: Flight_Begin_def)

lemma flight_ok_Finish: "flight_ok f \<Longrightarrow> flight_ok (Flight_Finish k f)"
proof (cases "map_of (f_inflight f) k")
  case (Some ch)
  assume ok: "flight_ok f"
  have m: "(k, ch) \<in> set (f_inflight f)" using Some by (rule map_of_SomeD)
  have "ch' \<noteq> ch" if "(k', ch') \<in> set (f_inflight f)" "k' \<noteq> k" for k' ch'
    using that m ok by (auto simp: flight_ok_def distinct_map dest!: inj_onD [of snd _ "(k', ch')" "(k, ch)"])
  then show ?thesis
    using ok m Some by (auto simp: flight_ok_def Flight_Finish_def set_del distinct_del)
qed (simp add: Flight_Finish_def)

text \<open>From the empty flight table, through any sequence of begins and finishes, the caller who begins a
  key becomes leader exactly when no fill of that key is running; a follower gets the open channel
  of the running fill; finishing closes that channel and the next caller leads again.\<close>

theorem one_leader_per_fill:
  assumes "f = fold run_fop ops \<lparr>f_inflight = [], f_next = 0, f_closed = []\<rparr>"
    and "Flight_Begin key f = ((leader, ch), f')"
  shows "(leader \<longleftrightarrow> map_of (f_inflight f) key = None) \<and>
         map_of (f_inflight f') key = Some ch \<and> ch \<notin> set (f_closed f') \<and>
         ch \<in> set (f_closed (Flight_Finish key f')) \<and>
         fst (fst (Flight_Begin key (Flight_Finish key f')))"
proof -
  have "flight_ok f"
    unfolding assms(1)
  proof (induction ops rule: rev_induct)
    case (snoc c ops)
    then show ?case by (cases c) (simp_all add: flight_ok_Begin flight_ok_Finish)
  qed (simp add: flight_ok_def)
  then have "flight_ok f'" using assms(2) flight_ok_Begin [of f key] by simp
  moreover have m: "map_of (f_inflight f') key = Some ch" and "leader \<longleftrightarrow> map_of (f_inflight f) key = None"
    using assms(2) by (auto simp: Flight_Begin_def split: option.splits)
  ultimately show ?thesis
    using map_of_SomeD [OF m] by (auto simp: flight_ok_def Flight_Finish_def Flight_Begin_def)
qed

theorem one_leader_per_fill_witness:
  "fst (Flight_Begin ''a'' (fold run_fop [FBegin ''a''] \<lparr>f_inflight = [], f_next = 0, f_closed = []\<rparr>)) = (False, 0)"
proof -
  let ?f = "fold run_fop [FBegin ''a''] \<lparr>f_inflight = [], f_next = 0, f_closed = []\<rparr>"
  obtain l ch f' where b: "Flight_Begin ''a'' ?f = ((l, ch), f')" by (metis prod.collapse)
  have "map_of (f_inflight ?f) ''a'' = Some 0" by (simp add: Flight_Begin_def)
  moreover have "\<not> l" using one_leader_per_fill [OF refl b] calculation by simp
  ultimately show ?thesis using b by (auto simp: Flight_Begin_def split: option.splits)
qed

text \<open>the admission counter never tracks more keys than its cap (or one), counts every access of a
  tracked key by one, and starts a key again at one after a reset.\<close>

theorem counter_bounded:
  assumes "distinct (map fst (c_counts c))" and "int (length (c_counts c)) \<le> max 1 (c_cap c)"
    and "Bump key c = (n, c')"
  shows "int (length (c_counts c')) \<le> max 1 (c_cap c) \<and> c_cap c' = c_cap c \<and>
         n = (case map_of (c_counts c) key of None \<Rightarrow> 1 | Some m \<Rightarrow> m + 1) \<and>
         map_of (c_counts c') key = Some n"
proof (cases "map_of (c_counts c) key")
  case None
  have "length (put key (1::int) xs) \<le> Suc (length xs)" for xs
    by (simp add: put_def le_SucI)
  then show ?thesis
    using assms None by (auto simp: Bump_def Let_def put_def split: if_splits)
       (smt (verit) length_filter_le of_nat_mono)
next
  case (Some m)
  then have "length (put key x (c_counts c)) = length (c_counts c)" for x
    using assms(1) length_put_same by metis
  then show ?thesis
    using assms Some by (auto simp: Bump_def Let_def split: if_splits)
qed

theorem counter_bounded_witness:
  "Bump ''k'' \<lparr>c_counts = [(''k'', 2)], c_cap = 4\<rparr> = (3, \<lparr>c_counts = [(''k'', 3)], c_cap = 4\<rparr>)"
  using counter_bounded [of "\<lparr>c_counts = [(''k'', 2)], c_cap = 4\<rparr>" "''k''"]
  by (simp add: Bump_def put_def)

end
