(* ===== verification/Numbers.thy ===== *)
theory Numbers
  imports Ind_Prelude
begin

text \<open>
  The number and text functions of the Go library the services use: \<open>strconv.Atoi\<close> (64-bit
  \<open>int\<close>), \<open>big.Int.SetString(s, 10)\<close> and \<open>big.Int.String\<close>,
  \<open>strconv.FormatInt(n, 10)\<close>, \<open>strings.TrimSpace\<close> on ASCII white space. The main facts
  are the round trips between printing and parsing.
\<close>

definition digit_val :: "char \<Rightarrow> nat option" where
  "digit_val c = (let n = of_char c in if 48 \<le> n \<and> n \<le> (57::nat) then Some (n - 48) else None)"

definition digit_char :: "nat \<Rightarrow> char" where
  "digit_char n = char_of (48 + n)"

fun parse_acc :: "string \<Rightarrow> nat \<Rightarrow> nat option" where
  "parse_acc [] acc = Some acc"
| "parse_acc (c # cs) acc = (case digit_val c of None \<Rightarrow> None | Some d \<Rightarrow> parse_acc cs (10 * acc + d))"

definition parse_digits :: "string \<Rightarrow> nat option" where
  "parse_digits s = (if s = [] then None else parse_acc s 0)"

text \<open>An optional sign, then at least one digit, and nothing else.\<close>

definition parse_signed :: "string \<Rightarrow> int option" where
  "parse_signed s =
     (case s of
        [] \<Rightarrow> None
      | c # cs \<Rightarrow>
          if c = CHR ''-'' then map_option (\<lambda>n. - int n) (parse_digits cs)
          else if c = CHR ''+'' then map_option int (parse_digits cs)
          else map_option int (parse_digits s))"

definition Atoi :: "string \<Rightarrow> int option" where
  "Atoi s = (case parse_signed s of None \<Rightarrow> None | Some n \<Rightarrow> if is_i64 n then Some n else None)"

definition SetString10 :: "string \<Rightarrow> int option" where
  "SetString10 s = parse_signed s"

fun show_nat :: "nat \<Rightarrow> string" where
  "show_nat n = (if n < 10 then [digit_char n] else show_nat (n div 10) @ [digit_char (n mod 10)])"

declare show_nat.simps [simp del]

definition show_int :: "int \<Rightarrow> string" where
  "show_int n = (if n < 0 then CHR ''-'' # show_nat (nat (- n)) else show_nat (nat n))"

definition is_space :: "char \<Rightarrow> bool" where
  "is_space c \<longleftrightarrow> c \<in> {CHR '' '', CHR 0x09, CHR 0x0A, CHR 0x0B, CHR 0x0C, CHR 0x0D}"

definition TrimSpace :: "string \<Rightarrow> string" where
  "TrimSpace s = rev (dropWhile is_space (rev (dropWhile is_space s)))"

section \<open>Lemmas\<close>

lemma digit_val_char [simp]: "n < 10 \<Longrightarrow> digit_val (digit_char n) = Some n"
  by (simp add: digit_val_def digit_char_def)

lemma parse_acc_append:
  "parse_acc (xs @ ys) a = (case parse_acc xs a of None \<Rightarrow> None | Some b \<Rightarrow> parse_acc ys b)"
  by (induction xs arbitrary: a) (auto split: option.splits)

lemma show_nat_nonempty [simp]: "show_nat n \<noteq> []"
  by (subst show_nat.simps) simp

lemma parse_acc_show_nat: "parse_acc (show_nat n) 0 = Some n"
proof (induction n rule: show_nat.induct)
  case (1 n)
  show ?case
  proof (cases "n < 10")
    case True
    then show ?thesis by (subst show_nat.simps) simp
  next
    case False
    have "10 * (n div 10) + n mod 10 = n" by presburger
    then show ?thesis
      using 1 [OF False] False by (subst show_nat.simps) (simp add: parse_acc_append)
  qed
qed

lemma parse_digits_show_nat [simp]: "parse_digits (show_nat n) = Some n"
  by (simp add: parse_digits_def parse_acc_show_nat)

lemma hd_show_nat: "\<exists>d < 10. hd (show_nat n) = digit_char d"
proof (induction n rule: show_nat.induct)
  case (1 n)
  show ?case
  proof (cases "n < 10")
    case True
    then show ?thesis by (subst show_nat.simps) auto
  next
    case False
    then show ?thesis using 1 [OF False] by (subst show_nat.simps) simp
  qed
qed

lemma digit_char_not_sign: "d < 10 \<Longrightarrow> digit_char d \<noteq> CHR ''-'' \<and> digit_char d \<noteq> CHR ''+''"
proof -
  assume "d < 10"
  then have "digit_val (digit_char d) \<noteq> None" by simp
  moreover have "digit_val (CHR ''-'') = None" "digit_val (CHR ''+'') = None"
    by (simp_all add: digit_val_def)
  ultimately show ?thesis by metis
qed

lemma parse_signed_show_int [simp]: "parse_signed (show_int n) = Some n"
proof (cases "n < 0")
  case True
  then show ?thesis by (simp add: show_int_def parse_signed_def)
next
  case False
  obtain c cs where s: "show_nat (nat n) = c # cs" by (cases "show_nat (nat n)") auto
  then have "c \<noteq> CHR ''-'' \<and> c \<noteq> CHR ''+''"
    using hd_show_nat [of "nat n"] digit_char_not_sign by auto
  moreover have "parse_digits (c # cs) = Some (nat n)"
    using parse_digits_show_nat [of "nat n"] unfolding s .
  ultimately show ?thesis using False s by (simp add: show_int_def parse_signed_def)
qed

lemma SetString10_show_int [simp]: "SetString10 (show_int n) = Some n"
  by (simp add: SetString10_def)

lemma Atoi_show_int: "is_i64 n \<Longrightarrow> Atoi (show_int n) = Some n"
  by (simp add: Atoi_def)

lemma Atoi_range: "Atoi s = Some n \<Longrightarrow> is_i64 n"
  by (auto simp: Atoi_def split: option.splits if_splits)

end
