(* ===== verification/Settings.thy ===== *)
theory Settings
  imports Schema Numbers
begin

text \<open>
  \<open>internal/services/settings.go\<close>, \<open>settings_validation.go\<close> and
  \<open>settings_cache.go\<close>: runtime settings with their validators, the audit rows of every change,
  and the TTL cache with its typed readers. The change set of \<open>Update\<close> is a Go map; its
  iteration order is the order of the list given here. Export and import of webhooks, groups and
  OIDC providers are not modelled.
\<close>

section \<open>State\<close>

record setting_row =
  g_key :: string
  g_value :: string
  g_updated_at :: time
  g_updated_by :: "int option"

record audit_row =
  ca_id :: int
  ca_key :: string
  ca_old :: "string option"
  ca_new :: string
  ca_by :: "int option"
  ca_ip :: "string option"
  ca_agent :: "string option"
  ca_at :: time

record settings_db =
  settings :: "setting_row list"
  config_audit :: "audit_row list"
  audit_seq :: int

definition setting_value :: "settings_db \<Rightarrow> string \<Rightarrow> string option" where
  "setting_value s key = map_option g_value (find (\<lambda>g. g_key g = key) (settings s))"

section \<open>SettingsService\<close>

definition Settings_GetAll :: "faults \<Rightarrow> settings_db \<Rightarrow> error + (string \<Rightarrow> string option)" where
  "Settings_GetAll flt s = (if flt 0 then Inl DBError else Inr (setting_value s))"

definition Settings_Get :: "faults \<Rightarrow> string \<Rightarrow> settings_db \<Rightarrow> error + string" where
  "Settings_Get flt key s =
     (if flt 0 then Inl DBError
      else case setting_value s key of None \<Rightarrow> Inl ErrNoRows | Some v \<Rightarrow> Inr v)"

definition upsert_setting ::
  "time \<Rightarrow> string \<Rightarrow> string \<Rightarrow> int option \<Rightarrow> setting_row list \<Rightarrow> setting_row list" where
  "upsert_setting now key v who rows =
     (if (\<exists>g \<in> set rows. g_key g = key)
      then update_where (\<lambda>g. g_key g = key) (\<lambda>g. g\<lparr>g_value := v, g_updated_at := now, g_updated_by := who\<rparr>) rows
      else rows @ [\<lparr>g_key = key, g_value = v, g_updated_at = now, g_updated_by = who\<rparr>])"

definition SetInternal :: "faults \<Rightarrow> time \<Rightarrow> string \<Rightarrow> string \<Rightarrow> settings_db \<Rightarrow> (error + unit) \<times> settings_db" where
  "SetInternal flt now key v s =
     (if flt 0 then (Inl DBError, s)
      else (Inr (), s\<lparr>settings := upsert_setting now key v None (settings s)\<rparr>))"

definition intInRange :: "int \<Rightarrow> int \<Rightarrow> string \<Rightarrow> bool" where
  "intInRange lo hi v = (case Atoi v of None \<Rightarrow> False | Some n \<Rightarrow> lo \<le> n \<and> n \<le> hi)"

definition optionalIntInRange :: "int \<Rightarrow> int \<Rightarrow> string \<Rightarrow> bool" where
  "optionalIntInRange lo hi v \<longleftrightarrow> v = [] \<or> intInRange lo hi v"

definition oneOf :: "string list \<Rightarrow> string \<Rightarrow> bool" where
  "oneOf allowed v \<longleftrightarrow> v \<in> set allowed"

definition typedValidators :: "string \<Rightarrow> (string \<Rightarrow> bool) option" where
  "typedValidators =
     [''antd_quote_timeout_secs'' \<mapsto> intInRange 1 3600,
      ''antd_health_probe_timeout_secs'' \<mapsto> intInRange 1 120,
      ''notifier_method'' \<mapsto> oneOf [''auto'', ''smtp'', ''webhook'', ''noop''],
      ''registration_enabled'' \<mapsto> oneOf [''true'', ''false''],
      ''payment_confirmation_timeout_seconds'' \<mapsto> optionalIntInRange 30 3600,
      ''max_concurrent_downloads'' \<mapsto> optionalIntInRange 1 1000,
      ''download_queue_wait_secs'' \<mapsto> optionalIntInRange 0 600,
      ''download_cache_max_bytes'' \<mapsto> optionalIntInRange 0 (2 ^ 50),
      ''download_cache_max_object_bytes'' \<mapsto> optionalIntInRange 1 (2 ^ 40),
      ''download_cache_min_uses'' \<mapsto> optionalIntInRange 1 100,
      ''download_cache_inactive_secs'' \<mapsto> optionalIntInRange 0 315360000,
      ''download_cache_seed_on_upload'' \<mapsto> oneOf [''true'', ''false''],
      ''download_cache_private'' \<mapsto> oneOf [''true'', ''false'']]"

definition valid_change :: "string \<times> string \<Rightarrow> bool" where
  "valid_change c = (case typedValidators (fst c) of None \<Rightarrow> True | Some v \<Rightarrow> v (snd c))"

text \<open>One iteration of the transaction: read the old value (its error is ignored), upsert, audit.
  Faults: 0 the read, 1 the upsert, 2 the audit insert.\<close>

definition apply_change ::
  "faults \<Rightarrow> time \<Rightarrow> int \<Rightarrow> string \<Rightarrow> string \<Rightarrow> string \<times> string \<Rightarrow> settings_db \<Rightarrow> settings_db option" where
  "apply_change flt now userID ip agent c s =
     (let old = (if flt 0 then None else setting_value s (fst c))
      in if flt 1 then None
         else if flt 2 then None
         else Some (s\<lparr>settings := upsert_setting now (fst c) (snd c) (Some userID) (settings s),
                      config_audit := config_audit s @ [\<lparr>ca_id = audit_seq s + 1, ca_key = fst c, ca_old = old,
                         ca_new = snd c, ca_by = Some userID, ca_ip = Some ip, ca_agent = Some agent, ca_at = now\<rparr>],
                      audit_seq := audit_seq s + 1\<rparr>))"

fun apply_changes ::
  "faults \<Rightarrow> time \<Rightarrow> int \<Rightarrow> string \<Rightarrow> string \<Rightarrow> (string \<times> string) list \<Rightarrow> settings_db \<Rightarrow> settings_db option" where
  "apply_changes flt now userID ip agent [] s = Some s"
| "apply_changes flt now userID ip agent (c # cs) s =
     (case apply_change flt now userID ip agent c s of
        None \<Rightarrow> None
      | Some s' \<Rightarrow> apply_changes (later 3 flt) now userID ip agent cs s')"

text \<open>Faults: 0 \<open>Begin\<close>, then three per change, then \<open>Commit\<close>.\<close>

definition Settings_Update ::
  "faults \<Rightarrow> time \<Rightarrow> (string \<times> string) list \<Rightarrow> int \<Rightarrow> string \<Rightarrow> string \<Rightarrow> settings_db \<Rightarrow> (error + unit) \<times> settings_db" where
  "Settings_Update flt now changes userID ip agent s =
     (case find (\<lambda>c. \<not> valid_change c) changes of
        Some c \<Rightarrow> (Inl (ErrMsg (''invalid value for '' @ fst c)), s)
      | None \<Rightarrow>
          if flt 0 then (Inl DBError, s)
          else case apply_changes (later 1 flt) now userID ip agent changes s of
                 None \<Rightarrow> (Inl DBError, s)
               | Some s' \<Rightarrow> if flt (1 + 3 * length changes) then (Inl DBError, s) else (Inr (), s'))"

definition QueryConfigAudit ::
  "faults \<Rightarrow> string \<Rightarrow> time option \<Rightarrow> time option \<Rightarrow> int \<Rightarrow> int \<Rightarrow> settings_db \<Rightarrow> error + (audit_row list \<times> int)" where
  "QueryConfigAudit flt key since until limit offset s =
     (let limit = (if limit \<le> 0 then 100 else if 500 < limit then 500 else limit);
          offset = (if offset < 0 then 0 else offset);
          rows = filter (\<lambda>a. (key \<noteq> [] \<longrightarrow> ca_key a = key) \<and>
                     (case since of None \<Rightarrow> True | Some t \<Rightarrow> t \<le> ca_at a) \<and>
                     (case until of None \<Rightarrow> True | Some t \<Rightarrow> ca_at a < t)) (config_audit s);
          total = int (length rows)
      in if flt 0 then Inl DBError
         else if flt 1 then Inl DBError
         else Inr (limit_offset limit offset (rev (sort_key ca_at (sort_key ca_id rows))), total))"

section \<open>CachedSettingsService\<close>

record setting_cache =
  sc_values :: "(string \<times> string \<times> time) list"

definition setting_ttl :: int where
  "setting_ttl = 30"

definition Cached_Get :: "faults \<Rightarrow> time \<Rightarrow> string \<Rightarrow> settings_db \<Rightarrow> setting_cache \<Rightarrow> (error + string) \<times> setting_cache" where
  "Cached_Get flt now key s c =
     (case map_of (sc_values c) key of
        Some (v, expires) \<Rightarrow>
          if now < expires then (Inr v, c)
          else (case Settings_Get flt key s of
                  Inl e \<Rightarrow> (Inl e, c)
                | Inr v \<Rightarrow> (Inr v, c\<lparr>sc_values := (key, v, now + setting_ttl) # sc_values c\<rparr>))
      | None \<Rightarrow>
          (case Settings_Get flt key s of
             Inl e \<Rightarrow> (Inl e, c)
           | Inr v \<Rightarrow> (Inr v, c\<lparr>sc_values := (key, v, now + setting_ttl) # sc_values c\<rparr>)))"

definition Cached_Invalidate :: "string \<Rightarrow> setting_cache \<Rightarrow> setting_cache" where
  "Cached_Invalidate key c = c\<lparr>sc_values := filter (\<lambda>x. fst x \<noteq> key) (sc_values c)\<rparr>"

definition Cached_InvalidateAll :: "setting_cache \<Rightarrow> setting_cache" where
  "Cached_InvalidateAll c = c\<lparr>sc_values := []\<rparr>"

text \<open>The typed readers, as functions of what \<open>Get\<close> returned (\<open>None\<close> an error).\<close>

definition int_setting :: "string option \<Rightarrow> int \<Rightarrow> int \<Rightarrow> int \<Rightarrow> int" where
  "int_setting v fallback lo hi =
     (case v of
        None \<Rightarrow> fallback
      | Some s \<Rightarrow>
          if s = [] then fallback
          else case Atoi s of
                 None \<Rightarrow> fallback
               | Some n \<Rightarrow> if n < lo \<or> hi < n then fallback else n)"

definition GetIntWithBounds ::
  "faults \<Rightarrow> time \<Rightarrow> string \<Rightarrow> int \<Rightarrow> int \<Rightarrow> int \<Rightarrow> settings_db \<Rightarrow> setting_cache \<Rightarrow> int \<times> setting_cache" where
  "GetIntWithBounds flt now key fallback lo hi s c =
     (let (r, c') = Cached_Get flt now key s c
      in (int_setting (case r of Inl _ \<Rightarrow> None | Inr v \<Rightarrow> Some v) fallback lo hi, c'))"

definition bool_setting :: "string option \<Rightarrow> bool \<Rightarrow> bool" where
  "bool_setting v fallback =
     (case v of None \<Rightarrow> fallback | Some s \<Rightarrow> if s = [] then fallback else s = ''true'')"

definition GetBool :: "faults \<Rightarrow> time \<Rightarrow> string \<Rightarrow> bool \<Rightarrow> settings_db \<Rightarrow> setting_cache \<Rightarrow> bool \<times> setting_cache" where
  "GetBool flt now key fallback s c =
     (let (r, c') = Cached_Get flt now key s c
      in (bool_setting (case r of Inl _ \<Rightarrow> None | Inr v \<Rightarrow> Some v) fallback, c'))"

section \<open>Lemmas and properties\<close>

lemma setting_value_upsert:
  "map_option g_value (find (\<lambda>g. g_key g = k) (upsert_setting now key v who rows)) =
     (if k = key then Some v else map_option g_value (find (\<lambda>g. g_key g = k) rows))"
proof (cases "\<exists>g \<in> set rows. g_key g = key")
  case True
  let ?f = "\<lambda>g. g\<lparr>g_value := v, g_updated_at := now, g_updated_by := who\<rparr>"
  have "map_option g_value (find (\<lambda>g. g_key g = k) (update_where (\<lambda>g. g_key g = key) ?f rs)) =
      (if k = key then map_option (\<lambda>_. v) (find (\<lambda>g. g_key g = k) rs)
       else map_option g_value (find (\<lambda>g. g_key g = k) rs))" for rs
    by (induction rs) (auto simp: table_simps)
  from this [of rows] have e: "map_option g_value (find (\<lambda>g. g_key g = k) (upsert_setting now key v who rows)) =
      (if k = key then map_option (\<lambda>_. v) (find (\<lambda>g. g_key g = k) rows)
       else map_option g_value (find (\<lambda>g. g_key g = k) rows))"
    using True by (simp add: upsert_setting_def)
  have "find (\<lambda>g. g_key g = key) rows \<noteq> None"
    using True by (auto simp: find_None_iff)
  then show ?thesis unfolding e by auto
next
  case False
  then have "find (\<lambda>g. g_key g = key) rows = None"
    by (auto simp: find_None_iff)
  then show ?thesis
    using False by (auto simp: upsert_setting_def find_append split: option.splits)
qed

lemma apply_change_Some:
  assumes "apply_change flt now userID ip agent c s = Some s'"
  shows "setting_value s' = (setting_value s)(fst c \<mapsto> snd c)"
    and "\<exists>a. config_audit s' = config_audit s @ [a] \<and> ca_key a = fst c \<and> ca_new a = snd c \<and> ca_by a = Some userID \<and>
             (\<not> flt 0 \<longrightarrow> ca_old a = setting_value s (fst c))"
proof -
  have s': "settings s' = upsert_setting now (fst c) (snd c) (Some userID) (settings s)"
    using assms by (auto simp: apply_change_def Let_def split: if_splits)
  show "setting_value s' = (setting_value s)(fst c \<mapsto> snd c)"
    unfolding setting_value_def s' setting_value_upsert by (simp add: fun_eq_iff)
qed (use assms in \<open>auto simp: apply_change_def Let_def split: if_splits\<close>)

lemma apply_changes_Some:
  "apply_changes flt now userID ip agent cs s = Some s' \<Longrightarrow>
   setting_value s' = fold (\<lambda>c m. m(fst c \<mapsto> snd c)) cs (setting_value s) \<and>
   (\<exists>new. config_audit s' = config_audit s @ new \<and> map (\<lambda>a. (ca_key a, ca_new a)) new = cs \<and>
          (\<forall>a \<in> set new. ca_by a = Some userID))"
proof (induction cs arbitrary: flt s)
  case (Cons c cs)
  then obtain s1 where s1: "apply_change flt now userID ip agent c s = Some s1"
      "apply_changes (later 3 flt) now userID ip agent cs s1 = Some s'"
    by (auto split: option.splits)
  obtain a where a: "config_audit s1 = config_audit s @ [a]" "ca_key a = fst c" "ca_new a = snd c" "ca_by a = Some userID"
    using apply_change_Some(2) [OF s1(1)] by blast
  obtain new where "config_audit s' = config_audit s1 @ new" "map (\<lambda>a. (ca_key a, ca_new a)) new = cs"
      "\<forall>a \<in> set new. ca_by a = Some userID"
    using Cons.IH [OF s1(2)] by blast
  with a have "\<exists>new. config_audit s' = config_audit s @ new \<and> map (\<lambda>a. (ca_key a, ca_new a)) new = c # cs \<and>
          (\<forall>a \<in> set new. ca_by a = Some userID)"
    by (intro exI [of _ "a # new"]) auto
  then show ?case
    using Cons.IH [OF s1(2)] apply_change_Some(1) [OF s1(1)] by simp
qed simp

lemma fold_upd_lookup:
  "distinct (map fst cs) \<Longrightarrow> fold (\<lambda>c m. m(fst c \<mapsto> snd c)) cs m k = (case map_of cs k of None \<Rightarrow> m k | Some v \<Rightarrow> Some v)"
proof (induction cs arbitrary: m)
  case (Cons c cs)
  then show ?case
    by (cases c) (auto simp: map_of_eq_None_iff rev_image_eqI split: option.splits dest!: map_of_SomeD)
qed simp

text \<open>C39: a settings update is all or nothing: a value that fails its validator, or any failing statement,
  leaves every setting and the audit trail as they were; a success stores exactly the given values,
  keeps all other settings, and adds one audit row per change in the name of the user.\<close>

theorem settings_update_atomic_audited:
  assumes "distinct (map fst changes)" and "Settings_Update flt now changes userID ip agent s = (r, s')"
  shows "case r of
           Inl e \<Rightarrow> s' = s
         | Inr _ \<Rightarrow> list_all valid_change changes \<and>
             (\<forall>k. setting_value s' k = (case map_of changes k of None \<Rightarrow> setting_value s k | Some v \<Rightarrow> Some v)) \<and>
             (\<exists>new. config_audit s' = config_audit s @ new \<and> map (\<lambda>a. (ca_key a, ca_new a)) new = changes \<and>
                    (\<forall>a \<in> set new. ca_by a = Some userID))"
proof (cases r)
  case (Inl e)
  then show ?thesis
    using assms(2) by (auto simp: Settings_Update_def split: option.splits if_splits)
next
  case (Inr x)
  then have v: "find (\<lambda>c. \<not> valid_change c) changes = None"
    and a: "apply_changes (later 1 flt) now userID ip agent changes s = Some s'"
    using assms(2) by (auto simp: Settings_Update_def split: option.splits if_splits)
  show ?thesis
    using apply_changes_Some [OF a] fold_upd_lookup [OF assms(1)] v Inr by (auto simp: find_None_iff list_all_iff)
qed

definition empty_settings :: settings_db where
  "empty_settings = \<lparr>settings = [], config_audit = [], audit_seq = 0\<rparr>"

theorem settings_update_atomic_audited_witness:
  "\<exists>s'. Settings_Update no_faults 1 [(''download_cache_private'', ''true'')] 7 ''ip'' ''ua'' empty_settings = (Inr (), s') \<and>
        setting_value s' ''download_cache_private'' = Some ''true''"
proof -
  have "fst (Settings_Update no_faults 1 [(''download_cache_private'', ''true'')] 7 ''ip'' ''ua'' empty_settings) = Inr ()"
    by (simp add: Settings_Update_def valid_change_def typedValidators_def oneOf_def apply_change_def Let_def)
  then obtain s' where "Settings_Update no_faults 1 [(''download_cache_private'', ''true'')] 7 ''ip'' ''ua'' empty_settings = (Inr (), s')"
    by (metis prod.collapse)
  then show ?thesis
    using settings_update_atomic_audited [of "[(''download_cache_private'', ''true'')]"] by fastforce
qed

text \<open>The settings cache is never more than its TTL behind: when every cached value was loaded by time
  \<open>t\<close>, a read at \<open>t + 30\<close> or later returns what the table holds now, and every value it adds expires 30 seconds later.\<close>

theorem cached_setting_staleness:
  assumes "\<forall>(k, v, expires) \<in> set (sc_values c). expires \<le> t + setting_ttl"
    and "Cached_Get flt now key s c = (r, c')"
  shows "(t + setting_ttl \<le> now \<longrightarrow> r = Settings_Get flt key s) \<and>
         (\<forall>(k, v, expires) \<in> set (sc_values c'). expires \<le> max t now + setting_ttl) \<and>
         (\<forall>v. r = Inr v \<longrightarrow> (\<exists>expires. map_of (sc_values c') key = Some (v, expires) \<and> now < expires))"
proof (cases "map_of (sc_values c) key")
  case None
  then show ?thesis
    using assms by (fastforce simp: Cached_Get_def setting_ttl_def split: sum.splits)
next
  case (Some ve)
  obtain v e where ve: "ve = (v, e)" by fastforce
  then have "e \<le> t + setting_ttl"
    using assms(1) map_of_SomeD [OF Some] by auto
  then show ?thesis
    using assms Some ve by (fastforce simp: Cached_Get_def setting_ttl_def split: sum.splits if_splits)
qed

theorem cached_setting_staleness_witness:
  "fst (Cached_Get no_faults 40 ''k'' (empty_settings\<lparr>settings := [\<lparr>g_key = ''k'', g_value = ''new'', g_updated_at = 0, g_updated_by = None\<rparr>]\<rparr>)
          \<lparr>sc_values = [(''k'', ''old'', 35)]\<rparr>) = Inr ''new''"
proof -
  let ?s = "empty_settings\<lparr>settings := [\<lparr>g_key = ''k'', g_value = ''new'', g_updated_at = 0, g_updated_by = None\<rparr>]\<rparr>"
  obtain r c' where g: "Cached_Get no_faults 40 ''k'' ?s \<lparr>sc_values = [(''k'', ''old'', 35)]\<rparr> = (r, c')" by fastforce
  then have "r = Settings_Get no_faults ''k'' ?s"
    using cached_setting_staleness [OF _ g, of 5] by (simp add: setting_ttl_def)
  then show ?thesis using g by (simp add: Settings_Get_def setting_value_def)
qed

lemma int_setting_bounds: "int_setting v fallback lo hi = fallback \<or> (lo \<le> int_setting v fallback lo hi \<and> int_setting v fallback lo hi \<le> hi)"
  by (auto simp: int_setting_def split: option.splits)

end
