(* ===== verification/Cache_Sweep.thy ===== *)
theory Cache_Sweep
  imports Upload_Properties Cache_Properties Settings "HOL-Library.Monad_Syntax"
begin

text \<open>
  \<open>internal/worker/cache_sweep.go\<close>: the sweeper that enforces the disk policy of the download
  cache (disk pressure, inactivity, byte budget) and applies the deletes of the whole fleet to this
  instance's cache (reconciliation against the upload rows, then the tail of the purge log).

  One sweep runs over the store (\<open>Download_Cache\<close>) and reads the database
  (\<open>Upload_Service\<close>). Settings are the function \<open>get\<close> (what the cached settings service
  returned for a key, None an error); \<open>cancelled\<close> says at which check the context is already
  done; \<open>usage\<close> gives what the volume measurement returns at each round. The measurement is
  compared exactly; Go computes the percentage in floating point.

  The eviction passes share one loop. What it needs from the store is the locale
  \<open>evictable\<close>, in which termination and the final state are proved once; it is
  interpreted on \<open>DropGen\<close> and \<open>Oldest\<close>.
\<close>

section \<open>State\<close>

record sweeper =
  w_lastPurgeID :: int
  w_pruneLog :: bool
  w_lastPrune :: "time option"
  w_lastReconcile :: "time option"
  w_privateAllowed :: bool
  w_lastStats :: metrics
  w_batch :: int

definition cacheSweepBatch :: int where
  "cacheSweepBatch = 100"

definition cachePurgeLogRetention :: int where
  "cachePurgeLogRetention = 7 * 24 * 3600"

definition cachePurgeBatch :: int where
  "cachePurgeBatch = 500"

definition cacheReconcileInterval :: int where
  "cacheReconcileInterval = 12 * 3600"

definition NewCacheSweepWorker :: "bool \<Rightarrow> sweeper" where
  "NewCacheSweepWorker workersEnabled =
     \<lparr>w_lastPurgeID = 0, w_pruneLog = workersEnabled, w_lastPrune = None, w_lastReconcile = None,
      w_privateAllowed = False, w_lastStats = no_metrics, w_batch = cacheSweepBatch\<rparr>"

section \<open>Eviction\<close>

text \<open>The loop over one snapshot: stop at the first victim for which the pass is over, count what was
  really dropped.\<close>

fun evict_victims ::
  "(faults \<Rightarrow> 'v \<Rightarrow> 's \<Rightarrow> bool \<times> 's) \<Rightarrow> ('v \<Rightarrow> 's \<Rightarrow> bool) \<Rightarrow> ('v \<Rightarrow> int) \<Rightarrow> faults \<Rightarrow> 'v list \<Rightarrow> 's \<Rightarrow>
   nat \<times> int \<Rightarrow> (nat \<times> int) \<times> 's" where
  "evict_victims drop_victim stop size_of flt [] s acc = (acc, s)"
| "evict_victims drop_victim stop size_of flt (v # vs) s acc =
     (if stop v s then (acc, s)
      else let (acted, s') = drop_victim flt v s
           in evict_victims drop_victim stop size_of (later 1 flt) vs s'
                (if acted then (fst acc + 1, snd acc + size_of v) else acc))"

definition drop_victim :: "faults \<Rightarrow> victim \<Rightarrow> store \<Rightarrow> bool \<times> store" where
  "drop_victim flt v st = DropGen flt (v_key v) (v_gen v) st"

definition fresh_victim :: "time option \<Rightarrow> victim \<Rightarrow> store \<Rightarrow> bool" where
  "fresh_victim cutoff v st = (case cutoff of None \<Rightarrow> False | Some c \<Rightarrow> \<not> v_access v < c)"

definition fits_target :: "int \<Rightarrow> victim \<Rightarrow> store \<Rightarrow> bool" where
  "fits_target target v st \<longleftrightarrow> s_bytes st \<le> target"

definition evictBatch :: "int \<Rightarrow> time option \<Rightarrow> faults \<Rightarrow> store \<Rightarrow> (nat \<times> int) \<times> store" where
  "evictBatch batch cutoff flt st =
     evict_victims drop_victim (fresh_victim cutoff) v_size flt (Oldest batch st) st (0, 0)"

definition evictBatchToBytes :: "int \<Rightarrow> int \<Rightarrow> faults \<Rightarrow> store \<Rightarrow> (nat \<times> int) \<times> store" where
  "evictBatchToBytes batch target flt st =
     evict_victims drop_victim (fits_target target) v_size flt (Oldest batch st) st (0, 0)"

text \<open>The outer loop of a pass: batches until the pass is over or a batch drops nothing. The fault plan
  of a batch starts where the previous one's snapshot ended.\<close>

partial_function (option) evict_loop ::
  "(nat \<Rightarrow> 's \<Rightarrow> bool) \<Rightarrow> (faults \<Rightarrow> 's \<Rightarrow> (nat \<times> int) \<times> 's) \<Rightarrow> nat \<Rightarrow> nat \<Rightarrow> faults \<Rightarrow> 's \<Rightarrow> nat \<times> int \<Rightarrow>
   ((nat \<times> int) \<times> 's) option" where
  "evict_loop halt batch stride i flt s acc =
     (if halt i s then Some (acc, s)
      else case batch flt s of
             (nb, s') \<Rightarrow>
               if fst nb = 0 then Some (acc, s')
               else evict_loop halt batch stride (Suc i) (later stride flt) s' (fst acc + fst nb, snd acc + snd nb))"

definition count_budget :: "nat \<times> int \<Rightarrow> store \<Rightarrow> store" where
  "count_budget nb st = (if 0 < fst nb then st\<lparr>s_metrics := (s_metrics st)
     \<lparr>m_evicted_budget := m_evicted_budget (s_metrics st) + int (fst nb),
      m_evicted_bytes := m_evicted_bytes (s_metrics st) + snd nb\<rparr>\<rparr> else st)"

definition count_inactive :: "nat \<times> int \<Rightarrow> store \<Rightarrow> store" where
  "count_inactive nb st = (if 0 < fst nb then st\<lparr>s_metrics := (s_metrics st)
     \<lparr>m_evicted_inactive := m_evicted_inactive (s_metrics st) + int (fst nb),
      m_evicted_bytes := m_evicted_bytes (s_metrics st) + snd nb\<rparr>\<rparr> else st)"

definition count_pressure :: "nat \<times> int \<Rightarrow> store \<Rightarrow> store" where
  "count_pressure nb st = (if 0 < fst nb then st\<lparr>s_metrics := (s_metrics st)
     \<lparr>m_evicted_pressure := m_evicted_pressure (s_metrics st) + int (fst nb),
      m_evicted_bytes := m_evicted_bytes (s_metrics st) + snd nb\<rparr>\<rparr> else st)"

definition DownloadCacheBudget :: "int option \<Rightarrow> int \<Rightarrow> int" where
  "DownloadCacheBudget override dbBudget = (case override of Some b \<Rightarrow> b | None \<Rightarrow> dbBudget)"

definition sweep_target :: "int \<Rightarrow> int \<Rightarrow> int" where
  "sweep_target budget maxObject =
     (let headroom = quot budget 10;
          headroom = (if headroom < maxObject then maxObject else headroom);
          headroom = (if quot budget 2 < headroom then quot budget 2 else headroom)
      in budget - headroom)"

definition sweepBudget ::
  "(nat \<Rightarrow> bool) \<Rightarrow> (string \<Rightarrow> string option) \<Rightarrow> int option \<Rightarrow> faults \<Rightarrow> sweeper \<Rightarrow> store \<Rightarrow> store option" where
  "sweepBudget cancelled get override flt w st =
     (let budget = DownloadCacheBudget override (int_setting (get ''download_cache_max_bytes'') 0 0 (2 ^ 50));
          maxObject = int_setting (get ''download_cache_max_object_bytes'') (64 * 2 ^ 20) 1 (2 ^ 40);
          target = sweep_target budget maxObject
      in evict_loop (\<lambda>i st. cancelled i \<or> s_bytes st \<le> target) (evictBatchToBytes (w_batch w) target)
           (nat (w_batch w)) 0 flt st (0, 0) \<bind> (\<lambda>(nb, st'). Some (count_budget nb st')))"

definition sweepInactive ::
  "(nat \<Rightarrow> bool) \<Rightarrow> time \<Rightarrow> faults \<Rightarrow> sweeper \<Rightarrow> store \<Rightarrow> store option" where
  "sweepInactive cancelled cutoff flt w st =
     evict_loop (\<lambda>i st. cancelled i) (evictBatch (w_batch w) (Some cutoff)) (nat (w_batch w)) 0 flt st (0, 0)
       \<bind> (\<lambda>(nb, st'). Some (count_inactive nb st'))"

text \<open>\<open>usage i\<close>: total and used bytes of the volume at round \<open>i\<close>, None when undetermined.\<close>

definition no_pressure :: "(nat \<times> nat) option \<Rightarrow> bool" where
  "no_pressure u = (case u of None \<Rightarrow> True | Some (tot, used) \<Rightarrow> tot = 0 \<or> 100 * used < 90 * tot)"

definition sweepDiskPressure ::
  "(nat \<Rightarrow> bool) \<Rightarrow> (nat \<Rightarrow> (nat \<times> nat) option) \<Rightarrow> faults \<Rightarrow> sweeper \<Rightarrow> store \<Rightarrow> store option" where
  "sweepDiskPressure cancelled usage flt w st =
     evict_loop (\<lambda>i st. cancelled i \<or> no_pressure (usage i)) (evictBatch (w_batch w) None) (nat (w_batch w)) 0 flt st (0, 0)
       \<bind> (\<lambda>(nb, st'). Some (count_pressure nb st'))"

section \<open>Purge propagation\<close>

text \<open>The drops of a reconciliation: orphans and, without the opt-in, private keys. A cancelled context
  ends it with an error.\<close>

definition keep_victim :: "(string \<Rightarrow> visibility option) \<Rightarrow> bool \<Rightarrow> victim \<Rightarrow> bool" where
  "keep_victim vis privateAllowed v =
     (case vis (v_key v) of None \<Rightarrow> False | Some x \<Rightarrow> x = Public \<or> privateAllowed)"

fun reconcile_drops ::
  "(nat \<Rightarrow> bool) \<Rightarrow> faults \<Rightarrow> (string \<Rightarrow> visibility option) \<Rightarrow> bool \<Rightarrow> victim list \<Rightarrow> store \<Rightarrow> nat \<Rightarrow> (error + nat) \<times> store" where
  "reconcile_drops cancelled flt vis privateAllowed [] st stuck = (Inr stuck, st)"
| "reconcile_drops cancelled flt vis privateAllowed (v # vs) st stuck =
     (if cancelled 0 then (Inl ErrCanceled, st)
      else if keep_victim vis privateAllowed v
           then reconcile_drops (\<lambda>k. cancelled (Suc k)) (later 1 flt) vis privateAllowed vs st stuck
      else case Store_Drop flt (v_key v) st of
             (Some _, st') \<Rightarrow> reconcile_drops (\<lambda>k. cancelled (Suc k)) (later 1 flt) vis privateAllowed vs st' (stuck + 1)
           | (None, st') \<Rightarrow> reconcile_drops (\<lambda>k. cancelled (Suc k)) (later 1 flt) vis privateAllowed vs st' stuck)"

definition reconcile ::
  "(nat \<Rightarrow> bool) \<Rightarrow> faults \<Rightarrow> faults \<Rightarrow> bool \<Rightarrow> db \<Rightarrow> sweeper \<Rightarrow> store \<Rightarrow> (error + bool) \<times> sweeper \<times> store" where
  "reconcile cancelled dbf flt privateAllowed s w st =
     (case MaxPurgeLogID dbf s of
        Inl e \<Rightarrow> (Inl e, w, st)
      | Inr maxID \<Rightarrow>
          if fst (Store_Stats st) = 0 then (Inr True, w\<lparr>w_lastPurgeID := maxID\<rparr>, st)
          else let victims = Oldest (fst (Store_Stats st)) st
               in case CacheKeyVisibility (later 1 dbf) (map v_key victims) s of
                    Inl e \<Rightarrow> (Inl e, w, st)
                  | Inr vis \<Rightarrow>
                      (case reconcile_drops cancelled flt vis privateAllowed victims st 0 of
                         (Inl e, st') \<Rightarrow> (Inl e, w, st')
                       | (Inr stuck, st') \<Rightarrow> (Inr (stuck = 0), w\<lparr>w_lastPurgeID := maxID\<rparr>, st')))"

text \<open>One batch of the log tail: every drop is attempted, the mark follows the successful prefix.
  The result None means the context was cancelled.\<close>

fun tail_batch ::
  "(nat \<Rightarrow> bool) \<Rightarrow> faults \<Rightarrow> (int \<times> string) list \<Rightarrow> int \<Rightarrow> bool \<Rightarrow> store \<Rightarrow> bool option \<times> int \<times> store" where
  "tail_batch cancelled flt [] mark stalled st = (Some stalled, mark, st)"
| "tail_batch cancelled flt ((i, key) # es) mark stalled st =
     (if cancelled 0 then (None, mark, st)
      else case Store_Drop flt key st of
             (Some _, st') \<Rightarrow> tail_batch (\<lambda>k. cancelled (Suc k)) (later 1 flt) es mark True st'
           | (None, st') \<Rightarrow> tail_batch (\<lambda>k. cancelled (Suc k)) (later 1 flt) es (if stalled then mark else i) stalled st')"

text \<open>The loop over batches; True when it ran to its end (the prune follows), False on a database
  error or a cancelled context.\<close>

partial_function (option) purge_tail ::
  "(nat \<Rightarrow> bool) \<Rightarrow> faults \<Rightarrow> faults \<Rightarrow> db \<Rightarrow> int \<Rightarrow> store \<Rightarrow> (bool \<times> int \<times> store) option" where
  "purge_tail cancelled dbf flt s mark st =
     (case PurgeLogSince dbf mark cachePurgeBatch s of
        Inl e \<Rightarrow> Some (False, mark, st)
      | Inr entries \<Rightarrow>
          if entries = [] then Some (True, mark, st)
          else case tail_batch cancelled flt entries mark False st of
                 (None, mark', st') \<Rightarrow> Some (False, mark', st')
               | (Some stalled, mark', st') \<Rightarrow>
                   if stalled \<or> int (length entries) < cachePurgeBatch then Some (True, mark', st')
                   else purge_tail (\<lambda>k. cancelled (length entries + k)) (later 1 dbf) (later (length entries) flt) s mark' st')"

definition must_reconcile :: "time \<Rightarrow> bool \<Rightarrow> sweeper \<Rightarrow> bool" where
  "must_reconcile now privateNow w \<longleftrightarrow>
     (case w_lastReconcile w of
        None \<Rightarrow> True
      | Some t \<Rightarrow> (w_privateAllowed w \<and> \<not> privateNow) \<or> cacheReconcileInterval \<le> now - t)"

text \<open>The tail of the log, then the hourly prune on a writer. Fault plans: \<open>dbf\<close> the database,
  \<open>flt\<close> the unlinks, \<open>prune_flt\<close> the prune statement.\<close>

definition consume_tail ::
  "(nat \<Rightarrow> bool) \<Rightarrow> time \<Rightarrow> faults \<Rightarrow> faults \<Rightarrow> faults \<Rightarrow> bool \<Rightarrow> db \<Rightarrow> sweeper \<Rightarrow> store \<Rightarrow> (db \<times> sweeper \<times> store) option" where
  "consume_tail cancelled now dbf flt prune_flt privateNow s w st =
     purge_tail cancelled dbf flt s (w_lastPurgeID w) st \<bind> (\<lambda>(finished, mark, st').
       let w1 = w\<lparr>w_privateAllowed := privateNow, w_lastPurgeID := mark\<rparr>
       in if \<not> finished then Some (s, w1, st')
          else if w_pruneLog w1 \<and> (case w_lastPrune w1 of None \<Rightarrow> True | Some t \<Rightarrow> 3600 \<le> now - t)
               then Some (snd (PrunePurgeLog prune_flt (now - cachePurgeLogRetention) s), w1\<lparr>w_lastPrune := Some now\<rparr>, st')
               else Some (s, w1, st'))"

definition propagatePurges ::
  "(nat \<Rightarrow> bool) \<Rightarrow> time \<Rightarrow> (string \<Rightarrow> string option) \<Rightarrow> faults \<Rightarrow> faults \<Rightarrow> faults \<Rightarrow> faults \<Rightarrow> faults \<Rightarrow>
   db \<Rightarrow> sweeper \<Rightarrow> store \<Rightarrow> (db \<times> sweeper \<times> store) option" where
  "propagatePurges cancelled now get rdbf rflt dbf flt prune_flt s w st =
     (let privateNow = bool_setting (get ''download_cache_private'') False
      in if \<not> must_reconcile now privateNow w
         then consume_tail cancelled now dbf flt prune_flt privateNow s w st
         else case reconcile cancelled rdbf rflt privateNow s w st of
                (Inl e, w1, st1) \<Rightarrow> Some (s, w1, st1)
              | (Inr clean, w1, st1) \<Rightarrow>
                  consume_tail cancelled now dbf flt prune_flt privateNow s
                    (if clean then w1\<lparr>w_lastReconcile := Some now\<rparr> else w1) st1)"

section \<open>The sweep\<close>

definition emitStats :: "sweeper \<Rightarrow> store \<Rightarrow> sweeper" where
  "emitStats w st = (if Metrics_Snapshot st = w_lastStats w then w else w\<lparr>w_lastStats := Metrics_Snapshot st\<rparr>)"

definition sweep ::
  "(nat \<Rightarrow> nat \<Rightarrow> bool) \<Rightarrow> time \<Rightarrow> (string \<Rightarrow> string option) \<Rightarrow> int option \<Rightarrow> (nat \<Rightarrow> (nat \<times> nat) option) \<Rightarrow> (nat \<Rightarrow> faults) \<Rightarrow>
   db \<Rightarrow> sweeper \<Rightarrow> store \<Rightarrow> (db \<times> sweeper \<times> store) option" where
  "sweep cancelled now get override usage flts s w st =
     propagatePurges (cancelled 0) now get (flts 0) (flts 1) (flts 2) (flts 3) (flts 4) s w st \<bind> (\<lambda>(s1, w1, st1).
     (if 0 < fst (Store_Stats st1)
      then sweepDiskPressure (cancelled 1) usage (flts 5) w1 st1 \<bind> (\<lambda>st2.
           (let secs = int_setting (get ''download_cache_inactive_secs'') 0 0 315360000
            in if 0 < secs then sweepInactive (cancelled 2) (now - secs) (flts 6) w1 st2 else Some st2) \<bind> (\<lambda>st3.
           sweepBudget (cancelled 3) get override (flts 7) w1 st3))
      else Some st1) \<bind> (\<lambda>st4. Some (s1, emitStats w1 st4, st4)))"

section \<open>What the eviction passes need from the store\<close>

locale evictable =
  fixes ok :: "'s \<Rightarrow> bool"
    and count :: "'s \<Rightarrow> nat"
    and snapshot :: "int \<Rightarrow> 's \<Rightarrow> 'v list"
    and take_out :: "faults \<Rightarrow> 'v \<Rightarrow> 's \<Rightarrow> bool \<times> 's"
    and size_of :: "'v \<Rightarrow> int"
    and current :: "'v \<Rightarrow> 's \<Rightarrow> bool"
  assumes out_ok: "ok s \<Longrightarrow> take_out flt v s = (b, s') \<Longrightarrow> ok s'"
    and out_kept: "ok s \<Longrightarrow> take_out flt v s = (False, s') \<Longrightarrow> s' = s"
    and out_count: "ok s \<Longrightarrow> take_out flt v s = (True, s') \<Longrightarrow> count s' < count s"
    and out_first: "ok s \<Longrightarrow> snapshot n s = v # vs \<Longrightarrow> \<not> flt 0 \<Longrightarrow> fst (take_out flt v s)"
    and snapshot_current: "ok s \<Longrightarrow> v \<in> set (snapshot n s) \<Longrightarrow> current v s"
    and out_current: "ok s \<Longrightarrow> current v s \<Longrightarrow> current v (snd (take_out flt u s))"
    and snapshot_nonempty: "ok s \<Longrightarrow> 0 < n \<Longrightarrow> 0 < count s \<Longrightarrow> snapshot n s \<noteq> []"
begin

lemma victims_progress:
  assumes "ok s" and "evict_victims take_out stop size_of flt vs s acc = (acc', s')"
  shows "ok s' \<and> fst acc \<le> fst acc' \<and> count s' + fst acc' \<le> count s + fst acc \<and> (fst acc' = fst acc \<longrightarrow> s' = s)"
  using assms
proof (induction vs arbitrary: flt s acc)
  case (Cons v vs)
  show ?case
  proof (cases "stop v s")
    case True
    then show ?thesis using Cons.prems by simp
  next
    case False
    obtain b s1 where b: "take_out flt v s = (b, s1)" by fastforce
    let ?acc = "if b then (fst acc + 1, snd acc + size_of v) else acc"
    have r: "evict_victims take_out stop size_of (later 1 flt) vs s1 ?acc = (acc', s')"
      using Cons.prems(2) False b by simp
    have ok1: "ok s1" using out_ok [OF Cons.prems(1) b] .
    have "b \<Longrightarrow> count s1 < count s" "\<not> b \<Longrightarrow> s1 = s"
      using out_count [OF Cons.prems(1)] out_kept [OF Cons.prems(1)] b by auto
    then show ?thesis
      using Cons.IH [OF ok1 r] by (cases b) auto
  qed
qed simp

lemma victims_keep:
  assumes "ok s" and "\<forall>v \<in> set vs. current v s" and "P s"
    and "\<And>flt v s. ok s \<Longrightarrow> current v s \<Longrightarrow> P s \<Longrightarrow> \<not> stop v s \<Longrightarrow> P (snd (take_out flt v s))"
  shows "P (snd (evict_victims take_out stop size_of flt vs s acc))"
  using assms(1-3)
proof (induction vs arbitrary: flt s acc)
  case (Cons v vs)
  obtain b s1 where b: "take_out flt v s = (b, s1)" by fastforce
  have "P s1" if "\<not> stop v s" using assms(4) [of s v flt] Cons.prems that b by simp
  moreover have "\<forall>u \<in> set vs. current u s1"
    using out_current [OF Cons.prems(1), of _ flt v] Cons.prems(2) b by simp
  ultimately show ?case
    using Cons.IH [of s1] Cons.prems out_ok [OF Cons.prems(1) b] b by simp
qed simp

text \<open>The loop of a pass always returns, whatever fails; it keeps what every admissible removal keeps;
  and without faults it ends only when the pass is over or nothing is left for it.\<close>

lemma loop_returns:
  assumes "ok s"
  shows "\<exists>acc' s'. evict_loop halt (\<lambda>flt s. evict_victims take_out stop size_of flt (snapshot n s) s (0, 0))
                   stride i flt s acc = Some (acc', s')"
  using assms
proof (induction "count s" arbitrary: i flt s acc rule: less_induct)
  case less
  let ?batch = "\<lambda>flt s. evict_victims take_out stop size_of flt (snapshot n s) s (0, 0)"
  obtain nb s1 where b: "?batch flt s = (nb, s1)" by fastforce
  have p: "ok s1 \<and> count s1 + fst nb \<le> count s" using victims_progress [OF less.prems b] by simp
  show ?case
  proof (cases "halt i s \<or> fst nb = 0")
    case True
    then show ?thesis using b by (auto simp: evict_loop.simps [of halt ?batch])
  next
    case False
    then have "count s1 < count s" using p by linarith
    from less.hyps [OF this] p False b show ?thesis
      by (simp add: evict_loop.simps [of halt ?batch stride i flt s acc])
  qed
qed

lemma loop_result:
  assumes "ok s" and "P s"
    and "\<And>flt v s. ok s \<Longrightarrow> current v s \<Longrightarrow> P s \<Longrightarrow> \<not> stop v s \<Longrightarrow> P (snd (take_out flt v s))"
    and "evict_loop halt (\<lambda>flt s. evict_victims take_out stop size_of flt (snapshot n s) s (0, 0))
           stride i flt s acc = Some (acc', s')"
  shows "ok s' \<and> P s' \<and>
         (flt = no_faults \<longrightarrow> (\<exists>j. halt j s') \<or> snapshot n s' = [] \<or> stop (hd (snapshot n s')) s')"
  using assms(1,2,4)
proof (induction "count s" arbitrary: i flt s acc rule: less_induct)
  case less
  let ?batch = "\<lambda>flt s. evict_victims take_out stop size_of flt (snapshot n s) s (0, 0)"
  obtain nb s1 where b: "?batch flt s = (nb, s1)" by fastforce
  have p: "ok s1 \<and> count s1 + fst nb \<le> count s \<and> (fst nb = 0 \<longrightarrow> s1 = s)"
    using victims_progress [OF less.prems(1) b] by simp
  have "P s1"
    using victims_keep [where P = P and stop = stop and vs = "snapshot n s" and flt = flt and acc = "(0, 0)",
        OF less.prems(1) _ less.prems(2) assms(3)] snapshot_current [OF less.prems(1)] b by simp
  consider (over) "halt i s" | (stuck) "\<not> halt i s" "fst nb = 0" | (go) "\<not> halt i s" "fst nb \<noteq> 0" by blast
  then show ?case
  proof cases
    case over
    then show ?thesis using less.prems by (auto simp: evict_loop.simps [of halt ?batch])
  next
    case stuck
    have s': "s' = s" using stuck less.prems(3) b p by (auto simp: evict_loop.simps [of halt ?batch])
    have "stop v s" if "flt = no_faults" "snapshot n s = v # vs" for v vs
    proof (rule ccontr)
      assume ns: "\<not> stop v s"
      obtain c s2 where c: "take_out flt v s = (c, s2)" by fastforce
      then have "c" using out_first [OF less.prems(1) that(2), of flt] that(1) by simp
      then have "evict_victims take_out stop size_of (later 1 flt) vs s2 (1, size_of v) = (nb, s1)"
        using b c ns that(2) by simp
      then have "1 \<le> fst nb" using victims_progress [OF out_ok [OF less.prems(1) c]] by fastforce
      then show False using stuck by simp
    qed
    then show ?thesis using less.prems s' by (cases "snapshot n s") auto
  next
    case go
    then have lt: "count s1 < count s" using p by linarith
    have "evict_loop halt ?batch stride (Suc i) (later stride flt) s1 (fst acc + fst nb, snd acc + snd nb) = Some (acc', s')"
      using less.prems(3) go b by (simp add: evict_loop.simps [of halt ?batch stride i flt s acc])
    from less.hyps [OF lt _ \<open>P s1\<close> this] p show ?thesis by auto
  qed
qed

end

section \<open>The store is evictable\<close>

definition current_victim :: "victim \<Rightarrow> store \<Rightarrow> bool" where
  "current_victim v st \<longleftrightarrow>
     (\<forall>e. entry_of st (v_key v) = Some e \<and> e_gen e = v_gen v \<longrightarrow> e_size e = v_size v \<and> e_access e = v_access v)"

lemma removed_key_length:
  assumes "store_ok st" and "removed_key k st st1" and "entry_of st k = Some e"
  shows "length (s_entries st1) < length (s_entries st)"
proof -
  have "(k, e) \<in> set (s_entries st)" using assms entry_of_iff by blast
  then have "length (del k (s_entries st)) < length (s_entries st)"
    unfolding del_def by (intro length_filter_less) auto
  then show ?thesis using assms(2) by (simp add: removed_key_def)
qed

lemma Oldest_order:
  "Oldest n st = [] \<longleftrightarrow> s_entries st = [] \<or> n = 0"
  unfolding Oldest_def Let_def by (cases "s_entries st") (auto simp: order_asc_Nil)

interpretation ev: evictable store_ok "\<lambda>st. length (s_entries st)" Oldest drop_victim v_size current_victim
proof unfold_locales
  fix st st' :: store and v u :: victim and flt :: faults and n :: int and b and vs
  show "store_ok st'" if "store_ok st" "drop_victim flt v st = (b, st')"
    using store_ok_DropGen [OF that(1), of flt "v_key v" "v_gen v"] that(2) by (simp add: drop_victim_def)
  show "st' = st" if "store_ok st" "drop_victim flt v st = (False, st')"
    using that by (cases rule: DropGen_cases [of st flt "v_key v" "v_gen v"]) (auto simp: drop_victim_def)
  show "length (s_entries st') < length (s_entries st)" if "store_ok st" "drop_victim flt v st = (True, st')"
    using that removed_key_length [OF that(1)]
    by (cases rule: DropGen_cases [of st flt "v_key v" "v_gen v"]) (auto simp: drop_victim_def)
  show "fst (drop_victim flt v st)" if ok: "store_ok st" and o: "Oldest n st = v # vs" and nf: "\<not> flt 0"
  proof -
    obtain e where "entry_of st (v_key v) = Some e" "e_gen e = v_gen v"
      using Oldest_entry [of v n st] o entry_of_iff [OF ok] by auto
    then show ?thesis
      using nf by (simp add: drop_victim_def DropGen_def unlinkLocked_def Let_def split: if_splits)
  qed
  show "current_victim v st" if ok: "store_ok st" and o: "v \<in> set (Oldest n st)"
  proof -
    obtain e where "entry_of st (v_key v) = Some e" "e_size e = v_size v" "e_access e = v_access v"
      using Oldest_entry [OF o] entry_of_iff [OF ok] by auto
    then show ?thesis by (simp add: current_victim_def)
  qed
  show "current_victim v (snd (drop_victim flt u st))" if ok: "store_ok st" and c: "current_victim v st"
    using ok
  proof (cases rule: DropGen_cases [of st flt "v_key u" "v_gen u"])
    case kept
    then show ?thesis using c by (simp add: drop_victim_def)
  next
    case (gone e st1)
    then show ?thesis
      using c removed_key_entry [OF gone(4), of "v_key v"] removed_key_gone [OF gone(4)]
      by (cases "v_key v = v_key u") (auto simp: drop_victim_def current_victim_def)
  qed
  show "Oldest n st \<noteq> []" if "store_ok st" "0 < n" "0 < length (s_entries st)"
    using that Oldest_order by auto
qed

section \<open>The eviction passes\<close>

lemma counts_fields [simp]:
  "s_entries (count_budget nb st) = s_entries st" "s_bytes (count_budget nb st) = s_bytes st"
  "s_entries (count_inactive nb st) = s_entries st" "s_bytes (count_inactive nb st) = s_bytes st"
  "s_entries (count_pressure nb st) = s_entries st" "s_bytes (count_pressure nb st) = s_bytes st"
  "store_ok (count_budget nb st) = store_ok st" "store_ok (count_inactive nb st) = store_ok st"
  "store_ok (count_pressure nb st) = store_ok st"
  by (simp_all add: count_budget_def count_inactive_def count_pressure_def store_ok_def)

lemma evictBatch_eta: "evictBatch n c = (\<lambda>flt st. evict_victims drop_victim (fresh_victim c) v_size flt (Oldest n st) st (0, 0))"
  by (simp add: evictBatch_def fun_eq_iff)

lemma evictBatchToBytes_eta:
  "evictBatchToBytes n t = (\<lambda>flt st. evict_victims drop_victim (fits_target t) v_size flt (Oldest n st) st (0, 0))"
  by (simp add: evictBatchToBytes_def fun_eq_iff)

lemma quot_budget: "0 \<le> b \<Longrightarrow> quot b 2 = b div 2" "0 \<le> b \<Longrightarrow> quot b 10 = b div 10"
  by (simp_all add: quot_nonneg)

lemma sweep_target_bounds:
  assumes "0 \<le> budget"
  shows "0 \<le> sweep_target budget m \<and> budget \<le> 2 * sweep_target budget m \<and>
         (0 \<le> m \<longrightarrow> sweep_target budget m \<le> budget) \<and> (2 * m \<le> budget \<longrightarrow> sweep_target budget m + m \<le> budget)"
  using assms by (simp add: sweep_target_def quot_budget Let_def) linarith

text \<open>C38: the budget pass always returns. When no unlink fails and it is not cancelled, it leaves the
  cache at or below its target, which keeps at least half of the budget in use and, for objects of
  at most half the budget, room to admit a largest object again.\<close>

theorem budget_sweep_restores_headroom:
  assumes "store_ok st" and "0 < w_batch w"
    and "budget = DownloadCacheBudget override (int_setting (get ''download_cache_max_bytes'') 0 0 (2 ^ 50))"
    and "maxObject = int_setting (get ''download_cache_max_object_bytes'') (64 * 2 ^ 20) 1 (2 ^ 40)"
    and "0 \<le> budget"
  shows "\<exists>st'. sweepBudget cancelled get override flt w st = Some st' \<and> store_ok st' \<and>
           (flt = no_faults \<and> cancelled = (\<lambda>_. False) \<longrightarrow>
              s_bytes st' \<le> sweep_target budget maxObject \<and> s_bytes st' \<le> budget \<and>
              (2 * maxObject \<le> budget \<longrightarrow> s_bytes st' + maxObject \<le> budget))"
proof -
  let ?t = "sweep_target budget maxObject"
  let ?halt = "\<lambda>i st. cancelled i \<or> s_bytes st \<le> ?t"
  have t: "0 \<le> ?t" using sweep_target_bounds [OF assms(5)] by blast
  have m: "1 \<le> maxObject"
    using int_setting_bounds [of "get ''download_cache_max_object_bytes''" "64 * 2 ^ 20" 1 "2 ^ 40"] assms(4) by auto
  obtain acc st1 where r: "evict_loop ?halt (evictBatchToBytes (w_batch w) ?t) (nat (w_batch w)) 0 flt st (0, 0) = Some (acc, st1)"
    unfolding evictBatchToBytes_eta using ev.loop_returns [OF assms(1)] by blast
  then have s: "sweepBudget cancelled get override flt w st = Some (count_budget acc st1)"
    unfolding sweepBudget_def Let_def assms(3) [symmetric] assms(4) [symmetric] by simp
  have res: "store_ok st1 \<and> True \<and> (flt = no_faults \<longrightarrow> (\<exists>j. ?halt j st1) \<or> Oldest (w_batch w) st1 = [] \<or>
      fits_target ?t (hd (Oldest (w_batch w) st1)) st1)"
    using ev.loop_result [where P = "\<lambda>_. True", OF assms(1) _ _ r [unfolded evictBatchToBytes_eta]] by blast
  have "s_bytes st1 \<le> ?t" if "flt = no_faults" "cancelled = (\<lambda>_. False)"
  proof -
    have "s_bytes st1 = 0" if "Oldest (w_batch w) st1 = []"
      using that assms(2) res Oldest_order by (auto simp: store_ok_def entry_sizes_def)
    then show ?thesis using res that t by (auto simp: fits_target_def)
  qed
  then show ?thesis
    using s res sweep_target_bounds [OF assms(5), of maxObject] m
    by (intro exI [of _ "count_budget acc st1"]) auto
qed

theorem budget_sweep_restores_headroom_witness:
  "\<exists>st'. sweepBudget (\<lambda>_. False) (\<lambda>_. None) (Some 10) no_faults (NewCacheSweepWorker False) sample_filled = Some st' \<and>
         s_bytes st' \<le> 5"
proof -
  have "int_setting None (64 * 2 ^ 20) 1 (2 ^ 40) = 67108864" by (simp add: int_setting_def)
  moreover have "sweep_target 10 67108864 = 5" by (simp add: sweep_target_def quot_nonneg)
  ultimately show ?thesis
    using budget_sweep_restores_headroom [OF sample_filled_ok, of "NewCacheSweepWorker False" 10 "Some 10" "\<lambda>_. None"
        "67108864" "\<lambda>_. False" no_faults]
    by (auto simp: NewCacheSweepWorker_def cacheSweepBatch_def DownloadCacheBudget_def)
qed

lemma Oldest_hd_least:
  assumes "store_ok st" and "(k, e) \<in> set (s_entries st)" and "0 < n"
  shows "Oldest n st \<noteq> [] \<and> v_access (hd (Oldest n st)) \<le> e_access e"
proof -
  let ?all = "map (\<lambda>(k, e). \<lparr>v_key = k, v_gen = e_gen e, v_size = e_size e, v_access = e_access e\<rparr>) (s_entries st)"
  have m: "\<lparr>v_key = k, v_gen = e_gen e, v_size = e_size e, v_access = e_access e\<rparr> \<in> set ?all"
    using assms(2) by force
  then obtain v vs where v: "order_asc v_access ?all = v # vs"
    by (cases "order_asc v_access ?all") (auto simp: order_asc_Nil)
  then have "v_access v \<le> e_access e"
    using order_asc_Cons_min(2) [OF v m] by simp
  moreover have "Oldest n st = v # vs \<or> (\<exists>us. Oldest n st = v # us)"
    using assms(3) v by (cases "nat n") (auto simp: Oldest_def Let_def)
  ultimately show ?thesis by auto
qed

text \<open>The inactivity pass always returns; entries accessed at or after the cutoff keep their place and
  nothing is added; when no unlink fails and it is not cancelled, no entry older than the cutoff
  remains.\<close>

theorem inactive_sweep_exact:
  assumes "store_ok st" and "0 < w_batch w"
  shows "\<exists>st'. sweepInactive cancelled cutoff flt w st = Some st' \<and> store_ok st' \<and>
           (\<forall>k e. entry_of st' k = Some e \<longrightarrow> entry_of st k = Some e) \<and>
           (\<forall>k e. entry_of st k = Some e \<and> cutoff \<le> e_access e \<longrightarrow> entry_of st' k = Some e) \<and>
           (flt = no_faults \<and> cancelled = (\<lambda>_. False) \<longrightarrow>
              (\<forall>k e. entry_of st' k = Some e \<longrightarrow> cutoff \<le> e_access e))"
proof -
  let ?P = "\<lambda>st'. (\<forall>k e. entry_of st' k = Some e \<longrightarrow> entry_of st k = Some e) \<and>
           (\<forall>k e. entry_of st k = Some e \<and> cutoff \<le> e_access e \<longrightarrow> entry_of st' k = Some e)"
  obtain acc st1 where r: "evict_loop (\<lambda>i st. cancelled i) (evictBatch (w_batch w) (Some cutoff)) (nat (w_batch w)) 0 flt st (0, 0)
      = Some (acc, st1)"
    unfolding evictBatch_eta using ev.loop_returns [OF assms(1)] by blast
  have keep: "?P (snd (drop_victim flt v s))"
    if "store_ok s" "current_victim v s" "?P s" "\<not> fresh_victim (Some cutoff) v s" for flt v s
    using that(1)
  proof (cases rule: DropGen_cases [of s flt "v_key v" "v_gen v"])
    case kept
    show ?thesis unfolding drop_victim_def kept snd_conv by (rule that(3))
  next
    case (gone e s1)
    have "e_access e < cutoff"
      using that(2,4) gone(2,3) by (auto simp: current_victim_def fresh_victim_def)
    moreover have p1: "\<And>k e. entry_of s k = Some e \<Longrightarrow> entry_of st k = Some e"
      and p2: "\<And>k e. entry_of st k = Some e \<Longrightarrow> cutoff \<le> e_access e \<Longrightarrow> entry_of s k = Some e"
      using that(3) by blast+
    ultimately have ne: "k \<noteq> v_key v" if "entry_of st k = Some e'" "cutoff \<le> e_access e'" for k e'
      using p2 [OF that] gone(2) that(2) by (metis linorder_not_le option.inject)
    have "entry_of s1 k = Some e' \<Longrightarrow> entry_of st k = Some e'" for k e'
      using p1 [of k e'] removed_key_entry [OF gone(4), of k] removed_key_gone [OF gone(4)]
      by (cases "k = v_key v") auto
    moreover have "entry_of s1 k = Some e'" if "entry_of st k = Some e'" "cutoff \<le> e_access e'" for k e'
      using p2 [OF that] removed_key_entry [OF gone(4) ne [OF that]] by simp
    ultimately show ?thesis
      unfolding drop_victim_def gone(1) snd_conv by blast
  qed
  have res: "store_ok st1 \<and> ?P st1 \<and> (flt = no_faults \<longrightarrow> (\<exists>j. cancelled j) \<or> Oldest (w_batch w) st1 = [] \<or>
      fresh_victim (Some cutoff) (hd (Oldest (w_batch w) st1)) st1)"
    by (rule ev.loop_result [where P = ?P, OF assms(1) _ keep r [unfolded evictBatch_eta]]) blast+
  have ok1: "store_ok st1" and fin: "flt = no_faults \<longrightarrow> (\<exists>j. cancelled j) \<or> Oldest (w_batch w) st1 = [] \<or>
      fresh_victim (Some cutoff) (hd (Oldest (w_batch w) st1)) st1" and p: "?P st1"
    using res by blast+
  have old: "cutoff \<le> e_access e" if "flt = no_faults" "cancelled = (\<lambda>_. False)" "entry_of st1 k = Some e" for k e
    using Oldest_hd_least [of st1 k e "w_batch w"] ok1 fin that assms(2) entry_of_iff [of st1 k e]
    by (auto simp: fresh_victim_def)
  have e: "entry_of (count_inactive acc st1) = entry_of st1"
    by (simp add: entry_of_def fun_eq_iff)
  have "sweepInactive cancelled cutoff flt w st = Some (count_inactive acc st1)"
    using r by (simp add: sweepInactive_def)
  moreover have "store_ok (count_inactive acc st1)" using ok1 by simp
  ultimately show ?thesis
    using p old unfolding e [symmetric] by blast
qed

theorem inactive_sweep_exact_witness:
  "\<exists>st'. sweepInactive (\<lambda>_. False) 5 no_faults (NewCacheSweepWorker False) sample_filled = Some st' \<and>
         entry_of st' sample_key = None"
proof -
  have b: "0 < w_batch (NewCacheSweepWorker False)" by (simp add: NewCacheSweepWorker_def cacheSweepBatch_def)
  obtain st' where st': "sweepInactive (\<lambda>_. False) 5 no_faults (NewCacheSweepWorker False) sample_filled = Some st'"
      "\<forall>k e. entry_of st' k = Some e \<longrightarrow> entry_of sample_filled k = Some e"
      "\<forall>k e. entry_of st' k = Some e \<longrightarrow> 5 \<le> e_access e"
    using inactive_sweep_exact [OF sample_filled_ok b, of "\<lambda>_. False" 5 no_faults] by blast
  moreover have "entry_of sample_filled sample_key = Some \<lparr>e_size = 7, e_access = 2, e_gen = 1\<rparr>"
    by (simp add: entry_of_def sample_filled_val)
  ultimately have "entry_of st' sample_key = None"
    by (cases "entry_of st' sample_key") fastforce+
  then show ?thesis using st'(1) by blast
qed

section \<open>Reconciliation\<close>

definition gone_key :: "string \<Rightarrow> store \<Rightarrow> bool" where
  "gone_key k st \<longleftrightarrow> entry_of st k = None \<and> (keyValid k \<longrightarrow> file_at st (cache_path (s_root st) k) = None)"

lemma Drop_no_fault:
  assumes "store_ok st" and "\<not> flt 0"
  shows "fst (Store_Drop flt k st) = None"
  using assms by (auto simp: Store_Drop_def unlinkLocked_def Let_def split: prod.splits option.splits)

lemma Drop_effect:
  assumes "store_ok st" and "Store_Drop flt k st = (r, st')"
  shows "store_ok st'" and "s_root st' = s_root st" and "disk_ok st \<Longrightarrow> disk_ok st'"
    and "entry_of st' j = (if j = k \<and> r = None then None else entry_of st j)"
    and "gone_key j st \<Longrightarrow> gone_key j st'" and "r = None \<Longrightarrow> gone_key k st'"
proof -
  show "store_ok st'" "disk_ok st \<Longrightarrow> disk_ok st'"
    using store_ok_Drop [OF assms(1), of flt k] disk_ok_Drop [OF assms(1), of flt k] assms(2) by auto
  consider "r \<noteq> None" "st' = st" | "r = None" "keyValid k" "removed_key k st st'" |
      "r = None" "st' = st" "\<not> keyValid k"
    using assms by (cases rule: Store_Drop_cases [of st flt k]) auto
  note cs = this
  show root: "s_root st' = s_root st" using cs by cases (auto simp: removed_key_def)
  have inv: "entry_of st k = None" if "\<not> keyValid k"
    using that entry_ofD(1) [OF assms(1)] by (cases "entry_of st k") auto
  show e: "entry_of st' j = (if j = k \<and> r = None then None else entry_of st j)" for j
    using cs by cases (auto simp: inv removed_key_entry removed_key_gone)
  have f: "file_at st p = None \<Longrightarrow> file_at st' p = None" for p
    using cs by cases (auto simp: removed_key_def file_at_def)
  show "gone_key j st \<Longrightarrow> gone_key j st'"
    using e [of j] f root by (auto simp: gone_key_def)
  show "r = None \<Longrightarrow> gone_key k st'"
    using cs inv by cases (auto simp: gone_key_def removed_key_def file_at_def entry_of_def)
qed

lemma reconcile_drops_spec:
  assumes "store_ok st" and "reconcile_drops cancelled flt vis priv vs st n = (r, st')"
  shows "store_ok st' \<and> s_root st' = s_root st \<and> (disk_ok st \<longrightarrow> disk_ok st') \<and>
         (\<forall>k. (\<forall>v \<in> set vs. v_key v = k \<longrightarrow> keep_victim vis priv v) \<longrightarrow> entry_of st' k = entry_of st k) \<and>
         (\<forall>k. gone_key k st \<longrightarrow> gone_key k st') \<and>
         (r = Inr 0 \<longrightarrow> n = 0 \<and> (\<forall>v \<in> set vs. \<not> keep_victim vis priv v \<longrightarrow> gone_key (v_key v) st'))"
  using assms
proof (induction vs arbitrary: cancelled flt st n)
  case (Cons v vs)
  show ?case
  proof (cases "cancelled 0 \<or> keep_victim vis priv v")
    case True
    then show ?thesis
      using Cons.prems Cons.IH [of st] by (cases "cancelled 0") (fastforce simp: if_splits)+
  next
    case False
    obtain e st1 where d: "Store_Drop flt (v_key v) st = (e, st1)" by fastforce
    note D = Drop_effect [OF Cons.prems(1) d]
    have r: "reconcile_drops (\<lambda>k. cancelled (Suc k)) (later 1 flt) vis priv vs st1 (if e = None then n else n + 1) = (r, st')"
      using Cons.prems(2) False d by (auto split: option.splits)
    note IH = Cons.IH [OF D(1) r]
    have "entry_of st' k = entry_of st k" if "\<forall>u \<in> set (v # vs). v_key u = k \<longrightarrow> keep_victim vis priv u" for k
      using that IH D(4) [of k] False by auto
    moreover have "gone_key k st \<Longrightarrow> gone_key k st'" for k using IH D(5) by blast
    moreover have "r = Inr 0 \<Longrightarrow> n = 0 \<and> gone_key (v_key v) st'"
      using IH D(6) by (cases e) auto
    ultimately show ?thesis using IH D(2,3) by auto
  qed
qed auto

lemma reconcile_drops_clean:
  "store_ok st \<Longrightarrow> fst (reconcile_drops (\<lambda>_. False) no_faults vis priv vs st n) = Inr n"
proof (induction vs arbitrary: st)
  case (Cons v vs)
  obtain e st1 where d: "Store_Drop no_faults (v_key v) st = (e, st1)" by fastforce
  then have "e = None" using Drop_no_fault [OF Cons.prems, of no_faults "v_key v"] by simp
  then show ?case using Cons d Drop_effect(1) [OF Cons.prems d] by simp
qed simp

lemma reconcile_store_ok:
  assumes "store_ok st" and "reconcile cancelled dbf flt priv s w st = (r, w', st')"
  shows "store_ok st'"
  using assms reconcile_drops_spec [OF assms(1)]
  by (auto simp: reconcile_def Let_def split: sum.splits prod.splits if_splits)

text \<open>What a reconciliation must leave of the cache: keys of live rows whose visibility allows it.\<close>

definition may_stay :: "db \<Rightarrow> bool \<Rightarrow> string \<Rightarrow> bool" where
  "may_stay s priv k = (case last_visibility s k of None \<Rightarrow> False | Some x \<Rightarrow> x = Public \<or> priv)"

text \<open>A clean reconciliation leaves in the cache exactly the keys of live upload rows, private ones
  only under the opt-in; what it removes is gone from index and disk. It is clean whenever nothing
  fails, and then moves the mark to the end of the purge log.\<close>

theorem reconcile_leaves_only_live_keys:
  assumes "store_ok st" and "reconcile cancelled dbf flt priv s w st = (r, w', st')"
  shows "store_ok st' \<and>
         (r = Inr True \<and> dbf = no_faults \<longrightarrow>
            (\<forall>k. entry_of st' k = (if may_stay s priv k then entry_of st k else None)) \<and>
            (\<forall>k. entry_of st k \<noteq> None \<and> \<not> may_stay s priv k \<longrightarrow> gone_key k st') \<and>
            w_lastPurgeID w' = max_id (map p_id (purge_log s))) \<and>
         (cancelled = (\<lambda>_. False) \<and> dbf = no_faults \<and> flt = no_faults \<longrightarrow> r = Inr True)"
proof -
  let ?vs = "Oldest (fst (Store_Stats st)) st" and ?vis = "\<lambda>ks k. if k \<in> set ks then last_visibility s k else None"
  have vs: "(\<exists>v \<in> set ?vs. v_key v = k) \<longleftrightarrow> entry_of st k \<noteq> None" for k
    by (force simp: Oldest_def Store_Stats_def entry_of_def map_of_eq_None_iff image_iff)
  have keep: "keep_victim (?vis (map v_key ?vs)) priv v \<longleftrightarrow> may_stay s priv (v_key v)" if "v \<in> set ?vs" for v
    using that by (auto simp: keep_victim_def may_stay_def split: option.splits)
  show ?thesis
  proof (cases "fst (Store_Stats st) = 0")
    case True
    then have "s_entries st = []" by (simp add: Store_Stats_def)
    then show ?thesis
      using assms True by (auto simp: reconcile_def MaxPurgeLogID_def entry_of_def split: if_splits)
  next
    case False
    show ?thesis
    proof (cases "dbf = no_faults")
      case nf: True
      obtain q st1 where q: "reconcile_drops cancelled flt (?vis (map v_key ?vs)) priv ?vs st 0 = (q, st1)" by fastforce
      note S = reconcile_drops_spec [OF assms(1) q]
      have r: "(r, w', st') = (case q of Inl e \<Rightarrow> (Inl e, w, st1)
          | Inr stuck \<Rightarrow> (Inr (stuck = 0), w\<lparr>w_lastPurgeID := max_id (map p_id (purge_log s))\<rparr>, st1))"
        using assms(2) False q nf
        by (simp add: reconcile_def MaxPurgeLogID_def cache_key_visibility_lookup Let_def split: sum.splits)
      have "entry_of st1 k = (if may_stay s priv k then entry_of st k else None)" if "q = Inr 0" for k
        using S that keep vs [of k] by (cases "entry_of st k") (auto simp: gone_key_def)
      moreover have "gone_key k st1" if "q = Inr 0" "entry_of st k \<noteq> None" "\<not> may_stay s priv k" for k
        using S that keep vs [of k] by auto
      moreover have "q = Inr 0" if "cancelled = (\<lambda>_. False)" "flt = no_faults"
        using reconcile_drops_clean [OF assms(1)] q that by (metis fst_conv)
      ultimately show ?thesis using r S by (auto split: sum.splits)
    next
      case df: False
      have "store_ok st'"
        using assms False reconcile_drops_spec [OF assms(1)]
        by (auto simp: reconcile_def Let_def split: sum.splits prod.splits)
      then show ?thesis using df by simp
    qed
  qed
qed

theorem reconcile_leaves_only_live_keys_witness:
  "\<exists>w' st'. reconcile (\<lambda>_. False) no_faults no_faults True empty_db (NewCacheSweepWorker False) sample_filled = (Inr True, w', st') \<and>
            entry_of st' sample_key = None"
proof -
  obtain r w' st' where e: "reconcile (\<lambda>_. False) no_faults no_faults True empty_db (NewCacheSweepWorker False) sample_filled = (r, w', st')"
    by (cases "reconcile (\<lambda>_. False) no_faults no_faults True empty_db (NewCacheSweepWorker False) sample_filled") auto
  have "\<not> may_stay empty_db True sample_key"
    by (simp add: may_stay_def last_visibility_def empty_db_def)
  then show ?thesis
    using reconcile_leaves_only_live_keys [OF sample_filled_ok e] e by auto
qed

section \<open>The purge-log tail\<close>

lemma tail_batch_spec:
  assumes "store_ok st" and "tail_batch cancelled flt es mark stalled st = (r, mark', st')"
  shows "store_ok st' \<and> s_root st' = s_root st \<and> (\<forall>k. gone_key k st \<longrightarrow> gone_key k st') \<and>
         (stalled \<longrightarrow> mark' = mark \<and> r \<noteq> Some False) \<and>
         (\<not> stalled \<longrightarrow> (\<exists>front rest. es = front @ rest \<and> (\<forall>x \<in> set front. gone_key (snd x) st') \<and>
            mark' = (if front = [] then mark else fst (last front)) \<and> (r = Some False \<longrightarrow> rest = []))) \<and>
         (cancelled = (\<lambda>_. False) \<and> flt = no_faults \<longrightarrow> r = Some stalled)"
  using assms
proof (induction es arbitrary: cancelled flt mark stalled st)
  case (Cons x es)
  obtain i k where x: "x = (i, k)" by fastforce
  show ?case
  proof (cases "cancelled 0")
    case True
    then have "r = None" "mark' = mark" "st' = st" using Cons.prems(2) by (auto simp: x)
    then show ?thesis using Cons.prems(1) True by (auto intro!: exI [of _ "[]"])
  next
    case False
    obtain e st1 where d: "Store_Drop flt k st = (e, st1)" by fastforce
    note D = Drop_effect [OF Cons.prems(1) d]
    let ?m = "if e = None \<and> \<not> stalled then i else mark" and ?s = "stalled \<or> e \<noteq> None"
    have t: "tail_batch (\<lambda>k. cancelled (Suc k)) (later 1 flt) es ?m ?s st1 = (r, mark', st')"
      using Cons.prems(2) False d by (cases e; cases stalled) (simp_all add: x)
    note IH = Cons.IH [OF D(1) t]
    have g: "gone_key j st \<Longrightarrow> gone_key j st'" for j using IH D(5) by blast
    have ok: "store_ok st' \<and> s_root st' = s_root st" using IH D(2) by simp
    have nf: "r = Some stalled" if "cancelled = (\<lambda>_. False) \<and> flt = no_faults"
      using IH that Drop_no_fault [OF Cons.prems(1), of flt k] d by simp
    show ?thesis
    proof (cases ?s)
      case True
      then have m: "mark' = ?m" "r \<noteq> Some False" using IH by auto
      show ?thesis
      proof (cases stalled)
        case True
        then show ?thesis using m ok g nf by auto
      next
        case ns: False
        then have "mark' = mark" using True m by auto
        then show ?thesis using ns m ok g nf by (auto intro!: exI [of _ "[]"])
      qed
    next
      case ns: False
      then have "?m = i" by simp
      moreover have "\<exists>front rest. es = front @ rest \<and> (\<forall>x \<in> set front. gone_key (snd x) st') \<and>
          mark' = (if front = [] then ?m else fst (last front)) \<and> (r = Some False \<longrightarrow> rest = [])"
        using IH ns by blast
      ultimately obtain front rest where f: "es = front @ rest" "\<forall>x \<in> set front. gone_key (snd x) st'"
          "mark' = (if front = [] then i else fst (last front))" "r = Some False \<longrightarrow> rest = []"
        by metis
      have "gone_key k st'" using D(6) IH ns by blast
      then have "\<exists>front rest. x # es = front @ rest \<and> (\<forall>x \<in> set front. gone_key (snd x) st') \<and>
          mark' = (if front = [] then mark else fst (last front)) \<and> (r = Some False \<longrightarrow> rest = [])"
        using f by (intro exI [of _ "x # front"] exI [of _ rest]) (auto simp: x)
      then show ?thesis using ns ok g nf by simp
    qed
  qed
qed (auto intro!: exI [of _ "[]"])

text \<open>The rows above the mark, in id order.\<close>

definition rows_above :: "int \<Rightarrow> db \<Rightarrow> purge_row list" where
  "rows_above mark s = order_asc p_id (filter (\<lambda>p. mark < p_id p) (purge_log s))"

lemma rows_above_sorted:
  assumes "db_ok s"
  shows "sorted_wrt (\<lambda>a b. p_id a < p_id b) (rows_above mark s)"
proof -
  let ?xs = "filter (\<lambda>p. mark < p_id p) (purge_log s)"
  have "distinct (map p_id (sort_key p_id ?xs))"
    using assms by (simp add: distinct_map db_ok_def keyed_def inj_on_def)
  then show ?thesis
    using sorted_sort_key [of p_id ?xs] strict_sorted_iff [of "map p_id (sort_key p_id ?xs)"]
    by (simp add: rows_above_def order_asc_def sorted_wrt_map)
qed

lemma sorted_prefix_member:
  fixes f :: "'a \<Rightarrow> int"
  assumes "sorted_wrt (\<lambda>a b. f a < f b) (xs @ ys)" and "p \<in> set (xs @ ys)" and "xs \<noteq> []" and "f p \<le> f (last xs)"
  shows "p \<in> set xs"
proof (rule ccontr)
  assume "p \<notin> set xs"
  then have "p \<in> set ys" using assms(2) by simp
  then have "f (last xs) < f p" using assms(1,3) by (simp add: sorted_wrt_append)
  then show False using assms(4) by simp
qed

lemma sorted_wrt_last:
  fixes f :: "'a \<Rightarrow> int"
  shows "sorted_wrt (\<lambda>a b. f a < f b) xs \<Longrightarrow> p \<in> set xs \<Longrightarrow> f p \<le> f (last xs)"
  by (induction xs) (auto intro: less_imp_le)

lemma rows_above_less:
  assumes "p \<in> set (rows_above mark s)" and "p_id p \<le> mark'" and "mark \<le> mark'"
  shows "length (rows_above mark' s) < length (rows_above mark s)"
proof -
  have "filter (\<lambda>p. mark' < p_id p) (filter (\<lambda>p. mark < p_id p) (purge_log s)) = filter (\<lambda>p. mark' < p_id p) (purge_log s)"
    using assms(3) by (auto intro: filter_cong)
  moreover have "length (filter (\<lambda>p. mark' < p_id p) (filter (\<lambda>p. mark < p_id p) (purge_log s)))
      < length (filter (\<lambda>p. mark < p_id p) (purge_log s))"
    using assms(1,2) by (intro length_filter_less [of p]) (auto simp: rows_above_def)
  ultimately show ?thesis by (simp add: rows_above_def)
qed

lemma purge_tail_spec:
  assumes "db_ok s" and "store_ok st"
  shows "\<exists>fin mark' st'. purge_tail cancelled dbf flt s mark st = Some (fin, mark', st') \<and> store_ok st' \<and> mark \<le> mark' \<and>
           (\<forall>k. gone_key k st \<longrightarrow> gone_key k st') \<and>
           (\<forall>p \<in> set (purge_log s). mark < p_id p \<and> p_id p \<le> mark' \<longrightarrow> gone_key (p_key p) st') \<and>
           (cancelled = (\<lambda>_. False) \<and> dbf = no_faults \<and> flt = no_faults \<longrightarrow>
              fin \<and> (\<forall>p \<in> set (purge_log s). p_id p \<le> mark'))"
  using assms(2)
proof (induction "length (rows_above mark s)" arbitrary: cancelled dbf flt mark st rule: less_induct)
  case less
  let ?es = "map (\<lambda>p. (p_id p, p_key p)) (take 500 (rows_above mark s))"
  have pl: "PurgeLogSince dbf mark cachePurgeBatch s = (if dbf 0 then Inl DBError else Inr ?es)"
    by (simp add: PurgeLogSince_def cachePurgeBatch_def limit_offset_def rows_above_def)
  have mem: "p \<in> set (rows_above mark s) \<longleftrightarrow> p \<in> set (purge_log s) \<and> mark < p_id p" for p
    by (auto simp: rows_above_def)
  obtain r mark1 st1 where t: "tail_batch cancelled flt ?es mark False st = (r, mark1, st1)"
    by (cases "tail_batch cancelled flt ?es mark False st") auto
  note T = tail_batch_spec [OF less.prems t]
  obtain front rest where f: "?es = front @ rest" "\<forall>x \<in> set front. gone_key (snd x) st1"
      "mark1 = (if front = [] then mark else fst (last front))" "r = Some False \<longrightarrow> rest = []"
    using T by auto
  define D where "D = take (length front) (take 500 (rows_above mark s))"
  define R where "R = drop (length front) (take 500 (rows_above mark s)) @ drop 500 (rows_above mark s)"
  have front: "front = map (\<lambda>p. (p_id p, p_key p)) D"
  proof -
    have "front = take (length front) ?es" unfolding f(1) by simp
    then show ?thesis by (simp only: D_def take_map)
  qed
  have split: "rows_above mark s = D @ R"
    unfolding D_def R_def by (metis (no_types) append.assoc append_take_drop_id)
  have last: "mark1 = p_id (last D)" "last D \<in> set (rows_above mark s)" if "D \<noteq> []"
  proof -
    have "front \<noteq> []" "fst (last front) = p_id (last D)"
      unfolding front using that by (simp_all only: last_map map_is_Nil_conv fst_conv not_False_eq_True)
    then show "mark1 = p_id (last D)" using f(3) by simp
    show "last D \<in> set (rows_above mark s)"
      using last_in_set [OF that] by (simp add: split)
  qed
  have le: "mark \<le> mark1"
    using last mem f(3) front by (cases "D = []") (auto dest: less_imp_le)
  have cov: "gone_key (p_key p) st1" if "p \<in> set (purge_log s)" "mark < p_id p" "p_id p \<le> mark1" for p
  proof -
    have ne: "D \<noteq> []" using that f(3) front by auto
    have "p \<in> set D"
      by (rule sorted_prefix_member [of p_id _ R])
         (use rows_above_sorted [OF assms(1), of mark] split mem that last ne in auto)
    then show ?thesis using f(2) front by force
  qed
  show ?case
  proof (cases "dbf 0 \<or> ?es = [] \<or> r = None \<or> r = Some True \<or> (r = Some False \<and> int (length ?es) < cachePurgeBatch)")
    case True
    have small: "p_id p \<le> mark" if "?es = []" "p \<in> set (purge_log s)" for p
      using that mem [of p] by (cases "rows_above mark s") auto
    have all: "p_id p \<le> mark1" if "r = Some False" "int (length ?es) < cachePurgeBatch" "p \<in> set (purge_log s)" for p
    proof (cases "mark < p_id p")
      case mp: True
      have "length (rows_above mark s) < 500" using that(2) by (simp add: cachePurgeBatch_def split: if_splits)
      moreover have "rest = []" using f(4) that(1) by simp
      ultimately have d: "D = rows_above mark s"
        using f(1) unfolding D_def by (auto dest!: arg_cong [of _ _ length])
      have "p \<in> set (rows_above mark s)" using mem mp that(3) by simp
      then have "p \<in> set D" "D \<noteq> []" using d by auto
      then have "p_id p \<le> p_id (last D)"
        using rows_above_sorted [OF assms(1), of mark] d
        by (metis sorted_wrt_last)
      then show ?thesis using last(1) \<open>D \<noteq> []\<close> by simp
    qed (use le in simp)
    have nf: "r = Some False" if "cancelled = (\<lambda>_. False)" "flt = no_faults" using T that by simp
    show ?thesis
    proof (cases "dbf 0 \<or> ?es = []")
      case True
      then have "purge_tail cancelled dbf flt s mark st = Some (\<not> dbf 0, mark, st)"
      proof (cases "dbf 0")
        case f: True
        then show ?thesis by (subst purge_tail.simps) (simp add: PurgeLogSince_def)
      next
        case nf: False
        with True have "PurgeLogSince dbf mark cachePurgeBatch s = Inr []" using pl by (simp only: if_False) simp
        with nf show ?thesis by (subst purge_tail.simps) simp
      qed
      then show ?thesis using True less.prems small
        by (intro exI [of _ "\<not> dbf 0"] exI [of _ mark] exI [of _ st]) auto
    next
      case go: False
      have "purge_tail cancelled dbf flt s mark st = Some (r \<noteq> None, mark1, st1)"
        using go True pl t by (cases r) (auto simp: purge_tail.simps [of cancelled dbf flt s mark st])
      moreover have "store_ok st1 \<and> (\<forall>k. gone_key k st \<longrightarrow> gone_key k st1)" using T by blast
      moreover have "r \<noteq> None \<and> (\<forall>p \<in> set (purge_log s). p_id p \<le> mark1)"
        if "cancelled = (\<lambda>_. False) \<and> dbf = no_faults \<and> flt = no_faults"
        using nf that True go all by auto
      ultimately show ?thesis using le cov by blast
    qed
  next
    case False
    then have rF: "r = Some False" and nd: "\<not> dbf 0" and ne: "?es \<noteq> []" and big: "\<not> int (length ?es) < cachePurgeBatch"
      by (cases r; auto)+
    have dn: "D \<noteq> []" using ne f(1,4) rF front by auto
    have lt: "length (rows_above mark1 s) < length (rows_above mark s)"
      using rows_above_less [OF last(2) [OF dn] _ le] last(1) [OF dn] by simp
    have u: "purge_tail cancelled dbf flt s mark st =
        purge_tail (\<lambda>k. cancelled (length ?es + k)) (later 1 dbf) (later (length ?es) flt) s mark1 st1"
      using nd ne big t rF pl by (simp add: purge_tail.simps [of cancelled dbf flt s mark st])
    have ok1: "store_ok st1" using T by simp
    obtain fin mark' st' where R: "purge_tail (\<lambda>k. cancelled (length ?es + k)) (later 1 dbf) (later (length ?es) flt) s mark1 st1
          = Some (fin, mark', st')" "store_ok st'" "mark1 \<le> mark'" "\<forall>k. gone_key k st1 \<longrightarrow> gone_key k st'"
        "\<forall>p \<in> set (purge_log s). mark1 < p_id p \<and> p_id p \<le> mark' \<longrightarrow> gone_key (p_key p) st'"
        "(\<lambda>k. cancelled (length ?es + k)) = (\<lambda>_. False) \<and> later 1 dbf = no_faults \<and> later (length ?es) flt = no_faults \<longrightarrow>
           fin \<and> (\<forall>p \<in> set (purge_log s). p_id p \<le> mark')"
      using less.hyps [OF lt ok1, of "\<lambda>k. cancelled (length ?es + k)" "later 1 dbf" "later (length ?es) flt"] by blast
    have "gone_key (p_key p) st'" if "p \<in> set (purge_log s)" "mark < p_id p" "p_id p \<le> mark'" for p
      using that cov R(4,5) by (cases "p_id p \<le> mark1") auto
    then show ?thesis
      using u R T le by (intro exI [of _ fin] exI [of _ mark'] exI [of _ st']) auto
  qed
qed

lemma consume_tail_of:
  assumes "purge_tail cancelled dbf flt s (w_lastPurgeID w) st = Some (fin, mark, st')"
  shows "\<exists>s' w'. consume_tail cancelled now dbf flt prune_flt priv s w st = Some (s', w', st') \<and> w_lastPurgeID w' = mark"
  using assms
  by (cases fin; cases "w_pruneLog w \<and> (case w_lastPrune w of None \<Rightarrow> True | Some t \<Rightarrow> 3600 \<le> now - t)")
     (simp_all add: consume_tail_def Let_def)

text \<open>Consuming the purge log always returns; the mark it reaches is sound, whatever unlinks or reads
  fail: every key logged above the old mark and up to the new one is gone from index and disk. When
  nothing fails the mark reaches the end of the log, so every deletion logged so far is applied.\<close>

theorem purge_mark_is_sound:
  assumes "db_ok s" and "store_ok st"
  shows "\<exists>s' w' st'. consume_tail cancelled now dbf flt prune_flt priv s w st = Some (s', w', st') \<and>
           w_lastPurgeID w \<le> w_lastPurgeID w' \<and>
           (\<forall>p \<in> set (purge_log s). w_lastPurgeID w < p_id p \<and> p_id p \<le> w_lastPurgeID w' \<longrightarrow> gone_key (p_key p) st') \<and>
           (cancelled = (\<lambda>_. False) \<and> dbf = no_faults \<and> flt = no_faults \<longrightarrow>
              (\<forall>p \<in> set (purge_log s). p_id p \<le> w_lastPurgeID w'))"
proof -
  obtain fin mark st' where t: "purge_tail cancelled dbf flt s (w_lastPurgeID w) st = Some (fin, mark, st')"
      "w_lastPurgeID w \<le> mark"
      "\<forall>p \<in> set (purge_log s). w_lastPurgeID w < p_id p \<and> p_id p \<le> mark \<longrightarrow> gone_key (p_key p) st'"
      "cancelled = (\<lambda>_. False) \<and> dbf = no_faults \<and> flt = no_faults \<longrightarrow> (\<forall>p \<in> set (purge_log s). p_id p \<le> mark)"
    using purge_tail_spec [OF assms, of cancelled dbf flt "w_lastPurgeID w"] by blast
  obtain s' w' where "consume_tail cancelled now dbf flt prune_flt priv s w st = Some (s', w', st')" "w_lastPurgeID w' = mark"
    using consume_tail_of [OF t(1)] by blast
  then show ?thesis using t by auto
qed

definition sample_log :: db where
  "sample_log = empty_db\<lparr>purge_log := [\<lparr>p_id = 1, p_key = sample_key, p_deleted_at = 0\<rparr>], purge_seq := 1\<rparr>"

theorem purge_mark_is_sound_witness:
  "\<exists>s' w' st'. consume_tail (\<lambda>_. False) 100 no_faults no_faults no_faults False sample_log (NewCacheSweepWorker False) sample_filled
      = Some (s', w', st') \<and> gone_key sample_key st'"
proof -
  have ok: "db_ok sample_log"
    by (simp add: db_ok_def sample_log_def empty_db_def keyed_def fk_uploads_def fk_wallets_def)
  have p: "\<lparr>p_id = 1, p_key = sample_key, p_deleted_at = 0\<rparr> \<in> set (purge_log sample_log)" by (simp add: sample_log_def)
  show ?thesis
    using purge_mark_is_sound [OF ok sample_filled_ok, of "\<lambda>_. False" 100 no_faults no_faults no_faults False "NewCacheSweepWorker False"] p
    by (fastforce simp: NewCacheSweepWorker_def)
qed

lemma pass_returns:
  assumes "store_ok st"
  shows "\<exists>st'. sweepDiskPressure cancelled usage flt w st = Some st' \<and> store_ok st'"
    and "\<exists>st'. sweepInactive cancelled cutoff flt w st = Some st' \<and> store_ok st'"
    and "\<exists>st'. sweepBudget cancelled get override flt w st = Some st' \<and> store_ok st'"
proof -
  note R = ev.loop_returns [OF assms] and K = ev.loop_result [where P = "\<lambda>_. True", OF assms TrueI TrueI]
  show "\<exists>st'. sweepDiskPressure cancelled usage flt w st = Some st' \<and> store_ok st'"
    unfolding sweepDiskPressure_def evictBatch_eta
    using R [of "\<lambda>i st. cancelled i \<or> no_pressure (usage i)" "fresh_victim None" "w_batch w" "nat (w_batch w)" 0 flt "(0, 0)"]
      K by fastforce
  show "\<exists>st'. sweepInactive cancelled cutoff flt w st = Some st' \<and> store_ok st'"
    unfolding sweepInactive_def evictBatch_eta
    using R [of "\<lambda>i st. cancelled i" "fresh_victim (Some cutoff)" "w_batch w" "nat (w_batch w)" 0 flt "(0, 0)"] K by fastforce
  let ?t = "sweep_target (DownloadCacheBudget override (int_setting (get ''download_cache_max_bytes'') 0 0 (2 ^ 50)))
      (int_setting (get ''download_cache_max_object_bytes'') (64 * 2 ^ 20) 1 (2 ^ 40))"
  show "\<exists>st'. sweepBudget cancelled get override flt w st = Some st' \<and> store_ok st'"
    unfolding sweepBudget_def Let_def evictBatchToBytes_eta
    using R [of "\<lambda>i st. cancelled i \<or> s_bytes st \<le> ?t" "fits_target ?t" "w_batch w" "nat (w_batch w)" 0 flt "(0, 0)"]
      K by fastforce
qed

lemma propagate_returns:
  assumes "db_ok s" and "store_ok st"
  shows "\<exists>s' w' st'. propagatePurges cancelled now get rdbf rflt dbf flt prune_flt s w st = Some (s', w', st') \<and> store_ok st'"
proof -
  have tail: "\<exists>s' w' st'. consume_tail cancelled now dbf flt prune_flt priv s w1 st1 = Some (s', w', st') \<and> store_ok st'"
    if ok1: "store_ok st1" for priv w1 st1
  proof -
    obtain fin mark st' where t: "purge_tail cancelled dbf flt s (w_lastPurgeID w1) st1 = Some (fin, mark, st')" "store_ok st'"
      using purge_tail_spec [OF assms(1) ok1, of cancelled dbf flt "w_lastPurgeID w1"] by blast
    show ?thesis using consume_tail_of [OF t(1)] t(2) by blast
  qed
  obtain r w1 st1 where r: "reconcile cancelled rdbf rflt (bool_setting (get ''download_cache_private'') False) s w st = (r, w1, st1)"
    by (cases "reconcile cancelled rdbf rflt (bool_setting (get ''download_cache_private'') False) s w st") auto
  have "store_ok st1" using reconcile_store_ok [OF assms(2) r] .
  then show ?thesis
    using r tail assms(2) by (cases r) (simp_all add: propagatePurges_def Let_def)
qed

text \<open>A sweep always returns, whatever fails or is cancelled, and leaves the index consistent.\<close>

theorem sweep_always_returns:
  assumes "db_ok s" and "store_ok st"
  shows "\<exists>s' w' st'. sweep cancelled now get override usage flts s w st = Some (s', w', st') \<and> store_ok st'"
proof -
  obtain s1 w1 st1 where p: "propagatePurges (cancelled 0) now get (flts 0) (flts 1) (flts 2) (flts 3) (flts 4) s w st
      = Some (s1, w1, st1)" "store_ok st1"
    using propagate_returns [OF assms] by blast
  obtain st2 where d: "sweepDiskPressure (cancelled 1) usage (flts 5) w1 st1 = Some st2" "store_ok st2"
    using pass_returns(1) [OF p(2)] by blast
  let ?secs = "int_setting (get ''download_cache_inactive_secs'') 0 0 315360000"
  obtain st3 where i: "(if 0 < ?secs then sweepInactive (cancelled 2) (now - ?secs) (flts 6) w1 st2 else Some st2) = Some st3"
      "store_ok st3"
    using pass_returns(2) [OF d(2), of "cancelled 2" "now - ?secs" "flts 6" w1] d(2) by (cases "0 < ?secs") auto
  obtain st4 where "sweepBudget (cancelled 3) get override (flts 7) w1 st3 = Some st4" "store_ok st4"
    using pass_returns(3) [OF i(2)] by blast
  then show ?thesis
    using p d i by (simp add: sweep_def Let_def)
qed

theorem sweep_always_returns_witness:
  "\<exists>s' w' st'. sweep (\<lambda>_ _. False) 100 (\<lambda>_. None) (Some 10) (\<lambda>_. None) (\<lambda>_. no_faults) empty_db (NewCacheSweepWorker True) sample_filled
     = Some (s', w', st') \<and> store_ok st'"
  using sweep_always_returns [OF db_ok_empty sample_filled_ok] by blast

end
