(* ===== verification/Quota.thy ===== *)
theory Quota
  imports Ledger Numbers
begin

text \<open>
  \<open>internal/services/quota.go\<close>: storage quotas of users, groups, departments and the system. A
  quota names its entity by text; \<open>checkAllTiers\<close> runs the four tier checks inside one
  transaction and the first tier that would be exceeded rejects. \<open>SUM\<close> fails when it leaves the
  64-bit range (SQLite raises an overflow, the Postgres value does not scan), the comparison
  \<open>used+fileSize > maxBytes\<close> wraps as Go's \<open>int64\<close> does. \<open>CAST(entity_id AS INTEGER)\<close> is
  \<open>Atoi\<close>: \<open>validateEntity\<close> admits only numeric ids for groups.

  The check is compared with a reference, \<open>within_limits\<close>, which quantifies over every enabled
  quota that applies to the upload.
\<close>

section \<open>Counting\<close>

definition quotaCompletedStatuses :: "upload_status list" where
  "quotaCompletedStatuses = [Completed, AlreadyStored]"

definition quotaInFlightStatuses :: "upload_status list" where
  "quotaInFlightStatuses = [Completed, AlreadyStored, Processing, Queued]"

text \<open>The sizes each \<open>SELECT COALESCE(SUM(file_size), 0)\<close> adds up; the joins contribute one term per
  joined pair of rows.\<close>

definition counted :: "upload_status list \<Rightarrow> db \<Rightarrow> upload list" where
  "counted statuses s = filter (\<lambda>u. u_status u \<in> set statuses) (uploads s)"

definition user_sizes :: "int \<Rightarrow> upload_status list \<Rightarrow> db \<Rightarrow> int list" where
  "user_sizes userID statuses s = map u_size (filter (\<lambda>u. u_user u = userID) (counted statuses s))"

definition group_sizes :: "int \<Rightarrow> upload_status list \<Rightarrow> db \<Rightarrow> int list" where
  "group_sizes groupID statuses s =
     concat (map (\<lambda>u. map (\<lambda>_. u_size u)
        (filter (\<lambda>gm. snd gm = u_user u \<and> fst gm = groupID) (group_members s))) (counted statuses s))"

definition department_sizes :: "string \<Rightarrow> upload_status list \<Rightarrow> db \<Rightarrow> int list" where
  "department_sizes dept statuses s =
     concat (map (\<lambda>u. map (\<lambda>_. u_size u)
        (filter (\<lambda>t. u_token u = Some (k_id t) \<and> k_department t = Some dept) (api_tokens s))) (counted statuses s))"

definition system_sizes :: "upload_status list \<Rightarrow> db \<Rightarrow> int list" where
  "system_sizes statuses s = map u_size (counted statuses s)"

definition sum_query :: "bool \<Rightarrow> int list \<Rightarrow> error + int" where
  "sum_query fails sizes = (if fails \<or> \<not> is_i64 (sum_list sizes) then Inl DBError else Inr (sum_list sizes))"

section \<open>Management of quotas\<close>

definition int64ToString :: "int \<Rightarrow> string" where
  "int64ToString n =
     (if n = 0 then ''0''
      else let neg = n < 0; m = (if neg then i64 (- n) else n)
           in (if neg then ''-'' else '''') @ (if 0 < m then show_nat (nat m) else ''''))"

definition entityExists :: "bool \<Rightarrow> int list \<Rightarrow> string \<Rightarrow> bool" where
  "entityExists fails ids i = (case Atoi i of None \<Rightarrow> False | Some n \<Rightarrow> \<not> fails \<and> n \<in> set ids)"

definition validateEntity :: "faults \<Rightarrow> string \<Rightarrow> string \<Rightarrow> db \<Rightarrow> error + (string \<times> string)" where
  "validateEntity flt entityType entityID s =
     (if entityType = ''system'' then Inr (entityType, [])
      else if entityType \<in> {''user'', ''group'', ''department''} then
        (if entityID = [] then Inl ErrQuotaEntityRequired
         else if entityType = ''user'' \<and> \<not> entityExists (flt 0) (users s) entityID then Inl ErrQuotaEntityNotFound
         else if entityType = ''group'' \<and> \<not> entityExists (flt 0) (groups s) entityID then Inl ErrQuotaEntityNotFound
         else Inr (entityType, entityID))
      else Inl ErrQuotaInvalidEntityType)"

definition calcUsage :: "faults \<Rightarrow> string \<Rightarrow> string option \<Rightarrow> db \<Rightarrow> int" where
  "calcUsage flt entityType entityID s =
     (let scan = (\<lambda>sizes. case sum_query (flt 0) sizes of Inl _ \<Rightarrow> 0 | Inr n \<Rightarrow> n)
      in if entityType = ''user'' then
           (case entityID of None \<Rightarrow> 0 | Some e \<Rightarrow>
              (case Atoi e of None \<Rightarrow> 0 | Some n \<Rightarrow> scan (user_sizes n quotaCompletedStatuses s)))
         else if entityType = ''group'' then
           (case entityID of None \<Rightarrow> 0 | Some e \<Rightarrow>
              (case Atoi e of None \<Rightarrow> 0 | Some n \<Rightarrow> scan (group_sizes n quotaCompletedStatuses s)))
         else if entityType = ''department'' then
           (case entityID of None \<Rightarrow> 0 | Some e \<Rightarrow> scan (department_sizes e quotaCompletedStatuses s))
         else if entityType = ''system'' then scan (system_sizes quotaCompletedStatuses s)
         else 0)"

text \<open>A quota row with its \<open>UsedBytes\<close>.\<close>

definition with_usage :: "faults \<Rightarrow> db \<Rightarrow> quota \<Rightarrow> quota \<times> int" where
  "with_usage flt s q = (q, calcUsage flt (q_type q) (q_entity q) s)"

definition Quota_GetByID :: "faults \<Rightarrow> int \<Rightarrow> db \<Rightarrow> error + (quota \<times> int)" where
  "Quota_GetByID flt i s =
     (if flt 0 then Inl DBError
      else case find (\<lambda>q. q_id q = i) (quotas s) of
             None \<Rightarrow> Inl ErrQuotaNotFound
           | Some q \<Rightarrow> Inr (with_usage (later 1 flt) s q))"

definition Quota_Create :: "faults \<Rightarrow> time \<Rightarrow> string \<Rightarrow> string \<Rightarrow> int \<Rightarrow> db \<Rightarrow> (error + (quota \<times> int)) \<times> db" where
  "Quota_Create flt now entityType entityID maxBytes s =
     (case validateEntity flt entityType entityID s of
        Inl e \<Rightarrow> (Inl e, s)
      | Inr (ty, ent) \<Rightarrow>
          let eID = (if ent \<noteq> [] then Some ent else None)
          in if flt 1 then (Inl DBError, s)
             else if eID \<noteq> None \<and> (\<exists>q \<in> set (quotas s). q_type q = ty \<and> q_entity q = eID) then (Inl ErrQuotaDuplicate, s)
             else let i = quota_seq s + 1;
                      row = \<lparr>q_id = i, q_type = ty, q_entity = eID, q_max = maxBytes, q_enabled = True,
                             q_created_at = now, q_updated_at = now\<rparr>;
                      s' = s\<lparr>quotas := quotas s @ [row], quota_seq := i\<rparr>
                  in (Quota_GetByID (later 2 flt) i s', s'))"

definition Departments :: "faults \<Rightarrow> db \<Rightarrow> error + string list" where
  "Departments flt s =
     (if flt 0 then Inl DBError
      else Inr (order_asc id (remdups (List.map_filter (\<lambda>t. case k_department t of
                  None \<Rightarrow> None | Some d \<Rightarrow> if d = [] then None else Some d) (api_tokens s)))))"

definition Quota_List :: "faults \<Rightarrow> db \<Rightarrow> error + (quota \<times> int) list" where
  "Quota_List flt s =
     (if flt 0 then Inl DBError
      else Inr (map (with_usage (later 1 flt) s)
        (order_asc q_type (order_asc (\<lambda>q. case q_entity q of None \<Rightarrow> [] | Some e \<Rightarrow> e) (quotas s)))))"

definition SystemQuota :: "faults \<Rightarrow> db \<Rightarrow> error + (quota \<times> int) option" where
  "SystemQuota flt s =
     (if flt 0 then Inl DBError
      else Inr (map_option (with_usage (later 1 flt) s) (find (\<lambda>q. q_type q = ''system'' \<and> q_enabled q) (quotas s))))"

definition UserQuota :: "faults \<Rightarrow> int \<Rightarrow> db \<Rightarrow> error + (quota \<times> int) option" where
  "UserQuota flt userID s =
     (if flt 0 then Inl DBError
      else Inr (map_option (with_usage (later 1 flt) s)
        (find (\<lambda>q. q_type q = ''user'' \<and> q_entity q = Some (int64ToString userID) \<and> q_enabled q) (quotas s))))"

definition Quota_Update :: "faults \<Rightarrow> time \<Rightarrow> int \<Rightarrow> int \<Rightarrow> bool \<Rightarrow> db \<Rightarrow> (error + (quota \<times> int)) \<times> db" where
  "Quota_Update flt now i maxBytes isEnabled s =
     (if flt 0 then (Inl DBError, s)
      else let s' = s\<lparr>quotas := update_where (\<lambda>q. q_id q = i)
                         (\<lambda>q. q\<lparr>q_max := maxBytes, q_enabled := isEnabled, q_updated_at := now\<rparr>) (quotas s)\<rparr>
           in (Quota_GetByID (later 1 flt) i s', s'))"

definition Quota_Delete :: "faults \<Rightarrow> int \<Rightarrow> db \<Rightarrow> (error + unit) \<times> db" where
  "Quota_Delete flt i s =
     (if flt 0 then (Inl DBError, s)
      else if rows_affected (\<lambda>q. q_id q = i) (quotas s) = 0 then (Inl ErrQuotaNotFound, s)
      else (Inr (), s\<lparr>quotas := delete_where (\<lambda>q. q_id q = i) (quotas s)\<rparr>))"

section \<open>The tier checks\<close>

definition lookupQuotaLimit :: "bool \<Rightarrow> string \<Rightarrow> string option \<Rightarrow> db \<Rightarrow> error + int option" where
  "lookupQuotaLimit fails entityType entityID s =
     (if fails then Inl DBError
      else Inr (map_option q_max
        (case entityID of
           Some e \<Rightarrow> find (\<lambda>q. q_type q = entityType \<and> q_entity q = Some e \<and> q_enabled q) (quotas s)
         | None \<Rightarrow> find (\<lambda>q. q_type q = entityType \<and> q_enabled q) (quotas s))))"

definition over_limit :: "int \<Rightarrow> int \<Rightarrow> int \<Rightarrow> bool" where
  "over_limit used fileSize maxBytes \<longleftrightarrow> maxBytes < i64 (used + fileSize)"

text \<open>The end of each tier: the sum, then the comparison.\<close>

definition tier_verdict :: "bool \<Rightarrow> int list \<Rightarrow> int \<Rightarrow> int \<Rightarrow> error + unit" where
  "tier_verdict fails sizes fileSize maxBytes =
     (case sum_query fails sizes of
        Inl e \<Rightarrow> Inl e
      | Inr used \<Rightarrow> if over_limit used fileSize maxBytes then Inl ErrQuotaExceeded else Inr ())"

definition checkUserTier :: "faults \<Rightarrow> int \<Rightarrow> int \<Rightarrow> upload_status list \<Rightarrow> db \<Rightarrow> error + unit" where
  "checkUserTier flt userID fileSize statuses s =
     (case lookupQuotaLimit (flt 0) ''user'' (Some (int64ToString userID)) s of
        Inl e \<Rightarrow> Inl e
      | Inr None \<Rightarrow> Inr ()
      | Inr (Some maxBytes) \<Rightarrow> tier_verdict (flt 1) (user_sizes userID statuses s) fileSize maxBytes)"

definition checkSystemTier :: "faults \<Rightarrow> int \<Rightarrow> upload_status list \<Rightarrow> db \<Rightarrow> error + unit" where
  "checkSystemTier flt fileSize statuses s =
     (case lookupQuotaLimit (flt 0) ''system'' None s of
        Inl e \<Rightarrow> Inl e
      | Inr None \<Rightarrow> Inr ()
      | Inr (Some maxBytes) \<Rightarrow> tier_verdict (flt 1) (system_sizes statuses s) fileSize maxBytes)"

text \<open>The enabled group quotas of the groups the user is in: group id and limit.\<close>

definition group_quotas :: "int \<Rightarrow> db \<Rightarrow> (int \<times> int) list" where
  "group_quotas userID s =
     concat (map (\<lambda>q. case q_entity q of
         None \<Rightarrow> []
       | Some e \<Rightarrow> (case Atoi e of
             None \<Rightarrow> []
           | Some g \<Rightarrow> map (\<lambda>_. (g, q_max q)) (filter (\<lambda>gm. fst gm = g \<and> snd gm = userID) (group_members s))))
       (filter (\<lambda>q. q_type q = ''group'' \<and> q_enabled q) (quotas s)))"

fun check_groups :: "faults \<Rightarrow> (int \<times> int) list \<Rightarrow> int \<Rightarrow> upload_status list \<Rightarrow> db \<Rightarrow> error + unit" where
  "check_groups flt [] fileSize statuses s = Inr ()"
| "check_groups flt ((g, maxBytes) # gqs) fileSize statuses s =
     (case tier_verdict (flt 0) (group_sizes g statuses s) fileSize maxBytes of
        Inl e \<Rightarrow> Inl e
      | Inr _ \<Rightarrow> check_groups (later 1 flt) gqs fileSize statuses s)"

definition checkGroupTier :: "faults \<Rightarrow> int \<Rightarrow> int \<Rightarrow> upload_status list \<Rightarrow> db \<Rightarrow> error + unit" where
  "checkGroupTier flt userID fileSize statuses s =
     (if flt 0 then Inl DBError
      else check_groups (later 1 flt) (group_quotas userID s) fileSize statuses s)"

definition token_department :: "int option \<Rightarrow> db \<Rightarrow> string option" where
  "token_department tokenID s =
     (case tokenID of
        None \<Rightarrow> None
      | Some t \<Rightarrow> (case find (\<lambda>k. k_id k = t) (api_tokens s) of
                    None \<Rightarrow> None
                  | Some k \<Rightarrow> (case k_department k of None \<Rightarrow> None | Some d \<Rightarrow> if d = [] then None else Some d)))"

definition checkDepartmentTier :: "faults \<Rightarrow> int option \<Rightarrow> int \<Rightarrow> upload_status list \<Rightarrow> db \<Rightarrow> error + unit" where
  "checkDepartmentTier flt tokenID fileSize statuses s =
     (if tokenID = None then Inr ()
      else if flt 0 then Inl DBError
      else case token_department tokenID s of
             None \<Rightarrow> Inr ()
           | Some dept \<Rightarrow>
               (case lookupQuotaLimit (flt 1) ''department'' (Some dept) s of
                  Inl e \<Rightarrow> Inl e
                | Inr None \<Rightarrow> Inr ()
                | Inr (Some maxBytes) \<Rightarrow> tier_verdict (flt 2) (department_sizes dept statuses s) fileSize maxBytes))"

text \<open>One fault plan per statement group: \<open>Begin\<close>, the four tiers, \<open>Commit\<close>.\<close>

definition checkAllTiers ::
  "(nat \<Rightarrow> faults) \<Rightarrow> int \<Rightarrow> int option \<Rightarrow> int \<Rightarrow> upload_status list \<Rightarrow> db \<Rightarrow> error + unit" where
  "checkAllTiers flts userID tokenID fileSize statuses s =
     (if flts 0 0 then Inl DBError
      else case checkUserTier (flts 1) userID fileSize statuses s of
        Inl e \<Rightarrow> Inl e
      | Inr _ \<Rightarrow> (case checkGroupTier (flts 2) userID fileSize statuses s of
          Inl e \<Rightarrow> Inl e
        | Inr _ \<Rightarrow> (case checkDepartmentTier (flts 3) tokenID fileSize statuses s of
            Inl e \<Rightarrow> Inl e
          | Inr _ \<Rightarrow> (case checkSystemTier (flts 4) fileSize statuses s of
              Inl e \<Rightarrow> Inl e
            | Inr _ \<Rightarrow> if flts 5 0 then Inl DBError else Inr ()))))"

definition CheckUserQuota :: "(nat \<Rightarrow> faults) \<Rightarrow> int \<Rightarrow> int option \<Rightarrow> int \<Rightarrow> db \<Rightarrow> error + unit" where
  "CheckUserQuota flts userID tokenID fileSize s = checkAllTiers flts userID tokenID fileSize quotaCompletedStatuses s"

definition CheckUserQuotaInFlight :: "(nat \<Rightarrow> faults) \<Rightarrow> int \<Rightarrow> int option \<Rightarrow> int \<Rightarrow> db \<Rightarrow> error + unit" where
  "CheckUserQuotaInFlight flts userID tokenID fileSize s = checkAllTiers flts userID tokenID fileSize quotaInFlightStatuses s"

section \<open>The reference\<close>

text \<open>Which quotas an upload must respect, and what each of them counts.\<close>

definition applies :: "int \<Rightarrow> int option \<Rightarrow> db \<Rightarrow> quota \<Rightarrow> bool" where
  "applies userID tokenID s q \<longleftrightarrow> q_enabled q \<and>
     (q_type q = ''user'' \<and> q_entity q = Some (show_int userID) \<or>
      q_type q = ''group'' \<and> (\<exists>e g. q_entity q = Some e \<and> Atoi e = Some g \<and> (g, userID) \<in> set (group_members s)) \<or>
      q_type q = ''department'' \<and> q_entity q \<noteq> None \<and> token_department tokenID s = q_entity q \<or>
      q_type q = ''system'')"

definition usage_of :: "int \<Rightarrow> upload_status list \<Rightarrow> db \<Rightarrow> quota \<Rightarrow> int" where
  "usage_of userID statuses s q = sum_list
     (if q_type q = ''user'' then user_sizes userID statuses s
      else if q_type q = ''group'' then (case q_entity q of None \<Rightarrow> [] | Some e \<Rightarrow>
         (case Atoi e of None \<Rightarrow> [] | Some g \<Rightarrow> group_sizes g statuses s))
      else if q_type q = ''department'' then (case q_entity q of None \<Rightarrow> [] | Some d \<Rightarrow> department_sizes d statuses s)
      else system_sizes statuses s)"

definition within_limits :: "int \<Rightarrow> int option \<Rightarrow> int \<Rightarrow> upload_status list \<Rightarrow> db \<Rightarrow> bool" where
  "within_limits userID tokenID fileSize statuses s \<longleftrightarrow>
     (\<forall>q \<in> set (quotas s). applies userID tokenID s q \<longrightarrow> usage_of userID statuses s q + fileSize \<le> q_max q)"

text \<open>The rows a quota table may hold: a known type, no entity exactly for the system, a numeric
  entity for users and groups, and the \<open>UNIQUE\<close> constraint, which does not see NULL entities.\<close>

definition quota_typed :: "quota \<Rightarrow> bool" where
  "quota_typed q \<longleftrightarrow>
     q_type q \<in> {''user'', ''group'', ''department'', ''system''} \<and>
     (q_type q = ''system'' \<longleftrightarrow> q_entity q = None) \<and>
     (\<forall>e. q_entity q = Some e \<longrightarrow> e \<noteq> []) \<and>
     (q_type q \<in> {''user'', ''group''} \<longrightarrow> (\<exists>e n. q_entity q = Some e \<and> Atoi e = Some n))"

definition quota_entities :: "quota list \<Rightarrow> (string \<times> string option) list" where
  "quota_entities qs = map (\<lambda>q. (q_type q, q_entity q)) (filter (\<lambda>q. q_entity q \<noteq> None) qs)"

definition quotas_ok :: "db \<Rightarrow> bool" where
  "quotas_ok s \<longleftrightarrow> keyed q_id (quota_seq s) (quotas s) \<and> (\<forall>q \<in> set (quotas s). quota_typed q) \<and>
     distinct (quota_entities (quotas s))"

definition one_system_quota :: "db \<Rightarrow> bool" where
  "one_system_quota s \<longleftrightarrow>
     (\<forall>q \<in> set (quotas s). \<forall>q' \<in> set (quotas s).
        q_type q = ''system'' \<and> q_type q' = ''system'' \<and> q_enabled q \<and> q_enabled q' \<longrightarrow> q = q')"

definition sizes_fit :: "int \<Rightarrow> int option \<Rightarrow> int \<Rightarrow> upload_status list \<Rightarrow> db \<Rightarrow> bool" where
  "sizes_fit userID tokenID fileSize statuses s \<longleftrightarrow>
     (\<forall>q \<in> set (quotas s). applies userID tokenID s q \<longrightarrow>
        is_i64 (usage_of userID statuses s q) \<and> is_i64 (usage_of userID statuses s q + fileSize))"

section \<open>Lemmas\<close>

lemma int64ToString_show:
  "is_i64 n \<Longrightarrow> n \<noteq> - (2 ^ 63) \<Longrightarrow> int64ToString n = show_int n"
proof -
  assume n: "is_i64 n" "n \<noteq> - (2 ^ 63)"
  then have "is_i64 (- n)" by (auto simp: is_i64_def)
  moreover have "(of_char (CHR ''0'') :: nat) = 48" by simp
  then have "digit_char 0 = CHR ''0''" unfolding digit_char_def by (metis add_0_right char_of_char)
  ultimately show ?thesis
    by (auto simp: int64ToString_def show_int_def Let_def show_nat.simps [of 0])
qed

text \<open>A verdict is sound when it accepts only what the condition admits, rejects only what it
  excludes, and every other result is a database error.\<close>

definition judged :: "bool \<Rightarrow> bool \<Rightarrow> error + unit \<Rightarrow> bool" where
  "judged clean ok r \<longleftrightarrow> r = Inr () \<and> ok \<or> r = Inl ErrQuotaExceeded \<and> \<not> ok \<or> r = Inl DBError \<and> \<not> clean"

lemma judged_tier:
  assumes "is_i64 (sum_list sizes)" and "is_i64 (sum_list sizes + fileSize)" and "clean \<Longrightarrow> \<not> fails"
  shows "judged clean (sum_list sizes + fileSize \<le> maxBytes) (tier_verdict fails sizes fileSize maxBytes)"
  using assms by (auto simp: judged_def tier_verdict_def sum_query_def over_limit_def)

lemma judged_skip: "ok \<Longrightarrow> judged clean ok (Inr ())"
  by (simp add: judged_def)

lemma judged_error: "\<not> clean \<Longrightarrow> judged clean ok (Inl DBError)"
  by (simp add: judged_def)

lemma judged_seq:
  assumes "judged clean ok r" and "r = Inr () \<Longrightarrow> judged clean ok' r'"
  shows "judged clean (ok \<and> ok') (case r of Inl e \<Rightarrow> Inl e | Inr _ \<Rightarrow> r')"
  using assms by (auto simp: judged_def split: sum.splits)

lemma judged_groups:
  assumes "\<And>g m. (g, m) \<in> set gqs \<Longrightarrow> is_i64 (sum_list (group_sizes g statuses s)) \<and>
      is_i64 (sum_list (group_sizes g statuses s) + fileSize)"
    and "\<And>k. clean \<Longrightarrow> \<not> flt k"
  shows "judged clean (\<forall>(g, m) \<in> set gqs. sum_list (group_sizes g statuses s) + fileSize \<le> m)
           (check_groups flt gqs fileSize statuses s)"
  using assms
proof (induction gqs arbitrary: flt)
  case Nil
  then show ?case by (simp add: judged_def)
next
  case (Cons gm gqs)
  obtain g m where gm: "gm = (g, m)" by force
  have "judged clean ((sum_list (group_sizes g statuses s) + fileSize \<le> m) \<and>
          (\<forall>(g, m) \<in> set gqs. sum_list (group_sizes g statuses s) + fileSize \<le> m))
        (check_groups flt ((g, m) # gqs) fileSize statuses s)"
    unfolding check_groups.simps
  proof (rule judged_seq)
    show "judged clean (sum_list (group_sizes g statuses s) + fileSize \<le> m)
            (tier_verdict (flt 0) (group_sizes g statuses s) fileSize m)"
      by (rule judged_tier) (use Cons.prems gm in auto)
    show "judged clean (\<forall>(g, m) \<in> set gqs. sum_list (group_sizes g statuses s) + fileSize \<le> m)
            (check_groups (later 1 flt) gqs fileSize statuses s)"
      by (rule Cons.IH) (use Cons.prems in auto)
  qed
  then show ?case unfolding gm by simp
qed


lemma judged_limit:
  assumes "\<And>q q'. q \<in> set qs \<Longrightarrow> q' \<in> set qs \<Longrightarrow> P q \<Longrightarrow> P q' \<Longrightarrow> q' = q"
    and "\<And>q. q \<in> set qs \<Longrightarrow> P q \<Longrightarrow> is_i64 (sum_list sizes) \<and> is_i64 (sum_list sizes + fileSize)"
    and "clean \<Longrightarrow> \<not> f0 \<and> \<not> f1"
  shows "judged clean (\<forall>q \<in> set qs. P q \<longrightarrow> sum_list sizes + fileSize \<le> q_max q)
           (case (if f0 then Inl DBError else Inr (map_option q_max (find P qs))) of
              Inl e \<Rightarrow> Inl e
            | Inr None \<Rightarrow> Inr ()
            | Inr (Some maxBytes) \<Rightarrow> tier_verdict f1 sizes fileSize maxBytes)"
proof (cases "f0")
  case True
  then show ?thesis using assms(3) by (auto intro: judged_error)
next
  case False
  show ?thesis
  proof (cases "find P qs")
    case None
    then show ?thesis using False find_NoneD [OF None] by (auto intro: judged_skip)
  next
    case (Some q)
    have q: "q \<in> set qs" "P q" using find_SomeD [OF Some] by auto
    have "(\<forall>q \<in> set qs. P q \<longrightarrow> sum_list sizes + fileSize \<le> q_max q) \<longleftrightarrow> sum_list sizes + fileSize \<le> q_max q"
      using q assms(1) [OF q(1) _ q(2)] by blast
    then show ?thesis
      using False Some judged_tier [of sizes fileSize clean f1 "q_max q"] assms(2) [OF q] assms(3) by simp
  qed
qed

text \<open>The part of the reference one tier is responsible for.\<close>

definition tier_within :: "string \<Rightarrow> int \<Rightarrow> int option \<Rightarrow> int \<Rightarrow> upload_status list \<Rightarrow> db \<Rightarrow> bool" where
  "tier_within ty userID tokenID fileSize statuses s \<longleftrightarrow>
     (\<forall>q \<in> set (quotas s). q_type q = ty \<longrightarrow> applies userID tokenID s q \<longrightarrow>
        usage_of userID statuses s q + fileSize \<le> q_max q)"

lemma within_limits_tiers:
  assumes "quotas_ok s"
  shows "within_limits userID tokenID fileSize statuses s \<longleftrightarrow>
     tier_within ''user'' userID tokenID fileSize statuses s \<and> tier_within ''group'' userID tokenID fileSize statuses s \<and>
     tier_within ''department'' userID tokenID fileSize statuses s \<and> tier_within ''system'' userID tokenID fileSize statuses s"
  using assms unfolding within_limits_def tier_within_def quotas_ok_def quota_typed_def by blast

lemma quota_unique:
  "quotas_ok s \<Longrightarrow> q \<in> set (quotas s) \<Longrightarrow> q' \<in> set (quotas s) \<Longrightarrow> q_type q = q_type q' \<Longrightarrow>
   q_entity q = Some e \<Longrightarrow> q_entity q' = Some e \<Longrightarrow> q' = q"
  by (auto simp: quotas_ok_def quota_entities_def distinct_map dest: inj_onD [of _ _ q' q])

lemma judged_user:
  assumes "quotas_ok s" and "sizes_fit userID tokenID fileSize statuses s"
    and "is_i64 userID" "userID \<noteq> - (2 ^ 63)" and "\<And>k. clean \<Longrightarrow> \<not> flt k"
  shows "judged clean (tier_within ''user'' userID tokenID fileSize statuses s) (checkUserTier flt userID fileSize statuses s)"
proof -
  let ?P = "\<lambda>q. q_type q = ''user'' \<and> q_entity q = Some (int64ToString userID) \<and> q_enabled q"
  have n: "int64ToString userID = show_int userID" using assms(3,4) by (rule int64ToString_show)
  have a: "q_type q = ''user'' \<Longrightarrow> applies userID tokenID s q \<longleftrightarrow> ?P q" for q by (auto simp: applies_def n)
  have u: "q_type q = ''user'' \<Longrightarrow> usage_of userID statuses s q = sum_list (user_sizes userID statuses s)" for q
    by (simp add: usage_of_def)
  have t: "tier_within ''user'' userID tokenID fileSize statuses s \<longleftrightarrow>
      (\<forall>q \<in> set (quotas s). ?P q \<longrightarrow> sum_list (user_sizes userID statuses s) + fileSize \<le> q_max q)"
    unfolding tier_within_def using a u by fastforce
  show ?thesis
    unfolding t checkUserTier_def lookupQuotaLimit_def option.case
  proof (rule judged_limit)
    show "is_i64 (sum_list (user_sizes userID statuses s)) \<and> is_i64 (sum_list (user_sizes userID statuses s) + fileSize)"
      if "q \<in> set (quotas s)" "?P q" for q
      using assms(2) that a u unfolding sizes_fit_def by metis
  qed (use quota_unique [OF assms(1)] assms(5) in auto)
qed

lemma judged_system:
  assumes "one_system_quota s" and "sizes_fit userID tokenID fileSize statuses s" and "\<And>k. clean \<Longrightarrow> \<not> flt k"
  shows "judged clean (tier_within ''system'' userID tokenID fileSize statuses s) (checkSystemTier flt fileSize statuses s)"
proof -
  let ?P = "\<lambda>q. q_type q = ''system'' \<and> q_enabled q"
  have a: "q_type q = ''system'' \<Longrightarrow> applies userID tokenID s q \<longleftrightarrow> ?P q" for q by (auto simp: applies_def)
  have u: "q_type q = ''system'' \<Longrightarrow> usage_of userID statuses s q = sum_list (system_sizes statuses s)" for q
    by (simp add: usage_of_def)
  have t: "tier_within ''system'' userID tokenID fileSize statuses s \<longleftrightarrow>
      (\<forall>q \<in> set (quotas s). ?P q \<longrightarrow> sum_list (system_sizes statuses s) + fileSize \<le> q_max q)"
    unfolding tier_within_def using a u by fastforce
  show ?thesis
    unfolding t checkSystemTier_def lookupQuotaLimit_def option.case
  proof (rule judged_limit)
    show "is_i64 (sum_list (system_sizes statuses s)) \<and> is_i64 (sum_list (system_sizes statuses s) + fileSize)"
      if "q \<in> set (quotas s)" "?P q" for q
      using assms(2) that a u unfolding sizes_fit_def by metis
    show "q' = q" if "q \<in> set (quotas s)" "q' \<in> set (quotas s)" "?P q" "?P q'" for q q'
      using assms(1) that unfolding one_system_quota_def by blast
  qed (use assms(3) in auto)
qed

lemma judged_department:
  assumes "quotas_ok s" and "sizes_fit userID tokenID fileSize statuses s" and "\<And>k. clean \<Longrightarrow> \<not> flt k"
  shows "judged clean (tier_within ''department'' userID tokenID fileSize statuses s)
           (checkDepartmentTier flt tokenID fileSize statuses s)"
proof (cases "token_department tokenID s")
  case None
  then have "tier_within ''department'' userID tokenID fileSize statuses s"
    by (auto simp: tier_within_def applies_def)
  then show ?thesis using None assms(3)
    by (auto simp: checkDepartmentTier_def intro: judged_skip judged_error)
next
  case (Some d)
  then have tk: "tokenID \<noteq> None" by (auto simp: token_department_def split: option.splits)
  let ?P = "\<lambda>q. q_type q = ''department'' \<and> q_entity q = Some d \<and> q_enabled q"
  have a: "q_type q = ''department'' \<Longrightarrow> applies userID tokenID s q \<longleftrightarrow> ?P q" for q
    using Some by (auto simp: applies_def)
  have u: "?P q \<Longrightarrow> usage_of userID statuses s q = sum_list (department_sizes d statuses s)" for q
    by (simp add: usage_of_def)
  have t: "tier_within ''department'' userID tokenID fileSize statuses s \<longleftrightarrow>
      (\<forall>q \<in> set (quotas s). ?P q \<longrightarrow> sum_list (department_sizes d statuses s) + fileSize \<le> q_max q)"
    unfolding tier_within_def using a u by fastforce
  have "judged clean (\<forall>q \<in> set (quotas s). ?P q \<longrightarrow> sum_list (department_sizes d statuses s) + fileSize \<le> q_max q)
      (case lookupQuotaLimit (flt 1) ''department'' (Some d) s of
         Inl e \<Rightarrow> Inl e
       | Inr None \<Rightarrow> Inr ()
       | Inr (Some maxBytes) \<Rightarrow> tier_verdict (flt 2) (department_sizes d statuses s) fileSize maxBytes)"
    unfolding lookupQuotaLimit_def option.case
  proof (rule judged_limit)
    show "is_i64 (sum_list (department_sizes d statuses s)) \<and> is_i64 (sum_list (department_sizes d statuses s) + fileSize)"
      if "q \<in> set (quotas s)" "?P q" for q
      using assms(2) that a u unfolding sizes_fit_def by metis
  qed (use quota_unique [OF assms(1)] assms(3) in auto)
  then show ?thesis
    using tk Some assms(3) unfolding t by (auto simp: checkDepartmentTier_def intro: judged_error)
qed

lemma set_group_quotas:
  "(g, m) \<in> set (group_quotas userID s) \<longleftrightarrow>
     (g, userID) \<in> set (group_members s) \<and>
     (\<exists>q \<in> set (quotas s). q_type q = ''group'' \<and> q_enabled q \<and> q_max q = m \<and> (\<exists>e. q_entity q = Some e \<and> Atoi e = Some g))"
  by (auto simp: group_quotas_def split: option.splits) force+

lemma judged_group:
  assumes "sizes_fit userID tokenID fileSize statuses s" and "\<And>k. clean \<Longrightarrow> \<not> flt k"
  shows "judged clean (tier_within ''group'' userID tokenID fileSize statuses s) (checkGroupTier flt userID fileSize statuses s)"
proof -
  have u: "usage_of userID statuses s q = sum_list (group_sizes g statuses s)"
    if "q_type q = ''group''" "q_entity q = Some e" "Atoi e = Some g" for q e g
    using that by (simp add: usage_of_def)
  have a: "applies userID tokenID s q \<longleftrightarrow> q_enabled q \<and> (g, userID) \<in> set (group_members s)"
    if "q_type q = ''group''" "q_entity q = Some e" "Atoi e = Some g" for q e g
    using that by (auto simp: applies_def)
  have t: "tier_within ''group'' userID tokenID fileSize statuses s \<longleftrightarrow>
      (\<forall>(g, m) \<in> set (group_quotas userID s). sum_list (group_sizes g statuses s) + fileSize \<le> m)"
  proof
    assume "tier_within ''group'' userID tokenID fileSize statuses s"
    then show "\<forall>(g, m) \<in> set (group_quotas userID s). sum_list (group_sizes g statuses s) + fileSize \<le> m"
      using a u unfolding tier_within_def by (fastforce simp: set_group_quotas)
  next
    assume r: "\<forall>(g, m) \<in> set (group_quotas userID s). sum_list (group_sizes g statuses s) + fileSize \<le> m"
    show "tier_within ''group'' userID tokenID fileSize statuses s"
      unfolding tier_within_def
    proof (intro ballI impI)
      fix q assume q: "q \<in> set (quotas s)" "q_type q = ''group''" "applies userID tokenID s q"
      then obtain e g where e: "q_entity q = Some e" "Atoi e = Some g" "(g, userID) \<in> set (group_members s)" "q_enabled q"
        by (auto simp: applies_def)
      then have "(g, q_max q) \<in> set (group_quotas userID s)" using q unfolding set_group_quotas by blast
      then show "usage_of userID statuses s q + fileSize \<le> q_max q" using r u [OF q(2) e(1,2)] by auto
    qed
  qed
  show ?thesis
  proof (cases "flt 0")
    case True
    then show ?thesis using assms(2) by (auto simp: checkGroupTier_def intro: judged_error)
  next
    case False
    have "judged clean (\<forall>(g, m) \<in> set (group_quotas userID s). sum_list (group_sizes g statuses s) + fileSize \<le> m)
        (check_groups (later 1 flt) (group_quotas userID s) fileSize statuses s)"
    proof (rule judged_groups)
      fix g m assume "(g, m) \<in> set (group_quotas userID s)"
      then show "is_i64 (sum_list (group_sizes g statuses s)) \<and> is_i64 (sum_list (group_sizes g statuses s) + fileSize)"
        using assms(1) a u unfolding sizes_fit_def set_group_quotas by metis
    qed (use assms(2) in auto)
    then show ?thesis using False unfolding t by (simp add: checkGroupTier_def)
  qed
qed

section \<open>Properties\<close>

definition sample_quota :: quota where
  "sample_quota = \<lparr>q_id = 1, q_type = ''user'', q_entity = Some ''7'', q_max = 100, q_enabled = True,
     q_created_at = 0, q_updated_at = 0\<rparr>"

definition sample_quota_db :: db where
  "sample_quota_db = empty_db\<lparr>quotas := [sample_quota], quota_seq := 1, users := [7]\<rparr>"

lemma show_int_7: "show_int 7 = ''7''"
proof -
  have "(of_char (CHR ''7'') :: nat) = 55" by simp
  then have "char_of (55 :: nat) = CHR ''7''" by (metis char_of_char)
  then show ?thesis by (simp add: show_int_def show_nat.simps [of 7] digit_char_def)
qed

lemma Atoi_7: "Atoi ''7'' = Some 7"
  using Atoi_show_int [of 7] by (simp add: show_int_7 is_i64_def)

lemma sample_quota_ok: "quotas_ok sample_quota_db"
  by (simp add: quotas_ok_def sample_quota_db_def sample_quota_def keyed_def quota_typed_def Atoi_7 quota_entities_def)

lemma judged_all:
  assumes "quotas_ok s" and "one_system_quota s" and "is_i64 userID" and "userID \<noteq> - (2 ^ 63)"
    and "sizes_fit userID tokenID fileSize statuses s" and c: "\<And>i k. clean \<Longrightarrow> \<not> flts i k"
  shows "judged clean (within_limits userID tokenID fileSize statuses s) (checkAllTiers flts userID tokenID fileSize statuses s)"
proof (cases "flts 0 0")
  case True
  then show ?thesis using c by (auto simp: checkAllTiers_def intro: judged_error)
next
  case False
  have e: "judged clean True (if flts 5 0 then Inl DBError else Inr ())"
    using c by (auto simp: judged_def)
  have "judged clean (tier_within ''user'' userID tokenID fileSize statuses s \<and>
      (tier_within ''group'' userID tokenID fileSize statuses s \<and>
       (tier_within ''department'' userID tokenID fileSize statuses s \<and>
        (tier_within ''system'' userID tokenID fileSize statuses s \<and> True))))
    (checkAllTiers flts userID tokenID fileSize statuses s)"
    unfolding checkAllTiers_def if_not_P [OF False]
    by (intro judged_seq judged_user judged_group judged_department judged_system e assms c) auto
  then show ?thesis by (simp add: within_limits_tiers [OF assms(1)])
qed

lemma checkAllTiers_decides:
  assumes "quotas_ok s" and "one_system_quota s" and "is_i64 userID" and "userID \<noteq> - (2 ^ 63)"
    and "sizes_fit userID tokenID fileSize statuses s"
  shows "checkAllTiers (\<lambda>_. no_faults) userID tokenID fileSize statuses s =
    (if within_limits userID tokenID fileSize statuses s then Inr () else Inl ErrQuotaExceeded)"
  using judged_all [OF assms, of True "\<lambda>_. no_faults"] by (auto simp: judged_def)

text \<open>C22: the quota check is exact and fails closed. Whatever statements fail, it accepts only an upload
  that keeps every enabled quota it falls under within its limit, and reports an exceeded quota only
  when one really is; without failing statements it decides the reference condition.\<close>

theorem quota_check_exact:
  assumes "quotas_ok s" and "one_system_quota s" and "is_i64 userID" and "userID \<noteq> - (2 ^ 63)"
    and "sizes_fit userID tokenID fileSize statuses s"
  shows "(checkAllTiers flts userID tokenID fileSize statuses s = Inr () \<longrightarrow> within_limits userID tokenID fileSize statuses s) \<and>
    (checkAllTiers flts userID tokenID fileSize statuses s = Inl ErrQuotaExceeded \<longrightarrow>
       \<not> within_limits userID tokenID fileSize statuses s) \<and>
    checkAllTiers (\<lambda>_. no_faults) userID tokenID fileSize statuses s =
      (if within_limits userID tokenID fileSize statuses s then Inr () else Inl ErrQuotaExceeded)"
  using judged_all [OF assms, of False flts] checkAllTiers_decides [OF assms] by (auto simp: judged_def)

theorem quota_check_exact_witness:
  "checkAllTiers (\<lambda>_. no_faults) 7 None 101 quotaCompletedStatuses sample_quota_db = Inl ErrQuotaExceeded \<and>
   checkAllTiers (\<lambda>_. no_faults) 7 None 100 quotaCompletedStatuses sample_quota_db = Inr ()"
proof -
  have one: "one_system_quota sample_quota_db"
    by (simp add: one_system_quota_def sample_quota_db_def sample_quota_def)
  have u: "usage_of 7 quotaCompletedStatuses sample_quota_db sample_quota = 0"
    by (simp add: usage_of_def sample_quota_def user_sizes_def counted_def sample_quota_db_def empty_db_def)
  have fit: "sizes_fit 7 None n quotaCompletedStatuses sample_quota_db" if "is_i64 n" for n
    using u that by (simp add: sizes_fit_def sample_quota_db_def is_i64_def)
  have w: "within_limits 7 None n quotaCompletedStatuses sample_quota_db \<longleftrightarrow> n \<le> 100" for n
    using u by (simp add: within_limits_def sample_quota_db_def applies_def sample_quota_def show_int_7)
  show ?thesis
    using quota_check_exact [OF sample_quota_ok one _ _ fit [of 101]]
      quota_check_exact [OF sample_quota_ok one _ _ fit [of 100]]
    by (simp add: w is_i64_def)
qed

lemma sum_list_filter_id:
  fixes f :: "'a \<Rightarrow> int"
  assumes "distinct xs" and "x \<in> set xs" and "P x"
  shows "sum_list (map f (filter P xs)) = f x + sum_list (map f (filter (\<lambda>y. P y \<and> y \<noteq> x) xs))"
  using assms
proof (induction xs)
  case (Cons y ys)
  show ?case
  proof (cases "y = x")
    case True
    have "filter (\<lambda>z. P z \<and> z \<noteq> x) ys = filter P ys"
      using Cons.prems True by (auto intro: filter_cong)
    then show ?thesis using True Cons.prems by simp
  next
    case False
    then show ?thesis using Cons by auto
  qed
qed simp

text \<open>The recheck of the worker counts the upload it is about to process twice. The row is in state
  processing, so it is part of the in-flight usage, and its size is added again: with a user quota that
  the upload fits exactly, the recheck rejects it as soon as its size is positive.\<close>

theorem inflight_check_counts_upload_twice:
  assumes "db_ok s" and "quotas_ok s" and "one_system_quota s"
    and "u \<in> set (uploads s)" and "u_status u = Processing" and "0 < u_size u"
    and "is_i64 (u_user u)" and "u_user u \<noteq> - (2 ^ 63)"
    and "q \<in> set (quotas s)" and "q_enabled q" and "q_type q = ''user''" and "q_entity q = Some (show_int (u_user u))"
    and "sizes_fit (u_user u) (u_token u) (u_size u) quotaInFlightStatuses s"
    and others: "q_max q = u_size u + sum_list (map u_size (filter (\<lambda>v. v \<noteq> u \<and> u_user v = u_user u) (counted quotaInFlightStatuses s)))"
  shows "CheckUserQuotaInFlight (\<lambda>_. no_faults) (u_user u) (u_token u) (u_size u) s = Inl ErrQuotaExceeded"
proof -
  let ?c = "counted quotaInFlightStatuses s"
  have m: "u \<in> set ?c" using assms(4,5) by (simp add: counted_def quotaInFlightStatuses_def)
  have d: "distinct ?c"
    using assms(1) by (auto simp: db_ok_def keyed_def counted_def distinct_map)
  have "sum_list (user_sizes (u_user u) quotaInFlightStatuses s) =
      u_size u + sum_list (map u_size (filter (\<lambda>v. u_user v = u_user u \<and> v \<noteq> u) ?c))"
    unfolding user_sizes_def using sum_list_filter_id [OF d m, of "\<lambda>v. u_user v = u_user u" u_size] by simp
  then have "usage_of (u_user u) quotaInFlightStatuses s q = q_max q"
    using assms(11) others by (simp add: usage_of_def conj_commute)
  moreover have "applies (u_user u) (u_token u) s q" using assms(10-12) by (simp add: applies_def)
  ultimately have "\<not> within_limits (u_user u) (u_token u) (u_size u) quotaInFlightStatuses s"
    using assms(6,9) unfolding within_limits_def by fastforce
  then show ?thesis
    using checkAllTiers_decides [OF assms(2,3,7,8,13)] by (simp add: CheckUserQuotaInFlight_def)
qed

definition sample_processing :: upload where
  "sample_processing = claim_upload 0 (new_upload 1 ''u'' 0 7 None ''f'' ''f'' 100 ''t'' Private ''/t/f'' None)"

theorem inflight_check_counts_upload_twice_witness:
  "CheckUserQuotaInFlight (\<lambda>_. no_faults) 7 None 100
     (sample_quota_db\<lparr>uploads := [sample_processing], upload_seq := 1\<rparr>) = Inl ErrQuotaExceeded"
proof -
  let ?s = "sample_quota_db\<lparr>uploads := [sample_processing], upload_seq := 1\<rparr>"
  note defs = sample_quota_db_def sample_quota_def sample_processing_def new_upload_def claim_upload_def empty_db_def
  have p: "u_user sample_processing = 7" "u_size sample_processing = 100" "u_token sample_processing = None"
    "u_status sample_processing = Processing"
    by (simp_all add: defs)
  have db: "db_ok ?s" by (simp add: db_ok_def defs keyed_def fk_uploads_def fk_wallets_def)
  have q: "quotas_ok ?s" using sample_quota_ok by (simp add: quotas_ok_def)
  have one: "one_system_quota ?s" by (simp add: one_system_quota_def sample_quota_db_def sample_quota_def)
  have c: "counted quotaInFlightStatuses ?s = [sample_processing]"
    by (simp add: counted_def p quotaInFlightStatuses_def)
  have u: "usage_of 7 quotaInFlightStatuses ?s sample_quota = 100"
    by (simp add: usage_of_def sample_quota_def user_sizes_def c p)
  have fit: "sizes_fit 7 None 100 quotaInFlightStatuses ?s"
    using u by (simp add: sizes_fit_def sample_quota_db_def is_i64_def)
  have "sample_quota \<in> set (quotas ?s)" by (simp add: sample_quota_db_def)
  then show ?thesis
    using inflight_check_counts_upload_twice [OF db q one, of sample_processing sample_quota] fit
    by (simp add: p c sample_quota_def show_int_7 is_i64_def)
qed

text \<open>C40: creating, updating and deleting quotas keeps the table well-typed: unique ids, known types, an
  entity exactly for the non-system rows, numeric user and group ids, one row per entity; a quota for a
  missing, non-numeric or unknown user or group is refused.\<close>

theorem quota_rows_stay_well_typed:
  assumes "quotas_ok s"
  shows "quotas_ok (snd (Quota_Create flt now ty ent maxBytes s)) \<and>
    quotas_ok (snd (Quota_Update flt now i maxBytes en s)) \<and>
    quotas_ok (snd (Quota_Delete flt i s)) \<and>
    (ty \<in> {''user'', ''group''} \<and> fst (Quota_Create flt now ty ent maxBytes s) = Inr r \<longrightarrow>
       (\<exists>n. Atoi ent = Some n \<and> n \<in> set (if ty = ''user'' then users s else groups s)))"
proof (intro conjI impI)
  show "quotas_ok (snd (Quota_Create flt now ty ent maxBytes s))"
  proof (cases "snd (Quota_Create flt now ty ent maxBytes s) = s")
    case True
    then show ?thesis using assms by simp
  next
    case False
    obtain ty' ent' where v: "validateEntity flt ty ent s = Inr (ty', ent')"
      using False by (cases "validateEntity flt ty ent s") (auto simp: Quota_Create_def)
    let ?e = "if ent' \<noteq> [] then Some ent' else None"
    let ?row = "\<lparr>q_id = quota_seq s + 1, q_type = ty', q_entity = ?e, q_max = maxBytes, q_enabled = True,
                 q_created_at = now, q_updated_at = now\<rparr>"
    have s': "snd (Quota_Create flt now ty ent maxBytes s) = s\<lparr>quotas := quotas s @ [?row], quota_seq := quota_seq s + 1\<rparr>"
      and new: "?e \<noteq> None \<Longrightarrow> \<not> (\<exists>q \<in> set (quotas s). q_type q = ty' \<and> q_entity q = ?e)"
      using False v by (auto simp: Quota_Create_def Let_def split: if_splits)
    have ty: "quota_typed ?row"
      using v by (auto simp: validateEntity_def quota_typed_def entityExists_def split: if_splits option.splits)
    have k: "keyed q_id (quota_seq s + 1) (quotas s @ [?row])"
      using assms by (intro keyed_append) (simp_all add: quotas_ok_def)
    show ?thesis
      unfolding s' quotas_ok_def using assms new ty k
      by (auto simp: quotas_ok_def quota_entities_def)
  qed
  show "quotas_ok (snd (Quota_Update flt now i maxBytes en s))"
  proof (cases "flt 0")
    case False
    let ?f = "\<lambda>q. q\<lparr>q_max := maxBytes, q_enabled := en, q_updated_at := now\<rparr>"
    have s': "quotas (snd (Quota_Update flt now i maxBytes en s)) = update_where (\<lambda>q. q_id q = i) ?f (quotas s)"
      "quota_seq (snd (Quota_Update flt now i maxBytes en s)) = quota_seq s"
      using False by (simp_all add: Quota_Update_def Let_def)
    have "keyed q_id (quota_seq s) (update_where (\<lambda>q. q_id q = i) ?f (quotas s))"
      using assms by (intro keyed_update) (simp_all add: quotas_ok_def)
    moreover have "quota_entities (update_where (\<lambda>q. q_id q = i) ?f (quotas s)) = quota_entities (quotas s)"
      by (induction "quotas s") (auto simp: quota_entities_def update_where_def filter_map comp_def)
    moreover have "quota_typed (?f q) = quota_typed q" for q by (simp add: quota_typed_def)
    ultimately show ?thesis
      unfolding quotas_ok_def s' using assms by (auto simp: quotas_ok_def set_update_where)
  qed (use assms in \<open>simp add: Quota_Update_def\<close>)
  show "quotas_ok (snd (Quota_Delete flt i s))"
  proof -
    have "filter P (delete_where Q xs) = delete_where Q (filter P xs)" for P Q and xs :: "quota list"
      by (simp add: delete_where_def conj_commute)
    then show ?thesis
      using assms by (auto simp: Quota_Delete_def quotas_ok_def keyed_delete quota_entities_def distinct_map_delete)
  qed
  show "\<exists>n. Atoi ent = Some n \<and> n \<in> set (if ty = ''user'' then users s else groups s)"
    if "ty \<in> {''user'', ''group''} \<and> fst (Quota_Create flt now ty ent maxBytes s) = Inr r"
    using that by (auto simp: Quota_Create_def validateEntity_def entityExists_def split: if_splits option.splits sum.splits)
qed

theorem quota_rows_stay_well_typed_witness:
  "quotas_ok (snd (Quota_Create no_faults 5 ''system'' ''ignored'' 1000 sample_quota_db)) \<and>
   quotas_ok (snd (Quota_Update no_faults 6 1 50 False sample_quota_db)) \<and>
   quotas_ok (snd (Quota_Delete no_faults 1 sample_quota_db))"
  using quota_rows_stay_well_typed [OF sample_quota_ok] by blast

end
