(* ===== verification/Aes_Gcm.thy ===== *)
theory Aes_Gcm
  imports Hash
begin

text \<open>
  AES-256-GCM as \<open>crypto/aes\<close> and \<open>crypto/cipher\<close> provide it (FIPS 197, NIST SP 800-38D): the
  block cipher over lists of 16 bytes in column order, counter mode, and GHASH over 128-bit words.
  \<open>gcm_seal\<close> and \<open>gcm_open\<close> are \<open>Seal\<close> and \<open>Open\<close> with a 12-byte nonce, a 16-byte tag
  and no additional data. The lemma the key ring rests on is that opening undoes sealing.
\<close>

type_synonym u8 = "8 word"
type_synonym u128 = "128 word"

section \<open>The block cipher\<close>

definition xtime :: "u8 \<Rightarrow> u8" where
  "xtime x = push_bit 1 x XOR (if bit x 7 then 0x1b else 0)"

primrec gmul_n :: "nat \<Rightarrow> u8 \<Rightarrow> u8 \<Rightarrow> u8" where
  "gmul_n 0 a b = 0"
| "gmul_n (Suc n) a b = (if bit b 0 then a else 0) XOR gmul_n n (xtime a) (drop_bit 1 b)"

definition gmul :: "u8 \<Rightarrow> u8 \<Rightarrow> u8" where
  "gmul a b = gmul_n 8 a b"

primrec gpow :: "u8 \<Rightarrow> nat \<Rightarrow> u8" where
  "gpow a 0 = 1"
| "gpow a (Suc n) = gmul a (gpow a n)"

definition rotl8 :: "nat \<Rightarrow> u8 \<Rightarrow> u8" where
  "rotl8 n x = push_bit n x OR drop_bit (8 - n) x"

definition sbox :: "u8 \<Rightarrow> u8" where
  "sbox x = (let b = gpow x 254 in b XOR rotl8 1 b XOR rotl8 2 b XOR rotl8 3 b XOR rotl8 4 b XOR 0x63)"

definition xor_bytes :: "u8 list \<Rightarrow> u8 list \<Rightarrow> u8 list" where
  "xor_bytes xs ys = map (\<lambda>(x, y). x XOR y) (zip xs ys)"

text \<open>The key schedule of a 256-bit key, newest word first.\<close>

fun expand_key :: "nat \<Rightarrow> nat \<Rightarrow> u8 \<Rightarrow> u8 list list \<Rightarrow> u8 list list" where
  "expand_key 0 i rcon ws = ws"
| "expand_key (Suc n) i rcon ws =
     (let t = hd ws;
          t = (if i mod 8 = 0 then xor_bytes (map sbox (tl t @ [hd t])) [rcon, 0, 0, 0]
               else if i mod 8 = 4 then map sbox t else t)
      in expand_key n (i + 1) (if i mod 8 = 0 then xtime rcon else rcon) (xor_bytes (ws ! 7) t # ws))"

fun chunks :: "nat \<Rightarrow> nat \<Rightarrow> 'a list \<Rightarrow> 'a list list" where
  "chunks 0 w xs = []"
| "chunks (Suc n) w xs = take w xs # chunks n w (drop w xs)"

definition round_keys :: "u8 list \<Rightarrow> u8 list list" where
  "round_keys key = chunks 15 16 (concat (rev (expand_key 52 8 1 (rev (chunks 8 4 key)))))"

definition shift_rows :: "u8 list \<Rightarrow> u8 list" where
  "shift_rows st = map (\<lambda>i. st ! ((i + 4 * (i mod 4)) mod 16)) [0..<16]"

definition mix_column :: "u8 list \<Rightarrow> u8 list" where
  "mix_column c = map (\<lambda>i. gmul 2 (c ! i) XOR gmul 3 (c ! ((i + 1) mod 4)) XOR c ! ((i + 2) mod 4) XOR c ! ((i + 3) mod 4)) [0..<4]"

definition mix_columns :: "u8 list \<Rightarrow> u8 list" where
  "mix_columns st = concat (map mix_column (chunks 4 4 st))"

fun aes_rounds :: "u8 list list \<Rightarrow> u8 list \<Rightarrow> u8 list" where
  "aes_rounds [] st = st"
| "aes_rounds [k] st = xor_bytes (shift_rows (map sbox st)) k"
| "aes_rounds (k # ks) st = aes_rounds ks (xor_bytes (mix_columns (shift_rows (map sbox st))) k)"

definition aes_block :: "u8 list list \<Rightarrow> u8 list \<Rightarrow> u8 list" where
  "aes_block rks b = (case rks of [] \<Rightarrow> b | k # ks \<Rightarrow> aes_rounds ks (xor_bytes b k))"

section \<open>Galois counter mode\<close>

definition bytes_word :: "u8 list \<Rightarrow> u128" where
  "bytes_word bs = fold (\<lambda>b acc. push_bit 8 acc OR ucast b) bs 0"

primrec word_bytes_n :: "nat \<Rightarrow> u128 \<Rightarrow> u8 list" where
  "word_bytes_n 0 x = []"
| "word_bytes_n (Suc n) x = word_bytes_n n (drop_bit 8 x) @ [ucast x]"

primrec ghash_mul_n :: "nat \<Rightarrow> u128 \<Rightarrow> u128 \<Rightarrow> u128 \<Rightarrow> u128" where
  "ghash_mul_n 0 x v z = z"
| "ghash_mul_n (Suc n) x v z =
     ghash_mul_n n x (drop_bit 1 v XOR (if bit v 0 then push_bit 120 0xe1 else 0)) (if bit x n then z XOR v else z)"

function ghash :: "u128 \<Rightarrow> u8 list \<Rightarrow> u128 \<Rightarrow> u128" where
  "ghash h bs acc =
     (if bs = [] then acc
      else ghash h (drop 16 bs)
             (ghash_mul_n 128 (acc XOR bytes_word (take 16 (take 16 bs @ replicate 15 0))) h 0))"
  by pat_completeness auto
termination by (relation "measure (\<lambda>(h, bs, acc). length bs)") auto

declare ghash.simps [simp del]

text \<open>The key stream: the cipher applied to successive counter blocks.\<close>

function gcm_ctr :: "u8 list list \<Rightarrow> u8 list \<Rightarrow> nat \<Rightarrow> u8 list \<Rightarrow> u8 list" where
  "gcm_ctr rks nonce i bs =
     (if bs = [] then []
      else xor_bytes (take 16 bs) (aes_block rks (nonce @ word_bytes_n 4 (of_nat i)))
           @ gcm_ctr rks nonce (i + 1) (drop 16 bs))"
  by pat_completeness auto
termination by (relation "measure (\<lambda>(rks, nonce, i, bs). length bs)") auto

declare gcm_ctr.simps [simp del]

definition gcm_tag :: "u8 list list \<Rightarrow> u8 list \<Rightarrow> u8 list \<Rightarrow> u8 list" where
  "gcm_tag rks nonce ct =
     (let h = bytes_word (aes_block rks (replicate 16 0));
          g = ghash h ct 0;
          g = ghash_mul_n 128 (g XOR of_nat (8 * length ct)) h 0
      in xor_bytes (word_bytes_n 16 g) (aes_block rks (nonce @ word_bytes_n 4 1)))"

definition gcm_seal :: "u8 list \<Rightarrow> u8 list \<Rightarrow> u8 list \<Rightarrow> u8 list" where
  "gcm_seal key nonce pt =
     (let rks = round_keys key; ct = gcm_ctr rks nonce 2 pt in ct @ gcm_tag rks nonce ct)"

definition gcm_open :: "u8 list \<Rightarrow> u8 list \<Rightarrow> u8 list \<Rightarrow> u8 list option" where
  "gcm_open key nonce sealed =
     (if length sealed < 16 then None
      else let rks = round_keys key; n = length sealed - 16; ct = take n sealed
           in if gcm_tag rks nonce ct = drop n sealed then Some (gcm_ctr rks nonce 2 ct) else None)"

section \<open>Opening undoes sealing\<close>

lemma length_xor_bytes [simp]: "length (xor_bytes xs ys) = min (length xs) (length ys)"
  by (simp add: xor_bytes_def)

lemma xor_bytes_twice: "length xs \<le> length ks \<Longrightarrow> xor_bytes (xor_bytes xs ks) ks = xs"
  by (rule nth_equalityI) (simp_all add: xor_bytes_def xor.assoc)

lemma length_word_bytes_n [simp]: "length (word_bytes_n n x) = n"
  by (induction n arbitrary: x) auto

lemma chunks_widths:
  "n * w \<le> length xs \<Longrightarrow> length (chunks n w xs) = n \<and> (\<forall>c \<in> set (chunks n w xs). length c = w)"
proof (induction n arbitrary: xs)
  case (Suc n)
  have "length (chunks n w (drop w xs)) = n \<and> (\<forall>c \<in> set (chunks n w (drop w xs)). length c = w)"
    using Suc.prems by (intro Suc.IH) simp
  then show ?case using Suc.prems by simp
qed simp

lemma expand_key_widths:
  assumes "8 \<le> length ws" and "\<forall>w \<in> set ws. length w = 4"
  shows "length (expand_key n i rcon ws) = length ws + n \<and> (\<forall>w \<in> set (expand_key n i rcon ws). length w = 4)"
  using assms
proof (induction n arbitrary: i rcon ws)
  case (Suc n)
  let ?t = "if i mod 8 = 0 then xor_bytes (map sbox (tl (hd ws) @ [hd (hd ws)])) [rcon, 0, 0, 0]
            else if i mod 8 = 4 then map sbox (hd ws) else hd ws"
  have h: "length (hd ws) = 4" "length (ws ! 7) = 4"
    using Suc.prems by (cases ws; auto)+
  then have "length (xor_bytes (ws ! 7) ?t) = 4" by auto
  then have "length (expand_key n (i + 1) (if i mod 8 = 0 then xtime rcon else rcon) (xor_bytes (ws ! 7) ?t # ws))
        = length (xor_bytes (ws ! 7) ?t # ws) + n \<and>
      (\<forall>w \<in> set (expand_key n (i + 1) (if i mod 8 = 0 then xtime rcon else rcon) (xor_bytes (ws ! 7) ?t # ws)). length w = 4)"
    using Suc.prems by (intro Suc.IH) auto
  then show ?case by (simp add: Let_def)
qed simp

lemma round_keys_widths:
  assumes "length key = 32"
  shows "round_keys key \<noteq> []" and "\<forall>k \<in> set (round_keys key). length k = 16"
proof -
  let ?ws = "expand_key 52 8 1 (rev (chunks 8 4 key))"
  have "length (chunks 8 4 key) = 8 \<and> (\<forall>c \<in> set (chunks 8 4 key). length c = 4)"
    using assms by (intro chunks_widths) simp
  then have w: "length ?ws = 60 \<and> (\<forall>w \<in> set ?ws. length w = 4)"
    using expand_key_widths [of "rev (chunks 8 4 key)" 52 8 1] by simp
  then have "length (concat (rev ?ws)) = 240"
    using length_concat_const [where f = id and n = 4 and xs = "rev ?ws"] by simp
  then have "length (round_keys key) = 15 \<and> (\<forall>k \<in> set (round_keys key). length k = 16)"
    unfolding round_keys_def by (intro chunks_widths) simp
  then show "round_keys key \<noteq> []" "\<forall>k \<in> set (round_keys key). length k = 16" by auto
qed

lemma length_mix_columns: "length st = 16 \<Longrightarrow> length (mix_columns st) = 16"
proof -
  assume "length st = 16"
  then have "length (chunks 4 4 st) = 4" using chunks_widths [of 4 4 st] by simp
  then show ?thesis
    unfolding mix_columns_def by (simp add: length_concat_const [where n = 4] mix_column_def)
qed

lemma length_aes_rounds:
  "length st = 16 \<Longrightarrow> \<forall>k \<in> set ks. length k = 16 \<Longrightarrow> length (aes_rounds ks st) = 16"
  by (induction ks st rule: aes_rounds.induct) (simp_all add: shift_rows_def length_mix_columns)

lemma length_aes_block:
  "length b = 16 \<Longrightarrow> rks \<noteq> [] \<Longrightarrow> \<forall>k \<in> set rks. length k = 16 \<Longrightarrow> length (aes_block rks b) = 16"
  by (cases rks) (simp_all add: aes_block_def length_aes_rounds)

lemma gcm_ctr_twice:
  assumes "length nonce = 12" and "rks \<noteq> []" and "\<forall>k \<in> set rks. length k = 16"
  shows "length (gcm_ctr rks nonce i bs) = length bs \<and> gcm_ctr rks nonce i (gcm_ctr rks nonce i bs) = bs"
proof (induction "length bs" arbitrary: i bs rule: less_induct)
  case less
  let ?k = "aes_block rks (nonce @ word_bytes_n 4 (of_nat i))"
  have k: "length ?k = 16" using assms by (intro length_aes_block) simp_all
  show ?case
  proof (cases "bs = []")
    case True
    then show ?thesis by (simp add: gcm_ctr.simps)
  next
    case False
    let ?x = "xor_bytes (take 16 bs) ?k"
    let ?r = "gcm_ctr rks nonce (i + 1) (drop 16 bs)"
    have e: "gcm_ctr rks nonce i bs = ?x @ ?r" using False by (subst gcm_ctr.simps) simp
    have ih: "length ?r = length (drop 16 bs)" "gcm_ctr rks nonce (i + 1) ?r = drop 16 bs"
      using less [of "drop 16 bs" "i + 1"] False by auto
    have len: "length (?x @ ?r) = length bs" using k ih(1) by (simp add: min_def)
    have "take 16 (?x @ ?r) = ?x \<and> drop 16 (?x @ ?r) = ?r"
    proof (cases "16 \<le> length bs")
      case True
      then show ?thesis using k by (simp add: min_def)
    next
      case False
      then have "?r = []" using ih(1) by simp
      then show ?thesis using k by simp
    qed
    then have "gcm_ctr rks nonce i (?x @ ?r) = xor_bytes ?x ?k @ gcm_ctr rks nonce (i + 1) ?r"
      using False len by (subst gcm_ctr.simps) (metis length_0_conv)
    also have "\<dots> = bs" using k ih(2) by (simp add: xor_bytes_twice)
    finally show ?thesis using e len by simp
  qed
qed

lemma length_gcm_tag:
  assumes "length nonce = 12" and "rks \<noteq> []" and "\<forall>k \<in> set rks. length k = 16"
  shows "length (gcm_tag rks nonce ct) = 16"
  using length_aes_block [of "nonce @ word_bytes_n 4 1" rks] assms by (simp add: gcm_tag_def Let_def)

lemma gcm_open_seal:
  assumes "length key = 32" and "length nonce = 12"
  shows "gcm_open key nonce (gcm_seal key nonce pt) = Some pt"
proof -
  note w = round_keys_widths [OF assms(1)]
  have "length (gcm_tag (round_keys key) nonce ct) = 16" for ct
    using length_gcm_tag [OF assms(2) w] .
  then show ?thesis
    using gcm_ctr_twice [OF assms(2) w, of 2 pt] by (simp add: gcm_seal_def gcm_open_def Let_def)
qed

end
