(* ===== verification/Keyring.thy ===== *)
theory Keyring
  imports Aes_Gcm
begin

text \<open>
  \<open>internal/crypto/encrypt.go\<close> and \<open>internal/crypto/keyring.go\<close>: AES-256-GCM under a
  hex-encoded key, and the key ring that tags each ciphertext with the id of its key, so that values
  written under a former key, under the current one and before key ids existed can be told apart.
  \<open>internal/secrets/provider.go\<close> assembles the wallet and JWT rings. The random nonce is an
  argument; a fault plan decides whether reading randomness fails.
\<close>

section \<open>Encryption under one key\<close>

definition to_bytes :: "string \<Rightarrow> u8 list" where
  "to_bytes s = map (\<lambda>c. of_nat (of_char c)) s"

definition from_bytes :: "u8 list \<Rightarrow> string" where
  "from_bytes bs = map (\<lambda>b. char_of (unat b)) bs"

definition hexKey :: "string \<Rightarrow> error + string" where
  "hexKey key =
     (case hex_decode key of
        None \<Rightarrow> Inl (ErrMsg ''invalid hex key'')
      | Some b \<Rightarrow> if length b \<noteq> 32 then Inl (ErrMsg ''key must be 32 bytes'') else Inr b)"

definition Encrypt :: "faults \<Rightarrow> string \<Rightarrow> string \<Rightarrow> string \<Rightarrow> error + string" where
  "Encrypt flt nonce key plaintext =
     (case hexKey key of
        Inl e \<Rightarrow> Inl e
      | Inr keyBytes \<Rightarrow>
          if flt 0 then Inl (ErrMsg ''generate nonce'')
          else Inr (hex_encode (nonce @ from_bytes (gcm_seal (to_bytes keyBytes) (to_bytes nonce) (to_bytes plaintext)))))"

definition Decrypt :: "string \<Rightarrow> string \<Rightarrow> error + string" where
  "Decrypt key ciphertextHex =
     (case hexKey key of
        Inl e \<Rightarrow> Inl e
      | Inr keyBytes \<Rightarrow>
          (case hex_decode ciphertextHex of
             None \<Rightarrow> Inl (ErrMsg ''decode ciphertext'')
           | Some ct \<Rightarrow>
               if length ct < 12 then Inl (ErrMsg ''ciphertext too short'')
               else (case gcm_open (to_bytes keyBytes) (to_bytes (take 12 ct)) (to_bytes (drop 12 ct)) of
                       None \<Rightarrow> Inl (ErrMsg ''decrypt'')
                     | Some pt \<Rightarrow> Inr (from_bytes pt))))"

definition GenerateKey :: "faults \<Rightarrow> string \<Rightarrow> error + string" where
  "GenerateKey flt random = (if flt 0 then Inl ErrIO else Inr (hex_encode random))"

section \<open>Key rings\<close>

definition keyIDLen :: nat where
  "keyIDLen = 8"

definition KeyID :: "string \<Rightarrow> error + string" where
  "KeyID hexEncodedKey =
     (case hexKey hexEncodedKey of Inl e \<Rightarrow> Inl e | Inr b \<Rightarrow> Inr (take keyIDLen (hex_encode (sha256 b))))"

definition rawKeyID :: "string \<Rightarrow> error + string" where
  "rawKeyID secret = Inr (take keyIDLen (hex_encode (sha256 secret)))"

record keyring =
  kr_primary :: string
  kr_order :: "string list"
  kr_keys :: "(string \<times> string) list"

fun add_extras :: "(string \<Rightarrow> error + string) \<Rightarrow> string list \<Rightarrow> keyring \<Rightarrow> error + keyring" where
  "add_extras idFn [] kr = Inr kr"
| "add_extras idFn (e # es) kr =
     (case idFn e of
        Inl x \<Rightarrow> Inl x
      | Inr i \<Rightarrow>
          if map_of (kr_keys kr) i \<noteq> None then add_extras idFn es kr
          else add_extras idFn es (kr\<lparr>kr_keys := kr_keys kr @ [(i, e)], kr_order := kr_order kr @ [i]\<rparr>))"

definition newKeyring :: "(string \<Rightarrow> error + string) \<Rightarrow> string \<Rightarrow> string list \<Rightarrow> error + keyring" where
  "newKeyring idFn primary extras =
     (case idFn primary of
        Inl e \<Rightarrow> Inl e
      | Inr pid \<Rightarrow> add_extras idFn extras \<lparr>kr_primary = pid, kr_order = [pid], kr_keys = [(pid, primary)]\<rparr>)"

definition NewKeyring :: "string \<Rightarrow> string list \<Rightarrow> error + keyring" where
  "NewKeyring = newKeyring KeyID"

definition NewKeyringRaw :: "string \<Rightarrow> string list \<Rightarrow> error + keyring" where
  "NewKeyringRaw = newKeyring rawKeyID"

definition key_material :: "keyring \<Rightarrow> string \<Rightarrow> string" where
  "key_material kr i = (case map_of (kr_keys kr) i of None \<Rightarrow> [] | Some k \<Rightarrow> k)"

definition PrimaryID :: "keyring \<Rightarrow> string" where
  "PrimaryID kr = kr_primary kr"

definition Keyring_Primary :: "keyring \<Rightarrow> string" where
  "Keyring_Primary kr = key_material kr (kr_primary kr)"

definition Keyring_Previous :: "keyring \<Rightarrow> string list" where
  "Keyring_Previous kr = map (key_material kr) (tl (kr_order kr))"

definition Keyring_Encrypt :: "faults \<Rightarrow> string \<Rightarrow> keyring \<Rightarrow> string \<Rightarrow> error + string" where
  "Keyring_Encrypt flt nonce kr plaintext =
     (case Encrypt flt nonce (key_material kr (kr_primary kr)) plaintext of
        Inl e \<Rightarrow> Inl e
      | Inr ct \<Rightarrow> Inr (kr_primary kr @ '':'' @ ct))"

text \<open>\<open>strings.Cut(s, ":")\<close>.\<close>

definition cut_colon :: "string \<Rightarrow> (string \<times> string) option" where
  "cut_colon s =
     (if CHR '':'' \<in> set s
      then Some (takeWhile (\<lambda>c. c \<noteq> CHR '':'') s, tl (dropWhile (\<lambda>c. c \<noteq> CHR '':'') s)) else None)"

definition Keyring_Decrypt :: "keyring \<Rightarrow> string \<Rightarrow> error + string" where
  "Keyring_Decrypt kr envelope =
     (case cut_colon envelope of
        Some (i, payload) \<Rightarrow>
          (case map_of (kr_keys kr) i of
             None \<Rightarrow> Inl (ErrMsg ''no key available for key-id'')
           | Some key \<Rightarrow> Decrypt key payload)
      | None \<Rightarrow> Decrypt (key_material kr (kr_primary kr)) envelope)"

section \<open>The secrets provider\<close>

record env_config =
  ec_wallet_key :: string
  ec_wallet_previous :: "string list"
  ec_jwt :: string
  ec_jwt_previous :: "string list"

definition NewEnvProvider :: "env_config \<Rightarrow> error + (string \<times> keyring) list" where
  "NewEnvProvider c =
     (case NewKeyring (ec_wallet_key c) (ec_wallet_previous c) of
        Inl e \<Rightarrow> Inl e
      | Inr walletKR \<Rightarrow>
          (case NewKeyringRaw (ec_jwt c) (ec_jwt_previous c) of
             Inl e \<Rightarrow> Inl e
           | Inr jwtKR \<Rightarrow> Inr [(''wallet-encryption'', walletKR), (''jwt'', jwtKR)]))"

definition Provider_Keyring :: "(string \<times> keyring) list \<Rightarrow> string \<Rightarrow> error + keyring" where
  "Provider_Keyring p name =
     (case map_of p name of None \<Rightarrow> Inl (ErrMsg ''secrets: no keyring configured'') | Some kr \<Rightarrow> Inr kr)"

definition NewProvider :: "string \<Rightarrow> env_config \<Rightarrow> error + (string \<times> keyring) list" where
  "NewProvider backend env =
     (if backend = [] \<or> backend = ''env'' then NewEnvProvider env
      else Inl (ErrMsg ''secrets: backend is not implemented''))"

section \<open>Lemmas\<close>

lemma from_to_bytes [simp]: "from_bytes (to_bytes s) = s"
proof -
  have "char_of (unat (of_nat (of_char c) :: u8)) = c" for c
    using of_char_less_256 [of c] by (simp add: unat_of_nat take_bit_nat_eq_self_iff unsigned_of_nat)
  then show ?thesis by (simp add: from_bytes_def to_bytes_def comp_def map_idI)
qed

lemma to_from_bytes [simp]: "to_bytes (from_bytes bs) = bs"
proof -
  have "of_nat (of_char (char_of (unat b))) = b" for b :: u8
  proof -
    have "unat b < 2 ^ LENGTH(8)" by (rule unsigned_less)
    then show ?thesis by (simp add: of_char_of)
  qed
  then show ?thesis by (simp add: from_bytes_def to_bytes_def comp_def map_idI)
qed

lemma length_to_bytes [simp]: "length (to_bytes s) = length s"
  by (simp add: to_bytes_def)

lemma length_from_bytes [simp]: "length (from_bytes s) = length s"
  by (simp add: from_bytes_def)

lemma Decrypt_Encrypt:
  assumes "Encrypt flt nonce key pt = Inr ct" and "length nonce = 12"
  shows "Decrypt key ct = Inr pt"
proof -
  obtain b where b: "hexKey key = Inr b" using assms(1) by (cases "hexKey key") (auto simp: Encrypt_def)
  then have "length b = 32" by (auto simp: hexKey_def split: option.splits if_splits)
  then have "gcm_open (to_bytes b) (to_bytes nonce) (gcm_seal (to_bytes b) (to_bytes nonce) (to_bytes pt)) = Some (to_bytes pt)"
    using assms(2) by (intro gcm_open_seal) simp_all
  then show ?thesis
    using assms b by (auto simp: Encrypt_def Decrypt_def hex_decode_encode split: if_splits)
qed

lemma lower_hex_not_colon: "list_all lower_hex_char s \<Longrightarrow> CHR '':'' \<notin> set s"
  by (auto simp: list_all_iff lower_hex_char_def)

lemma cut_colon_tagged: "CHR '':'' \<notin> set i \<Longrightarrow> cut_colon (i @ CHR '':'' # p) = Some (i, p)"
proof -
  assume "CHR '':'' \<notin> set i"
  then have "\<forall>c \<in> set i. c \<noteq> CHR '':''" by auto
  then show ?thesis by (simp add: cut_colon_def takeWhile_append2 dropWhile_append2)
qed

lemma Encrypt_no_colon: "Encrypt flt nonce key pt = Inr ct \<Longrightarrow> CHR '':'' \<notin> set ct"
  using lower_hex_not_colon [OF hex_encode_lower] by (auto simp: Encrypt_def split: sum.splits if_splits)

lemma KeyID_no_colon: "KeyID k = Inr i \<Longrightarrow> CHR '':'' \<notin> set i"
  using lower_hex_not_colon [OF hex_encode_lower]
  by (auto simp: KeyID_def split: sum.splits dest: in_set_takeD)

text \<open>What a ring built by \<open>newKeyring\<close> holds: the first key of each id, the primary among them.\<close>

definition ring_ok :: "(string \<Rightarrow> error + string) \<Rightarrow> string \<Rightarrow> string list \<Rightarrow> keyring \<Rightarrow> bool" where
  "ring_ok idFn primary keys kr \<longleftrightarrow>
     idFn primary = Inr (kr_primary kr) \<and> map_of (kr_keys kr) (kr_primary kr) = Some primary \<and>
     (\<forall>i k. map_of (kr_keys kr) i = Some k \<longrightarrow> k \<in> set keys \<and> idFn k = Inr i) \<and>
     (\<forall>k \<in> set keys. \<forall>i. idFn k = Inr i \<longrightarrow> map_of (kr_keys kr) i \<noteq> None)"

lemma map_of_append_new: "map_of xs i = None \<Longrightarrow> map_of (xs @ [(i, e)]) j = (if j = i then Some e else map_of xs j)"
  by (auto simp: map_add_def split: option.splits)

lemma add_extras_ok:
  "add_extras idFn es kr = Inr kr' \<Longrightarrow> ring_ok idFn primary keys kr \<Longrightarrow> ring_ok idFn primary (keys @ es) kr'"
proof (induction es arbitrary: kr keys)
  case (Cons e es)
  obtain i where i: "idFn e = Inr i" using Cons.prems(1) by (cases "idFn e") auto
  show ?case
  proof (cases "map_of (kr_keys kr) i")
    case None
    let ?kr = "kr\<lparr>kr_keys := kr_keys kr @ [(i, e)], kr_order := kr_order kr @ [i]\<rparr>"
    have "ring_ok idFn primary (keys @ [e]) ?kr"
      using Cons.prems(2) i None unfolding ring_ok_def
      by (auto simp: map_of_append_new [OF None] simp del: map_of_append split: if_splits)
    then show ?thesis using Cons.IH [of ?kr "keys @ [e]"] Cons.prems(1) i None by simp
  next
    case (Some k)
    then have "ring_ok idFn primary (keys @ [e]) kr"
      using Cons.prems(2) i unfolding ring_ok_def by auto
    then show ?thesis using Cons.IH [of kr "keys @ [e]"] Cons.prems(1) i Some by simp
  qed
qed simp

lemma newKeyring_ok: "newKeyring idFn primary extras = Inr kr \<Longrightarrow> ring_ok idFn primary (primary # extras) kr"
proof -
  assume a: "newKeyring idFn primary extras = Inr kr"
  then obtain pid where p: "idFn primary = Inr pid" by (cases "idFn primary") (auto simp: newKeyring_def)
  let ?kr = "\<lparr>kr_primary = pid, kr_order = [pid], kr_keys = [(pid, primary)]\<rparr>"
  have "ring_ok idFn primary [primary] ?kr" using p by (auto simp: ring_ok_def split: if_splits)
  moreover have "add_extras idFn extras ?kr = Inr kr" using a p by (simp add: newKeyring_def)
  ultimately show ?thesis using add_extras_ok [of idFn extras ?kr kr primary "[primary]"] by simp
qed

lemma Keyring_Decrypt_tagged:
  assumes "Keyring_Encrypt flt nonce kr pt = Inr env" and "length nonce = 12"
    and "ring_ok KeyID primary keys kr" and "map_of (kr_keys kr') (kr_primary kr) = Some primary"
  shows "Keyring_Decrypt kr' env = Inr pt"
proof -
  have p: "key_material kr (kr_primary kr) = primary" using assms(3) by (simp add: ring_ok_def key_material_def)
  obtain ct where ct: "Encrypt flt nonce primary pt = Inr ct" "env = kr_primary kr @ '':'' @ ct"
    using assms(1) p by (auto simp: Keyring_Encrypt_def split: sum.splits)
  have "CHR '':'' \<notin> set (kr_primary kr)" using assms(3) KeyID_no_colon by (auto simp: ring_ok_def)
  then show ?thesis
    using ct Decrypt_Encrypt [OF ct(1) assms(2)] assms(4) by (simp add: Keyring_Decrypt_def cut_colon_tagged)
qed

text \<open>C23: what a key ring encrypts is read back by the same ring, and by every ring that still holds the
  key it was written under, in particular after a rotation that moved it to the decrypt-only keys, as
  long as no other key of that ring shares its 32-bit id. A value written before key ids existed is
  read with the primary key.\<close>

theorem keyring_round_trip:
  assumes "NewKeyring key extras = Inr kr" and "length nonce = 12"
  shows "(Keyring_Encrypt flt nonce kr pt = Inr env \<longrightarrow> Keyring_Decrypt kr env = Inr pt) \<and>
    (Keyring_Encrypt flt nonce kr pt = Inr env \<and> NewKeyring key' extras' = Inr kr' \<and> key \<in> set (key' # extras') \<and>
       (\<forall>k \<in> set (key' # extras'). KeyID k = KeyID key \<longrightarrow> k = key) \<longrightarrow> Keyring_Decrypt kr' env = Inr pt) \<and>
    (Encrypt flt nonce key pt = Inr ct \<longrightarrow> Keyring_Decrypt kr ct = Inr pt) \<and>
    (\<exists>env. Keyring_Encrypt no_faults nonce kr pt = Inr env)"
proof (intro conjI impI)
  have r: "ring_ok KeyID key (key # extras) kr" using assms(1) by (simp add: NewKeyring_def newKeyring_ok)
  then have m: "map_of (kr_keys kr) (kr_primary kr) = Some key" "KeyID key = Inr (kr_primary kr)"
    by (simp_all add: ring_ok_def)
  show "Keyring_Decrypt kr env = Inr pt" if "Keyring_Encrypt flt nonce kr pt = Inr env"
    using Keyring_Decrypt_tagged [OF that assms(2) r m(1)] .
  show "Keyring_Decrypt kr' env = Inr pt"
    if h: "Keyring_Encrypt flt nonce kr pt = Inr env \<and> NewKeyring key' extras' = Inr kr' \<and> key \<in> set (key' # extras') \<and>
       (\<forall>k \<in> set (key' # extras'). KeyID k = KeyID key \<longrightarrow> k = key)"
  proof -
    have e: "Keyring_Encrypt flt nonce kr pt = Inr env" and n: "NewKeyring key' extras' = Inr kr'"
      and k: "key \<in> set (key' # extras')" and u: "\<forall>k \<in> set (key' # extras'). KeyID k = KeyID key \<longrightarrow> k = key"
      using h by blast+
    have r': "ring_ok KeyID key' (key' # extras') kr'" using n by (simp add: NewKeyring_def newKeyring_ok)
    then have "map_of (kr_keys kr') (kr_primary kr) \<noteq> None" using k m(2) unfolding ring_ok_def by blast
    then obtain k' where k': "map_of (kr_keys kr') (kr_primary kr) = Some k'" by blast
    then have "k' = key" using r' u m(2) unfolding ring_ok_def by metis
    then show ?thesis using Keyring_Decrypt_tagged [OF e assms(2) r] k' by simp
  qed
  show "Keyring_Decrypt kr ct = Inr pt" if "Encrypt flt nonce key pt = Inr ct"
    using Encrypt_no_colon [OF that] Decrypt_Encrypt [OF that assms(2)] m(1)
    by (simp add: Keyring_Decrypt_def cut_colon_def key_material_def)
  obtain b where "hexKey key = Inr b" using m(2) by (cases "hexKey key") (auto simp: KeyID_def)
  then show "\<exists>env. Keyring_Encrypt no_faults nonce kr pt = Inr env"
    using m(1) by (simp add: Keyring_Encrypt_def Encrypt_def key_material_def)
qed

definition sample_hex_key :: "char \<Rightarrow> string" where
  "sample_hex_key c = hex_encode (replicate 32 c)"

lemma KeyID_sample: "\<exists>i. KeyID (sample_hex_key c) = Inr i"
  by (simp add: KeyID_def hexKey_def sample_hex_key_def hex_decode_encode)

theorem keyring_round_trip_witness:
  "\<exists>kr env. NewKeyring (sample_hex_key CHR ''a'') [] = Inr kr \<and>
     Keyring_Encrypt no_faults (replicate 12 CHR ''n'') kr ''secret'' = Inr env \<and> Keyring_Decrypt kr env = Inr ''secret''"
proof -
  obtain i where "KeyID (sample_hex_key CHR ''a'') = Inr i" using KeyID_sample by blast
  then obtain kr where kr: "NewKeyring (sample_hex_key CHR ''a'') [] = Inr kr"
    by (simp add: NewKeyring_def newKeyring_def)
  have n: "length (replicate 12 CHR ''n'') = 12" by simp
  obtain env where env: "Keyring_Encrypt no_faults (replicate 12 CHR ''n'') kr ''secret'' = Inr env"
    using keyring_round_trip [OF kr n] by blast
  then show ?thesis using kr keyring_round_trip [OF kr n] by blast
qed

end
