(* ===== verification/Wallet_Service.thy ===== *)
theory Wallet_Service
  imports Ledger Keyring
begin

text \<open>
  \<open>internal/services/wallet.go\<close>: the payment wallets, their default and their encrypted keys, and
  \<open>internal/services/keyrotation.go\<close>: re-encryption of every stored secret under a new key in one
  transaction. The table \<open>oidc_providers\<close>, which only the rotation touches, is a list of ids and
  encrypted client secrets beside the database. A wallet named by a transaction cannot be deleted
  (foreign key).
\<close>

section \<open>Operations\<close>

definition Wallet_GetByID :: "faults \<Rightarrow> int \<Rightarrow> db \<Rightarrow> error + wallet" where
  "Wallet_GetByID flt i s =
     (if flt 0 then Inl DBError
      else case find (\<lambda>w. w_id w = i) (wallets s) of None \<Rightarrow> Inl ErrWalletNotFound | Some w \<Rightarrow> Inr w)"

definition Wallet_Create ::
  "faults \<Rightarrow> time \<Rightarrow> string \<Rightarrow> keyring \<Rightarrow> string \<Rightarrow> string \<Rightarrow> string \<Rightarrow> db \<Rightarrow> (error + wallet) \<times> db" where
  "Wallet_Create flt now nonce kr name address privateKey s =
     (case Keyring_Encrypt flt nonce kr privateKey of
        Inl e \<Rightarrow> (Inl e, s)
      | Inr encryptedKey \<Rightarrow>
          if flt 1 then (Inl DBError, s)
          else let isDefault = (length (wallets s) = 0)
               in if flt 2 then (Inl DBError, s)
                  else let i = wallet_seq s + 1;
                           row = \<lparr>w_id = i, w_name = name, w_address = address, w_encrypted_key = encryptedKey,
                                  w_default = isDefault, w_payment_balance = ''0'', w_gas_balance = ''0'',
                                  w_created_at = now, w_updated_at = now\<rparr>;
                           s' = s\<lparr>wallets := wallets s @ [row], wallet_seq := i\<rparr>
                       in (Wallet_GetByID (later 3 flt) i s', s'))"

definition GetDefault :: "faults \<Rightarrow> db \<Rightarrow> error + wallet" where
  "GetDefault flt s =
     (if flt 0 then Inl DBError
      else case find w_default (wallets s) of None \<Rightarrow> Inl ErrNoDefaultWallet | Some w \<Rightarrow> Inr w)"

definition Wallet_List :: "faults \<Rightarrow> db \<Rightarrow> error + wallet list" where
  "Wallet_List flt s = (if flt 0 then Inl DBError else Inr (order_asc w_created_at (wallets s)))"

text \<open>One transaction: \<open>Begin\<close>, the existence test, the two updates, \<open>Commit\<close>.\<close>

definition SetDefault :: "faults \<Rightarrow> time \<Rightarrow> int \<Rightarrow> db \<Rightarrow> (error + unit) \<times> db" where
  "SetDefault flt now i s =
     (if flt 0 then (Inl DBError, s)
      else if flt 1 \<or> (\<forall>w \<in> set (wallets s). w_id w \<noteq> i) then (Inl ErrWalletNotFound, s)
      else if flt 2 \<or> flt 3 \<or> flt 4 then (Inl DBError, s)
      else (Inr (), s\<lparr>wallets := update_where (\<lambda>w. w_id w = i) (\<lambda>w. w\<lparr>w_default := True, w_updated_at := now\<rparr>)
                          (update_where (\<lambda>_. True) (\<lambda>w. w\<lparr>w_default := False\<rparr>) (wallets s))\<rparr>))"

definition Wallet_Delete :: "faults \<Rightarrow> int \<Rightarrow> db \<Rightarrow> (error + unit) \<times> db" where
  "Wallet_Delete flt i s =
     (case (if flt 0 then None else find (\<lambda>w. w_id w = i) (wallets s)) of
        None \<Rightarrow> (Inl ErrWalletNotFound, s)
      | Some w \<Rightarrow>
          if w_default w then (Inl ErrDeleteDefault, s)
          else if flt 1 then (Inl DBError, s)
          else if \<exists>t \<in> set (transactions s). t_wallet t = i then (Inl FKViolation, s)
          else (Inr (), s\<lparr>wallets := delete_where (\<lambda>w. w_id w = i) (wallets s)\<rparr>))"

definition DecryptKey :: "keyring \<Rightarrow> wallet \<Rightarrow> error + string" where
  "DecryptKey kr w = Keyring_Decrypt kr (w_encrypted_key w)"

definition UpdateBalance :: "faults \<Rightarrow> time \<Rightarrow> int \<Rightarrow> string \<Rightarrow> string \<Rightarrow> db \<Rightarrow> (error + unit) \<times> db" where
  "UpdateBalance flt now i paymentBalance gasBalance s =
     (if flt 0 then (Inl DBError, s)
      else (Inr (), s\<lparr>wallets := update_where (\<lambda>w. w_id w = i)
               (\<lambda>w. w\<lparr>w_payment_balance := paymentBalance, w_gas_balance := gasBalance, w_updated_at := now\<rparr>) (wallets s)\<rparr>))"

section \<open>Key rotation\<close>

text \<open>The scan over one table: each secret decrypted with both keys at hand and encrypted under the new
  one; the k-th row uses the k-th nonce.\<close>

fun reencrypt_rows ::
  "faults \<Rightarrow> (nat \<Rightarrow> string) \<Rightarrow> keyring \<Rightarrow> keyring \<Rightarrow> (int \<times> string) list \<Rightarrow> error + (int \<times> string) list" where
  "reencrypt_rows flt nonces decKR encKR [] = Inr []"
| "reencrypt_rows flt nonces decKR encKR ((i, enc) # rows) =
     (case Keyring_Decrypt decKR enc of
        Inl e \<Rightarrow> Inl e
      | Inr plain \<Rightarrow>
          (case Keyring_Encrypt flt (nonces 0) encKR plain of
             Inl e \<Rightarrow> Inl e
           | Inr newEnc \<Rightarrow>
               (case reencrypt_rows (later 1 flt) (\<lambda>k. nonces (Suc k)) decKR encKR rows of
                  Inl e \<Rightarrow> Inl e
                | Inr rest \<Rightarrow> Inr ((i, newEnc) # rest))))"

definition store_wallet_keys :: "(int \<times> string) list \<Rightarrow> wallet list \<Rightarrow> wallet list" where
  "store_wallet_keys todo ws =
     fold (\<lambda>(i, v). update_where (\<lambda>w. w_id w = i) (\<lambda>w. w\<lparr>w_encrypted_key := v\<rparr>)) todo ws"

definition store_secrets :: "(int \<times> string) list \<Rightarrow> (int \<times> string) list \<Rightarrow> (int \<times> string) list" where
  "store_secrets todo ps = fold (\<lambda>(i, v). update_where (\<lambda>p. fst p = i) (\<lambda>p. (fst p, v))) todo ps"

record rotation_result =
  rr_wallets :: int
  rr_providers :: int
  rr_old :: string
  rr_new :: string

text \<open>Fault plans: 0 the statements of the transaction in order (a failing UPDATE of a table is one
  index), 1 and 2 the randomness of the two scans. Any error rolls everything back.\<close>

definition RotateEncryptionKey ::
  "(nat \<Rightarrow> faults) \<Rightarrow> (nat \<Rightarrow> nat \<Rightarrow> string) \<Rightarrow> string \<Rightarrow> string \<Rightarrow> db \<times> (int \<times> string) list \<Rightarrow>
   (error + rotation_result) \<times> db \<times> (int \<times> string) list" where
  "RotateEncryptionKey flts nonces oldHexKey newHexKey st =
     (case NewKeyring oldHexKey [newHexKey] of
        Inl e \<Rightarrow> (Inl e, st)
      | Inr decKR \<Rightarrow>
     (case NewKeyring newHexKey [] of
        Inl e \<Rightarrow> (Inl e, st)
      | Inr encKR \<Rightarrow>
          if flts 0 0 \<or> flts 0 1 then (Inl DBError, st)
          else case reencrypt_rows (flts 1) (nonces 0) decKR encKR (map (\<lambda>w. (w_id w, w_encrypted_key w)) (wallets (fst st))) of
            Inl e \<Rightarrow> (Inl e, st)
          | Inr ws \<Rightarrow>
              if flts 0 2 \<or> flts 0 3 then (Inl DBError, st)
              else (case reencrypt_rows (flts 2) (nonces 1) decKR encKR (snd st) of
                Inl e \<Rightarrow> (Inl e, st)
              | Inr ps \<Rightarrow>
                  if flts 0 4 \<or> flts 0 5 then (Inl DBError, st)
                  else (Inr \<lparr>rr_wallets = int (length ws), rr_providers = int (length ps),
                             rr_old = kr_primary decKR, rr_new = PrimaryID encKR\<rparr>,
                        (fst st)\<lparr>wallets := store_wallet_keys ws (wallets (fst st))\<rparr>, store_secrets ps (snd st)))))"

section \<open>The default wallet\<close>

text \<open>What the operations promise: ids below the counter, references intact, and exactly one default
  wallet as soon as there is one.\<close>

definition default_ok :: "db \<Rightarrow> bool" where
  "default_ok s \<longleftrightarrow> length (filter w_default (wallets s)) = (if wallets s = [] then 0 else 1)"

datatype wallet_op =
    WCreate faults time string keyring string string string
  | WSetDefault faults time int
  | WDelete faults int
  | WBalance faults time int string string

fun run_wop :: "wallet_op \<Rightarrow> db \<Rightarrow> db" where
  "run_wop (WCreate flt now nonce kr name addr pk) s = snd (Wallet_Create flt now nonce kr name addr pk s)"
| "run_wop (WSetDefault flt now i) s = snd (SetDefault flt now i s)"
| "run_wop (WDelete flt i) s = snd (Wallet_Delete flt i s)"
| "run_wop (WBalance flt now i pb gb) s = snd (UpdateBalance flt now i pb gb s)"

inductive wallet_reach :: "db \<Rightarrow> db \<Rightarrow> bool" for s0 where
  start: "wallet_reach s0 s0"
| step: "wallet_reach s0 s \<Longrightarrow> wallet_reach s0 (run_wop op s)"

lemma length_filter_key:
  "distinct (map k rs) \<Longrightarrow> r \<in> set rs \<Longrightarrow> length (filter (\<lambda>x. k x = k r) rs) = 1"
proof (induction rs)
  case (Cons y ys)
  show ?case
  proof (cases "k y = k r")
    case True
    then have "k x \<noteq> k r" if "x \<in> set ys" for x using Cons.prems that by (auto simp: image_iff)
    then show ?thesis using True by (simp add: filter_empty_conv)
  next
    case False
    then show ?thesis using Cons by auto
  qed
qed simp

lemma run_wop_keyed: "keyed w_id (wallet_seq s) (wallets s) \<Longrightarrow> keyed w_id (wallet_seq (run_wop op s)) (wallets (run_wop op s))"
  by (cases op)
     (auto simp: Wallet_Create_def SetDefault_def Wallet_Delete_def UpdateBalance_def Let_def keyed_append keyed_delete
       keyed_update split: sum.splits option.splits)

lemma run_wop_default:
  assumes "keyed w_id (wallet_seq s) (wallets s)" and "default_ok s"
  shows "default_ok (run_wop op s)"
proof (cases op)
  case (WCreate flt now nonce kr name addr pk)
  then show ?thesis
    using assms(2) by (auto simp: Wallet_Create_def default_ok_def Let_def split: sum.splits)
next
  case (WSetDefault flt now i)
  show ?thesis
  proof (cases "flt 0 \<or> flt 1 \<or> flt 2 \<or> flt 3 \<or> flt 4 \<or> (\<forall>w \<in> set (wallets s). w_id w \<noteq> i)")
    case True
    then show ?thesis using assms(2) WSetDefault by (auto simp: SetDefault_def)
  next
    case False
    then obtain w where w: "w \<in> set (wallets s)" "w_id w = i" by auto
    have "length (filter (\<lambda>x. w_id x = i) (wallets s)) = 1"
      using length_filter_key [of w_id "wallets s" w] assms(1) w by (simp add: keyed_def)
    then have "length (filter w_default (update_where (\<lambda>w. w_id w = i) (\<lambda>w. w\<lparr>w_default := True, w_updated_at := now\<rparr>)
        (update_where (\<lambda>_. True) (\<lambda>w. w\<lparr>w_default := False\<rparr>) (wallets s)))) = 1"
      by (simp add: update_where_def filter_map comp_def if_distrib cong: if_cong)
    then show ?thesis using False WSetDefault w by (auto simp: SetDefault_def default_ok_def update_where_def)
  qed
next
  case (WDelete flt i)
  show ?thesis
  proof (cases "snd (Wallet_Delete flt i s) = s")
    case True
    then show ?thesis using assms(2) WDelete by simp
  next
    case False
    then obtain w where w: "find (\<lambda>w. w_id w = i) (wallets s) = Some w" "\<not> w_default w"
        "snd (Wallet_Delete flt i s) = s\<lparr>wallets := delete_where (\<lambda>w. w_id w = i) (wallets s)\<rparr>"
      by (auto simp: Wallet_Delete_def split: option.splits if_splits)
    have m: "w \<in> set (wallets s)" "w_id w = i" using find_SomeD [OF w(1)] by auto
    have "x = w" if "x \<in> set (wallets s)" "w_id x = i" for x
      using keyed_inj [OF assms(1) that(1) m(1)] that m by simp
    then have f: "filter w_default (delete_where (\<lambda>w. w_id w = i) (wallets s)) = filter w_default (wallets s)"
      using w(2) by (auto simp: delete_where_def intro!: filter_cong)
    have one: "length (filter w_default (wallets s)) = 1" using assms(2) m(1) by (auto simp: default_ok_def split: if_splits)
    then have "delete_where (\<lambda>w. w_id w = i) (wallets s) \<noteq> []" using f by auto
    then show ?thesis using WDelete w(3) f one by (simp add: default_ok_def)
  qed
next
  case (WBalance flt now i pb gb)
  have "length (filter w_default (update_where (\<lambda>w. w_id w = i) (\<lambda>w. w\<lparr>w_payment_balance := pb, w_gas_balance := gb, w_updated_at := now\<rparr>) (wallets s)))
      = length (filter w_default (wallets s))"
    by (simp add: update_where_def filter_map comp_def if_distrib cong: if_cong)
  then show ?thesis using assms(2) WBalance by (auto simp: UpdateBalance_def default_ok_def update_where_def)
qed


definition sample_wallet :: "int \<Rightarrow> bool \<Rightarrow> wallet" where
  "sample_wallet i d = \<lparr>w_id = i, w_name = ''w'', w_address = ''0x1'', w_encrypted_key = [], w_default = d,
     w_payment_balance = ''0'', w_gas_balance = ''0'', w_created_at = 0, w_updated_at = 0\<rparr>"


section \<open>Rotation keeps the secrets\<close>

lemma reencrypt_rows_spec:
  assumes "reencrypt_rows flt nonces decKR encKR rows = Inr out" and "NewKeyring newKey [] = Inr encKR"
    and "\<And>k. length (nonces k) = 12"
  shows "map fst out = map fst rows \<and>
         (\<forall>(i, v) \<in> set out. \<exists>enc plain. (i, enc) \<in> set rows \<and> Keyring_Decrypt decKR enc = Inr plain \<and> Keyring_Decrypt encKR v = Inr plain)"
  using assms(1,3)
proof (induction rows arbitrary: flt nonces out)
  case (Cons r rows)
  obtain i enc where r: "r = (i, enc)" by force
  obtain plain v rest where p: "Keyring_Decrypt decKR enc = Inr plain" "Keyring_Encrypt flt (nonces 0) encKR plain = Inr v"
      "reencrypt_rows (later 1 flt) (\<lambda>k. nonces (Suc k)) decKR encKR rows = Inr rest" "out = (i, v) # rest"
    using Cons.prems(1) r by (auto split: sum.splits)
  have ring: "ring_ok KeyID newKey [newKey] encKR" using assms(2) newKeyring_ok [of KeyID newKey "[]"] by (simp add: NewKeyring_def)
  then have "Keyring_Decrypt encKR v = Inr plain"
    using Keyring_Decrypt_tagged [OF p(2) Cons.prems(2) ring] by (simp add: ring_ok_def)
  moreover note Cons.IH [OF p(3) Cons.prems(2)]
  ultimately show ?case using p r by fastforce
qed simp

lemma reencrypt_rows_succeeds:
  assumes "NewKeyring newKey [] = Inr encKR" and "\<forall>(i, enc) \<in> set rows. \<exists>plain. Keyring_Decrypt decKR enc = Inr plain"
  shows "\<exists>out. reencrypt_rows no_faults nonces decKR encKR rows = Inr out"
  using assms(2)
proof (induction rows arbitrary: nonces)
  case (Cons r rows)
  obtain i enc plain where r: "r = (i, enc)" "Keyring_Decrypt decKR enc = Inr plain" using Cons.prems by fastforce
  have "ring_ok KeyID newKey [newKey] encKR" using assms(1) newKeyring_ok [of KeyID newKey "[]"] by (simp add: NewKeyring_def)
  then obtain b where "hexKey (key_material encKR (kr_primary encKR)) = Inr b"
    by (auto simp: ring_ok_def key_material_def KeyID_def split: sum.splits)
  then obtain v where "Keyring_Encrypt no_faults (nonces 0) encKR plain = Inr v"
    by (simp add: Keyring_Encrypt_def Encrypt_def)
  moreover obtain rest where "reencrypt_rows no_faults (\<lambda>k. nonces (Suc k)) decKR encKR rows = Inr rest"
    using Cons.IH [of "\<lambda>k. nonces (Suc k)"] Cons.prems by auto
  ultimately show ?case using r by simp
qed simp

text \<open>A loop of single-row updates by id is one pass that looks each row up.\<close>

lemma fold_update_by_key:
  assumes "distinct (map fst todo)" and "\<And>v x. k (f v x) = k x"
  shows "fold (\<lambda>(i, v). update_where (\<lambda>x. k x = i) (f v)) todo xs =
           map (\<lambda>x. case map_of todo (k x) of None \<Rightarrow> x | Some v \<Rightarrow> f v x) xs"
  using assms(1)
proof (induction todo arbitrary: xs)
  case (Cons t todo)
  obtain i v where t: "t = (i, v)" by force
  have "map_of todo i = None" using Cons.prems t by (auto simp: map_of_eq_None_iff)
  then show ?case
    using Cons t assms(2) by (auto simp: update_where_def split: option.splits)
qed simp

lemma rotated_lookup:
  assumes "map fst out = map fst rows" and "distinct (map fst rows)" and "(i, enc) \<in> set rows"
    and "\<forall>(i, v) \<in> set out. \<exists>enc. (i, enc) \<in> set rows \<and> Q enc v"
  shows "\<exists>v. map_of out i = Some v \<and> Q enc v"
proof -
  have "i \<in> fst ` set out" using assms(1,3) by (metis fst_conv image_eqI list.set_map)
  then obtain v where v: "map_of out i = Some v" by (metis map_of_eq_None_iff not_None_eq)
  then obtain enc' where "(i, enc') \<in> set rows" "Q enc' v" using assms(4) map_of_SomeD by fastforce
  moreover have "enc' = enc" using assms(2,3) calculation(1) by (metis eq_key_imp_eq_value)
  ultimately show ?thesis using v by simp
qed

text \<open>C25: a key rotation is all-or-nothing. When it fails nothing changes; when it succeeds every wallet and
  provider row is still there under the same id, and under the new key alone its secret decrypts to what it
  decrypted to before. It does succeed when no statement fails and every stored secret is readable.\<close>

theorem rotation_preserves_secrets:
  assumes "keyed w_id (wallet_seq s) (wallets s)" and "distinct (map fst ps)" and "\<And>t k. length (nonces t k) = 12"
    and dec: "NewKeyring oldKey [newKey] = Inr decKR" and enc: "NewKeyring newKey [] = Inr encKR"
  shows "(RotateEncryptionKey flts nonces oldKey newKey (s, ps) = (Inl e, st') \<longrightarrow> st' = (s, ps)) \<and>
    (RotateEncryptionKey flts nonces oldKey newKey (s, ps) = (Inr res, s', ps') \<longrightarrow>
           (\<forall>w \<in> set (wallets s). \<exists>v plain. w\<lparr>w_encrypted_key := v\<rparr> \<in> set (wallets s') \<and>
              Keyring_Decrypt encKR v = Inr plain \<and> DecryptKey decKR w = Inr plain) \<and>
           map w_id (wallets s') = map w_id (wallets s) \<and>
           (\<forall>(i, c) \<in> set ps. \<exists>v plain. (i, v) \<in> set ps' \<and> Keyring_Decrypt encKR v = Inr plain \<and> Keyring_Decrypt decKR c = Inr plain)) \<and>
    ((\<forall>w \<in> set (wallets s). \<exists>plain. DecryptKey decKR w = Inr plain) \<and>
       (\<forall>(i, c) \<in> set ps. \<exists>plain. Keyring_Decrypt decKR c = Inr plain) \<longrightarrow>
     (\<exists>res st'. RotateEncryptionKey (\<lambda>_. no_faults) nonces oldKey newKey (s, ps) = (Inr res, st')))"
proof -
  let ?rows = "map (\<lambda>w. (w_id w, w_encrypted_key w)) (wallets s)"
  have failed: "st' = (s, ps)" if "RotateEncryptionKey flts nonces oldKey newKey (s, ps) = (Inl e, st')"
    using that dec enc by (auto simp: RotateEncryptionKey_def split: sum.splits if_splits)
  have kept: "(\<forall>w \<in> set (wallets s). \<exists>v plain. w\<lparr>w_encrypted_key := v\<rparr> \<in> set (wallets s') \<and>
            Keyring_Decrypt encKR v = Inr plain \<and> DecryptKey decKR w = Inr plain) \<and>
         map w_id (wallets s') = map w_id (wallets s) \<and>
         (\<forall>(i, c) \<in> set ps. \<exists>v plain. (i, v) \<in> set ps' \<and> Keyring_Decrypt encKR v = Inr plain \<and> Keyring_Decrypt decKR c = Inr plain)"
    if hit: "RotateEncryptionKey flts nonces oldKey newKey (s, ps) = (Inr res, s', ps')"
  proof -
    let ?Q = "\<lambda>c v. \<exists>plain. Keyring_Decrypt decKR c = Inr plain \<and> Keyring_Decrypt encKR v = Inr plain"
    obtain ws os where r: "reencrypt_rows (flts 1) (nonces 0) decKR encKR ?rows = Inr ws"
        "reencrypt_rows (flts 2) (nonces 1) decKR encKR ps = Inr os"
        "wallets s' = store_wallet_keys ws (wallets s)" "ps' = store_secrets os ps"
      using hit dec enc by (auto simp: RotateEncryptionKey_def split: sum.splits if_splits)
    note W = reencrypt_rows_spec [OF r(1) enc assms(3)] and P = reencrypt_rows_spec [OF r(2) enc assms(3)]
    have dw: "distinct (map fst ?rows)" using assms(1) by (simp add: keyed_def comp_def)
    have ws: "wallets s' = map (\<lambda>w. case map_of ws (w_id w) of None \<Rightarrow> w | Some v \<Rightarrow> w\<lparr>w_encrypted_key := v\<rparr>) (wallets s)"
      unfolding r(3) store_wallet_keys_def
      using fold_update_by_key [of ws w_id "\<lambda>v w. w\<lparr>w_encrypted_key := v\<rparr>" "wallets s"] W dw by simp
    have os: "ps' = map (\<lambda>p. case map_of os (fst p) of None \<Rightarrow> p | Some v \<Rightarrow> (fst p, v)) ps"
      unfolding r(4) store_secrets_def
      using fold_update_by_key [of os fst "\<lambda>v p. (fst p, v)" ps] P assms(2) by simp
    have "\<exists>v. w\<lparr>w_encrypted_key := v\<rparr> \<in> set (wallets s') \<and> ?Q (w_encrypted_key w) v" if "w \<in> set (wallets s)" for w
    proof -
      have "\<exists>v. map_of ws (w_id w) = Some v \<and> ?Q (w_encrypted_key w) v"
        by (rule rotated_lookup [where rows = ?rows]) (use W dw that in auto)
      then show ?thesis using that unfolding ws by force
    qed
    moreover have "\<exists>v. (i, v) \<in> set ps' \<and> ?Q c v" if "(i, c) \<in> set ps" for i c
    proof -
      have "\<exists>v. map_of os i = Some v \<and> ?Q c v"
        by (rule rotated_lookup [where rows = ps]) (use P assms(2) that in auto)
      then show ?thesis using that unfolding os by force
    qed
    moreover have "map w_id (wallets s') = map w_id (wallets s)" unfolding ws by (auto split: option.splits)
    ultimately show ?thesis unfolding DecryptKey_def by blast
  qed
  have possible: "\<exists>res st'. RotateEncryptionKey (\<lambda>_. no_faults) nonces oldKey newKey (s, ps) = (Inr res, st')"
    if rw: "\<forall>w \<in> set (wallets s). \<exists>plain. DecryptKey decKR w = Inr plain"
      and rp: "\<forall>(i, c) \<in> set ps. \<exists>plain. Keyring_Decrypt decKR c = Inr plain"
  proof -
    obtain ws where "reencrypt_rows no_faults (nonces 0) decKR encKR ?rows = Inr ws"
      using reencrypt_rows_succeeds [OF enc, of ?rows decKR] rw by (auto simp: DecryptKey_def)
    moreover obtain os where "reencrypt_rows no_faults (nonces 1) decKR encKR ps = Inr os"
      using reencrypt_rows_succeeds [OF enc rp] by blast
    ultimately show ?thesis using dec enc by (simp add: RotateEncryptionKey_def)
  qed
  show ?thesis
    by (rule conjI [OF impI [OF failed] conjI [OF impI [OF kept] impI [OF possible]]]) (assumption | erule conjunct1 conjunct2)+
qed

lemma sample_keyrings:
  obtains kr dec enc env where "NewKeyring (sample_hex_key CHR ''a'') [] = Inr kr"
    "NewKeyring (sample_hex_key CHR ''a'') [sample_hex_key CHR ''b''] = Inr dec" "NewKeyring (sample_hex_key CHR ''b'') [] = Inr enc"
    "Keyring_Encrypt no_faults (replicate 12 CHR ''n'') kr ''pk'' = Inr env" "Keyring_Decrypt dec env = Inr ''pk''"
proof -
  let ?a = "sample_hex_key CHR ''a''" and ?b = "sample_hex_key CHR ''b''"
  let ?n = "replicate 12 CHR ''n''"
  obtain i j where ij: "KeyID ?a = Inr i" "KeyID ?b = Inr j" using KeyID_sample by blast
  obtain kr dec enc where k: "NewKeyring ?a [] = Inr kr" "NewKeyring ?a [?b] = Inr dec" "NewKeyring ?b [] = Inr enc"
    using ij by (cases "i = j") (simp_all add: NewKeyring_def newKeyring_def)
  have r: "ring_ok KeyID ?a [?a] kr" "ring_ok KeyID ?a [?a, ?b] dec"
    using k newKeyring_ok unfolding NewKeyring_def by blast+
  obtain b where "hexKey ?a = Inr b" using ij(1) by (cases "hexKey ?a") (auto simp: KeyID_def)
  then obtain env where env: "Keyring_Encrypt no_faults ?n kr ''pk'' = Inr env"
    using r(1) by (simp add: Keyring_Encrypt_def Encrypt_def key_material_def ring_ok_def)
  have "kr_primary dec = kr_primary kr" using r by (simp add: ring_ok_def)
  then have d: "Keyring_Decrypt dec env = Inr ''pk''"
    using Keyring_Decrypt_tagged [OF env _ r(1), of dec] r(2) by (simp add: ring_ok_def)
  show thesis by (rule that [OF k env d])
qed

theorem rotation_preserves_secrets_witness:
  "\<exists>kr env res s' ps'. NewKeyring (sample_hex_key CHR ''a'') [] = Inr kr \<and>
     Keyring_Encrypt no_faults (replicate 12 CHR ''n'') kr ''pk'' = Inr env \<and>
     RotateEncryptionKey (\<lambda>_. no_faults) (\<lambda>_ _. replicate 12 CHR ''m'') (sample_hex_key CHR ''a'') (sample_hex_key CHR ''b'')
       (empty_db\<lparr>wallets := [(sample_wallet 1 True)\<lparr>w_encrypted_key := env\<rparr>], wallet_seq := 1\<rparr>, []) = (Inr res, s', ps')"
proof -
  let ?a = "sample_hex_key CHR ''a''" and ?b = "sample_hex_key CHR ''b''"
  obtain kr dec enc env where k: "NewKeyring ?a [] = Inr kr" "NewKeyring ?a [?b] = Inr dec" "NewKeyring ?b [] = Inr enc"
    and env: "Keyring_Encrypt no_faults (replicate 12 CHR ''n'') kr ''pk'' = Inr env" and d: "Keyring_Decrypt dec env = Inr ''pk''"
    by (rule sample_keyrings)
  let ?s = "empty_db\<lparr>wallets := [(sample_wallet 1 True)\<lparr>w_encrypted_key := env\<rparr>], wallet_seq := 1\<rparr>"
  have "keyed w_id (wallet_seq ?s) (wallets ?s)" by (simp add: keyed_def sample_wallet_def)
  moreover have "\<forall>w \<in> set (wallets ?s). \<exists>plain. DecryptKey dec w = Inr plain" using d by (simp add: DecryptKey_def)
  ultimately obtain res st' where "RotateEncryptionKey (\<lambda>_. no_faults) (\<lambda>_ _. replicate 12 CHR ''m'') ?a ?b (?s, []) = (Inr res, st')"
    using rotation_preserves_secrets [OF _ _ _ k(2,3), of ?s "[]" "\<lambda>_ _. replicate 12 CHR ''m''", THEN conjunct2, THEN conjunct2, rule_format]
    by auto
  then show ?thesis using k(1) env by (cases st') blast
qed

end
