(* ===== verification/Evm_Signer.thy ===== *)
theory Evm_Signer
  imports Hash Numbers
begin

text \<open>
  \<open>internal/evm/signer.go\<close> and \<open>hexTo32Bytes\<close> of \<open>internal/evm/abi.go\<close>: the payment
  transactions. The Ethereum client library and the node behind it are the record \<open>rpc\<close>, a
  parameter: every answer is indexed by the number of the call sequence (\<open>ev_step\<close>), so that it
  may differ from call to call. \<open>ev_sent\<close> is the log of broadcast transactions, which the code
  does not keep and the theorems speak about.

  Go errors are wrapped and joined; what callers look at is which sentinels and types are in the chain
  (\<open>errors.Is\<close>, \<open>errors.As\<close>). An error is its text with the list of these marks; of a text
  only the fixed leading part is kept, not the numbers and names formatted into it.
\<close>

section \<open>Errors with their chain\<close>

record partial_store =
  ps_stored :: nat
  ps_failed :: nat
  ps_total :: nat
  ps_retryable :: bool
  ps_retention_known :: bool

datatype mark =
    ConfirmationTimeout
  | PaidNoRetry
  | FinalizeFailed
  | GasBackoff
  | NetworkErr
  | UnavailableErr
  | BadRequestErr
  | TooLargeErr
  | PartialUpload partial_store

record werr =
  err_text :: string
  err_marks :: "mark list"

definition plain :: "string \<Rightarrow> werr" where
  "plain msg = \<lparr>err_text = msg, err_marks = []\<rparr>"

definition wrap :: "string \<Rightarrow> werr \<Rightarrow> werr" where
  "wrap pre e = \<lparr>err_text = pre @ err_text e, err_marks = err_marks e\<rparr>"

definition with_mark :: "mark \<Rightarrow> werr \<Rightarrow> werr" where
  "with_mark m e = \<lparr>err_text = err_text e, err_marks = m # err_marks e\<rparr>"

definition has_mark :: "mark \<Rightarrow> werr \<Rightarrow> bool" where
  "has_mark m e \<longleftrightarrow> m \<in> set (err_marks e)"

section \<open>The chain\<close>

record payment_info =
  pi_hash :: string
  pi_rewards :: string
  pi_amount :: string

record candidate =
  cd_rewards :: string
  cd_amount :: string

record pool_commitment =
  pc_hash :: string
  pc_candidates :: "candidate list"

record merkle_batch =
  mb_depth :: int
  mb_pools :: "pool_commitment list"
  mb_timestamp :: nat

text \<open>The \<open>MerklePoolCommitment\<close> handed to the ABI encoder: hash bytes and parsed amounts.\<close>

record commitment =
  cm_hash :: string
  cm_candidates :: "(string \<times> int) list"

datatype calldata =
    Approve string int
  | PayQuotes "(string \<times> int \<times> string) list"
  | PayMerkle nat "commitment list" nat

record sent_tx =
  tx_from :: string
  tx_to :: string
  tx_nonce :: nat
  tx_gas_limit :: nat
  tx_gas_price :: int
  tx_data :: calldata

record event_log =
  lg_topics :: "string list"
  lg_total :: "int option option"

record receipt =
  rc_success :: bool
  rc_logs :: "event_log list"

datatype wait_end = OwnDeadline | ParentDone

text \<open>\<open>rpc_polls n\<close> are the answers to the receipt polls of sequence \<open>n\<close> up to the moment the
  waiting context ends; \<open>rpc_wait_end n\<close> says which context ended it.\<close>

record rpc =
  rpc_address :: "string \<Rightarrow> string option"
  rpc_pack :: "calldata \<Rightarrow> bool"
  rpc_allowance :: "nat \<Rightarrow> string \<Rightarrow> string \<Rightarrow> string \<Rightarrow> int option"
  rpc_balances :: "nat \<Rightarrow> (string \<times> string) option"
  rpc_nonce :: "nat \<Rightarrow> nat option"
  rpc_gas_price :: "nat \<Rightarrow> int option"
  rpc_estimate :: "nat \<Rightarrow> nat option"
  rpc_sign :: "nat \<Rightarrow> bool"
  rpc_submit :: "nat \<Rightarrow> bool"
  rpc_tx_hash :: "nat \<Rightarrow> string"
  rpc_polls :: "nat \<Rightarrow> receipt option list"
  rpc_wait_end :: "nat \<Rightarrow> wait_end"
  rpc_event_id :: string

record evm =
  ev_step :: nat
  ev_sent :: "sent_tx list"

record signer =
  sg_url :: string
  sg_timeout :: int

definition defaultConfirmationTimeout :: int where
  "defaultConfirmationTimeout = 5 * 60 * 10 ^ 9"

definition NewSigner :: "(string \<Rightarrow> bool) \<Rightarrow> string \<Rightarrow> werr + signer" where
  "NewSigner dial rpcURL =
     (if dial rpcURL then Inr \<lparr>sg_url = rpcURL, sg_timeout = defaultConfirmationTimeout\<rparr>
      else Inl (plain ''connecting to EVM RPC''))"

definition SetConfirmationTimeout :: "int \<Rightarrow> signer \<Rightarrow> signer" where
  "SetConfirmationTimeout d sg = sg\<lparr>sg_timeout := d\<rparr>"

section \<open>Sending\<close>

fun waitForReceipt :: "receipt option list \<Rightarrow> wait_end \<Rightarrow> wait_end + receipt" where
  "waitForReceipt [] why = Inl why"
| "waitForReceipt (p # ps) why = (case p of Some r \<Rightarrow> Inr r | None \<Rightarrow> waitForReceipt ps why)"

definition sendTxWithReceipt ::
  "rpc \<Rightarrow> signer \<Rightarrow> string \<Rightarrow> string \<Rightarrow> calldata \<Rightarrow> evm \<Rightarrow> (werr + (string \<times> receipt)) \<times> evm" where
  "sendTxWithReceipt r sg from to cd ev =
     (let n = ev_step ev; ev1 = ev\<lparr>ev_step := n + 1\<rparr>
      in case rpc_nonce r n of
           None \<Rightarrow> (Inl (plain ''getting nonce''), ev1)
         | Some nonce \<Rightarrow>
        (case rpc_gas_price r n of
           None \<Rightarrow> (Inl (plain ''getting gas price''), ev1)
         | Some gasPrice \<Rightarrow>
        (case rpc_estimate r n of
           None \<Rightarrow> (Inl (plain ''estimating gas''), ev1)
         | Some gasLimit \<Rightarrow>
             if \<not> rpc_sign r n then (Inl (plain ''signing tx''), ev1)
             else if \<not> rpc_submit r n then (Inl (plain ''sending tx''), ev1)
             else let tx = \<lparr>tx_from = from, tx_to = to, tx_nonce = nonce, tx_gas_limit = u64 (gasLimit * 120) div 100,
                            tx_gas_price = gasPrice * 2, tx_data = cd\<rparr>;
                      ev2 = ev1\<lparr>ev_sent := ev_sent ev1 @ [tx]\<rparr>
                  in case waitForReceipt (rpc_polls r n) (rpc_wait_end r n) of
                       Inl why \<Rightarrow>
                         (if 0 < sg_timeout sg \<and> why = OwnDeadline
                          then (Inl \<lparr>err_text = ''payment confirmation timed out'', err_marks = [ConfirmationTimeout]\<rparr>, ev2)
                          else (Inl (plain ''waiting for receipt''), ev2))
                     | Inr rc \<Rightarrow>
                         if \<not> rc_success rc then (Inl (plain ''transaction reverted''), ev2)
                         else (Inr (rpc_tx_hash r n, rc), ev2))))"

definition sendTx :: "rpc \<Rightarrow> signer \<Rightarrow> string \<Rightarrow> string \<Rightarrow> calldata \<Rightarrow> evm \<Rightarrow> (werr + string) \<times> evm" where
  "sendTx r sg from to cd ev =
     (case sendTxWithReceipt r sg from to cd ev of
        (Inl e, ev') \<Rightarrow> (Inl e, ev')
      | (Inr (h, rc), ev') \<Rightarrow> (Inr h, ev'))"

definition ensureAllowance ::
  "rpc \<Rightarrow> signer \<Rightarrow> string \<Rightarrow> string \<Rightarrow> string \<Rightarrow> int \<Rightarrow> evm \<Rightarrow> (werr + unit) \<times> evm" where
  "ensureAllowance r sg owner token spender required ev =
     (case rpc_allowance r (ev_step ev) owner token spender of
        None \<Rightarrow> (Inl (plain ''checking allowance''), ev)
      | Some currentAllowance \<Rightarrow>
          if required \<le> currentAllowance then (Inr (), ev)
          else if \<not> rpc_pack r (Approve spender required) then (Inl (plain ''packing approve''), ev)
          else case sendTx r sg owner token (Approve spender required) ev of
                 (Inl e, ev') \<Rightarrow> (Inl (wrap ''approve tx failed: '' e), ev')
               | (Inr _, ev') \<Rightarrow> (Inr (), ev'))"

section \<open>Wave-batch payment\<close>

definition trim_0x :: "string \<Rightarrow> string" where
  "trim_0x s = (if take 2 s = ''0x'' then drop 2 s else s)"

definition hexTo32Bytes :: "string \<Rightarrow> string option" where
  "hexTo32Bytes s = (case hex_decode (trim_0x s) of None \<Rightarrow> None | Some b \<Rightarrow> if length b = 32 then Some b else None)"

fun sum_amounts :: "payment_info list \<Rightarrow> int \<Rightarrow> int option" where
  "sum_amounts [] tot = Some tot"
| "sum_amounts (p # ps) tot = (case SetString10 (pi_amount p) of None \<Rightarrow> None | Some a \<Rightarrow> sum_amounts ps (tot + a))"

fun data_payments :: "payment_info list \<Rightarrow> (string \<times> int \<times> string) list option" where
  "data_payments [] = Some []"
| "data_payments (p # ps) =
     (case hexTo32Bytes (pi_hash p) of
        None \<Rightarrow> None
      | Some h \<Rightarrow>
          (case data_payments ps of
             None \<Rightarrow> None
           | Some rest \<Rightarrow> Some ((pi_rewards p, (case SetString10 (pi_amount p) of None \<Rightarrow> 0 | Some a \<Rightarrow> a), h) # rest)))"

definition PayForQuotes ::
  "rpc \<Rightarrow> signer \<Rightarrow> string \<Rightarrow> payment_info list \<Rightarrow> string \<Rightarrow> string \<Rightarrow> evm \<Rightarrow> (werr + (string \<times> string) list) \<times> evm" where
  "PayForQuotes r sg privateKeyHex payments tokenAddress dataPaymentsAddress ev =
     (case rpc_address r (trim_0x privateKeyHex) of
        None \<Rightarrow> (Inl (plain ''invalid private key''), ev)
      | Some from \<Rightarrow>
     (case sum_amounts payments 0 of
        None \<Rightarrow> (Inl (plain ''invalid payment amount''), ev)
      | Some totalAmount \<Rightarrow>
     (case ensureAllowance r sg from tokenAddress dataPaymentsAddress totalAmount ev of
        (Inl e, ev1) \<Rightarrow> (Inl (wrap ''token approval: '' e), ev1)
      | (Inr _, ev1) \<Rightarrow>
     (case data_payments payments of
        None \<Rightarrow> (Inl (plain ''invalid quote hash''), ev1)
      | Some dps \<Rightarrow>
          if \<not> rpc_pack r (PayQuotes dps) then (Inl (plain ''encoding pay_for_quotes''), ev1)
          else case sendTx r sg from dataPaymentsAddress (PayQuotes dps) ev1 of
                 (Inl e, ev2) \<Rightarrow> (Inl (wrap ''pay_for_quotes tx failed: '' e), ev2)
               | (Inr h, ev2) \<Rightarrow> (Inr (map (\<lambda>p. (pi_hash p, h)) payments), ev2)))))"

section \<open>Merkle payment\<close>

definition merkleMaxDepth :: int where
  "merkleMaxDepth = 8"

definition MerklePoolCandidateCount :: nat where
  "MerklePoolCandidateCount = 16"

definition sortedMedian :: "int list \<Rightarrow> int" where
  "sortedMedian amounts = (if amounts = [] then 0 else sort amounts ! (length amounts div 2))"

definition clamp_depth :: "int \<Rightarrow> nat" where
  "clamp_depth depth = nat (if depth < 0 then 0 else if merkleMaxDepth < depth then merkleMaxDepth else depth)"

text \<open>The loop \<open>if m.Cmp(maxMedian) > 0 { maxMedian = m }\<close> from zero.\<close>

definition max_median :: "int list list \<Rightarrow> int" where
  "max_median pools = fold (\<lambda>amounts mx. if mx < sortedMedian amounts then sortedMedian amounts else mx) pools 0"

definition pool_amounts :: "pool_commitment \<Rightarrow> int list" where
  "pool_amounts pc = map (\<lambda>c. case SetString10 (cd_amount c) of None \<Rightarrow> 0 | Some a \<Rightarrow> a) (pc_candidates pc)"

definition merkleTreeCharge :: "int \<Rightarrow> pool_commitment list \<Rightarrow> int" where
  "merkleTreeCharge depth pools = max_median (map pool_amounts pools) * 2 ^ clamp_depth depth"

definition MaxMerkleBatchesPayout :: "merkle_batch list \<Rightarrow> int" where
  "MaxMerkleBatchesPayout batches = fold (\<lambda>b tot. tot + merkleTreeCharge (mb_depth b) (mb_pools b)) batches 0"

definition maxMerklePayout :: "int \<Rightarrow> commitment list \<Rightarrow> int" where
  "maxMerklePayout depth cms = max_median (map (\<lambda>c. map snd (cm_candidates c)) cms) * 2 ^ clamp_depth depth"

definition EnsureMerkleAllowance ::
  "rpc \<Rightarrow> signer \<Rightarrow> string \<Rightarrow> merkle_batch list \<Rightarrow> string \<Rightarrow> string \<Rightarrow> evm \<Rightarrow> (werr + unit) \<times> evm" where
  "EnsureMerkleAllowance r sg privateKeyHex batches tokenAddress merklePaymentsAddress ev =
     (let required = MaxMerkleBatchesPayout batches
      in if required = 0 then (Inr (), ev)
         else case rpc_address r (trim_0x privateKeyHex) of
                None \<Rightarrow> (Inl (plain ''invalid private key''), ev)
              | Some from \<Rightarrow>
                  (case ensureAllowance r sg from tokenAddress merklePaymentsAddress required ev of
                     (Inl e, ev') \<Rightarrow> (Inl (wrap ''token approval: '' e), ev')
                   | (Inr _, ev') \<Rightarrow> (Inr (), ev')))"

fun parse_candidates :: "candidate list \<Rightarrow> (string \<times> int) list option" where
  "parse_candidates [] = Some []"
| "parse_candidates (c # cs) =
     (case SetString10 (cd_amount c) of
        None \<Rightarrow> None
      | Some a \<Rightarrow> map_option (\<lambda>rest. (cd_rewards c, a) # rest) (parse_candidates cs))"

fun convert_pools :: "pool_commitment list \<Rightarrow> commitment list option" where
  "convert_pools [] = Some []"
| "convert_pools (pc # pcs) =
     (case hexTo32Bytes (pc_hash pc) of
        None \<Rightarrow> None
      | Some h \<Rightarrow>
          if length (pc_candidates pc) \<noteq> MerklePoolCandidateCount then None
          else case parse_candidates (pc_candidates pc) of
                 None \<Rightarrow> None
               | Some cs \<Rightarrow> map_option (\<lambda>rest. \<lparr>cm_hash = h, cm_candidates = cs\<rparr> # rest) (convert_pools pcs))"

text \<open>The scan of the receipt for \<open>MerklePaymentMade\<close>: the first matching log decides.\<close>

fun payment_made :: "string \<Rightarrow> event_log list \<Rightarrow> werr + (string \<times> string)" where
  "payment_made eventSig [] = Inl (plain ''MerklePaymentMade event not found in receipt'')"
| "payment_made eventSig (l # ls) =
     (if 2 \<le> length (lg_topics l) \<and> lg_topics l ! 0 = eventSig then
        (case lg_total l of
           None \<Rightarrow> Inl (plain ''parsing MerklePaymentMade event'')
         | Some None \<Rightarrow> Inl (plain ''unexpected totalAmount type in event'')
         | Some (Some paid) \<Rightarrow> Inr (lg_topics l ! 1, show_int paid))
      else payment_made eventSig ls)"

definition PayForMerkleTree ::
  "rpc \<Rightarrow> signer \<Rightarrow> string \<Rightarrow> int \<Rightarrow> pool_commitment list \<Rightarrow> nat \<Rightarrow> string \<Rightarrow> string \<Rightarrow> evm \<Rightarrow> (werr + (string \<times> string)) \<times> evm" where
  "PayForMerkleTree r sg privateKeyHex depth pools timestamp tokenAddress merklePaymentsAddress ev =
     (case rpc_address r (trim_0x privateKeyHex) of
        None \<Rightarrow> (Inl (plain ''invalid private key''), ev)
      | Some from \<Rightarrow>
     (case convert_pools pools of
        None \<Rightarrow> (Inl (plain ''invalid pool commitment''), ev)
      | Some cms \<Rightarrow>
     (case ensureAllowance r sg from tokenAddress merklePaymentsAddress (maxMerklePayout depth cms) ev of
        (Inl e, ev1) \<Rightarrow> (Inl (wrap ''token approval: '' e), ev1)
      | (Inr _, ev1) \<Rightarrow>
          let cd = PayMerkle (nat (depth mod 256)) cms timestamp
          in if \<not> rpc_pack r cd then (Inl (plain ''encoding payForMerkleTree''), ev1)
             else case sendTxWithReceipt r sg from merklePaymentsAddress cd ev1 of
                    (Inl e, ev2) \<Rightarrow> (Inl (wrap ''payForMerkleTree tx failed: '' e), ev2)
                  | (Inr (h, rc), ev2) \<Rightarrow> (payment_made (rpc_event_id r) (rc_logs rc), ev2))))"

section \<open>Balances\<close>

definition GetBalances :: "rpc \<Rightarrow> evm \<Rightarrow> (werr + (string \<times> string)) \<times> evm" where
  "GetBalances r ev =
     (let n = ev_step ev
      in (case rpc_balances r n of None \<Rightarrow> Inl (plain ''querying token balance'') | Some b \<Rightarrow> Inr b, ev\<lparr>ev_step := n + 1\<rparr>))"

section \<open>Lemmas\<close>

named_theorems chain_simps \<open>what the signer's operations leave on the chain\<close>

text \<open>The payments among the broadcast transactions.\<close>

fun is_payment :: "calldata \<Rightarrow> bool" where
  "is_payment (Approve _ _) = False"
| "is_payment (PayQuotes _) = True"
| "is_payment (PayMerkle _ _ _) = True"

definition payments_sent :: "evm \<Rightarrow> calldata list" where
  "payments_sent ev = filter is_payment (map tx_data (ev_sent ev))"

lemma payments_sent_step [simp]: "payments_sent (ev\<lparr>ev_step := n\<rparr>) = payments_sent ev"
  by (simp add: payments_sent_def)

lemma plain_marks [simp]: "err_marks (plain m) = []"
  by (simp add: plain_def)

lemma wrap_marks [simp]: "err_marks (wrap p e) = err_marks e"
  by (simp add: wrap_def)

lemma with_mark_marks [simp]: "err_marks (with_mark m e) = m # err_marks e"
  by (simp add: with_mark_def)

text \<open>A sent transaction is logged once; a success means it was sent, an error carries at most the
  confirmation mark.\<close>

lemma sendTxWithReceipt_log:
  assumes "sendTxWithReceipt r sg from to cd ev = (res, ev')"
  shows "(payments_sent ev' = payments_sent ev \<and> (\<forall>x. res \<noteq> Inr x) \<or>
          payments_sent ev' = payments_sent ev @ filter is_payment [cd]) \<and>
         (\<forall>e. res = Inl e \<longrightarrow> set (err_marks e) \<subseteq> {ConfirmationTimeout})"
  using assms
  by (auto simp: sendTxWithReceipt_def Let_def payments_sent_def split: option.splits if_splits sum.splits)

lemma sendTx_log:
  assumes "sendTx r sg from to cd ev = (res, ev')"
  shows "(payments_sent ev' = payments_sent ev \<and> (\<forall>x. res \<noteq> Inr x) \<or>
          payments_sent ev' = payments_sent ev @ filter is_payment [cd]) \<and>
         (\<forall>e. res = Inl e \<longrightarrow> set (err_marks e) \<subseteq> {ConfirmationTimeout})"
proof -
  obtain res0 ev0 where s: "sendTxWithReceipt r sg from to cd ev = (res0, ev0)" by force
  show ?thesis
    using assms s sendTxWithReceipt_log [OF s] by (cases res0) (auto simp: sendTx_def split: prod.splits)
qed

lemma ensureAllowance_log:
  assumes "ensureAllowance r sg owner token spender required ev = (res, ev')"
  shows "payments_sent ev' = payments_sent ev \<and> (\<forall>e. res = Inl e \<longrightarrow> set (err_marks e) \<subseteq> {ConfirmationTimeout})"
proof -
  obtain res0 ev0 where s: "sendTx r sg owner token (Approve spender required) ev = (res0, ev0)" by force
  show ?thesis
    using assms s sendTx_log [OF s]
    by (cases res0) (auto simp: ensureAllowance_def split: option.splits if_splits)
qed

text \<open>The call data each payment operation may send.\<close>

definition quote_plan :: "payment_info list \<Rightarrow> calldata list" where
  "quote_plan payments = (case data_payments payments of None \<Rightarrow> [] | Some dps \<Rightarrow> [PayQuotes dps])"

definition merkle_call :: "merkle_batch \<Rightarrow> calldata list" where
  "merkle_call b = (case convert_pools (mb_pools b) of None \<Rightarrow> []
     | Some cms \<Rightarrow> [PayMerkle (nat (mb_depth b mod 256)) cms (mb_timestamp b)])"

lemma PayForQuotes_log:
  assumes "PayForQuotes r sg pk payments token vault ev = (res, ev')"
  shows "(payments_sent ev' = payments_sent ev \<and> (\<forall>x. res \<noteq> Inr x) \<or>
          payments_sent ev' = payments_sent ev @ quote_plan payments \<and> quote_plan payments \<noteq> []) \<and>
         (\<forall>e. res = Inl e \<longrightarrow> set (err_marks e) \<subseteq> {ConfirmationTimeout}) \<and>
         (\<forall>hs. res = Inr hs \<longrightarrow> (\<exists>h. hs = map (\<lambda>p. (pi_hash p, h)) payments))"
proof -
  obtain a t where *: "rpc_address r (trim_0x pk) = a" "sum_amounts payments 0 = t" by simp
  show ?thesis
  proof (cases "a = None \<or> t = None")
    case True
    then show ?thesis using assms * by (auto simp: PayForQuotes_def split: option.splits)
  next
    case False
    then obtain sender tot where ft: "a = Some sender" "t = Some tot" by auto
    obtain r1 ev1 where e1: "ensureAllowance r sg sender token vault tot ev = (r1, ev1)" by force
    obtain r2 ev2 where e2: "sendTx r sg sender vault (PayQuotes (the (data_payments payments))) ev1 = (r2, ev2)" by force
    show ?thesis
      using assms * ft e1 e2 ensureAllowance_log [OF e1] sendTx_log [OF e2]
      by (cases r1; cases r2; cases "data_payments payments")
         (auto simp: PayForQuotes_def quote_plan_def split: if_splits)
  qed
qed

lemma payment_made_plain: "payment_made sig ls = Inl e \<Longrightarrow> err_marks e = []"
  by (induction ls) (auto split: if_splits option.splits)

lemma PayForMerkleTree_log:
  assumes "PayForMerkleTree r sg pk (mb_depth b) (mb_pools b) (mb_timestamp b) token vault ev = (res, ev')"
  shows "(payments_sent ev' = payments_sent ev \<and> (\<forall>x. res \<noteq> Inr x) \<or>
          payments_sent ev' = payments_sent ev @ merkle_call b \<and> merkle_call b \<noteq> []) \<and>
         (\<forall>e. res = Inl e \<longrightarrow> set (err_marks e) \<subseteq> {ConfirmationTimeout})"
proof -
  obtain a c where *: "rpc_address r (trim_0x pk) = a" "convert_pools (mb_pools b) = c" by simp
  show ?thesis
  proof (cases "a = None \<or> c = None")
    case True
    then show ?thesis using assms * by (auto simp: PayForMerkleTree_def split: option.splits)
  next
    case False
    then obtain sender cms where ft: "a = Some sender" "c = Some cms" by auto
    obtain r1 ev1 where e1: "ensureAllowance r sg sender token vault (maxMerklePayout (mb_depth b) cms) ev = (r1, ev1)" by force
    let ?cd = "PayMerkle (nat (mb_depth b mod 256)) cms (mb_timestamp b)"
    obtain r2 ev2 where e2: "sendTxWithReceipt r sg sender vault ?cd ev1 = (r2, ev2)" by force
    show ?thesis
      using assms * ft e1 e2 ensureAllowance_log [OF e1] sendTxWithReceipt_log [OF e2] payment_made_plain
      by (cases r1; cases r2) (auto simp: PayForMerkleTree_def merkle_call_def Let_def split: if_splits)
  qed
qed

lemma EnsureMerkleAllowance_log:
  assumes "EnsureMerkleAllowance r sg pk batches token vault ev = (res, ev')"
  shows "payments_sent ev' = payments_sent ev \<and> (\<forall>e. res = Inl e \<longrightarrow> set (err_marks e) \<subseteq> {ConfirmationTimeout})"
proof (cases "MaxMerkleBatchesPayout batches = 0 \<or> rpc_address r (trim_0x pk) = None")
  case True
  then show ?thesis using assms by (auto simp: EnsureMerkleAllowance_def Let_def split: if_splits)
next
  case False
  then obtain sender where f: "rpc_address r (trim_0x pk) = Some sender" by auto
  obtain r1 ev1 where e1: "ensureAllowance r sg sender token vault (MaxMerkleBatchesPayout batches) ev = (r1, ev1)" by force
  show ?thesis
    using assms f e1 False ensureAllowance_log [OF e1] by (cases r1) (auto simp: EnsureMerkleAllowance_def Let_def)
qed

lemma GetBalances_log [simp]: "payments_sent (snd (GetBalances r ev)) = payments_sent ev"
  by (simp add: GetBalances_def Let_def)

subsection \<open>What a merkle payment can cost\<close>

lemma max_median_ge: "xs \<in> set pools \<Longrightarrow> sortedMedian xs \<le> max_median pools"
  and max_median_cases: "max_median pools = 0 \<or> (\<exists>xs \<in> set pools. max_median pools = sortedMedian xs)"
  and max_median_nonneg: "0 \<le> max_median pools"
proof -
  let ?f = "\<lambda>amounts mx. if mx < sortedMedian amounts then sortedMedian amounts else mx"
  have step: "m \<le> fold ?f pools m \<and> (\<forall>xs \<in> set pools. sortedMedian xs \<le> fold ?f pools m) \<and>
      (fold ?f pools m = m \<or> (\<exists>xs \<in> set pools. fold ?f pools m = sortedMedian xs))" for m pools
    by (induction pools arbitrary: m) (auto, (smt (verit))+)
  show "xs \<in> set pools \<Longrightarrow> sortedMedian xs \<le> max_median pools"
    "max_median pools = 0 \<or> (\<exists>xs \<in> set pools. max_median pools = sortedMedian xs)" "0 \<le> max_median pools"
    unfolding max_median_def using step [where m = 0] by blast+
qed

lemma parse_candidates_amounts:
  "parse_candidates cs = Some ps \<Longrightarrow> map snd ps = map (\<lambda>c. case SetString10 (cd_amount c) of None \<Rightarrow> 0 | Some a \<Rightarrow> a) cs"
  by (induction cs arbitrary: ps) (auto split: option.splits)

lemma convert_pools_amounts:
  "convert_pools pools = Some cms \<Longrightarrow> map (\<lambda>c. map snd (cm_candidates c)) cms = map pool_amounts pools"
  by (induction pools arbitrary: cms)
     (auto simp: pool_amounts_def parse_candidates_amounts split: option.splits if_splits)

lemma MaxMerkleBatchesPayout_sum:
  "MaxMerkleBatchesPayout bs = sum_list (map (\<lambda>b. merkleTreeCharge (mb_depth b) (mb_pools b)) bs)"
proof -
  have "fold (\<lambda>b tot. tot + merkleTreeCharge (mb_depth b) (mb_pools b)) bs t =
      t + sum_list (map (\<lambda>b. merkleTreeCharge (mb_depth b) (mb_pools b)) bs)" for t
    by (induction bs arbitrary: t) auto
  then show ?thesis by (simp add: MaxMerkleBatchesPayout_def)
qed

lemma merkleTreeCharge_nonneg [simp]: "0 \<le> merkleTreeCharge depth pools"
  by (simp add: merkleTreeCharge_def max_median_nonneg)

text \<open>The worst case of what is left of a plan when each paid batch cost at most its own worst case.\<close>

lemma remaining_allowance:
  assumes "\<And>i. i < k \<Longrightarrow> cost i \<le> merkleTreeCharge (mb_depth (bs ! i)) (mb_pools (bs ! i))" and "k < length bs"
  shows "merkleTreeCharge (mb_depth (bs ! k)) (mb_pools (bs ! k)) \<le> MaxMerkleBatchesPayout bs - sum cost {..<k}"
proof -
  let ?c = "\<lambda>b. merkleTreeCharge (mb_depth b) (mb_pools b)"
  have "bs = take k bs @ bs ! k # drop (Suc k) bs" using assms(2) by (simp add: id_take_nth_drop)
  then have "MaxMerkleBatchesPayout bs = sum_list (map ?c (take k bs)) + ?c (bs ! k) + sum_list (map ?c (drop (Suc k) bs))"
    unfolding MaxMerkleBatchesPayout_sum by (metis (no_types, lifting) add.assoc list.simps(9) map_append sum_list.Cons sum_list_append)
  moreover have "sum_list (map ?c (take k bs)) = (\<Sum>i<k. ?c (bs ! i))"
    using assms(2) by (simp add: sum_list_sum_nth atLeast0LessThan)
  moreover have "sum cost {..<k} \<le> (\<Sum>i<k. ?c (bs ! i))" using assms(1) by (intro sum_mono) simp
  moreover have "0 \<le> sum_list (map ?c (drop (Suc k) bs))" by (intro sum_list_nonneg) auto
  ultimately show ?thesis by simp
qed

text \<open>C37: the allowance approved for a merkle plan is enough and no more than the worst case. What one batch
  approves is the estimate the cost ceiling uses; it covers the charge of every pool the contract may
  pick; and after the whole plan was pre-approved, a batch whose predecessors stayed within their own worst
  case finds the allowance sufficient and sends no further approval.\<close>

theorem merkle_allowance_covers_plan:
  "(convert_pools (mb_pools b) = Some cms \<longrightarrow>
      maxMerklePayout (mb_depth b) cms = merkleTreeCharge (mb_depth b) (mb_pools b)) \<and>
   (pc \<in> set (mb_pools b) \<and> 0 \<le> mb_depth b \<and> mb_depth b \<le> 8 \<longrightarrow>
      sortedMedian (pool_amounts pc) * 2 ^ nat (mb_depth b) \<le> merkleTreeCharge (mb_depth b) (mb_pools b)) \<and>
   (k < length bs \<and> convert_pools (mb_pools (bs ! k)) = Some cms' \<and>
      (\<forall>i < k. cost i \<le> merkleTreeCharge (mb_depth (bs ! i)) (mb_pools (bs ! i))) \<and>
      rpc_allowance r (ev_step ev) owner token spender = Some (MaxMerkleBatchesPayout bs - sum cost {..<k}) \<longrightarrow>
      ensureAllowance r sg owner token spender (maxMerklePayout (mb_depth (bs ! k)) cms') ev = (Inr (), ev))"
proof (intro conjI impI)
  have eq: "maxMerklePayout (mb_depth b) cms = merkleTreeCharge (mb_depth b) (mb_pools b)"
    if "convert_pools (mb_pools b) = Some cms" for b cms
    using convert_pools_amounts [OF that] by (simp add: maxMerklePayout_def merkleTreeCharge_def)
  then show "maxMerklePayout (mb_depth b) cms = merkleTreeCharge (mb_depth b) (mb_pools b)"
    if "convert_pools (mb_pools b) = Some cms" using that .
  show "sortedMedian (pool_amounts pc) * 2 ^ nat (mb_depth b) \<le> merkleTreeCharge (mb_depth b) (mb_pools b)"
    if "pc \<in> set (mb_pools b) \<and> 0 \<le> mb_depth b \<and> mb_depth b \<le> 8"
  proof -
    have "clamp_depth (mb_depth b) = nat (mb_depth b)" using that by (simp add: clamp_depth_def merkleMaxDepth_def)
    moreover have "sortedMedian (pool_amounts pc) \<le> max_median (map pool_amounts (mb_pools b))"
      using that by (intro max_median_ge) simp
    ultimately show ?thesis by (simp add: merkleTreeCharge_def mult_right_mono)
  qed
  show "ensureAllowance r sg owner token spender (maxMerklePayout (mb_depth (bs ! k)) cms') ev = (Inr (), ev)"
    if h: "k < length bs \<and> convert_pools (mb_pools (bs ! k)) = Some cms' \<and>
      (\<forall>i < k. cost i \<le> merkleTreeCharge (mb_depth (bs ! i)) (mb_pools (bs ! i))) \<and>
      rpc_allowance r (ev_step ev) owner token spender = Some (MaxMerkleBatchesPayout bs - sum cost {..<k})"
    using remaining_allowance [of k cost bs] eq [of "bs ! k" cms'] h by (simp add: ensureAllowance_def)
qed

definition sample_pool :: pool_commitment where
  "sample_pool = \<lparr>pc_hash = [], pc_candidates = replicate 16 \<lparr>cd_rewards = ''r'', cd_amount = show_int 3\<rparr>\<rparr>"

theorem merkle_allowance_covers_plan_witness:
  "sortedMedian (pool_amounts sample_pool) * 2 ^ nat 2
     \<le> merkleTreeCharge 2 [sample_pool] \<and> merkleTreeCharge 2 [sample_pool] = 12"
proof -
  let ?b = "\<lparr>mb_depth = 2, mb_pools = [sample_pool], mb_timestamp = 0\<rparr>"
  have "pool_amounts sample_pool = replicate 16 3" by (simp add: pool_amounts_def sample_pool_def)
  moreover have "sortedMedian (replicate 16 (3 :: int)) = 3"
    by (simp add: sortedMedian_def sorted_sort_id)
  ultimately have "merkleTreeCharge 2 [sample_pool] = 12"
    by (simp add: merkleTreeCharge_def max_median_def clamp_depth_def merkleMaxDepth_def)
  then show ?thesis
    using merkle_allowance_covers_plan [where pc = sample_pool and b = ?b] by simp
qed

end
