(* ===== verification/Upload_Worker.thy ===== *)
theory Upload_Worker
  imports Evm_Signer Quota Wallet_Service Cache_Sweep
begin

text \<open>
  \<open>internal/worker/upload.go\<close>, \<open>upload_inflight.go\<close>, \<open>upload_finalize_resume.go\<close> and
  \<open>requeue_window.go\<close>: the worker that takes an upload from the queue, has the antd daemon prepare it,
  pays for it on chain, finalizes it and records the outcome.

  \<^item> What the worker changes is the record \<open>world\<close>: the database, the download cache with the file
    system under it (the staged temp files among them), the chain log, the circuit breaker, the table of
    active uploads, the cached EVM endpoint, and the webhook events fired.
  \<^item> What it does not control is the record \<open>env\<close>: failing statements, the clock, cancellation, the
    settings, the answers of the antd daemon (\<open>x_prepare\<close>, \<open>x_finalize\<close>, by call number) and of the
    Ethereum client (\<open>x_rpc\<close>), and \<open>x_others\<close>, what other goroutines do to the database before
    each statement of the worker.
  \<^item> Sleeping is left out; a select on the context and a timer is the test \<open>x_done\<close>.
\<close>

section \<open>State and environment\<close>

record prepared =
  pr_upload_id :: string
  pr_payment_type :: string
  pr_total :: string
  pr_payments :: "payment_info list"
  pr_batches :: "merkle_batch list"
  pr_depth :: int
  pr_pools :: "pool_commitment list"
  pr_timestamp :: nat
  pr_rpc_url :: string
  pr_token :: string
  pr_vault :: string

record finalized =
  fr_data_map :: string
  fr_address :: string
  fr_chunks :: nat

datatype finalize_req =
    FinWave string "(string \<times> string) list"
  | FinMerkle string string
  | FinMerkleMulti string "string list"

record env =
  x_flts :: "nat \<Rightarrow> nat \<Rightarrow> faults"
  x_now :: "nat \<Rightarrow> time"
  x_others :: "nat \<Rightarrow> db \<Rightarrow> db"
  x_get :: "nat \<Rightarrow> string \<Rightarrow> string option"
  x_done :: "nat \<Rightarrow> bool"
  x_prepare :: "nat \<Rightarrow> bool \<Rightarrow> string \<Rightarrow> werr + prepared"
  x_finalize :: "nat \<Rightarrow> finalize_req \<Rightarrow> werr + finalized"
  x_rpc :: rpc
  x_dial :: "nat \<Rightarrow> string \<Rightarrow> bool"
  x_budget :: "int option"
  x_kr :: keyring

record active_upload =
  ac_uuid :: string
  ac_beat :: time
  ac_warned :: bool

record world =
  wd_db :: db
  wd_store :: store
  wd_evm :: evm
  wd_tick :: nat
  wd_calls :: nat
  wd_failures :: int
  wd_open_until :: time
  wd_cooldown :: int
  wd_active :: "(int \<times> active_upload) list"
  wd_signer :: "signer option"
  wd_rpc_url :: string
  wd_token :: string
  wd_events :: "(string \<times> upload) list"

text \<open>One database call: other goroutines first, then the statement group, then the next tick.\<close>

definition db_step :: "env \<Rightarrow> (faults \<Rightarrow> time \<Rightarrow> db \<Rightarrow> 'r \<times> db) \<Rightarrow> world \<Rightarrow> 'r \<times> world" where
  "db_step x f w =
     (let n = wd_tick w; (r, s) = f (x_flts x n 0) (x_now x n) (x_others x n (wd_db w))
      in (r, w\<lparr>wd_db := s, wd_tick := n + 1\<rparr>))"

definition db_read :: "env \<Rightarrow> (faults \<Rightarrow> db \<Rightarrow> 'r) \<Rightarrow> world \<Rightarrow> 'r \<times> world" where
  "db_read x f = db_step x (\<lambda>flt now s. (f flt s, s))"

definition fire :: "string \<Rightarrow> upload \<Rightarrow> world \<Rightarrow> world" where
  "fire ev u w = w\<lparr>wd_events := wd_events w @ [(ev, u)]\<rparr>"

section \<open>Failure classification\<close>

definition isTransientAntdError :: "werr \<Rightarrow> bool" where
  "isTransientAntdError e \<longleftrightarrow> has_mark NetworkErr e \<or> has_mark UnavailableErr e"

definition isPermanentAntdError :: "werr \<Rightarrow> bool" where
  "isPermanentAntdError e \<longleftrightarrow> has_mark BadRequestErr e \<or> has_mark TooLargeErr e"

datatype uploadOutcome = OutcomeRetry | OutcomeAbandon | OutcomePreservePaid | OutcomePreserveUnconfirmed

definition classifyFailure :: "werr \<Rightarrow> bool \<Rightarrow> bool \<Rightarrow> uploadOutcome" where
  "classifyFailure e paymentMade canRetry =
     (if has_mark ConfirmationTimeout e then OutcomePreserveUnconfirmed
      else if has_mark PaidNoRetry e then OutcomePreservePaid
      else if has_mark FinalizeFailed e \<and> canRetry then OutcomeRetry
      else if isTransientAntdError e \<and> canRetry \<and> \<not> paymentMade then OutcomeRetry
      else if paymentMade then OutcomePreservePaid
      else OutcomeAbandon)"

section \<open>Payment plans\<close>

definition merkleBatchPlan :: "prepared \<Rightarrow> werr + merkle_batch list" where
  "merkleBatchPlan p =
     (if pr_batches p \<noteq> [] then Inr (pr_batches p)
      else if pr_pools p \<noteq> [] then Inr [\<lparr>mb_depth = pr_depth p, mb_pools = pr_pools p, mb_timestamp = pr_timestamp p\<rparr>]
      else Inl (plain ''merkle prepare returned no payment batches and no pool commitments''))"

definition estimatedUploadCost :: "prepared \<Rightarrow> int" where
  "estimatedUploadCost p =
     (if pr_payment_type p = ''merkle'' then
        (case merkleBatchPlan p of Inl _ \<Rightarrow> 0 | Inr bs \<Rightarrow> MaxMerkleBatchesPayout bs)
      else (case SetString10 (TrimSpace (pr_total p)) of Some amt \<Rightarrow> amt | None \<Rightarrow> 0))"

definition valid_pool :: "pool_commitment \<Rightarrow> bool" where
  "valid_pool pc \<longleftrightarrow> length (pc_candidates pc) = MerklePoolCandidateCount \<and>
     list_all (\<lambda>c. SetString10 (cd_amount c) \<noteq> None) (pc_candidates pc)"

definition valid_batch :: "merkle_batch \<Rightarrow> bool" where
  "valid_batch b \<longleftrightarrow> 1 \<le> mb_depth b \<and> mb_depth b \<le> 8 \<and> mb_pools b \<noteq> [] \<and> list_all valid_pool (mb_pools b)"

definition validateMerkleBatches :: "merkle_batch list \<Rightarrow> werr option" where
  "validateMerkleBatches bs = (if list_all valid_batch bs then None else Some (plain ''invalid batch''))"

definition padWinnerList :: "string list \<Rightarrow> nat \<Rightarrow> string list" where
  "padWinnerList winners batchCount = take batchCount winners @ replicate (batchCount - length winners) []"

definition shouldSalvageMerkle :: "werr \<Rightarrow> nat \<Rightarrow> bool" where
  "shouldSalvageMerkle e paidBatches \<longleftrightarrow> 0 < paidBatches \<and> \<not> has_mark ConfirmationTimeout e"

section \<open>Uploads in flight\<close>

definition markActive :: "env \<Rightarrow> upload \<Rightarrow> world \<Rightarrow> world" where
  "markActive x u w =
     w\<lparr>wd_active := put (u_id u) \<lparr>ac_uuid = u_uuid u, ac_beat = x_now x (wd_tick w), ac_warned = False\<rparr> (wd_active w)\<rparr>"

definition clearActive :: "int \<Rightarrow> world \<Rightarrow> world" where
  "clearActive i w = w\<lparr>wd_active := del i (wd_active w)\<rparr>"

definition activeIDs :: "world \<Rightarrow> int list" where
  "activeIDs w = map fst (wd_active w)"

definition beat :: "time \<Rightarrow> int \<Rightarrow> world \<Rightarrow> world" where
  "beat now i w =
     w\<lparr>wd_active := map (\<lambda>(k, a). (k, if k = i then a\<lparr>ac_beat := now, ac_warned := False\<rparr> else a)) (wd_active w)\<rparr>"

definition heartbeat :: "env \<Rightarrow> upload \<Rightarrow> world \<Rightarrow> world" where
  "heartbeat x u w =
     (let (r, w1) = db_step x (\<lambda>flt now s. TouchProcessing flt now (u_id u) s) w
      in beat (x_now x (wd_tick w)) (u_id u) w1)"

definition DefaultStuckRequeueAfter :: int where
  "DefaultStuckRequeueAfter = 60 * 60"

definition MinStuckRequeueAfter :: int where
  "MinStuckRequeueAfter = 60"

definition MaxStuckRequeueAfter :: int where
  "MaxStuckRequeueAfter = 7 * 24 * 3600"

text \<open>The override is process memory, 0 meaning none; the window and whether it was overridden.\<close>

definition StuckRequeueAfter :: "int \<Rightarrow> int \<times> bool" where
  "StuckRequeueAfter override = (if 0 < override then (override, True) else (DefaultStuckRequeueAfter, False))"

definition SetStuckRequeueAfter :: "int \<Rightarrow> int \<Rightarrow> error option \<times> int" where
  "SetStuckRequeueAfter window override =
     (if window < MinStuckRequeueAfter \<or> MaxStuckRequeueAfter < window
      then (Some (ErrMsg ''requeue window must be between 1m0s and 168h0m0s''), override) else (None, window))"

definition ResetStuckRequeueAfter :: "int \<Rightarrow> int" where
  "ResetStuckRequeueAfter override = 0"

definition sweepStuck :: "env \<Rightarrow> int \<Rightarrow> world \<Rightarrow> world" where
  "sweepStuck x override w =
     (let window = fst (StuckRequeueAfter override);
          now = x_now x (wd_tick w);
          (r, w1) = db_step x (\<lambda>flt now s. RequeueStuckExcept flt now window (activeIDs w) s) w
      in w1\<lparr>wd_active := map (\<lambda>(k, a). (k, if window < now - ac_beat a then a\<lparr>ac_warned := True\<rparr> else a)) (wd_active w1)\<rparr>)"

definition refuseRepayment :: "env \<Rightarrow> upload \<Rightarrow> world \<Rightarrow> werr option \<times> world" where
  "refuseRepayment x u w =
     (let (r, w1) = db_read x (\<lambda>flt s. HasPaymentSinceQueued flt (u_id u) s) w
      in case r of
           Inl _ \<Rightarrow> (Some (plain ''could not check for an earlier payment, not paying''), w1)
         | Inr alreadyPaid \<Rightarrow>
             if alreadyPaid then (Some (with_mark PaidNoRetry (plain ''a payment is already recorded for this upload since it was queued'')), w1)
             else (None, w1))"

section \<open>Payments\<close>

definition ledgerPayment :: "env \<Rightarrow> int \<Rightarrow> upload \<Rightarrow> string \<Rightarrow> string \<Rightarrow> string \<Rightarrow> world \<Rightarrow> werr option \<times> world" where
  "ledgerPayment x walletID u amount balanceAfter txHash w =
     (let (r, w1) = db_step x (\<lambda>flt now s. Txn_Record flt now walletID (Some (u_id u)) ''upload'' amount balanceAfter txHash s) w
      in case r of
           Inl _ \<Rightarrow> (Some (plain (''payment '' @ txHash @ '' confirmed but not recorded'')), w1)
         | Inr _ \<Rightarrow> (None, w1))"

definition recordPayment ::
  "env \<Rightarrow> wallet \<Rightarrow> upload \<Rightarrow> string \<Rightarrow> string \<Rightarrow> world \<Rightarrow> werr option \<times> world" where
  "recordPayment x wal u paidAmount txHash w =
     (let (b, ev) = GetBalances (x_rpc x) (wd_evm w); w1 = w\<lparr>wd_evm := ev\<rparr>
      in case b of
           Inr (tokenBal, gasBal) \<Rightarrow>
             (let (r, w2) = db_step x (\<lambda>flt now s. UpdateBalance flt now (w_id wal) tokenBal gasBal s) w1
              in ledgerPayment x (w_id wal) u paidAmount tokenBal txHash w2)
         | Inl _ \<Rightarrow> ledgerPayment x (w_id wal) u paidAmount (w_payment_balance wal) txHash w1)"

definition paidNoRetryIfUnrecorded :: "werr option \<Rightarrow> werr option \<Rightarrow> werr option" where
  "paidNoRetryIfUnrecorded e unrecorded =
     (case e of
        None \<Rightarrow> None
      | Some err \<Rightarrow>
          (case unrecorded of
             None \<Rightarrow> Some err
           | Some un \<Rightarrow>
               if has_mark PaidNoRetry err then Some err
               else Some \<lparr>err_text = err_text err @ ''; not retrying: '' @ err_text un,
                          err_marks = err_marks err @ PaidNoRetry # err_marks un\<rparr>))"

text \<open>The loop over the batches: winners so far, the total, and the first payment that was not recorded.\<close>

fun payMerkleBatches ::
  "env \<Rightarrow> signer \<Rightarrow> string \<Rightarrow> string \<Rightarrow> string \<Rightarrow> wallet \<Rightarrow> upload \<Rightarrow> merkle_batch list \<Rightarrow>
   string list \<Rightarrow> int \<Rightarrow> werr option \<Rightarrow> world \<Rightarrow> (werr option \<times> string list \<times> int \<times> werr option) \<times> world" where
  "payMerkleBatches x sg pk token vault wal u [] winners totalPaid unrecorded w = ((None, winners, totalPaid, unrecorded), w)"
| "payMerkleBatches x sg pk token vault wal u (b # bs) winners totalPaid unrecorded w =
     (case PayForMerkleTree (x_rpc x) sg pk (mb_depth b) (mb_pools b) (mb_timestamp b) token vault (wd_evm w) of
        (Inl e, ev) \<Rightarrow> ((Some e, winners, totalPaid, unrecorded), w\<lparr>wd_evm := ev\<rparr>)
      | (Inr (winnerHash, batchPaid), ev) \<Rightarrow>
          let totalPaid' = (case SetString10 batchPaid of Some a \<Rightarrow> totalPaid + a | None \<Rightarrow> totalPaid);
              (rerr, w1) = recordPayment x wal u batchPaid winnerHash (w\<lparr>wd_evm := ev\<rparr>)
          in payMerkleBatches x sg pk token vault wal u bs (winners @ [winnerHash]) totalPaid'
               (if rerr \<noteq> None \<and> unrecorded = None then rerr else unrecorded) (heartbeat x u w1))"

section \<open>Finalization\<close>

definition finalizeResumeDelays :: "int list" where
  "finalizeResumeDelays = [15, 30, 60, 120, 240]"

definition partial_of :: "werr \<Rightarrow> partial_store option" where
  "partial_of e = (case find (\<lambda>m. case m of PartialUpload _ \<Rightarrow> True | _ \<Rightarrow> False) (err_marks e) of
     Some (PartialUpload p) \<Rightarrow> Some p | _ \<Rightarrow> None)"

definition finalize_call :: "env \<Rightarrow> finalize_req \<Rightarrow> world \<Rightarrow> (werr + finalized) \<times> world" where
  "finalize_call x req w = (x_finalize x (wd_calls w) req, w\<lparr>wd_calls := wd_calls w + 1\<rparr>)"

fun finalize_resume ::
  "env \<Rightarrow> upload \<Rightarrow> finalize_req \<Rightarrow> int list \<Rightarrow> nat \<Rightarrow> werr + finalized \<Rightarrow> world \<Rightarrow> (werr + finalized) \<times> world" where
  "finalize_resume x u req [] lastFailed r w = (r, w)"
| "finalize_resume x u req (d # ds) lastFailed r w =
     (case r of
        Inr res \<Rightarrow> (r, w)
      | Inl e \<Rightarrow>
          (case partial_of e of
             None \<Rightarrow> (r, w)
           | Some p \<Rightarrow>
               if \<not> ps_retryable p then (r, w)
               else if lastFailed \<le> ps_failed p then (r, w)
               else if x_done x (wd_tick w) then (r, w)
               else let (r', w') = finalize_call x req (heartbeat x u w)
                    in finalize_resume x u req ds (ps_failed p) r' w'))"

definition finalizeWithResume :: "env \<Rightarrow> upload \<Rightarrow> finalize_req \<Rightarrow> world \<Rightarrow> (werr + finalized) \<times> world" where
  "finalizeWithResume x u req w =
     (let (r, w1) = finalize_call x req w in finalize_resume x u req finalizeResumeDelays (2 ^ 64 - 1) r w1)"

definition waveFinalizeError :: "werr \<Rightarrow> werr" where
  "waveFinalizeError e =
     (if (case partial_of e of Some p \<Rightarrow> \<not> ps_retention_known p | None \<Rightarrow> False)
      then wrap ''Failed to finalize upload: antd did not say whether it kept the paid attempt; not paying again: '' (with_mark PaidNoRetry e)
      else wrap ''Failed to finalize upload: '' (with_mark FinalizeFailed e))"

definition salvageMerkleFinalize :: "env \<Rightarrow> string \<Rightarrow> string list \<Rightarrow> nat \<Rightarrow> world \<Rightarrow> finalized option \<times> world" where
  "salvageMerkleFinalize x uploadID winners batchCount w =
     (case finalize_call x (FinMerkleMulti uploadID (padWinnerList winners batchCount)) w of
        (Inr res, w1) \<Rightarrow> (Some res, w1)
      | (Inl _, w1) \<Rightarrow> (None, w1))"

section \<open>Temp files and the download cache\<close>

definition seed_count :: "store \<Rightarrow> store" where
  "seed_count st = st\<lparr>s_metrics := (s_metrics st)\<lparr>m_promoted_seeded := m_promoted_seeded (s_metrics st) + 1\<rparr>\<rparr>"

text \<open>Sub-plan 1 of a tick holds the faults of file-system calls: the \<open>Lstat\<close> here (0), then the
  promotion (from 1), then the drop (from 4).\<close>

definition seedDownloadCache :: "env \<Rightarrow> upload \<Rightarrow> string \<Rightarrow> world \<Rightarrow> world" where
  "seedDownloadCache x u contentID w =
     (let n = wd_tick w; get = x_get x n; fs = x_flts x n 1;
          budget = DownloadCacheBudget (x_budget x) (int_setting (get ''download_cache_max_bytes'') 0 0 (2 ^ 50));
          maxObject = int_setting (get ''download_cache_max_object_bytes'') (64 * 2 ^ 20) 1 (2 ^ 40)
      in if contentID = [] then w
         else case u_temp u of
                None \<Rightarrow> w
              | Some tempPath \<Rightarrow>
                  if tempPath = [] then w
                  else if u_visibility u \<noteq> Public \<and> \<not> bool_setting (get ''download_cache_private'') False then w
                  else if get ''download_cache_seed_on_upload'' = Some ''false'' then w
                  else if budget \<le> 0 then w
                  else case (if fs 0 then None else file_at (wd_store w) tempPath) of
                         Some (Regular sz) \<Rightarrow>
                           if maxObject < sz then w
                           else (case PromoteIfFits (later 1 fs) (x_now x n) (KeyForIdentifier contentID) tempPath budget (wd_store w) of
                                   (Inl _, st1) \<Rightarrow> w\<lparr>wd_store := st1\<rparr>
                                 | (Inr _, st1) \<Rightarrow>
                                     (case db_read x (\<lambda>flt s. Upload_GetByUUID flt (u_uuid u) s) (w\<lparr>wd_store := seed_count st1\<rparr>) of
                                        (Inl ErrUploadNotFound, w2) \<Rightarrow>
                                          w2\<lparr>wd_store := snd (Store_Drop (later 4 fs) (KeyForIdentifier contentID) (wd_store w2))\<rparr>
                                      | (_, w2) \<Rightarrow> w2))
                       | _ \<Rightarrow> w)"

definition cleanupTempFile :: "env \<Rightarrow> upload \<Rightarrow> world \<Rightarrow> world" where
  "cleanupTempFile x u w =
     (case u_temp u of
        None \<Rightarrow> w
      | Some p \<Rightarrow>
          if p = [] then w
          else if x_flts x (wd_tick w) 1 0 then w
          else w\<lparr>wd_store := (wd_store w)\<lparr>s_files := del p (s_files (wd_store w))\<rparr>\<rparr>)"

text \<open>The temp garbage collector: the files directly in the temp directory, those not listed as active
  and older than ten minutes removed; \<open>mtime\<close> is None when \<open>Info\<close> fails. Faults of sub-plan 1:
  \<open>ReadDir\<close> (0), then one per removal.\<close>

definition in_dir :: "string \<Rightarrow> string \<Rightarrow> bool" where
  "in_dir d p \<longleftrightarrow> take (length d + 1) p = d @ ''/'' \<and> drop (length d + 1) p \<noteq> [] \<and> CHR ''/'' \<notin> set (drop (length d + 1) p)"

fun clean_files ::
  "faults \<Rightarrow> time \<Rightarrow> (string \<Rightarrow> time option) \<Rightarrow> string list \<Rightarrow> string list \<Rightarrow> store \<Rightarrow> store" where
  "clean_files flt now mtime active [] st = st"
| "clean_files flt now mtime active (p # ps) st =
     clean_files (later 1 flt) now mtime active ps
       (if p \<in> set active then st
        else case mtime p of
               None \<Rightarrow> st
             | Some t \<Rightarrow> if now - t < 600 then st
                         else if flt 0 then st
                         else st\<lparr>s_files := del p (s_files st)\<rparr>)"

definition cleanOrphanedTempFiles :: "env \<Rightarrow> string \<Rightarrow> (string \<Rightarrow> time option) \<Rightarrow> world \<Rightarrow> world" where
  "cleanOrphanedTempFiles x tempDir mtime w =
     (let n = wd_tick w; fs = x_flts x n 1
      in if fs 0 then w
         else let entries = filter (in_dir tempDir) (map fst (s_files (wd_store w)))
              in case db_read x (\<lambda>flt s. ListActiveTempPaths flt s) w of
                   (Inl _, w1) \<Rightarrow> w1
                 | (Inr activePaths, w1) \<Rightarrow>
                     w1\<lparr>wd_store := clean_files (later 1 fs) (x_now x n) mtime activePaths entries (wd_store w1)\<rparr>)"

section \<open>Gas backoff\<close>

definition maxGasBackoffAttempts :: int where
  "maxGasBackoffAttempts = 10"

definition nextCheapWindow :: "time \<Rightarrow> time" where
  "nextCheapWindow now =
     (let target = (now div 86400) * 86400 + 2 * 3600
      in if 2 \<le> (now mod 86400) div 3600 then target + 24 * 3600 else target)"

definition calcGasBackoff :: "time \<Rightarrow> int \<Rightarrow> time" where
  "calcGasBackoff now attempt =
     (if attempt \<le> 1 then now + 5 * 60
      else if attempt = 2 then now + 15 * 60
      else if attempt = 3 then now + 45 * 60
      else if attempt = 4 then now + 2 * 3600
      else if attempt = 5 then now + 4 * 3600
      else if attempt = 6 then now + 6 * 3600
      else nextCheapWindow now)"

definition gas_too_high :: string where
  "gas_too_high = ''Gas fees too high '' @ [CHR 0xE2, CHR 0x80, CHR 0x94] @ '' try again later''"

text \<open>The cost ceiling: None lets the upload pass.\<close>

definition cost_ceiling :: "env \<Rightarrow> upload \<Rightarrow> prepared \<Rightarrow> world \<Rightarrow> werr option \<times> world" where
  "cost_ceiling x u p w =
     (case x_get x (wd_tick w) ''max_gas_fee'' of
        None \<Rightarrow> (None, w)
      | Some maxFeeStr \<Rightarrow>
          (case SetString10 (TrimSpace maxFeeStr) of
             None \<Rightarrow> (None, w)
           | Some maxFee \<Rightarrow>
               if maxFee \<le> 0 then (None, w)
               else let estCost = estimatedUploadCost p
                    in if maxFee < estCost
                       then let attempt = u_backoff_attempt u + 1
                            in if maxGasBackoffAttempts < attempt then (Some (plain gas_too_high), w)
                               else let backoffUntil = calcGasBackoff (x_now x (wd_tick w)) attempt;
                                        (r, w1) = db_step x (\<lambda>flt now s. SetGasBackoff flt (u_id u) backoffUntil attempt (show_int estCost) s) w
                                    in (case r of
                                          Inl _ \<Rightarrow> (Some (plain ''Internal error scheduling retry''), w1)
                                        | Inr _ \<Rightarrow> (Some \<lparr>err_text = ''gas backoff'', err_marks = [GasBackoff]\<rparr>, w1))
                       else if 0 < u_backoff_attempt u then (None, snd (db_step x (\<lambda>flt now s. ClearBackoff flt (u_id u) s) w))
                       else (None, w)))"

section \<open>Processing one upload\<close>

definition error_text :: "error \<Rightarrow> string" where
  "error_text e = (case e of ErrQuotaExceeded \<Rightarrow> ''quota exceeded'' | _ \<Rightarrow> ''database error'')"

text \<open>Everything before the daemon is asked: the temp file, the quota, the wallet and its key.\<close>

definition admission :: "env \<Rightarrow> upload \<Rightarrow> world \<Rightarrow> (werr + (string \<times> wallet \<times> string)) \<times> world" where
  "admission x u w =
     (case u_temp u of
        None \<Rightarrow> (Inl (plain ''File not found on server''), w)
      | Some tempPath \<Rightarrow>
          if tempPath = [] \<or> x_flts x (wd_tick w) 1 0 \<or> file_at (wd_store w) tempPath = None
          then (Inl (plain ''File not found on server''), w)
          else case db_read x (\<lambda>flt s. CheckUserQuotaInFlight (\<lambda>i. x_flts x (wd_tick w) (i + 2)) (u_user u) (u_token u) (u_size u) s) w of
                 (Inl e, w1) \<Rightarrow> (Inl (plain (''Quota exceeded: '' @ error_text e)), w1)
               | (Inr _, w1) \<Rightarrow>
                   (case db_read x (\<lambda>flt s. GetDefault flt s) w1 of
                      (Inl _, w2) \<Rightarrow> (Inl (plain ''No wallet configured for payment''), w2)
                    | (Inr wal, w2) \<Rightarrow>
                        (case DecryptKey (x_kr x) wal of
                           Inl _ \<Rightarrow> (Inl (plain ''Failed to decrypt wallet key''), w2)
                         | Inr key \<Rightarrow> (Inr (tempPath, wal, key), w2))))"

definition prepare_call :: "env \<Rightarrow> upload \<Rightarrow> string \<Rightarrow> world \<Rightarrow> (werr + prepared) \<times> world" where
  "prepare_call x u tempPath w =
     (x_prepare x (wd_calls w) (u_visibility u = Public) tempPath, w\<lparr>wd_calls := wd_calls w + 1\<rparr>)"

text \<open>The endpoint: the configuration first, the daemon's answer otherwise, which is then remembered; a
  signer for the resolved URL; the operator's confirmation timeout in nanoseconds.\<close>

definition resolve_signer :: "env \<Rightarrow> prepared \<Rightarrow> world \<Rightarrow> (werr + (signer \<times> string)) \<times> world" where
  "resolve_signer x p w =
     (let rpcURL = (if wd_rpc_url w = [] then pr_rpc_url p else wd_rpc_url w);
          tokenAddr = (if wd_token w = [] then pr_token p else wd_token w);
          w1 = (if wd_rpc_url w = [] \<and> pr_rpc_url p \<noteq> [] then w\<lparr>wd_rpc_url := pr_rpc_url p, wd_token := pr_token p\<rparr> else w);
          sg = (case wd_signer w1 of
                  Some s \<Rightarrow> if sg_url s = rpcURL then Inr s else NewSigner (x_dial x (wd_tick w)) rpcURL
                | None \<Rightarrow> NewSigner (x_dial x (wd_tick w)) rpcURL)
      in case sg of
           Inl e \<Rightarrow> (Inl (wrap ''Failed to connect to EVM RPC: '' e), w1)
         | Inr s \<Rightarrow>
             let s' = (case x_get x (wd_tick w) ''payment_confirmation_timeout_seconds'' of
                         None \<Rightarrow> s
                       | Some v \<Rightarrow> (case Atoi (TrimSpace v) of
                             None \<Rightarrow> s
                           | Some secs \<Rightarrow> if 0 < secs then SetConfirmationTimeout (i64 (secs * 10 ^ 9)) s else s))
             in (Inr (s', tokenAddr), w1\<lparr>wd_signer := Some s'\<rparr>))"

text \<open>Payment and finalization. The result is the finalized upload and the amount paid, next to the
  first payment the ledger failed to record.\<close>

definition merkle_branch ::
  "env \<Rightarrow> upload \<Rightarrow> wallet \<Rightarrow> string \<Rightarrow> signer \<Rightarrow> string \<Rightarrow> prepared \<Rightarrow> world \<Rightarrow>
   ((werr + (finalized \<times> string)) \<times> werr option) \<times> world" where
  "merkle_branch x u wal pk sg token p w =
     (case merkleBatchPlan p of
        Inl e \<Rightarrow> ((Inl e, None), w)
      | Inr batches \<Rightarrow>
     (case validateMerkleBatches batches of
        Some e \<Rightarrow> ((Inl (wrap ''merkle payment data invalid: '' e), None), w)
      | None \<Rightarrow>
     (case refuseRepayment x u w of
        (Some e, w1) \<Rightarrow> ((Inl e, None), w1)
      | (None, w1) \<Rightarrow>
     (case (if 1 < length batches then EnsureMerkleAllowance (x_rpc x) sg pk batches token (pr_vault p) (wd_evm w1)
            else (Inr (), wd_evm w1)) of
        (Inl e, ev) \<Rightarrow> ((Inl (wrap ''EVM merkle allowance approval failed: '' e), None), w1\<lparr>wd_evm := ev\<rparr>)
      | (Inr _, ev) \<Rightarrow>
     (case payMerkleBatches x sg pk token (pr_vault p) wal u batches [] 0 None (w1\<lparr>wd_evm := ev\<rparr>) of
        ((Some payErr, winners, totalPaid, unrecorded), w2) \<Rightarrow>
          if shouldSalvageMerkle payErr (length winners)
          then (case salvageMerkleFinalize x (pr_upload_id p) winners (length batches) w2 of
                  (Some res, w3) \<Rightarrow> ((Inr (res, show_int totalPaid), unrecorded), w3)
                | (None, w3) \<Rightarrow> ((Inl (wrap ''EVM merkle payment failed: '' (with_mark PaidNoRetry payErr)), unrecorded), w3))
          else ((Inl (wrap ''EVM merkle payment failed: '' payErr), unrecorded), w2)
      | ((None, winners, totalPaid, unrecorded), w2) \<Rightarrow>
          let w3 = heartbeat x u w2;
              req = (if length batches = 1 then FinMerkle (pr_upload_id p) (hd winners)
                     else FinMerkleMulti (pr_upload_id p) winners)
          in (case finalizeWithResume x u req w3 of
                (Inl e, w4) \<Rightarrow> ((Inl (wrap ''Failed to finalize merkle upload: '' (with_mark PaidNoRetry e)), unrecorded), w4)
              | (Inr res, w4) \<Rightarrow> ((Inr (res, show_int totalPaid), unrecorded), w4)))))))"

text \<open>The hash recorded for a wave payment is one of the values of the map, here the first.\<close>

definition wave_branch ::
  "env \<Rightarrow> upload \<Rightarrow> wallet \<Rightarrow> string \<Rightarrow> signer \<Rightarrow> string \<Rightarrow> prepared \<Rightarrow> world \<Rightarrow>
   ((werr + (finalized \<times> string)) \<times> werr option) \<times> world" where
  "wave_branch x u wal pk sg token p w =
     (let finish = (\<lambda>txHashes unrecorded w2.
            (case finalizeWithResume x u (FinWave (pr_upload_id p) txHashes) (heartbeat x u w2) of
               (Inl e, w3) \<Rightarrow> ((Inl (waveFinalizeError e), unrecorded), w3)
             | (Inr res, w3) \<Rightarrow> ((Inr (res, pr_total p), unrecorded), w3)))
      in if pr_payments p = [] then finish [] None w
         else case refuseRepayment x u w of
                (Some e, w1) \<Rightarrow> ((Inl e, None), w1)
              | (None, w1) \<Rightarrow>
                  (case PayForQuotes (x_rpc x) sg pk (pr_payments p) token (pr_vault p) (wd_evm w1) of
                     (Inl e, ev) \<Rightarrow> ((Inl (wrap ''EVM payment failed: '' e), None), w1\<lparr>wd_evm := ev\<rparr>)
                   | (Inr txHashes, ev) \<Rightarrow>
                       let txHash = (case txHashes of [] \<Rightarrow> [] | h # _ \<Rightarrow> snd h);
                           (unrecorded, w2) = recordPayment x wal u (pr_total p) txHash (w1\<lparr>wd_evm := ev\<rparr>)
                       in finish txHashes unrecorded (heartbeat x u w2)))"

text \<open>Recording the outcome; the status is set before the row is written.\<close>

definition complete_upload :: "env \<Rightarrow> upload \<Rightarrow> finalized \<Rightarrow> string \<Rightarrow> world \<Rightarrow> (werr option \<times> upload) \<times> world" where
  "complete_upload x u res paidAmount w =
     (let alreadyStored = (fr_chunks res = 0);
          u' = u\<lparr>u_status := (if alreadyStored then AlreadyStored else Completed)\<rparr>;
          public = (u_visibility u = Public);
          ident = (if public then fr_address res else fr_data_map res);
          mark_done = (if public then (if alreadyStored then MarkAlreadyStoredPublic else MarkCompletedPublic)
                       else (if alreadyStored then MarkAlreadyStored else MarkCompleted))
      in if public \<and> fr_address res = [] then ((Some (plain ''Daemon did not return data_map_address for public upload''), u), w)
         else case db_step x (\<lambda>flt now s. mark_done flt now (u_id u) ident paidAmount s) w of
                (Inl _, w1) \<Rightarrow> ((Some (plain ''Failed to save upload record''), u'), w1)
              | (Inr _, w1) \<Rightarrow> ((None, u'), seedDownloadCache x u ident w1))"

definition pay_and_complete ::
  "env \<Rightarrow> upload \<Rightarrow> wallet \<Rightarrow> string \<Rightarrow> prepared \<Rightarrow> world \<Rightarrow> (werr option \<times> upload) \<times> world" where
  "pay_and_complete x u wal pk p w =
     (case resolve_signer x p w of
        (Inl e, w1) \<Rightarrow> ((Some e, u), w1)
      | (Inr (sg, token), w1) \<Rightarrow>
          (case (if pr_payment_type p = ''merkle'' then merkle_branch x u wal pk sg token p w1
                 else wave_branch x u wal pk sg token p w1) of
             ((Inl e, unrecorded), w2) \<Rightarrow> ((paidNoRetryIfUnrecorded (Some e) unrecorded, u), w2)
           | ((Inr (res, paidAmount), unrecorded), w2) \<Rightarrow>
               (case complete_upload x u res paidAmount w2 of
                  ((e, u'), w3) \<Rightarrow> ((paidNoRetryIfUnrecorded e unrecorded, u'), w3))))"

definition processUpload :: "env \<Rightarrow> upload \<Rightarrow> world \<Rightarrow> (werr option \<times> upload) \<times> world" where
  "processUpload x u w =
     (case admission x u w of
        (Inl e, w1) \<Rightarrow> ((Some e, u), w1)
      | (Inr (tempPath, wal, pk), w1) \<Rightarrow>
          (case prepare_call x u tempPath w1 of
             (Inl e, w2) \<Rightarrow> ((Some (wrap ''Failed to prepare upload: '' e), u), w2)
           | (Inr p, w2) \<Rightarrow>
               (case cost_ceiling x u p (heartbeat x u w2) of
                  (Some e, w3) \<Rightarrow> ((Some e, u), w3)
                | (None, w3) \<Rightarrow> pay_and_complete x u wal pk p w3)))"

section \<open>Retries and outcomes\<close>

definition circuitBreakerThreshold :: int where
  "circuitBreakerThreshold = 5"

definition circuitBreakerBaseCooldown :: int where
  "circuitBreakerBaseCooldown = 30"

definition circuitBreakerMaxCooldown :: int where
  "circuitBreakerMaxCooldown = 5 * 60"

definition maxTransientRetries :: nat where
  "maxTransientRetries = 3"

definition note_transient :: "env \<Rightarrow> werr \<Rightarrow> world \<Rightarrow> world" where
  "note_transient x e w =
     (if isTransientAntdError e
      then let w1 = w\<lparr>wd_failures := wd_failures w + 1\<rparr>
           in if circuitBreakerThreshold \<le> wd_failures w1
              then w1\<lparr>wd_open_until := x_now x (wd_tick w1) + wd_cooldown w1,
                      wd_cooldown := (if circuitBreakerMaxCooldown < wd_cooldown w1 * 2 then circuitBreakerMaxCooldown
                                      else wd_cooldown w1 * 2)\<rparr>
              else w1
      else w)"

definition finishFailedUpload :: "env \<Rightarrow> upload \<Rightarrow> werr \<Rightarrow> uploadOutcome \<Rightarrow> world \<Rightarrow> world" where
  "finishFailedUpload x u e outcome w =
     (let preserve = (\<lambda>detail. snd (db_step x (\<lambda>flt now s. MarkFailedPreserveTemp flt now (u_id u) (err_text e) detail s) w));
          w1 = (case outcome of
                  OutcomePreserveUnconfirmed \<Rightarrow> preserve StatusDetailPaymentUnconfirmed
                | OutcomePreservePaid \<Rightarrow> preserve StatusDetailPaidUnfinalized
                | _ \<Rightarrow> cleanupTempFile x u
                         (snd (db_step x (\<lambda>flt now s. MarkFailed flt now (u_id u) (err_text e) s) (note_transient x e w))))
      in fire ''failed'' (u\<lparr>u_status := Failed\<rparr>) w1)"

text \<open>The attempts, counting down the retries that are left.\<close>

fun attempts :: "env \<Rightarrow> nat \<Rightarrow> upload \<Rightarrow> world \<Rightarrow> world" where
  "attempts x left u w =
     (case processUpload x u w of
        ((None, u'), w1) \<Rightarrow>
          let u'' = (if u_status u' \<noteq> Completed \<and> u_status u' \<noteq> AlreadyStored then u'\<lparr>u_status := Completed\<rparr> else u')
          in cleanupTempFile x u'' (fire ''completed'' u''
               (w1\<lparr>wd_failures := 0, wd_cooldown := circuitBreakerBaseCooldown\<rparr>))
      | ((Some e, u'), w1) \<Rightarrow>
          if has_mark GasBackoff e then w1
          else let (r, w2) = db_read x (\<lambda>flt s. HasByUpload flt (u_id u') s) w1;
                   paymentMade = (case r of Inl _ \<Rightarrow> False | Inr b \<Rightarrow> b)
               in case classifyFailure e paymentMade (0 < left) of
                    OutcomeRetry \<Rightarrow>
                      if x_done x (wd_tick w2) then w2
                      else (case left of 0 \<Rightarrow> w2 | Suc left' \<Rightarrow> attempts x left' u' w2)
                  | outcome \<Rightarrow> finishFailedUpload x u' e outcome w2)"

declare attempts.simps [simp del]

definition processOne :: "env \<Rightarrow> upload \<Rightarrow> world \<Rightarrow> world" where
  "processOne x u w = attempts x maxTransientRetries u (fire ''processing'' u w)"

definition getMaxConcurrent :: "string option \<Rightarrow> int" where
  "getMaxConcurrent v =
     (case v of None \<Rightarrow> 1 | Some s \<Rightarrow> (case Atoi s of Some n \<Rightarrow> if 0 < n then n else 1 | None \<Rightarrow> 1))"

section \<open>The loops\<close>

definition circuit_open :: "env \<Rightarrow> world \<Rightarrow> bool" where
  "circuit_open x w \<longleftrightarrow> x_now x (wd_tick w) < wd_open_until w"

text \<open>One tick of \<open>processLoop\<close>: uploads are dequeued and marked active while there are free slots;
  \<open>inFlight\<close> is the number of running goroutines. The result lists the uploads started.\<close>

fun fill_slots :: "env \<Rightarrow> nat \<Rightarrow> world \<Rightarrow> upload list \<times> world" where
  "fill_slots x 0 w = ([], w)"
| "fill_slots x (Suc n) w =
     (case db_step x (\<lambda>flt now s. DequeueNext flt now s) w of
        (Inr (Some u), w1) \<Rightarrow> (let (us, w2) = fill_slots x n (markActive x u w1) in (u # us, w2))
      | (_, w1) \<Rightarrow> ([], w1))"

definition process_tick :: "env \<Rightarrow> nat \<Rightarrow> world \<Rightarrow> upload list \<times> world" where
  "process_tick x inFlight w =
     (if circuit_open x w then ([], w)
      else fill_slots x (nat (getMaxConcurrent (x_get x (wd_tick w) ''max_concurrent_uploads'')) - inFlight) w)"

definition start_recovery :: "env \<Rightarrow> world \<Rightarrow> world" where
  "start_recovery x w = snd (db_step x (\<lambda>flt now s. RequeueStuck flt now 0 s) w)"

text \<open>The goroutine of one upload.\<close>

definition run_upload :: "env \<Rightarrow> upload \<Rightarrow> world \<Rightarrow> world" where
  "run_upload x u w = clearActive (u_id u) (processOne x u w)"

end
