(* ===== verification/Worker_Properties.thy ===== *)
theory Worker_Properties
  imports Upload_Worker Queue_Machine
begin

text \<open>
  What the upload worker guarantees. The steps of an attempt are compared by two relations: \<open>dbsafe\<close>, the
  queue invariant survives and a recorded payment of the upload is not lost, and \<open>quiet\<close>, in addition
  no payment is sent. Every stage is one of these, except the two payment branches, whose lemmas say what they
  send and how an error after a payment is marked. The properties are about whole runs of \<open>processOne\<close>.
\<close>

section \<open>Steps\<close>

abbreviation pays :: "world \<Rightarrow> calldata list" where
  "pays w \<equiv> payments_sent (wd_evm w)"

definition dbsafe :: "int \<Rightarrow> world \<Rightarrow> world \<Rightarrow> bool" where
  "dbsafe i w w' \<longleftrightarrow> (queue_inv (wd_db w) \<longrightarrow> queue_inv (wd_db w') \<and> (paid (wd_db w) i \<longrightarrow> paid (wd_db w') i))"

definition quiet :: "int \<Rightarrow> world \<Rightarrow> world \<Rightarrow> bool" where
  "quiet i w w' \<longleftrightarrow> dbsafe i w w' \<and> pays w' = pays w"

text \<open>What the worker relies on: other goroutines keep the invariant and do not authorise a new payment of
  this upload (a Retry needs a failed row, this one is being processed), and the daemon's errors do not
  carry the worker's own sentinels, which are not exported.\<close>

definition antd_marks :: "werr \<Rightarrow> bool" where
  "antd_marks e \<longleftrightarrow> set (err_marks e) \<inter> {ConfirmationTimeout, PaidNoRetry, FinalizeFailed, GasBackoff} = {}"

definition env_ok :: "env \<Rightarrow> int \<Rightarrow> bool" where
  "env_ok x i \<longleftrightarrow>
     (\<forall>n s. queue_inv s \<longrightarrow> queue_inv (x_others x n s) \<and> (paid s i \<longrightarrow> paid (x_others x n s) i)) \<and>
     (\<forall>n pub path e. x_prepare x n pub path = Inl e \<longrightarrow> antd_marks e) \<and>
     (\<forall>n req e. x_finalize x n req = Inl e \<longrightarrow> antd_marks e)"

lemma dbsafe_refl: "dbsafe i w w"
  by (simp add: dbsafe_def)

lemma dbsafe_trans: "dbsafe i w w' \<Longrightarrow> dbsafe i w' w'' \<Longrightarrow> dbsafe i w w''"
  by (auto simp: dbsafe_def)

lemma quiet_refl: "quiet i w w"
  by (simp add: quiet_def dbsafe_refl)

lemma quiet_trans: "quiet i w w' \<Longrightarrow> quiet i w' w'' \<Longrightarrow> quiet i w w''"
  by (auto simp: quiet_def intro: dbsafe_trans)

lemma quiet_frame: "wd_db w' = wd_db w \<Longrightarrow> pays w' = pays w \<Longrightarrow> quiet i w w'"
  by (simp add: quiet_def dbsafe_def)

lemma quiet_dbsafe: "quiet i w w' \<Longrightarrow> dbsafe i w w'"
  by (simp add: quiet_def)

text \<open>A database call is quiet when its statements are.\<close>

lemma quiet_db_step:
  assumes "env_ok x i" and "db_step x f w = (r, w')"
    and "\<And>flt now s. queue_inv s \<Longrightarrow> queue_inv (snd (f flt now s)) \<and> (paid s i \<longrightarrow> paid (snd (f flt now s)) i)"
  shows "quiet i w w'"
proof -
  let ?s = "x_others x (wd_tick w) (wd_db w)"
  obtain s where s: "f (x_flts x (wd_tick w) 0) (x_now x (wd_tick w)) ?s = (r, s)" "w' = w\<lparr>wd_db := s, wd_tick := wd_tick w + 1\<rparr>"
    using assms(2) by (auto simp: db_step_def Let_def split: prod.splits)
  have "queue_inv s \<and> (paid ?s i \<longrightarrow> paid s i)" if "queue_inv (wd_db w)"
  proof -
    have "queue_inv ?s" using assms(1) that by (simp add: env_ok_def)
    then show ?thesis using assms(3) [of ?s "x_flts x (wd_tick w) 0" "x_now x (wd_tick w)"] s(1) by simp
  qed
  then show ?thesis using assms(1) s(2) by (auto simp: quiet_def dbsafe_def env_ok_def)
qed

lemma quiet_op_step:
  assumes "env_ok x i" and "db_step x f w = (r, w')"
    and "\<And>flt now s. \<exists>oper. snd (f flt now s) = run_op oper s \<and> (\<forall>flt now. oper \<noteq> OpRetry flt now i)"
  shows "quiet i w w'"
proof (rule quiet_db_step [OF assms(1,2)])
  fix flt now s assume "queue_inv s"
  then show "queue_inv (snd (f flt now s)) \<and> (paid s i \<longrightarrow> paid (snd (f flt now s)) i)"
    using assms(3) [of flt now s] queue_inv_run_op paid_run_op by metis
qed

lemma quiet_db_read: "env_ok x i \<Longrightarrow> db_read x f w = (r, w') \<Longrightarrow> quiet i w w'"
  unfolding db_read_def by (erule quiet_db_step) auto

lemma queue_inv_UpdateBalance:
  assumes "queue_inv s"
  shows "queue_inv (snd (UpdateBalance flt now j pb gb s))"
proof -
  let ?f = "\<lambda>w. w\<lparr>w_payment_balance := pb, w_gas_balance := gb, w_updated_at := now\<rparr>"
  have "map w_id (update_where (\<lambda>w. w_id w = j) ?f (wallets s)) = map w_id (wallets s)"
    by (rule map_update_where_id) simp
  then have "w_id ` set (update_where (\<lambda>w. w_id w = j) ?f (wallets s)) = w_id ` set (wallets s)"
    by (metis list.set_map)
  moreover have "keyed w_id (wallet_seq s) (update_where (\<lambda>w. w_id w = j) ?f (wallets s))"
    using assms by (intro keyed_update) (simp_all add: queue_inv_def db_ok_def)
  ultimately show ?thesis
    using assms by (simp add: UpdateBalance_def queue_inv_def db_ok_def floors_ok_def fk_uploads_def fk_wallets_def)
qed

lemma paid_UpdateBalance: "paid s i \<Longrightarrow> paid (snd (UpdateBalance flt now j pb gb s)) i"
  by (erule paid_keep) (simp_all add: UpdateBalance_def upload_row_def)

section \<open>Quiet stages\<close>

lemma quiet_heartbeat: "env_ok x i \<Longrightarrow> quiet i w (heartbeat x u w)"
proof -
  assume e: "env_ok x i"
  obtain r w1 where s: "db_step x (\<lambda>flt now s. TouchProcessing flt now (u_id u) s) w = (r, w1)" by force
  have "quiet i w w1"
    by (rule quiet_op_step [OF e s]) (metis queue_op.distinct run_op.simps(6) queue_op.simps)
  then show ?thesis
    using s quiet_trans [OF _ quiet_frame] by (auto simp: heartbeat_def beat_def)
qed

lemma refuseRepayment_spec:
  assumes "env_ok x (u_id u)" and "refuseRepayment x u w = (r, w')"
  shows "quiet (u_id u) w w'" and "\<And>e. r = Some e \<Longrightarrow> set (err_marks e) \<subseteq> {PaidNoRetry}"
    and "queue_inv (wd_db w) \<Longrightarrow> paid (wd_db w) (u_id u) \<Longrightarrow> r \<noteq> None"
proof -
  obtain b w1 where s: "db_read x (\<lambda>flt s. HasPaymentSinceQueued flt (u_id u) s) w = (b, w1)" by force
  have w': "w' = w1" using assms(2) s by (auto simp: refuseRepayment_def split: sum.splits if_splits)
  then show "quiet (u_id u) w w'" using quiet_db_read [OF assms(1) s] by simp
  show "set (err_marks e) \<subseteq> {PaidNoRetry}" if "r = Some e" for e
    using assms(2) s that by (auto simp: refuseRepayment_def split: sum.splits if_splits)
  show "r \<noteq> None" if "queue_inv (wd_db w)" "paid (wd_db w) (u_id u)"
  proof -
    let ?s = "x_others x (wd_tick w) (wd_db w)"
    have "queue_inv ?s" "paid ?s (u_id u)" using assms(1) that by (simp_all add: env_ok_def)
    moreover have "b = HasPaymentSinceQueued (x_flts x (wd_tick w) 0) (u_id u) ?s"
      using s by (simp add: db_read_def db_step_def Let_def)
    ultimately show ?thesis
      using assms(2) s by (auto simp: refuseRepayment_def HasPaymentSinceQueued_paid queue_inv_def split: if_splits)
  qed
qed

lemma ledgerPayment_spec:
  assumes "env_ok x (u_id u)" and "ledgerPayment x wid u amount bal h w = (r, w')"
  shows "quiet (u_id u) w w'" and "\<And>e. r = Some e \<Longrightarrow> err_marks e = []"
    and "queue_inv (wd_db w) \<Longrightarrow> r = None \<Longrightarrow> paid (wd_db w') (u_id u)"
proof -
  let ?f = "\<lambda>flt now s. Txn_Record flt now wid (Some (u_id u)) ''upload'' amount bal h s"
  obtain t w1 where s: "db_step x ?f w = (t, w1)" by force
  have w': "w' = w1" using assms(2) s by (auto simp: ledgerPayment_def split: sum.splits)
  have "quiet (u_id u) w w1"
    by (rule quiet_db_step [OF assms(1) s]) (auto simp: queue_inv_Record paid_Record)
  then show "quiet (u_id u) w w'" using w' by simp
  show "err_marks e = []" if "r = Some e" for e
    using assms(2) s that by (auto simp: ledgerPayment_def split: sum.splits)
  show "paid (wd_db w') (u_id u)" if inv: "queue_inv (wd_db w)" and none: "r = None"
  proof -
    let ?s = "x_others x (wd_tick w) (wd_db w)"
    have "queue_inv ?s" using assms(1) inv by (simp add: env_ok_def)
    moreover obtain v where "t = Inr v" using assms(2) s none by (auto simp: ledgerPayment_def split: sum.splits)
    then have "ledger_write (u_id u) ?s (wd_db w1)"
      using s unfolding ledger_write_def db_step_def Let_def
      by (cases "?f (x_flts x (wd_tick w) 0) (x_now x (wd_tick w)) ?s") fastforce
    ultimately show ?thesis using w' ledger_write_paid by blast
  qed
qed

lemma recordPayment_spec:
  assumes "env_ok x (u_id u)" and "recordPayment x wal u amount h w = (r, w')"
  shows "quiet (u_id u) w w'" and "\<And>e. r = Some e \<Longrightarrow> err_marks e = []"
    and "queue_inv (wd_db w) \<Longrightarrow> r = None \<Longrightarrow> paid (wd_db w') (u_id u)"
proof -
  obtain b ev where g: "GetBalances (x_rpc x) (wd_evm w) = (b, ev)" by force
  let ?w1 = "w\<lparr>wd_evm := ev\<rparr>"
  have q1: "quiet (u_id u) w ?w1"
    using g GetBalances_log [of "x_rpc x" "wd_evm w"] by (intro quiet_frame) simp_all
  obtain bal w2 where l: "ledgerPayment x (w_id wal) u amount bal h w2 = (r, w')" and q2: "quiet (u_id u) ?w1 w2"
  proof (cases b)
    case (Inl e)
    then have "ledgerPayment x (w_id wal) u amount (w_payment_balance wal) h ?w1 = (r, w')"
      using assms(2) g by (simp add: recordPayment_def)
    then show ?thesis using quiet_refl that by blast
  next
    case (Inr tg)
    obtain tb gb where tg: "tg = (tb, gb)" by force
    obtain r2 w2 where s: "db_step x (\<lambda>flt now s. UpdateBalance flt now (w_id wal) tb gb s) ?w1 = (r2, w2)" by force
    then have "ledgerPayment x (w_id wal) u amount tb h w2 = (r, w')"
      using assms(2) g Inr tg by (simp add: recordPayment_def)
    moreover have "quiet (u_id u) ?w1 w2"
      by (rule quiet_db_step [OF assms(1) s]) (auto simp: queue_inv_UpdateBalance paid_UpdateBalance)
    ultimately show ?thesis using that by blast
  qed
  note L = ledgerPayment_spec [OF assms(1) l]
  show "quiet (u_id u) w w'" using q1 q2 L(1) quiet_trans by blast
  show "\<And>e. r = Some e \<Longrightarrow> err_marks e = []" using L(2) .
  show "queue_inv (wd_db w) \<Longrightarrow> r = None \<Longrightarrow> paid (wd_db w') (u_id u)"
    using L(3) quiet_trans [OF q1 q2] by (simp add: quiet_def dbsafe_def)
qed

lemma finalize_call_spec:
  assumes "env_ok x i" and "finalize_call x req w = (r, w')"
  shows "quiet i w w'" and "\<And>e. r = Inl e \<Longrightarrow> antd_marks e"
  using assms by (auto simp: finalize_call_def env_ok_def intro: quiet_frame)

lemma finalize_resume_spec:
  assumes "env_ok x i" and "finalize_resume x u req ds lf r w = (r', w')" and "\<And>e. r = Inl e \<Longrightarrow> antd_marks e"
  shows "quiet i w w' \<and> (\<forall>e. r' = Inl e \<longrightarrow> antd_marks e)"
  using assms(2,3)
proof (induction ds arbitrary: lf r w)
  case (Cons d ds)
  show ?case
  proof (cases "(r, w) = (r', w')")
    case True
    then show ?thesis using Cons.prems(2) quiet_refl by auto
  next
    case False
    then obtain e p where e: "r = Inl e" "partial_of e = Some p"
      "finalize_resume x u req (d # ds) lf r w =
         (let (r', w') = finalize_call x req (heartbeat x u w) in finalize_resume x u req ds (ps_failed p) r' w')"
      using Cons.prems(1) by (auto split: sum.splits option.splits if_splits)
    obtain r1 w1 where f: "finalize_call x req (heartbeat x u w) = (r1, w1)" by force
    then have "finalize_resume x u req ds (ps_failed p) r1 w1 = (r', w')" using Cons.prems(1) e(3) by simp
    note IH = Cons.IH [OF this] and F = finalize_call_spec [OF assms(1) f]
    show ?thesis using IH F quiet_heartbeat [OF assms(1)] quiet_trans by blast
  qed
qed (auto simp: quiet_refl)

lemma finalizeWithResume_spec:
  assumes "env_ok x i" and "finalizeWithResume x u req w = (r, w')"
  shows "quiet i w w'" and "\<And>e. r = Inl e \<Longrightarrow> antd_marks e"
proof -
  obtain r1 w1 where f: "finalize_call x req w = (r1, w1)" by force
  note F = finalize_call_spec [OF assms(1) f]
  have "quiet i w1 w' \<and> (\<forall>e. r = Inl e \<longrightarrow> antd_marks e)"
    using assms(2) f F(2) by (intro finalize_resume_spec [OF assms(1)]) (simp_all add: finalizeWithResume_def)
  then show "quiet i w w'" "\<And>e. r = Inl e \<Longrightarrow> antd_marks e" using F(1) quiet_trans by blast+
qed

section \<open>The payment branches\<close>

text \<open>The transactions a prepared upload asks for, in order.\<close>

definition pay_plan :: "prepared \<Rightarrow> calldata list list" where
  "pay_plan p =
     (if pr_payment_type p = ''merkle'' then (case merkleBatchPlan p of Inl _ \<Rightarrow> [] | Inr bs \<Rightarrow> map merkle_call bs)
      else if pr_payments p = [] then [] else [quote_plan (pr_payments p)])"

text \<open>What an error after a payment must look like: marked so that it is not retried, or not retryable at
  all, or the payment is in the ledger, where the guard sees it.\<close>

definition settled :: "int \<Rightarrow> world \<Rightarrow> werr \<Rightarrow> bool" where
  "settled i w e \<longleftrightarrow>
     ConfirmationTimeout \<in> set (err_marks e) \<or> PaidNoRetry \<in> set (err_marks e) \<or>
     set (err_marks e) \<inter> {FinalizeFailed, NetworkErr, UnavailableErr} = {} \<or> paid (wd_db w) i"

lemma settled_wrap [simp]: "settled i w (wrap m e) = settled i w e"
  by (simp add: settled_def)

lemma payMerkleBatches_spec:
  assumes "env_ok x (u_id u)"
    and "payMerkleBatches x sg pk token vault wal u bs ws tot un w = ((r, ws', tot', un'), w')"
  shows "dbsafe (u_id u) w w' \<and> (\<exists>k. pays w' = pays w @ concat (take k (map merkle_call bs))) \<and>
         (\<forall>e. r = Some e \<longrightarrow> set (err_marks e) \<subseteq> {ConfirmationTimeout})"
  using assms(2)
proof (induction bs arbitrary: ws tot un w)
  case Nil
  then show ?case by (auto simp: dbsafe_refl intro: exI [of _ 0])
next
  case (Cons b bs)
  obtain pr ev where p: "PayForMerkleTree (x_rpc x) sg pk (mb_depth b) (mb_pools b) (mb_timestamp b) token vault (wd_evm w) = (pr, ev)"
    by force
  note P = PayForMerkleTree_log [OF p]
  let ?w1 = "w\<lparr>wd_evm := ev\<rparr>"
  have d1: "dbsafe (u_id u) w ?w1" by (simp add: dbsafe_def)
  have k1: "\<exists>k. payments_sent ev = pays w @ concat (take k (map merkle_call (b # bs)))"
    using P by (auto intro: exI [of _ 0] exI [of _ 1])
  show ?case
  proof (cases pr)
    case (Inl e)
    then show ?thesis using Cons.prems p P k1 d1 by auto
  next
    case (Inr ha)
    obtain h a where ha: "ha = (h, a)" by force
    obtain rr w2 where rp: "recordPayment x wal u a h ?w1 = (rr, w2)" by force
    let ?un = "if rr \<noteq> None \<and> un = None then rr else un"
    note R = recordPayment_spec [OF assms(1) rp]
    have q: "quiet (u_id u) ?w1 (heartbeat x u w2)"
      using R(1) quiet_heartbeat [OF assms(1)] quiet_trans by blast
    obtain t2 where "payMerkleBatches x sg pk token vault wal u bs (ws @ [h]) t2 ?un (heartbeat x u w2) = ((r, ws', tot', un'), w')"
      using Cons.prems p Inr ha rp by (auto simp: Let_def)
    note IH = Cons.IH [OF this]
    have "payments_sent ev = pays w @ merkle_call b" using P Inr by auto
    moreover obtain k where "pays w' = pays (heartbeat x u w2) @ concat (take k (map merkle_call bs))" using IH by blast
    ultimately have "pays w' = pays w @ concat (take (Suc k) (map merkle_call (b # bs)))"
      using q by (simp add: quiet_def)
    moreover have "dbsafe (u_id u) w w'" using d1 quiet_dbsafe [OF q] IH dbsafe_trans by blast
    ultimately show ?thesis using IH by blast
  qed
qed

lemma antd_not_settled_marks: "antd_marks e \<Longrightarrow> settled i w (with_mark PaidNoRetry e)"
  by (simp add: settled_def)

lemma merkle_branch_spec:
  assumes "env_ok x (u_id u)" and "merkle_branch x u wal pk sg token p w = ((r, un), w')"
    and "pr_payment_type p = ''merkle''"
  shows "dbsafe (u_id u) w w'" and "\<exists>k. pays w' = pays w @ concat (take k (pay_plan p))"
    and "\<And>e. r = Inl e \<Longrightarrow> GasBackoff \<notin> set (err_marks e) \<and> settled (u_id u) w' e"
    and "queue_inv (wd_db w) \<Longrightarrow> paid (wd_db w) (u_id u) \<Longrightarrow> pays w' = pays w"
proof -
  have "dbsafe (u_id u) w w' \<and> (\<exists>k. pays w' = pays w @ concat (take k (pay_plan p))) \<and>
      (\<forall>e. r = Inl e \<longrightarrow> GasBackoff \<notin> set (err_marks e) \<and> settled (u_id u) w' e) \<and>
      (queue_inv (wd_db w) \<and> paid (wd_db w) (u_id u) \<longrightarrow> pays w' = pays w)"
  proof (cases "\<exists>bs. merkleBatchPlan p = Inr bs \<and> validateMerkleBatches bs = None")
    case False
    have z: "\<exists>k. concat (take k (pay_plan p)) = []" by (rule exI [of _ 0]) simp
    have "w' = w \<and> (\<forall>e. r = Inl e \<longrightarrow> err_marks e = [])"
    proof (cases "merkleBatchPlan p")
      case (Inl e)
      moreover have "err_marks e = []" using Inl by (auto simp: merkleBatchPlan_def split: if_splits)
      ultimately show ?thesis using assms(2) by (auto simp: merkle_branch_def)
    next
      case (Inr bs)
      then obtain e where e: "validateMerkleBatches bs = Some e" using False by auto
      moreover have "err_marks e = []" using e by (auto simp: validateMerkleBatches_def split: if_splits)
      ultimately show ?thesis using assms(2) Inr by (auto simp: merkle_branch_def)
    qed
    then show ?thesis using z by (auto simp: dbsafe_refl settled_def)
  next
    case True
    then obtain bs where bs: "merkleBatchPlan p = Inr bs" "validateMerkleBatches bs = None" by blast
    have plan: "pay_plan p = map merkle_call bs" using bs(1) assms(3) by (simp add: pay_plan_def)
    obtain rf w1 where rf: "refuseRepayment x u w = (rf, w1)" by force
    note RF = refuseRepayment_spec [OF assms(1) rf]
    show ?thesis
    proof (cases rf)
      case (Some e)
      then have "w' = w1" "r = Inl e" using assms(2) bs rf by (auto simp: merkle_branch_def)
      then show ?thesis
        using RF Some by (auto simp: quiet_def settled_def intro: exI [of _ 0])
    next
      case None
      then have np: "\<not> (queue_inv (wd_db w) \<and> paid (wd_db w) (u_id u))" using RF(3) by blast
      obtain ar ev where al: "(if 1 < length bs then EnsureMerkleAllowance (x_rpc x) sg pk bs token (pr_vault p) (wd_evm w1)
            else (Inr (), wd_evm w1)) = (ar, ev)" by force
      have AL: "payments_sent ev = pays w1 \<and> (\<forall>e. ar = Inl e \<longrightarrow> set (err_marks e) \<subseteq> {ConfirmationTimeout})"
        using al EnsureMerkleAllowance_log by (auto split: if_splits)
      let ?w1 = "w1\<lparr>wd_evm := ev\<rparr>"
      have q1: "quiet (u_id u) w ?w1" using RF(1) AL by (simp add: quiet_def dbsafe_def)
      show ?thesis
      proof (cases ar)
        case (Inl e)
        then have "w' = ?w1" "r = Inl (wrap ''EVM merkle allowance approval failed: '' e)"
          using assms(2) bs rf None al by (auto simp: merkle_branch_def)
        then show ?thesis
          using AL Inl q1 by (auto simp: quiet_def settled_def intro: exI [of _ 0])
      next
        case (Inr v)
        obtain pe ws tot un0 w2 where pm: "payMerkleBatches x sg pk token (pr_vault p) wal u bs [] 0 None ?w1 = ((pe, ws, tot, un0), w2)"
          by (metis prod.collapse)
        note PM = payMerkleBatches_spec [OF assms(1) pm]
        have d2: "dbsafe (u_id u) w w2" using PM quiet_dbsafe [OF q1] dbsafe_trans by blast
        obtain k where k: "pays w2 = pays w @ concat (take k (pay_plan p))"
          using PM q1 by (auto simp: plan quiet_def)
        show ?thesis
        proof (cases pe)
          case (Some e)
          obtain so w3 where sa: "salvageMerkleFinalize x (pr_upload_id p) ws (length bs) w2 = (so, w3)" by force
          have q3: "quiet (u_id u) w2 w3"
            using sa finalize_call_spec(1) [OF assms(1)] by (auto simp: salvageMerkleFinalize_def split: prod.splits sum.splits)
          have E: "set (err_marks e) \<subseteq> {ConfirmationTimeout}" using PM Some by blast
          have "w' \<in> {w2, w3} \<and> (\<forall>e'. r = Inl e' \<longrightarrow> GasBackoff \<notin> set (err_marks e') \<and> settled (u_id u) w' e')"
            using assms(2) bs rf None al Inr pm Some sa E
            by (auto simp: merkle_branch_def settled_def split: if_splits option.splits)
          then show ?thesis using d2 k q3 np by (auto simp: quiet_def intro: dbsafe_trans)
        next
          case none: None
          let ?req = "if length bs = 1 then FinMerkle (pr_upload_id p) (hd ws) else FinMerkleMulti (pr_upload_id p) ws"
          obtain fr w3 where f: "finalizeWithResume x u ?req (heartbeat x u w2) = (fr, w3)" by force
          note F = finalizeWithResume_spec [OF assms(1) f]
          have "quiet (u_id u) w2 w3" using F(1) quiet_heartbeat [OF assms(1)] quiet_trans by blast
          moreover have "w' = w3 \<and> (\<forall>e'. r = Inl e' \<longrightarrow> GasBackoff \<notin> set (err_marks e') \<and> settled (u_id u) w' e')"
            using assms(2) bs rf None al Inr pm none f F(2)
            by (auto simp: merkle_branch_def settled_def antd_marks_def Let_def split: sum.splits)
          ultimately show ?thesis using d2 k np by (auto simp: quiet_def intro: dbsafe_trans)
        qed
      qed
    qed
  qed
  then show "dbsafe (u_id u) w w'" "\<exists>k. pays w' = pays w @ concat (take k (pay_plan p))"
    "\<And>e. r = Inl e \<Longrightarrow> GasBackoff \<notin> set (err_marks e) \<and> settled (u_id u) w' e"
    "queue_inv (wd_db w) \<Longrightarrow> paid (wd_db w) (u_id u) \<Longrightarrow> pays w' = pays w" by blast+
qed

lemma waveFinalizeError_marks:
  "antd_marks e \<Longrightarrow> GasBackoff \<notin> set (err_marks (waveFinalizeError e))"
  by (auto simp: waveFinalizeError_def antd_marks_def split: option.splits)

lemma wave_branch_spec:
  assumes "env_ok x (u_id u)" and "wave_branch x u wal pk sg token p w = ((r, un), w')"
    and "pr_payment_type p \<noteq> ''merkle''"
  shows "dbsafe (u_id u) w w'" and "\<exists>k. pays w' = pays w @ concat (take k (pay_plan p))"
    and "\<And>e. r = Inl e \<Longrightarrow> GasBackoff \<notin> set (err_marks e)"
    and "\<And>e. r = Inl e \<Longrightarrow> queue_inv (wd_db w) \<Longrightarrow> pays w' = pays w \<or> un \<noteq> None \<or> settled (u_id u) w' e"
    and "queue_inv (wd_db w) \<Longrightarrow> paid (wd_db w) (u_id u) \<Longrightarrow> pays w' = pays w"
proof -
  let ?fin = "\<lambda>hs w2. finalizeWithResume x u (FinWave (pr_upload_id p) hs) (heartbeat x u w2)"
  have fin: "quiet (u_id u) w2 w3 \<and> (\<forall>e. fr = Inl e \<longrightarrow> antd_marks e)" if "?fin hs w2 = (fr, w3)" for hs w2 fr w3
    using finalizeWithResume_spec [OF assms(1) that] quiet_heartbeat [OF assms(1)] quiet_trans by blast
  have "dbsafe (u_id u) w w' \<and> (\<exists>k. pays w' = pays w @ concat (take k (pay_plan p))) \<and>
      (\<forall>e. r = Inl e \<longrightarrow> GasBackoff \<notin> set (err_marks e)) \<and>
      (\<forall>e. r = Inl e \<and> queue_inv (wd_db w) \<longrightarrow> pays w' = pays w \<or> un \<noteq> None \<or> settled (u_id u) w' e) \<and>
      (queue_inv (wd_db w) \<and> paid (wd_db w) (u_id u) \<longrightarrow> pays w' = pays w)"
  proof (cases "pr_payments p = []")
    case True
    obtain fr w3 where f: "?fin [] w = (fr, w3)" by force
    then have "w' = w3" "\<forall>e. r = Inl e \<longrightarrow> (\<exists>e'. antd_marks e' \<and> e = waveFinalizeError e')"
      using assms(2) True fin [OF f] by (auto simp: wave_branch_def split: sum.splits)
    then show ?thesis
      using fin [OF f] waveFinalizeError_marks by (auto simp: quiet_def intro: exI [of _ 0])
  next
    case False
    have plan: "pay_plan p = [quote_plan (pr_payments p)]" using False assms(3) by (simp add: pay_plan_def)
    obtain rf w1 where rf: "refuseRepayment x u w = (rf, w1)" by force
    note RF = refuseRepayment_spec [OF assms(1) rf]
    show ?thesis
    proof (cases rf)
      case (Some e)
      then have "w' = w1" "r = Inl e" using assms(2) False rf by (auto simp: wave_branch_def)
      then show ?thesis using RF Some by (auto simp: quiet_def intro: exI [of _ 0])
    next
      case None
      then have np: "\<not> (queue_inv (wd_db w) \<and> paid (wd_db w) (u_id u))" using RF(3) by blast
      obtain pr ev where pq: "PayForQuotes (x_rpc x) sg pk (pr_payments p) token (pr_vault p) (wd_evm w1) = (pr, ev)" by force
      note PQ = PayForQuotes_log [OF pq]
      let ?w1 = "w1\<lparr>wd_evm := ev\<rparr>"
      have d1: "dbsafe (u_id u) w ?w1" using RF(1) by (simp add: quiet_def dbsafe_def)
      have k1: "\<exists>k. payments_sent ev = pays w @ concat (take k (pay_plan p))"
        using PQ RF(1) by (auto simp: plan quiet_def intro: exI [of _ 0] exI [of _ 1])
      show ?thesis
      proof (cases pr)
        case (Inl e)
        then have "w' = ?w1" "r = Inl (wrap ''EVM payment failed: '' e)"
          using assms(2) False rf None pq by (auto simp: wave_branch_def)
        then show ?thesis using PQ Inl d1 k1 np by (auto simp: settled_def)
      next
        case (Inr hs)
        let ?h = "case hs of [] \<Rightarrow> [] | h # _ \<Rightarrow> snd h"
        obtain un0 w2 where rp: "recordPayment x wal u (pr_total p) ?h ?w1 = (un0, w2)" by force
        note R = recordPayment_spec [OF assms(1) rp]
        obtain fr w3 where f: "?fin hs (heartbeat x u w2) = (fr, w3)" by force
        have q2: "quiet (u_id u) w2 w3"
          using fin [OF f] quiet_heartbeat [OF assms(1)] quiet_trans by blast
        have q: "quiet (u_id u) ?w1 w3" using R(1) q2 quiet_trans by blast
        have w': "w' = w3 \<and> un = un0 \<and> (\<forall>e. r = Inl e \<longrightarrow> (\<exists>e'. antd_marks e' \<and> e = waveFinalizeError e'))"
          using assms(2) False rf None pq Inr rp f fin [OF f] by (auto simp: wave_branch_def split: sum.splits)
        have st: "settled (u_id u) w' e" if "un = None" "queue_inv (wd_db w)" for e
        proof -
          have "queue_inv (wd_db ?w1)" using d1 that(2) by (simp add: dbsafe_def)
          then have "paid (wd_db w2) (u_id u)" "queue_inv (wd_db w2)"
            using R that(1) w' by (auto simp: quiet_def dbsafe_def)
          then show ?thesis using q2 w' by (simp add: settled_def quiet_def dbsafe_def)
        qed
        have "dbsafe (u_id u) w w'" using d1 quiet_dbsafe [OF q] w' dbsafe_trans by blast
        moreover have "\<exists>k. pays w' = pays w @ concat (take k (pay_plan p))" using k1 q w' by (simp add: quiet_def)
        moreover have "GasBackoff \<notin> set (err_marks e)" if "r = Inl e" for e
          using that w' waveFinalizeError_marks by blast
        ultimately show ?thesis using np st by blast
      qed
    qed
  qed
  note all = this
  show "dbsafe (u_id u) w w'" "\<exists>k. pays w' = pays w @ concat (take k (pay_plan p))"
    using all by simp_all
  show "GasBackoff \<notin> set (err_marks e)" if "r = Inl e" for e
    using all [THEN conjunct2, THEN conjunct2, THEN conjunct1] that by simp
  show "pays w' = pays w \<or> un \<noteq> None \<or> settled (u_id u) w' e" if "r = Inl e" "queue_inv (wd_db w)" for e
    using all [THEN conjunct2, THEN conjunct2, THEN conjunct2, THEN conjunct1] that by simp
  show "pays w' = pays w" if "queue_inv (wd_db w)" "paid (wd_db w) (u_id u)"
    using all [THEN conjunct2, THEN conjunct2, THEN conjunct2, THEN conjunct2] that by simp
qed

section \<open>An attempt\<close>

lemma quiet_store: "quiet i w (w1\<lparr>wd_store := st\<rparr>) = quiet i w w1"
  by (simp add: quiet_def dbsafe_def)

lemma quiet_branches:
  "(b \<Longrightarrow> quiet i w w1) \<Longrightarrow> (\<not> b \<Longrightarrow> quiet i w w2) \<Longrightarrow> quiet i w (if b then w1 else w2)"
  "quiet i w w1 \<Longrightarrow> (\<And>v. quiet i w (fo v)) \<Longrightarrow> quiet i w (case opt of None \<Rightarrow> w1 | Some v \<Rightarrow> fo v)"
  "(\<And>a c. quiet i w (fp a c)) \<Longrightarrow> quiet i w (case pr of (a, c) \<Rightarrow> fp a c)"
  "(\<And>a. quiet i w (fl a)) \<Longrightarrow> (\<And>c. quiet i w (fr c)) \<Longrightarrow> quiet i w (case sm of Inl a \<Rightarrow> fl a | Inr c \<Rightarrow> fr c)"
  "(\<And>n. quiet i w (fn n)) \<Longrightarrow> quiet i w w1 \<Longrightarrow> quiet i w (case nd of Regular n \<Rightarrow> fn n | Irregular \<Rightarrow> w1)"
  by (auto split: option.split prod.split sum.split fnode.split)

lemma quiet_seed:
  assumes e: "env_ok x i"
  shows "quiet i w (seedDownloadCache x u c w)"
proof -
  have read: "quiet i w (case db_read x f (w\<lparr>wd_store := st\<rparr>) of
        (Inl ErrUploadNotFound, w2) \<Rightarrow> w2\<lparr>wd_store := g w2\<rparr> | (_, w2) \<Rightarrow> w2)"
    for f :: "faults \<Rightarrow> db \<Rightarrow> error + upload" and st g
  proof -
    obtain r w2 where s: "db_read x f (w\<lparr>wd_store := st\<rparr>) = (r, w2)" by force
    have "quiet i w w2"
      using quiet_db_read [OF e s] by (simp add: quiet_def dbsafe_def)
    then show ?thesis by (simp add: s quiet_store split: sum.split error.split)
  qed
  show ?thesis
    unfolding seedDownloadCache_def Let_def
    by (rule quiet_refl read quiet_branches | simp add: quiet_store quiet_refl)+
qed

definition same_request :: "upload \<Rightarrow> upload \<Rightarrow> bool" where
  "same_request u u' \<longleftrightarrow> u_id u' = u_id u \<and> u_temp u' = u_temp u \<and> u_visibility u' = u_visibility u"

lemma same_request_refl: "same_request u u"
  by (simp add: same_request_def)

lemma complete_upload_spec:
  assumes "env_ok x (u_id u)" and "complete_upload x u res amount w = ((eo, u'), w')"
  shows "quiet (u_id u) w w'" and "\<And>e. eo = Some e \<Longrightarrow> err_marks e = []" and "same_request u u'"
proof -
  let ?pub = "u_visibility u = Public" and ?st = "fr_chunks res = 0"
  let ?f = "if ?pub then (if ?st then MarkAlreadyStoredPublic else MarkCompletedPublic)
            else (if ?st then MarkAlreadyStored else MarkCompleted)"
  let ?id = "if ?pub then fr_address res else fr_data_map res"
  show "same_request u u'" and "\<And>e. eo = Some e \<Longrightarrow> err_marks e = []"
    using assms(2) by (auto simp: complete_upload_def Let_def same_request_def
        split: if_splits sum.splits prod.splits)
  obtain r w1 where s: "db_step x (\<lambda>flt now s. ?f flt now (u_id u) ?id amount s) w = (r, w1)" by force
  have q: "quiet (u_id u) w w1"
  proof (rule quiet_op_step [OF assms(1) s])
    fix flt now s
    show "\<exists>oper. snd (?f flt now (u_id u) ?id amount s) = run_op oper s \<and> (\<forall>flt now. oper \<noteq> OpRetry flt now (u_id u))"
      by (rule exI [of _ "if ?pub then (if ?st then OpMarkAlreadyStoredPublic flt now (u_id u) ?id amount else OpMarkCompletedPublic flt now (u_id u) ?id amount)
            else (if ?st then OpMarkAlreadyStored flt now (u_id u) ?id amount else OpMarkCompleted flt now (u_id u) ?id amount)"]) auto
  qed
  have "w' \<in> {w, w1, seedDownloadCache x u ?id w1}"
    using assms(2) s unfolding complete_upload_def Let_def by (auto split: if_splits sum.splits)
  then show "quiet (u_id u) w w'"
    using q quiet_refl quiet_seed [OF assms(1)] quiet_trans by blast
qed

lemma cost_ceiling_spec:
  assumes "env_ok x i" and "cost_ceiling x u p w = (r, w')"
  shows "quiet i w w'"
proof -
  have sched: "quiet i w1 w2"
    if "db_step x (\<lambda>flt now s. SetGasBackoff flt (u_id u) t a c s) w1 = (r, w2)" for t a c w1 r w2
    by (rule quiet_op_step [OF assms(1) that]) (metis queue_op.distinct run_op.simps queue_op.simps)
  have clear: "quiet i w (snd (db_step x (\<lambda>flt now s. ClearBackoff flt (u_id u) s) w))"
    by (rule quiet_op_step [OF assms(1) surjective_pairing]) (metis queue_op.distinct run_op.simps queue_op.simps)
  show ?thesis
    using assms(2) sched clear
    by (auto simp: cost_ceiling_def Let_def quiet_refl split: option.splits if_splits sum.splits prod.splits)
qed

lemma admission_spec:
  assumes "env_ok x i" and "admission x u w = (r, w')"
  shows "quiet i w w'" and "\<And>t wal pk. r = Inr (t, wal, pk) \<Longrightarrow> u_temp u = Some t"
proof -
  note read = quiet_db_read [OF assms(1)]
  show "quiet i w w'"
    using assms(2) by (auto simp: admission_def quiet_refl split: option.splits if_splits sum.splits prod.splits
        dest!: read intro: quiet_trans)
  show "\<And>t wal pk. r = Inr (t, wal, pk) \<Longrightarrow> u_temp u = Some t"
    using assms(2) by (auto simp: admission_def split: option.splits if_splits sum.splits prod.splits)
qed

lemma resolve_signer_quiet: "resolve_signer x p w = (r, w') \<Longrightarrow> quiet i w w'"
  by (rule quiet_frame) (auto simp: resolve_signer_def Let_def split: sum.splits if_splits)

definition accounted :: "upload \<Rightarrow> env \<Rightarrow> world \<Rightarrow> world \<Rightarrow> bool" where
  "accounted u x w w' \<longleftrightarrow> pays w' = pays w \<or>
     (\<exists>n t p k. u_temp u = Some t \<and> x_prepare x n (u_visibility u = Public) t = Inr p \<and>
        pays w' = pays w @ concat (take k (pay_plan p)))"

lemma settled_unrecorded: "settled i w e \<or> un \<noteq> None \<Longrightarrow> paidNoRetryIfUnrecorded (Some e) un = Some e' \<Longrightarrow> settled i w e'"
  by (auto simp: paidNoRetryIfUnrecorded_def settled_def has_mark_def split: option.splits if_splits)

lemma paidNoRetryIfUnrecorded_None: "paidNoRetryIfUnrecorded e un = Some e' \<Longrightarrow> \<exists>e0. e = Some e0"
  by (cases e) (auto simp: paidNoRetryIfUnrecorded_def)

lemma branch_spec:
  assumes "env_ok x (u_id u)"
    and "(if pr_payment_type p = ''merkle'' then merkle_branch x u wal pk sg token p w else wave_branch x u wal pk sg token p w) = ((r, un), w')"
  shows "dbsafe (u_id u) w w'" and "\<exists>k. pays w' = pays w @ concat (take k (pay_plan p))"
    and "\<And>e e'. r = Inl e \<Longrightarrow> queue_inv (wd_db w) \<Longrightarrow> paidNoRetryIfUnrecorded (Some e) un = Some e' \<Longrightarrow>
           pays w' = pays w \<or> settled (u_id u) w' e'"
    and "queue_inv (wd_db w) \<Longrightarrow> paid (wd_db w) (u_id u) \<Longrightarrow> pays w' = pays w"
proof -
  have m: "pr_payment_type p = ''merkle'' \<Longrightarrow> merkle_branch x u wal pk sg token p w = ((r, un), w')"
    and v: "pr_payment_type p \<noteq> ''merkle'' \<Longrightarrow> wave_branch x u wal pk sg token p w = ((r, un), w')"
    using assms(2) by simp_all
  note M = merkle_branch_spec [OF assms(1) m] and V = wave_branch_spec [OF assms(1) v]
  show "dbsafe (u_id u) w w'" using M(1) V(1) by (cases "pr_payment_type p = ''merkle''")
  show "\<exists>k. pays w' = pays w @ concat (take k (pay_plan p))" using M(2) V(2) by (cases "pr_payment_type p = ''merkle''")
  show "pays w' = pays w \<or> settled (u_id u) w' e'"
    if "r = Inl e" "queue_inv (wd_db w)" "paidNoRetryIfUnrecorded (Some e) un = Some e'" for e e'
    using M(3) V(4) settled_unrecorded [OF _ that(3)] that(1,2) by (cases "pr_payment_type p = ''merkle''") metis+
  show "pays w' = pays w" if "queue_inv (wd_db w)" "paid (wd_db w) (u_id u)"
    using M(4) V(5) that by (cases "pr_payment_type p = ''merkle''") simp_all
qed

lemma pay_and_complete_spec:
  assumes "env_ok x (u_id u)" and "pay_and_complete x u wal pk p w = ((eo, u'), w')"
  shows "dbsafe (u_id u) w w' \<and> (\<exists>k. pays w' = pays w @ concat (take k (pay_plan p))) \<and>
    (\<forall>e. eo = Some e \<and> queue_inv (wd_db w) \<longrightarrow> pays w' = pays w \<or> settled (u_id u) w' e) \<and>
    (queue_inv (wd_db w) \<and> paid (wd_db w) (u_id u) \<longrightarrow> pays w' = pays w) \<and> same_request u u'"
proof -
  note same = same_request_refl [of u]
  obtain rs w1 where rs: "resolve_signer x p w = (rs, w1)" by force
  note q1 = resolve_signer_quiet [OF rs, of "u_id u"]
  show ?thesis
  proof (cases rs)
    case (Inl e)
    then have "eo = Some e" "u' = u" "w' = w1" using assms(2) rs by (simp_all add: pay_and_complete_def)
    then show ?thesis using q1 same by (auto simp: quiet_def intro: exI [of _ 0])
  next
    case (Inr st)
    obtain sg token where st: "st = (sg, token)" by force
    obtain r un w2 where br: "(if pr_payment_type p = ''merkle'' then merkle_branch x u wal pk sg token p w1
          else wave_branch x u wal pk sg token p w1) = ((r, un), w2)"
      by (metis prod.collapse)
    note B = branch_spec [OF assms(1) br]
    have d2: "dbsafe (u_id u) w w2" using B(1) quiet_dbsafe [OF q1] dbsafe_trans by blast
    have k2: "\<exists>k. pays w2 = pays w @ concat (take k (pay_plan p))" using B(2) q1 by (simp add: quiet_def)
    have n2: "pays w2 = pays w" if "queue_inv (wd_db w)" "paid (wd_db w) (u_id u)"
      using B(4) q1 that by (simp add: quiet_def dbsafe_def)
    have i1: "queue_inv (wd_db w) \<Longrightarrow> queue_inv (wd_db w1)" and p1: "pays w1 = pays w"
      using q1 by (simp_all add: quiet_def dbsafe_def)
    show ?thesis
    proof (cases r)
      case (Inl e)
      then have "eo = paidNoRetryIfUnrecorded (Some e) un" "u' = u" "w' = w2"
        using assms(2) rs Inr st br by (auto simp: pay_and_complete_def)
      then show ?thesis using d2 k2 n2 B(3) [OF Inl i1] p1 same by simp
    next
      case rp: (Inr ra)
      obtain res amount where ra: "ra = (res, amount)" by force
      obtain co u3 w3 where c: "complete_upload x u res amount w2 = ((co, u3), w3)" by (metis prod.collapse)
      note C = complete_upload_spec [OF assms(1) c]
      have eq: "eo = paidNoRetryIfUnrecorded co un" "u' = u3" "w' = w3"
        using assms(2) rs Inr st br rp ra c by (auto simp: pay_and_complete_def)
      have "settled (u_id u) w' e" if h: "eo = Some e" for e
      proof -
        obtain e0 where e0: "co = Some e0" using h eq(1) by (metis paidNoRetryIfUnrecorded_None)
        then have "settled (u_id u) w' e0" using C(2) by (simp add: settled_def)
        then show ?thesis using settled_unrecorded [of "u_id u" w' e0 un e] h eq(1) e0 by simp
      qed
      moreover have "dbsafe (u_id u) w w'" "pays w' = pays w2" "same_request u u'"
        using C(1,3) eq dbsafe_trans [OF d2] by (simp_all add: quiet_def)
      ultimately show ?thesis using k2 n2 by simp
    qed
  qed
qed

lemma processUpload_spec:
  assumes "env_ok x (u_id u)" and "processUpload x u w = ((eo, u'), w')"
  shows "dbsafe (u_id u) w w' \<and> accounted u x w w' \<and>
    (\<forall>e. eo = Some e \<and> queue_inv (wd_db w) \<longrightarrow> pays w' = pays w \<or> settled (u_id u) w' e) \<and>
    (queue_inv (wd_db w) \<and> paid (wd_db w) (u_id u) \<longrightarrow> pays w' = pays w) \<and> same_request u u'"
    (is ?P)
proof -
  have easy: ?P if "quiet (u_id u) w w'" "u' = u"
    unfolding that(2) using that(1) same_request_refl [of u] by (simp add: quiet_def accounted_def)
  obtain ar w1 where ad: "admission x u w = (ar, w1)" by force
  note A = admission_spec [OF assms(1) ad]
  show ?P
  proof (cases ar)
    case (Inl e)
    then have "w' = w1" "u' = u" using assms(2) ad by (simp_all add: processUpload_def)
    then show ?P using A(1) by (intro easy) simp_all
  next
    case (Inr adm)
    obtain t wal pk where adm: "adm = (t, wal, pk)" by (metis prod.collapse)
    have temp: "u_temp u = Some t" using A(2) Inr adm by simp
    let ?w2 = "w1\<lparr>wd_calls := wd_calls w1 + 1\<rparr>"
    have q2: "quiet (u_id u) w ?w2" using A(1) by (simp add: quiet_def dbsafe_def)
    show ?P
    proof (cases "x_prepare x (wd_calls w1) (u_visibility u = Public) t")
      case (Inl e)
      then have "w' = ?w2" "u' = u" using assms(2) ad Inr adm by (simp_all add: processUpload_def prepare_call_def)
      then show ?P using q2 by (intro easy) simp_all
    next
      case prep: (Inr p)
      obtain co w3 where co: "cost_ceiling x u p (heartbeat x u ?w2) = (co, w3)" by force
      have q3: "quiet (u_id u) w w3"
        using q2 quiet_heartbeat [OF assms(1)] cost_ceiling_spec [OF assms(1) co] quiet_trans by blast
      show ?P
      proof (cases co)
        case (Some e)
        then have "w' = w3" "u' = u"
          using assms(2) ad Inr adm prep co by (simp_all add: processUpload_def prepare_call_def)
        then show ?P using q3 by (intro easy) simp_all
      next
        case None
        then have "pay_and_complete x u wal pk p w3 = ((eo, u'), w')"
          using assms(2) ad Inr adm prep co by (simp add: processUpload_def prepare_call_def)
        note PC = pay_and_complete_spec [OF assms(1) this]
        have "accounted u x w w'"
          using PC q3 temp prep unfolding accounted_def quiet_def by metis
        moreover have "dbsafe (u_id u) w w'" using PC q3 quiet_dbsafe dbsafe_trans by blast
        ultimately show ?P using PC q3 by (simp add: quiet_def dbsafe_def)
      qed
    qed
  qed
qed

lemma quiet_fire [simp]: "quiet i w (fire ev u w1) = quiet i w w1"
  by (simp add: quiet_def dbsafe_def fire_def)

lemma quiet_cleanup: "quiet i w w1 \<Longrightarrow> quiet i w (cleanupTempFile x u w1)"
  by (auto simp: cleanupTempFile_def quiet_store split: option.split)

lemma quiet_finishFailedUpload:
  assumes "env_ok x i"
  shows "quiet i w (finishFailedUpload x u e out w)"
proof -
  have keep: "quiet i w (snd (db_step x (\<lambda>flt now s. MarkFailedPreserveTemp flt now (u_id u) m d s) w))" for m d
    by (rule quiet_op_step [OF assms surjective_pairing]) (metis queue_op.distinct run_op.simps queue_op.simps)
  have note_q: "quiet i w (note_transient x e w)"
    by (rule quiet_frame) (auto simp: note_transient_def Let_def)
  have "quiet i (note_transient x e w) (snd (db_step x (\<lambda>flt now s. MarkFailed flt now (u_id u) m s) (note_transient x e w)))" for m
    by (rule quiet_op_step [OF assms surjective_pairing]) (metis queue_op.distinct run_op.simps queue_op.simps)
  then have drop: "quiet i w (cleanupTempFile x u (snd (db_step x (\<lambda>flt now s. MarkFailed flt now (u_id u) m s) (note_transient x e w))))" for m
    using note_q quiet_trans quiet_cleanup by blast
  show ?thesis
    by (cases out) (simp_all add: finishFailedUpload_def keep drop)
qed

lemma retry_settled: "classifyFailure e pm c = OutcomeRetry \<Longrightarrow> settled i w e \<Longrightarrow> paid (wd_db w) i"
  by (auto simp: classifyFailure_def settled_def has_mark_def isTransientAntdError_def split: if_splits)

lemma accounted_quiet: "accounted u x w w' \<Longrightarrow> quiet i w' w'' \<Longrightarrow> accounted u x w w''"
  by (simp add: accounted_def quiet_def)

lemma accounted_same: "same_request u u' \<Longrightarrow> accounted u' x w w' \<Longrightarrow> accounted u x w w'"
  by (simp add: accounted_def same_request_def)

lemma attempts_failed:
  assumes "processUpload x u w = ((Some e, u'), w1)" and "db_read x (\<lambda>flt s. HasByUpload flt (u_id u') s) w1 = (r, w2)"
  shows "attempts x left u w = (if has_mark GasBackoff e then w1
      else case classifyFailure e (case r of Inl _ \<Rightarrow> False | Inr b \<Rightarrow> b) (0 < left) of
             OutcomeRetry \<Rightarrow> if x_done x (wd_tick w2) then w2 else (case left of 0 \<Rightarrow> w2 | Suc left' \<Rightarrow> attempts x left' u' w2)
           | outcome \<Rightarrow> finishFailedUpload x u' e outcome w2)"
  unfolding attempts.simps [of x left u w] assms(1) by (simp add: assms(2))

text \<open>The run after an attempt: it ends quietly, or the attempt is repeated after a quiet read.\<close>

lemma attempts_cases:
  assumes "env_ok x (u_id u)" and "processUpload x u w = ((eo, u'), w1)" and "same_request u u'"
  obtains "quiet (u_id u) w1 (attempts x left u w)"
  | e left' w2 pm where "eo = Some e" "left = Suc left'" "quiet (u_id u) w1 w2"
      "attempts x left u w = attempts x left' u' w2" "classifyFailure e pm True = OutcomeRetry"
proof (cases eo)
  case None
  have "quiet (u_id u) w1 (w1\<lparr>wd_failures := a, wd_cooldown := b\<rparr>)" for a b by (rule quiet_frame) simp_all
  then have "quiet (u_id u) w1 (attempts x left u w)"
    unfolding attempts.simps [of x left u w] assms(2) None by (simp add: Let_def quiet_cleanup)
  then show ?thesis using that(1) by blast
next
  case (Some e)
  have env': "env_ok x (u_id u')" using assms(1,3) by (simp add: same_request_def)
  obtain r w2 where r: "db_read x (\<lambda>flt s. HasByUpload flt (u_id u') s) w1 = (r, w2)" by force
  have q2: "quiet (u_id u) w1 w2" using quiet_db_read [OF assms(1) r] .
  let ?pm = "case r of Inl _ \<Rightarrow> False | Inr b \<Rightarrow> b"
  note step = attempts_failed [OF assms(2) [unfolded Some] r, of left]
  have fin: "quiet (u_id u) w1 (finishFailedUpload x u' e out w2)" for out
    using quiet_finishFailedUpload [OF assms(1)] q2 quiet_trans by blast
  show ?thesis
  proof (cases "\<not> has_mark GasBackoff e \<and> classifyFailure e ?pm (0 < left) = OutcomeRetry \<and> \<not> x_done x (wd_tick w2) \<and> left \<noteq> 0")
    case True
    then obtain l where l: "left = Suc l" by (cases left) auto
    then have "attempts x left u w = attempts x l u' w2" "classifyFailure e ?pm True = OutcomeRetry"
      using step True by simp_all
    then show ?thesis using that(2) [OF Some l q2] by blast
  next
    case False
    then have "quiet (u_id u) w1 (attempts x left u w)"
      unfolding step using q2 fin quiet_refl by (auto split: uploadOutcome.splits nat.splits)
    then show ?thesis using that(1) by blast
  qed
qed

lemma attempts_spec:
  assumes "env_ok x (u_id u)" and "queue_inv (wd_db w)"
  shows "dbsafe (u_id u) w (attempts x left u w)" and "accounted u x w (attempts x left u w)"
    and "paid (wd_db w) (u_id u) \<Longrightarrow> pays (attempts x left u w) = pays w"
proof -
  have "dbsafe (u_id u) w (attempts x left u w) \<and> accounted u x w (attempts x left u w) \<and>
      (paid (wd_db w) (u_id u) \<longrightarrow> pays (attempts x left u w) = pays w)"
    using assms
  proof (induction left arbitrary: u w rule: nat_less_induct)
    case (1 left)
    obtain eo u' w1 where pu: "processUpload x u w = ((eo, u'), w1)" by (metis prod.collapse)
    note PU = processUpload_spec [OF 1(2) pu]
    then have sr: "same_request u u'" by blast
    show ?case
    proof (rule attempts_cases [OF 1(2) pu sr, of left])
      assume q: "quiet (u_id u) w1 (attempts x left u w)"
      then have "dbsafe (u_id u) w (attempts x left u w)" "accounted u x w (attempts x left u w)"
        using PU accounted_quiet dbsafe_trans quiet_dbsafe by blast+
      then show ?thesis using PU q 1(3) by (simp add: quiet_def)
    next
      fix e left' w2 pm
      assume h: "eo = Some e" "left = Suc left'" "quiet (u_id u) w1 w2"
        "attempts x left u w = attempts x left' u' w2" "classifyFailure e pm True = OutcomeRetry"
      have d2: "dbsafe (u_id u) w w2" using PU h(3) quiet_dbsafe dbsafe_trans by blast
      then have inv2: "queue_inv (wd_db w2)" using 1(3) by (simp add: dbsafe_def)
      have i: "u_id u' = u_id u" using sr by (simp add: same_request_def)
      have IH: "dbsafe (u_id u) w2 (attempts x left' u' w2) \<and> accounted u' x w2 (attempts x left' u' w2) \<and>
          (paid (wd_db w2) (u_id u) \<longrightarrow> pays (attempts x left' u' w2) = pays w2)"
        using 1(1) h(2) 1(2) inv2 i by (metis lessI)
      have "pays w1 = pays w \<or> paid (wd_db w2) (u_id u)"
        using PU h(1,3,5) 1(3) retry_settled by (metis dbsafe_def quiet_def)
      then have "accounted u x w (attempts x left u w)"
        using IH h(3,4) PU accounted_same [OF sr, of x w2] unfolding accounted_def quiet_def by metis
      moreover have "pays (attempts x left u w) = pays w" if "paid (wd_db w) (u_id u)"
        using that IH h(3,4) PU d2 1(3) by (simp add: quiet_def dbsafe_def)
      ultimately show ?thesis using IH h(4) d2 dbsafe_trans by metis
    qed
  qed
  then show "dbsafe (u_id u) w (attempts x left u w)" "accounted u x w (attempts x left u w)"
    "paid (wd_db w) (u_id u) \<Longrightarrow> pays (attempts x left u w) = pays w" by simp_all
qed

end
