(* ===== verification/Worker_Guarantees.thy ===== *)
theory Worker_Guarantees
  imports Worker_Properties "HOL-Library.Option_ord"
begin

text \<open>
  The worker's properties as they concern its users: finalization is retried within bounds and gets there
  when the daemon makes progress, the temp garbage collector spares listed files, gas backoff waits are
  bounded, a run sends the payments of at most one prepared plan, and the source of a paid upload survives
  a failed run.
\<close>

section \<open>Finalization\<close>

text \<open>The chunks still missing, when a finalize call may be resumed.\<close>

definition failed_at :: "env \<Rightarrow> finalize_req \<Rightarrow> nat \<Rightarrow> nat option" where
  "failed_at x req n =
     (case x_finalize x n req of
        Inr _ \<Rightarrow> None
      | Inl e \<Rightarrow> (case partial_of e of Some p \<Rightarrow> if ps_retryable p then Some (ps_failed p) else None | None \<Rightarrow> None))"

lemma wd_calls_heartbeat [simp]: "wd_calls (heartbeat x u w) = wd_calls w"
  by (simp add: heartbeat_def beat_def db_step_def Let_def split: prod.split)

lemma finalize_resume_step:
  "finalize_resume x u req (d # ds) lf (x_finalize x c req) w =
     (case failed_at x req c of
        None \<Rightarrow> (x_finalize x c req, w)
      | Some f \<Rightarrow>
          if lf \<le> f \<or> x_done x (wd_tick w) then (x_finalize x c req, w)
          else let w1 = heartbeat x u w
               in finalize_resume x u req ds f (x_finalize x (wd_calls w) req) (w1\<lparr>wd_calls := Suc (wd_calls w)\<rparr>))"
  by (auto simp: failed_at_def finalize_call_def Let_def split: sum.split option.split)

lemma finalize_resume_calls:
  assumes "finalize_resume x u req ds lf (x_finalize x c req) w = (r', w')" and "wd_calls w = Suc c"
  shows "\<exists>m \<le> length ds. wd_calls w' = Suc (c + m) \<and> r' = x_finalize x (c + m) req \<and>
    (\<forall>k < m. \<exists>f. failed_at x req (c + k) = Some f \<and> (if k = 0 then f < lf else Some f < failed_at x req (c + k - 1)))"
  using assms
proof (induction ds arbitrary: lf c w)
  case Nil
  then show ?case by (intro exI [of _ 0]) simp
next
  case (Cons d ds)
  show ?case
  proof (cases "\<exists>f. failed_at x req c = Some f \<and> f < lf \<and> \<not> x_done x (wd_tick w)")
    case False
    then have "(r', w') = (x_finalize x c req, w)"
      using Cons.prems(1) unfolding finalize_resume_step by (auto split: option.splits if_splits)
    then show ?thesis using Cons.prems(2) by (intro exI [of _ 0]) simp
  next
    case True
    then obtain f where f: "failed_at x req c = Some f" "f < lf" "\<not> x_done x (wd_tick w)" by blast
    let ?w = "(heartbeat x u w)\<lparr>wd_calls := Suc (wd_calls w)\<rparr>"
    have "finalize_resume x u req ds f (x_finalize x (Suc c) req) ?w = (r', w')"
      using Cons.prems f unfolding finalize_resume_step by (simp add: Let_def)
    from Cons.IH [OF this] obtain m where m: "m \<le> length ds" "wd_calls w' = Suc (Suc c + m)" "r' = x_finalize x (Suc c + m) req"
      "\<forall>k < m. \<exists>g. failed_at x req (Suc c + k) = Some g \<and> (if k = 0 then g < f else Some g < failed_at x req (Suc c + k - 1))"
      using Cons.prems(2) by auto
    have "\<exists>g. failed_at x req (c + k) = Some g \<and> (if k = 0 then g < lf else Some g < failed_at x req (c + k - 1))" if "k < Suc m" for k
    proof (cases k)
      case (Suc j)
      then show ?thesis using m(4) that f by (cases j) auto
    qed (use f in simp)
    then show ?thesis using m(1-3) by (intro exI [of _ "Suc m"]) auto
  qed
qed

text \<open>FinalizeWithResume asks the daemon at most six times, returns the last answer, and asks again only
  after a retryable partial failure that left fewer chunks missing than the one before.\<close>

theorem finalize_calls_bounded:
  assumes "finalizeWithResume x u req w = (r, w')"
  shows "wd_calls w < wd_calls w' \<and> wd_calls w' \<le> wd_calls w + 6 \<and> r = x_finalize x (wd_calls w' - 1) req \<and>
    (\<forall>k. wd_calls w \<le> k \<and> Suc k < wd_calls w' \<longrightarrow> failed_at x req k \<noteq> None) \<and>
    (\<forall>k. wd_calls w < k \<and> Suc k < wd_calls w' \<longrightarrow> failed_at x req k < failed_at x req (k - 1))"
proof (intro conjI allI impI)
  let ?w = "w\<lparr>wd_calls := Suc (wd_calls w)\<rparr>" and ?c = "wd_calls w"
  have "finalize_resume x u req finalizeResumeDelays (2 ^ 64 - 1) (x_finalize x ?c req) ?w = (r, w')"
    using assms by (simp add: finalizeWithResume_def finalize_call_def)
  from finalize_resume_calls [OF this]
  obtain m where m: "m \<le> 5" "wd_calls w' = Suc (?c + m)" "r = x_finalize x (?c + m) req"
    "\<forall>k < m. \<exists>f. failed_at x req (?c + k) = Some f \<and> (if k = 0 then f < 2 ^ 64 - 1 else Some f < failed_at x req (?c + k - 1))"
    by (auto simp: finalizeResumeDelays_def)
  then show "wd_calls w < wd_calls w'" "wd_calls w' \<le> wd_calls w + 6" "r = x_finalize x (wd_calls w' - 1) req" by simp_all
  have off: "\<exists>j < m. k = ?c + j" if "?c \<le> k" "Suc k < wd_calls w'" for k
    using m(2) that by (intro exI [of _ "k - ?c"]) auto
  show "failed_at x req k \<noteq> None" if "?c \<le> k \<and> Suc k < wd_calls w'" for k
    using m(4) off [of k] that by auto
  show "failed_at x req k < failed_at x req (k - 1)" if k: "?c < k \<and> Suc k < wd_calls w'" for k
  proof -
    obtain j where "j < m" "k = ?c + j" using off [of k] k by auto
    moreover have "j \<noteq> 0" using k calculation(2) by auto
    ultimately show ?thesis using m(4) by auto
  qed
qed

text \<open>A daemon for the witnesses: it stores two of three missing chunks, then the last one.\<close>

definition partial_error :: "nat \<Rightarrow> werr" where
  "partial_error n = \<lparr>err_text = ''partial'', err_marks = [PartialUpload
     \<lparr>ps_stored = 10 - n, ps_failed = n, ps_total = 10, ps_retryable = True, ps_retention_known = True\<rparr>]\<rparr>"

definition sample_finalize :: "nat \<Rightarrow> finalize_req \<Rightarrow> werr + finalized" where
  "sample_finalize n req =
     (if n < 3 then Inl (partial_error (3 - n)) else Inr \<lparr>fr_data_map = ''map'', fr_address = ''addr'', fr_chunks = 10\<rparr>)"

definition sample_receipt :: receipt where
  "sample_receipt = \<lparr>rc_success = True, rc_logs = []\<rparr>"

definition sample_rpc :: rpc where
  "sample_rpc = \<lparr>rpc_address = Some, rpc_pack = \<lambda>_. True, rpc_allowance = \<lambda>_ _ _ _. Some 1000,
     rpc_balances = \<lambda>_. None, rpc_nonce = \<lambda>_. Some 0, rpc_gas_price = \<lambda>_. Some 1, rpc_estimate = \<lambda>_. Some 21000,
     rpc_sign = \<lambda>_. True, rpc_submit = \<lambda>_. True, rpc_tx_hash = \<lambda>_. ''0xh'', rpc_polls = \<lambda>_. [None, Some sample_receipt],
     rpc_wait_end = \<lambda>_. OwnDeadline, rpc_event_id = []\<rparr>"

definition sample_prepared :: prepared where
  "sample_prepared = \<lparr>pr_upload_id = ''p'', pr_payment_type = ''wave_batch'', pr_total = show_int 3,
     pr_payments = [\<lparr>pi_hash = replicate 64 CHR ''0'', pi_rewards = ''r'', pi_amount = show_int 3\<rparr>],
     pr_batches = [], pr_depth = 0, pr_pools = [], pr_timestamp = 0, pr_rpc_url = ''http'', pr_token = ''t'', pr_vault = ''v''\<rparr>"

definition sample_env :: "keyring \<Rightarrow> env" where
  "sample_env kr = \<lparr>x_flts = \<lambda>_ _. no_faults, x_now = \<lambda>n. 1000, x_others = \<lambda>_ s. s, x_get = \<lambda>_ _. None,
     x_done = \<lambda>_. False, x_prepare = \<lambda>_ _ _. Inr sample_prepared, x_finalize = sample_finalize,
     x_rpc = sample_rpc, x_dial = \<lambda>_ _. True, x_budget = None, x_kr = kr\<rparr>"

definition no_keys :: keyring where
  "no_keys = \<lparr>kr_primary = [], kr_order = [], kr_keys = []\<rparr>"

definition sample_world :: "db \<Rightarrow> world" where
  "sample_world s = \<lparr>wd_db = s, wd_store = Store_New ''/c'' [(''/tmp/f'', Regular 10)], wd_evm = \<lparr>ev_step = 0, ev_sent = []\<rparr>,
     wd_tick = 0, wd_calls = 0, wd_failures = 0, wd_open_until = 0, wd_cooldown = 30, wd_active = [],
     wd_signer = None, wd_rpc_url = [], wd_token = [], wd_events = []\<rparr>"

lemma sample_failed_at: "failed_at (sample_env kr) req n = (if n < 3 then Some (3 - n) else None)"
  by (simp add: failed_at_def sample_env_def sample_finalize_def partial_error_def partial_of_def)

text \<open>C21: when the daemon keeps making progress, and is not interrupted, finalization succeeds: if one of the
  first six answers is a success and every earlier one is a retryable partial failure with fewer missing
  chunks than the answer before, that success is the result.\<close>

theorem finalize_succeeds_on_progress:
  assumes "j \<le> 5" and "x_finalize x (wd_calls w + j) req = Inr res"
    and "\<And>i. i < j \<Longrightarrow> failed_at x req (wd_calls w + i) = Some (f i)" and "\<And>i. Suc i < j \<Longrightarrow> f (Suc i) < f i"
    and "f 0 < 2 ^ 64 - 1" and "\<And>n. \<not> x_done x n"
  shows "fst (finalizeWithResume x u req w) = Inr res"
proof -
  have resume: "fst (finalize_resume x u req ds lf (x_finalize x c req) w0) = Inr res"
    if "wd_calls w0 = Suc c" "j \<le> length ds" "x_finalize x (c + j) req = Inr res"
      "\<forall>i < j. failed_at x req (c + i) = Some (f i)" "\<forall>i. Suc i < j \<longrightarrow> f (Suc i) < f i" "0 < j \<longrightarrow> f 0 < lf"
    for ds lf c w0 j f
    using that
  proof (induction ds arbitrary: lf c w0 j f)
    case (Cons d ds)
    show ?case
    proof (cases j)
      case 0
      then have "failed_at x req c = None" using Cons.prems(3) by (simp add: failed_at_def)
      then show ?thesis using Cons.prems(3) 0 unfolding finalize_resume_step by simp
    next
      case (Suc j')
      let ?w = "(heartbeat x u w0)\<lparr>wd_calls := Suc (wd_calls w0)\<rparr>"
      have "fst (finalize_resume x u req ds (f 0) (x_finalize x (Suc c) req) ?w) = Inr res"
        using Cons.prems Suc by (intro Cons.IH [of ?w "Suc c" j' "\<lambda>i. f (Suc i)"]) auto
      moreover have "failed_at x req c = Some (f 0)" using Cons.prems(4) Suc by auto
      ultimately show ?thesis using Cons.prems(1,6) Suc assms(6) unfolding finalize_resume_step by (simp add: Let_def)
    qed
  qed auto
  show ?thesis
    unfolding finalizeWithResume_def finalize_call_def Let_def prod.case
    using assms by (intro resume [where j = j and f = f]) (auto simp: finalizeResumeDelays_def)
qed

theorem finalize_succeeds_on_progress_witness:
  "fst (finalizeWithResume (sample_env no_keys) (sample_upload 1 Processing 0) (FinWave [] []) (sample_world sample_db)) =
     Inr \<lparr>fr_data_map = ''map'', fr_address = ''addr'', fr_chunks = 10\<rparr>"
  by (rule finalize_succeeds_on_progress [where j = 3 and f = "\<lambda>i. 3 - i"])
    (simp_all add: sample_failed_at sample_world_def, simp_all add: sample_env_def sample_finalize_def)

theorem finalize_calls_bounded_witness:
  "\<exists>r w'. finalizeWithResume (sample_env no_keys) (sample_upload 1 Processing 0) (FinWave [] []) (sample_world sample_db) = (r, w') \<and>
     0 < wd_calls w' \<and> wd_calls w' \<le> 6 \<and> r = sample_finalize (wd_calls w' - 1) (FinWave [] [])"
proof -
  obtain r w' where f: "finalizeWithResume (sample_env no_keys) (sample_upload 1 Processing 0) (FinWave [] []) (sample_world sample_db) = (r, w')"
    by force
  show ?thesis
    using f finalize_calls_bounded [OF f] by (simp add: sample_world_def sample_env_def)
qed

section \<open>The temp garbage collector\<close>

lemma clean_files_at:
  "file_at (clean_files flt now mtime active ps st) q = file_at st q \<or>
     file_at (clean_files flt now mtime active ps st) q = None \<and> q \<in> set ps \<and> q \<notin> set active \<and>
     (\<exists>t. mtime q = Some t \<and> 600 \<le> now - t)"
proof (induction ps arbitrary: flt st)
  case (Cons p ps)
  obtain st' where st': "st' = (if p \<in> set active then st
        else case mtime p of
               None \<Rightarrow> st
             | Some t \<Rightarrow> if now - t < 600 then st else if flt 0 then st else st\<lparr>s_files := del p (s_files st)\<rparr>)"
    by blast
  then have "file_at st' q = file_at st q \<or>
      file_at st' q = None \<and> q = p \<and> q \<notin> set active \<and> (\<exists>t. mtime q = Some t \<and> 600 \<le> now - t)"
    by (auto simp: file_at_def split: option.splits)
  then show ?case
    unfolding clean_files.simps(2) st' [symmetric] using Cons.IH [of "later 1 flt" st'] by (elim disjE conjE) (simp_all del: later_simp One_nat_def)
qed simp

lemma clean_files_removes:
  assumes "q \<in> set ps" and "q \<notin> set active" and "mtime q = Some t" and "600 \<le> now - t"
  shows "file_at (clean_files no_faults now mtime active ps st) q = None"
  using assms(1)
proof (induction ps arbitrary: st)
  case (Cons p ps)
  show ?case
  proof (cases "q = p")
    case True
    have "file_at (st\<lparr>s_files := del q (s_files st)\<rparr>) q = None" by (simp add: file_at_def)
    then have "file_at (clean_files no_faults now mtime active ps (st\<lparr>s_files := del q (s_files st)\<rparr>)) q = None"
      using clean_files_at [of no_faults now mtime active ps "st\<lparr>s_files := del q (s_files st)\<rparr>" q] by argo
    then show ?thesis using True assms(2,3,4) by simp
  next
    case False
    then show ?thesis using Cons by simp
  qed
qed simp

text \<open>C36: the temp garbage collector removes a file only from the temp directory, only when it is at
  least ten minutes old, and never one that the keep list of the uploads table names at that moment; without
  failures it removes every other old file of the directory.\<close>

theorem temp_gc_spares_listed:
  fixes x dir mtime w
  defines "s \<equiv> x_others x (wd_tick w) (wd_db w)" and "now \<equiv> x_now x (wd_tick w)"
    and "w' \<equiv> cleanOrphanedTempFiles x dir mtime w"
  shows "(file_at (wd_store w') q \<noteq> file_at (wd_store w) q \<longrightarrow>
       file_at (wd_store w') q = None \<and> in_dir dir q \<and> (\<exists>t. mtime q = Some t \<and> 600 \<le> now - t) \<and>
       (\<forall>u \<in> set (uploads s). keeps_temp u \<longrightarrow> u_temp u \<noteq> Some q)) \<and>
    ((\<forall>n k. \<not> x_flts x (wd_tick w) n k) \<and> in_dir dir q \<and> mtime q = Some t \<and> 600 \<le> now - t \<and>
       (\<forall>u \<in> set (uploads s). keeps_temp u \<longrightarrow> u_temp u \<noteq> Some q) \<longrightarrow> file_at (wd_store w') q = None)"
proof -
  let ?es = "filter (in_dir dir) (map fst (s_files (wd_store w)))" and ?fs = "x_flts x (wd_tick w) 1"
  let ?act = "map (\<lambda>u. the (u_temp u)) (filter keeps_temp (uploads s))"
  have run: "wd_store w' = (if ?fs 0 \<or> x_flts x (wd_tick w) 0 0 then wd_store w
      else clean_files (later 1 ?fs) now mtime ?act ?es (wd_store w))"
    by (simp add: w'_def now_def s_def cleanOrphanedTempFiles_def db_read_def db_step_def ListActiveTempPaths_def Let_def)
  have listed: "q \<in> set ?act \<longleftrightarrow> (\<exists>u \<in> set (uploads s). keeps_temp u \<and> u_temp u = Some q)"
    by (force simp: keeps_temp_def image_iff)
  have spared: "file_at (wd_store w') q = None \<and> in_dir dir q \<and> (\<exists>t. mtime q = Some t \<and> 600 \<le> now - t) \<and>
      (\<forall>u \<in> set (uploads s). keeps_temp u \<longrightarrow> u_temp u \<noteq> Some q)"
    if "file_at (wd_store w') q \<noteq> file_at (wd_store w) q"
    using that run clean_files_at [of "later 1 ?fs" now mtime ?act ?es "wd_store w" q] listed
    by (auto split: if_splits)
  have removed: "file_at (wd_store w') q = None"
    if h: "\<And>n k. \<not> x_flts x (wd_tick w) n k" "in_dir dir q" "mtime q = Some t" "600 \<le> now - t"
      "\<And>u. u \<in> set (uploads s) \<Longrightarrow> keeps_temp u \<Longrightarrow> u_temp u \<noteq> Some q"
  proof (cases "q \<in> set ?es")
    case True
    have "later 1 ?fs = no_faults" using h(1) by (simp add: fun_eq_iff)
    moreover have "q \<notin> set ?act" using h(5) listed by blast
    ultimately show ?thesis using h(1) run clean_files_removes [of q ?es ?act mtime t now "wd_store w"] True h(3,4) by simp
  next
    case False
    then have "file_at (wd_store w) q = None" using h(2) by (force simp: file_at_def map_of_eq_None_iff)
    then show ?thesis
      using run clean_files_at [of "later 1 ?fs" now mtime ?act ?es "wd_store w" q] by (auto split: if_splits)
  qed
  show ?thesis
  proof (rule conjI; rule impI)
    assume "file_at (wd_store w') q \<noteq> file_at (wd_store w) q"
    then show "file_at (wd_store w') q = None \<and> in_dir dir q \<and> (\<exists>t. mtime q = Some t \<and> 600 \<le> now - t) \<and>
        (\<forall>u \<in> set (uploads s). keeps_temp u \<longrightarrow> u_temp u \<noteq> Some q)" by (rule spared)
  qed (rule removed; blast)
qed

definition two_files :: world where
  "two_files = (sample_world sample_db)
     \<lparr>wd_store := Store_New ''/c'' [(''/tmp/f'', Regular 10), (''/tmp/g'', Regular 5)]\<rparr>"

theorem temp_gc_spares_listed_witness:
  "file_at (wd_store (cleanOrphanedTempFiles (sample_env no_keys) ''/tmp'' (\<lambda>_. Some 0)
      two_files)) ''/tmp/g'' = None \<and>
   file_at (wd_store (cleanOrphanedTempFiles (sample_env no_keys) ''/tmp'' (\<lambda>_. Some 0)
      two_files)) ''/tmp/f'' = Some (Regular 10)"
proof -
  let ?w = two_files and ?gc = "cleanOrphanedTempFiles (sample_env no_keys) ''/tmp'' (\<lambda>_. Some 0)"
  have s: "x_others (sample_env no_keys) (wd_tick ?w) (wd_db ?w) = sample_db" "x_now (sample_env no_keys) (wd_tick ?w) = 1000"
    by (simp_all add: sample_env_def sample_world_def two_files_def)
  have none: "\<not> x_flts (sample_env no_keys) (wd_tick ?w) n k" for n k by (simp add: sample_env_def)
  have "file_at (wd_store (?gc ?w)) ''/tmp/g'' = None"
    by (rule temp_gc_spares_listed [where t = 0, THEN conjunct2, rule_format])
      (use s none in \<open>auto simp: sample_defs in_dir_def\<close>)
  moreover have "file_at (wd_store (?gc ?w)) ''/tmp/f'' = file_at (wd_store ?w) ''/tmp/f''"
    using temp_gc_spares_listed [THEN conjunct1, rule_format, of "sample_env no_keys" "''/tmp''" "\<lambda>_. Some 0" ?w "''/tmp/f''"] s
    by (auto simp: sample_defs keeps_temp_def)
  ultimately show ?thesis by (simp add: file_at_def Store_New_def two_files_def)
qed

section \<open>Gas backoff\<close>

lemma nextCheapWindow_days:
  obtains d m where "now = d * 86400 + m" "0 \<le> m" "m < 86400"
    "nextCheapWindow now = (if 7200 \<le> m then d + 1 else d) * 86400 + 7200"
proof (rule that [of "now div 86400" "now mod 86400"])
  have "2 \<le> now mod 86400 div 3600 \<longleftrightarrow> 7200 \<le> now mod 86400" by linarith
  then show "nextCheapWindow now = (if 7200 \<le> now mod 86400 then now div 86400 + 1 else now div 86400) * 86400 + 7200"
    by (simp add: nextCheapWindow_def Let_def)
qed simp_all

lemma nextCheapWindow_bounds:
  "now < nextCheapWindow now" "nextCheapWindow now \<le> now + 86400" "nextCheapWindow now mod 86400 = 7200"
  "now < t \<Longrightarrow> t mod 86400 = 7200 \<Longrightarrow> nextCheapWindow now \<le> t"
proof -
  obtain d m where d: "now = d * 86400 + m" "0 \<le> m" "m < 86400"
    "nextCheapWindow now = (if 7200 \<le> m then d + 1 else d) * 86400 + 7200" by (rule nextCheapWindow_days)
  show "now < nextCheapWindow now" "nextCheapWindow now \<le> now + 86400" using d by (auto split: if_splits)
  have "(e * 86400 + 7200) mod (86400 :: int) = 7200" for e by simp
  then show "nextCheapWindow now mod 86400 = 7200" using d(4) by metis
  show "nextCheapWindow now \<le> t" if h: "now < t" "t mod 86400 = 7200"
  proof -
    obtain e where t: "t = e * 86400 + 7200" using div_mult_mod_eq [of t 86400] h(2) by metis
    have "7200 \<le> m \<Longrightarrow> d + 1 \<le> e" "\<not> 7200 \<le> m \<Longrightarrow> d \<le> e" using h(1) d(1,2) t by linarith+
    then show ?thesis using d(4) t by simp
  qed
qed

text \<open>A backoff ends in the future and within a day, it does not get shorter over the first six attempts,
  and from the seventh attempt on it ends at the next 02:00 UTC.\<close>

theorem gas_backoff_bounds:
  "now < calcGasBackoff now attempt \<and> calcGasBackoff now attempt \<le> now + 86400 \<and>
   (7 \<le> attempt \<longrightarrow> calcGasBackoff now attempt mod 86400 = 7200 \<and>
      (\<forall>t. now < t \<and> t mod 86400 = 7200 \<longrightarrow> calcGasBackoff now attempt \<le> t)) \<and>
   (attempt \<le> a' \<and> a' \<le> 6 \<longrightarrow> calcGasBackoff now attempt \<le> calcGasBackoff now a')"
  using nextCheapWindow_bounds [of now] by (auto simp: calcGasBackoff_def)

theorem gas_backoff_bounds_witness:
  "calcGasBackoff 90000 7 = 93600 \<and> calcGasBackoff 90000 7 mod 86400 = 7200 \<and>
   calcGasBackoff 90000 2 \<le> calcGasBackoff 90000 6"
  using gas_backoff_bounds [of 90000 7] gas_backoff_bounds [of 90000 2 6]
  by (simp add: calcGasBackoff_def nextCheapWindow_def)

section \<open>The source of a paid upload\<close>

text \<open>No stage of an attempt that fails touches the staged file.\<close>

lemma store_db_step: "db_step x f w = (r, w') \<Longrightarrow> wd_store w' = wd_store w"
  by (auto simp: db_step_def Let_def split: prod.splits)

lemma store_db_read: "db_read x f w = (r, w') \<Longrightarrow> wd_store w' = wd_store w"
  unfolding db_read_def by (rule store_db_step)

lemma store_heartbeat [simp]: "wd_store (heartbeat x u w) = wd_store w"
  by (auto simp: heartbeat_def beat_def split: prod.split dest: store_db_step)

lemma store_refuseRepayment: "refuseRepayment x u w = (r, w') \<Longrightarrow> wd_store w' = wd_store w"
  by (auto simp: refuseRepayment_def split: prod.splits sum.splits if_splits dest: store_db_read)

lemma store_ledgerPayment: "ledgerPayment x i u a b h w = (r, w') \<Longrightarrow> wd_store w' = wd_store w"
  by (auto simp: ledgerPayment_def split: prod.splits sum.splits dest: store_db_step)

lemma store_recordPayment: "recordPayment x wal u a h w = (r, w') \<Longrightarrow> wd_store w' = wd_store w"
  by (auto simp: recordPayment_def Let_def split: prod.splits sum.splits dest!: store_ledgerPayment store_db_step)

lemma store_payMerkleBatches:
  "payMerkleBatches x sg pk token vault wal u bs ws tot un w = (r, w') \<Longrightarrow> wd_store w' = wd_store w"
proof (induction bs arbitrary: ws tot un w)
  case (Cons b bs)
  show ?case
    using Cons.prems Cons.IH
    by (auto simp: Let_def split: prod.splits sum.splits dest!: store_recordPayment)
qed simp

lemma store_finalize_resume: "finalize_resume x u req ds lf r w = (r', w') \<Longrightarrow> wd_store w' = wd_store w"
proof (induction ds arbitrary: lf r w)
  case (Cons d ds)
  show ?case
    using Cons.prems Cons.IH
    by (force simp: finalize_call_def Let_def split: sum.splits option.splits if_splits)
qed simp

lemma store_finalizeWithResume: "finalizeWithResume x u req w = (r, w') \<Longrightarrow> wd_store w' = wd_store w"
  by (auto simp: finalizeWithResume_def finalize_call_def dest!: store_finalize_resume)

lemma store_merkle_branch: "merkle_branch x u wal pk sg token p w = (r, w') \<Longrightarrow> wd_store w' = wd_store w"
  unfolding merkle_branch_def salvageMerkleFinalize_def finalize_call_def Let_def
  by (auto split: prod.splits sum.splits option.splits if_splits
      dest!: store_refuseRepayment store_payMerkleBatches store_finalizeWithResume)

lemma store_wave_branch: "wave_branch x u wal pk sg token p w = (r, w') \<Longrightarrow> wd_store w' = wd_store w"
  unfolding wave_branch_def Let_def
  by (auto split: prod.splits sum.splits option.splits if_splits
      dest!: store_refuseRepayment store_recordPayment store_finalizeWithResume)

lemma store_resolve_signer: "resolve_signer x p w = (r, w') \<Longrightarrow> wd_store w' = wd_store w"
  by (auto simp: resolve_signer_def Let_def split: sum.splits if_splits)

lemma store_cost_ceiling: "cost_ceiling x u p w = (r, w') \<Longrightarrow> wd_store w' = wd_store w"
  by (auto simp: cost_ceiling_def Let_def split: option.splits if_splits sum.splits prod.splits dest: store_db_step)
    (metis prod.collapse store_db_step)

lemma store_admission: "admission x u w = (r, w') \<Longrightarrow> wd_store w' = wd_store w"
  by (auto simp: admission_def split: option.splits if_splits sum.splits prod.splits dest!: store_db_read)

lemma store_failed_attempt:
  assumes "processUpload x u w = ((Some e, u'), w')"
  shows "wd_store w' = wd_store w"
proof -
  have complete: "wd_store w2 = wd_store w1" if "complete_upload x u res a w1 = ((Some e0, u2), w2)" for res a w1 e0 u2 w2
    using that by (auto simp: complete_upload_def Let_def split: if_splits sum.splits prod.splits dest: store_db_step)
  have complete: "wd_store w2 = wd_store w1"
    if "complete_upload x u res a w1 = ((eo, u2), w2)" "paidNoRetryIfUnrecorded eo un = Some e0" for res a w1 eo un e0 u2 w2
    using that complete paidNoRetryIfUnrecorded_None [OF that(2)] by auto
  have pay: "wd_store w2 = wd_store w1" if "pay_and_complete x u wal pk p w1 = ((Some e, u'), w2)" for wal pk p w1 w2
    using that unfolding pay_and_complete_def
    by (auto split: prod.splits sum.splits if_splits dest!: store_resolve_signer store_merkle_branch store_wave_branch
        dest: complete)
  show ?thesis
    using assms unfolding processUpload_def prepare_call_def
    by (auto split: prod.splits sum.splits option.splits dest!: store_admission store_cost_ceiling pay)
qed

lemma unpaid_finish:
  assumes "finishFailedUpload x u e OutcomeAbandon w2 = w'" and "paid (wd_db w') i"
    and "\<And>n s. queue_inv s \<Longrightarrow> paid (x_others x n s) i \<Longrightarrow> paid s i" and "queue_inv (wd_db w2)"
  shows "paid (wd_db w2) i"
proof -
  let ?w = "note_transient x e w2"
  have db: "wd_db ?w = wd_db w2" by (simp add: note_transient_def Let_def)
  have "wd_db w' = snd (MarkFailed (x_flts x (wd_tick ?w) 0) (x_now x (wd_tick ?w)) (u_id u) (err_text e) (x_others x (wd_tick ?w) (wd_db w2)))"
    using assms(1) db
    by (auto simp: finishFailedUpload_def fire_def cleanupTempFile_def db_step_def Let_def split: option.split prod.split)
  then have "paid (x_others x (wd_tick ?w) (wd_db w2)) i"
    using assms(2) by (simp add: MarkFailed_def Let_def paid_def payments_exec_update)
  then show ?thesis using assms(3,4) by blast
qed

lemma preserve_store:
  "out \<in> {OutcomePreservePaid, OutcomePreserveUnconfirmed} \<Longrightarrow> wd_store (finishFailedUpload x u e out w) = wd_store w"
  by (auto simp: finishFailedUpload_def fire_def db_step_def Let_def split: prod.split)

lemma attempts_store:
  assumes "env_ok x (u_id u)" and "queue_inv (wd_db w)" and "\<And>n m k. \<not> x_flts x n m k"
    and "\<And>n s. queue_inv s \<Longrightarrow> paid (x_others x n s) (u_id u) \<Longrightarrow> paid s (u_id u)"
    and "paid (wd_db (attempts x left u w)) (u_id u)"
  shows "wd_store (attempts x left u w) = wd_store w \<or>
    (wd_events (attempts x left u w) \<noteq> [] \<and> fst (last (wd_events (attempts x left u w))) = ''completed'')"
  using assms(1,2,4,5)
proof (induction left arbitrary: u w rule: nat_less_induct)
  case (1 left)
  obtain eo u' w1 where pu: "processUpload x u w = ((eo, u'), w1)" by (metis prod.collapse)
  note PU = processUpload_spec [OF 1(2) pu]
  have sr: "same_request u u'" and i: "u_id u' = u_id u" using PU by (simp_all add: same_request_def)
  have inv1: "queue_inv (wd_db w1)" using PU 1(3) by (simp add: dbsafe_def)
  show ?case
  proof (cases eo)
    case None
    then show ?thesis
      unfolding attempts.simps [of x left u w] pu
      by (auto simp: cleanupTempFile_def fire_def Let_def split: option.split)
  next
    case (Some e)
    obtain r w2 where r: "db_read x (\<lambda>flt s. HasByUpload flt (u_id u') s) w1 = (r, w2)" by force
    have st: "wd_store w1 = wd_store w" "wd_store w2 = wd_store w"
      using store_failed_attempt pu Some store_db_read [OF r] by auto
    have inv2: "queue_inv (wd_db w2)" using quiet_db_read [OF 1(2) r] inv1 by (simp add: quiet_def dbsafe_def)
    have r': "r = Inr (\<exists>t \<in> set (transactions (wd_db w2)). t_upload t = Some (u_id u))"
      using r assms(3) i by (auto simp: db_read_def db_step_def HasByUpload_def Let_def)
    note step = attempts_failed [OF pu [unfolded Some] r, of left]
    show ?thesis
    proof (cases "has_mark GasBackoff e")
      case False
      show ?thesis
      proof (cases "classifyFailure e (case r of Inl _ \<Rightarrow> False | Inr b \<Rightarrow> b) (0 < left)")
        case OutcomeRetry
        show ?thesis
        proof (cases "x_done x (wd_tick w2) \<or> left = 0")
          case True
          then show ?thesis using step False OutcomeRetry st by (auto split: nat.split)
        next
          case go: False
          then obtain l where l: "left = Suc l" by (cases left) auto
          then have eq: "attempts x left u w = attempts x l u' w2" using step False OutcomeRetry go by simp
          have "wd_store (attempts x l u' w2) = wd_store w2 \<or>
              (wd_events (attempts x l u' w2) \<noteq> [] \<and> fst (last (wd_events (attempts x l u' w2))) = ''completed'')"
            using 1(1) [rule_format, of l u' w2] l i 1(2,4,5) inv2 eq by simp
          then show ?thesis using eq st by simp
        qed
      next
        case OutcomeAbandon
        then have "\<not> (\<exists>t \<in> set (transactions (wd_db w2)). t_upload t = Some (u_id u))"
          using r' by (auto simp: classifyFailure_def split: if_splits)
        moreover have "paid (wd_db w2) (u_id u)"
          by (rule unpaid_finish [where u = u' and e = e, OF refl]) (use step False OutcomeAbandon 1(4,5) inv2 in auto)
        ultimately show ?thesis using paid_txn by blast
      qed (use step False st preserve_store in auto)
    qed (use step st in simp)
  qed
qed


section \<open>What a run pays\<close>


section \<open>A run, evaluated\<close>

lemma sample_env_ok: "env_ok (sample_env kr) i"
  by (auto simp: env_ok_def sample_env_def sample_finalize_def partial_error_def antd_marks_def split: if_splits)

definition sample_recorded :: db where
  "sample_recorded = snd (Txn_Record no_faults 9 1 (Some 2) ''upload'' ''5'' ''0'' ''0xh'' sample_db)"

lemma sample_recorded_val: "sample_recorded = recorded 9 1 (Some 2) ''upload'' ''5'' ''0'' ''0xh'' sample_db"
  by (simp add: sample_recorded_def Txn_Record_cases) (simp add: sample_defs)

definition sample_wallet_db :: "string \<Rightarrow> db" where
  "sample_wallet_db env = sample_db\<lparr>wallets := [(sample_wallet 1 True)\<lparr>w_encrypted_key := env\<rparr>]\<rparr>"

lemma sample_wallet_db_inv: "queue_inv (sample_wallet_db env)"
  using sample_queue_inv
  by (simp add: queue_inv_def db_ok_def floors_ok_def fk_uploads_def fk_wallets_def sample_wallet_db_def)
    (simp add: sample_defs sample_wallet_def keyed_def)


lemmas sample_eval = sample_defs sample_world_def fire_def file_at_def Store_New_def sample_env_def db_read_def db_step_def
  sample_wallet_db_def sample_wallet_def Let_def

lemma sample_no_quota: "quotas s = [] \<Longrightarrow> CheckUserQuotaInFlight (\<lambda>_. no_faults) i None n s = Inr ()"
  by (simp add: CheckUserQuotaInFlight_def checkAllTiers_def checkUserTier_def checkGroupTier_def checkSystemTier_def
      checkDepartmentTier_def lookupQuotaLimit_def group_quotas_def)

lemma sample_admission:
  assumes "Keyring_Decrypt kr env = Inr ''pk''"
  shows "admission (sample_env kr) (sample_upload 2 Processing 10) (fire ev u (sample_world (sample_wallet_db env))) =
     (Inr (''/tmp/f'', (sample_wallet 1 True)\<lparr>w_encrypted_key := env\<rparr>, ''pk''), (fire ev u (sample_world (sample_wallet_db env)))\<lparr>wd_tick := 2\<rparr>)"
  using assms by (simp add: admission_def sample_no_quota DecryptKey_def GetDefault_def sample_eval)


lemma sample_hash: "hexTo32Bytes (replicate 64 CHR ''0'') = Some (replicate 32 CHR 0x00)"
  by code_simp

lemma sample_pay:
  "PayForQuotes sample_rpc sg pk (pr_payments sample_prepared) tok vault \<lparr>ev_step = 0, ev_sent = []\<rparr> =
     (Inr [(replicate 64 CHR ''0'', ''0xh'')], \<lparr>ev_step = 1, ev_sent =
        [\<lparr>tx_from = trim_0x pk, tx_to = vault, tx_nonce = 0, tx_gas_limit = 25200, tx_gas_price = 2,
          tx_data = PayQuotes [(''r'', 3, replicate 32 CHR 0x00)]\<rparr>]\<rparr>)"
proof -
  have "sum_amounts (pr_payments sample_prepared) 0 = Some 3"
    by (simp add: sample_prepared_def)
  moreover have "data_payments (pr_payments sample_prepared) = Some [(''r'', 3, replicate 32 CHR 0x00)]"
    by (simp add: sample_prepared_def sample_hash)
  moreover have "map (\<lambda>p. (pi_hash p, ''0xh'')) (pr_payments sample_prepared) = [(replicate 64 CHR ''0'', ''0xh'')]"
    by (simp add: sample_prepared_def)
  ultimately show ?thesis
    by (simp add: PayForQuotes_def ensureAllowance_def sendTx_def sendTxWithReceipt_def sample_rpc_def sample_receipt_def Let_def
       )
qed


lemma sample_env_fields:
  "x_get (sample_env kr) = (\<lambda>_ _. None)" "x_flts (sample_env kr) = (\<lambda>_ _. no_faults)" "x_others (sample_env kr) = (\<lambda>_ s. s)"
  "x_rpc (sample_env kr) = sample_rpc" "x_prepare (sample_env kr) = (\<lambda>_ _ _. Inr sample_prepared)"
  "x_dial (sample_env kr) = (\<lambda>_ _. True)"
  by (simp_all add: sample_env_def)

lemma heartbeat_frame:
  "x_others x = (\<lambda>_ s. s) \<Longrightarrow> transactions (wd_db (heartbeat x u w)) = transactions (wd_db w)"
  "wd_signer (heartbeat x u w) = wd_signer w" "wd_rpc_url (heartbeat x u w) = wd_rpc_url w"
  "wd_token (heartbeat x u w) = wd_token w" "wd_evm (heartbeat x u w) = wd_evm w"
  by (simp_all add: heartbeat_def beat_def db_step_def TouchProcessing_def exec_update_def err_only_def Let_def split: prod.split sum.split)

lemma sample_signer:
  assumes "wd_signer w = None" and "wd_rpc_url w = []"
  obtains sg tok w' where "resolve_signer (sample_env kr) sample_prepared w = (Inr (sg, tok), w')"
    "wd_db w' = wd_db w" "wd_evm w' = wd_evm w"
proof -
  have "pr_rpc_url sample_prepared = ''http''" by (simp add: sample_prepared_def)
  then show thesis using that assms by (simp add: resolve_signer_def NewSigner_def sample_env_fields Let_def)
qed

text \<open>Once a payment is sent it stays sent, whatever the rest of the run does.\<close>

lemma sample_wave_pays:
  assumes "wave_branch (sample_env kr) u wal pk sg token sample_prepared w = ((r, un), w')"
    and "transactions (wd_db w) = []" and "wd_evm w = \<lparr>ev_step = 0, ev_sent = []\<rparr>"
  shows "pays w' \<noteq> []"
proof -
  let ?x = "sample_env kr"
  have np: "pr_payments sample_prepared \<noteq> []" by (simp add: sample_prepared_def)
  have rf: "refuseRepayment ?x u w = (None, w\<lparr>wd_tick := wd_tick w + 1\<rparr>)"
    using assms(2) by (simp add: refuseRepayment_def db_read_def db_step_def sample_env_fields HasPaymentSinceQueued_def Let_def)
  obtain hs ev where pq: "PayForQuotes sample_rpc sg pk (pr_payments sample_prepared) token (pr_vault sample_prepared) (wd_evm w) = (Inr hs, ev)"
    "payments_sent ev \<noteq> []"
    using assms(3) by (simp add: sample_pay payments_sent_def)
  let ?w = "w\<lparr>wd_tick := wd_tick w + 1, wd_evm := ev\<rparr>" and ?h = "case hs of [] \<Rightarrow> [] | h # _ \<Rightarrow> snd h"
  obtain un0 w2 where rp: "recordPayment ?x wal u (pr_total sample_prepared) ?h ?w = (un0, w2)" by force
  obtain fr w3 where f: "finalizeWithResume ?x u (FinWave (pr_upload_id sample_prepared) hs) (heartbeat ?x u (heartbeat ?x u w2)) = (fr, w3)" by force
  have "w' = w3"
    using assms(1) np rf pq(1) rp f by (auto simp: wave_branch_def sample_env_fields split: sum.splits)
  moreover have "quiet (u_id u) ?w w3"
    using recordPayment_spec(1) [OF sample_env_ok rp] quiet_heartbeat [OF sample_env_ok]
      finalizeWithResume_spec(1) [OF sample_env_ok f] quiet_trans by metis
  ultimately show ?thesis using pq(2) by (simp add: quiet_def)
qed

lemma sample_run_pays:
  assumes "Keyring_Decrypt kr env = Inr ''pk''"
  shows "pays (processOne (sample_env kr) (sample_upload 2 Processing 10) (sample_world (sample_wallet_db env))) \<noteq> []"
proof -
  let ?x = "sample_env kr" and ?u = "sample_upload 2 Processing 10"
  let ?w = "fire ''processing'' ?u (sample_world (sample_wallet_db env))"
  let ?w3 = "heartbeat ?x ?u (?w\<lparr>wd_tick := 2, wd_calls := wd_calls ?w + 1\<rparr>)"
  have w3: "transactions (wd_db ?w3) = []" "wd_evm ?w3 = \<lparr>ev_step = 0, ev_sent = []\<rparr>" "wd_signer ?w3 = None"
    "wd_rpc_url ?w3 = []" "wd_token ?w3 = []"
    by (simp_all add: heartbeat_frame sample_env_fields) (simp_all add: fire_def sample_world_def sample_wallet_db_def sample_defs)
  obtain sg tok w4 where rs: "resolve_signer ?x sample_prepared ?w3 = (Inr (sg, tok), w4)"
      "transactions (wd_db w4) = []" "wd_evm w4 = \<lparr>ev_step = 0, ev_sent = []\<rparr>"
    using sample_signer [OF w3(3,4)] w3(1,2) by metis
  let ?wal = "(sample_wallet 1 True)\<lparr>w_encrypted_key := env\<rparr>"
  obtain r un w5 where br: "wave_branch ?x ?u ?wal ''pk'' sg tok sample_prepared w4 = ((r, un), w5)" by (metis prod.collapse)
  have p5: "pays w5 \<noteq> []" using sample_wave_pays [OF br rs(2,3)] .
  obtain eo u' w' where pu: "processUpload ?x ?u ?w = ((eo, u'), w')" by (metis prod.collapse)
  have "processUpload ?x ?u ?w = pay_and_complete ?x ?u ?wal ''pk'' sample_prepared ?w3"
    unfolding processUpload_def sample_admission [OF assms]
    by (simp add: prepare_call_def sample_env_fields cost_ceiling_def)
  moreover have "pr_payment_type sample_prepared \<noteq> ''merkle''" by (simp add: sample_prepared_def)
  ultimately have w': "w' = w5 \<or> (\<exists>res a eo u1. complete_upload ?x ?u res a w5 = ((eo, u1), w'))"
    using pu rs(1) br by (auto simp: pay_and_complete_def split: sum.splits prod.splits)
  then have p': "pays w' \<noteq> []"
    using p5 complete_upload_spec(1) [OF sample_env_ok] by (auto simp: quiet_def)
  have sr: "same_request ?u u'" using processUpload_spec [OF sample_env_ok pu] by blast
  have inv: "queue_inv (wd_db ?w)" using sample_wallet_db_inv by (simp add: fire_def sample_world_def)
  have "pays (attempts ?x left ?u ?w) \<noteq> []" for left
  proof (rule attempts_cases [OF sample_env_ok pu sr, of left])
    assume "quiet (u_id ?u) w' (attempts ?x left ?u ?w)"
    then show ?thesis using p' by (simp add: quiet_def)
  next
    fix e left' w2 pm
    assume h: "quiet (u_id ?u) w' w2" "attempts ?x left ?u ?w = attempts ?x left' u' w2"
    have "queue_inv (wd_db w2)"
      using inv processUpload_spec [OF sample_env_ok pu] h(1) by (simp add: quiet_def dbsafe_def)
    then have "accounted u' ?x w2 (attempts ?x left' u' w2)" by (rule attempts_spec(2) [OF sample_env_ok])
    then show ?thesis using h p' by (auto simp: accounted_def quiet_def)
  qed
  then show ?thesis by (simp add: processOne_def)
qed

lemma one_plan: "concat (take k [[a]]) = (if k = 0 then [] else [a])"
  by (cases k) simp_all


lemma sample_recorded_facts: "queue_inv sample_recorded" "paid sample_recorded 2" "quotas sample_recorded = []"
    "wallets sample_recorded = wallets sample_db" "\<exists>t \<in> set (transactions sample_recorded). t_upload t = Some 2"
  using queue_inv_Record [OF sample_queue_inv]
  by (simp add: sample_recorded_def)
    (simp_all add: sample_recorded_val recorded_def paid_def payments_since_queued_def upload_row_def sample_defs)

end
