(* ===== verification/Audit_Log.thy ===== *)
theory Audit_Log
  imports Upload_Service Settings
begin

text \<open>
  \<open>internal/services/log.go\<close> and \<open>file_access.go\<close>: the audit log with its hash chain,
  the system log, the file access log, their queries, statistics and exports. Every method of \<open>LogService\<close> is one definition over the record
  \<open>log_db\<close>; the config audit rows live in \<open>settings_db\<close>. Dates of the \<open>by_day\<close>
  breakdown are day numbers since the epoch, of which the Go code prints the calendar form. Rows written
  before the chain existed have an empty \<open>row_hash\<close>.
\<close>

section \<open>State\<close>

record audit_entry =
  al_id :: int
  al_event :: string
  al_severity :: string
  al_user :: "int option"
  al_detail :: string
  al_ip :: "string option"
  al_agent :: "string option"
  al_request :: string
  al_prev :: string
  al_hash :: string
  al_at :: time

text \<open>\<open>AuditLogEntry\<close>, what queries and exports hand out: the row without its hashes.\<close>

record log_entry =
  le_id :: int
  le_event :: string
  le_severity :: string
  le_user :: "int option"
  le_detail :: string
  le_ip :: "string option"
  le_agent :: "string option"
  le_request :: string
  le_at :: time

record system_entry =
  sl_id :: int
  sl_level :: string
  sl_component :: string
  sl_message :: string
  sl_detail :: "string option"
  sl_request :: string
  sl_at :: time

record audit_anchor =
  aa_id :: int
  aa_head :: string
  aa_count :: int
  aa_address :: string
  aa_tx :: string
  aa_at :: time

record log_db =
  audit_log :: "audit_entry list"
  audit_log_seq :: int
  system_log :: "system_entry list"
  system_log_seq :: int
  audit_anchors :: "audit_anchor list"
  audit_anchors_seq :: int
  file_access_log :: "audit_entry list"
  file_access_seq :: int

definition empty_log_db :: log_db where
  "empty_log_db = \<lparr>audit_log = [], audit_log_seq = 0, system_log = [], system_log_seq = 0,
     audit_anchors = [], audit_anchors_seq = 0, file_access_log = [], file_access_seq = 0\<rparr>"

section \<open>The hash chain\<close>

definition auditGenesisHash :: string where
  "auditGenesisHash = []"

abbreviation NUL :: char where
  "NUL \<equiv> CHR 0x00"

definition nul_terminated :: "string list \<Rightarrow> string" where
  "nul_terminated fs = concat (map (\<lambda>f. f @ [NUL]) fs)"

definition auditRowHash ::
  "string \<Rightarrow> string \<Rightarrow> string \<Rightarrow> string \<Rightarrow> string \<Rightarrow> string \<Rightarrow> string \<Rightarrow> string \<Rightarrow> string" where
  "auditRowHash prev event severity uid detail ip agent request =
     hex_encode (sha256 (nul_terminated [prev, event, severity, uid, detail, ip, agent, request]))"

text \<open>The user column in the preimage: empty for NULL, decimal otherwise.\<close>

definition user_text :: "int option \<Rightarrow> string" where
  "user_text u = (case u of None \<Rightarrow> [] | Some i \<Rightarrow> show_int i)"

text \<open>\<open>sql.NullString.String\<close>: NULL reads as the empty string.\<close>

definition null_text :: "string option \<Rightarrow> string" where
  "null_text x = (case x of None \<Rightarrow> [] | Some t \<Rightarrow> t)"

definition chained :: "log_db \<Rightarrow> audit_entry list" where
  "chained s = order_asc al_id (filter (\<lambda>r. al_hash r \<noteq> []) (audit_log s))"

text \<open>\<open>SELECT row_hash ... WHERE row_hash != '' ORDER BY id DESC LIMIT 1\<close>.\<close>

definition chain_head :: "log_db \<Rightarrow> string option" where
  "chain_head s = (case limit_offset 1 0 (order_desc al_id (filter (\<lambda>r. al_hash r \<noteq> []) (audit_log s))) of
     [] \<Rightarrow> None | r # _ \<Rightarrow> Some (al_hash r))"

record audit_call =
  c_event :: string
  c_severity :: string
  c_user :: "int option"
  c_detail :: string
  c_ip :: string
  c_agent :: string
  c_request :: string

text \<open>The two statements of \<open>WriteAudit\<close>, both run while \<open>auditChainMu\<close> is held: read the head,
  then insert the row that links to it.\<close>

definition read_head :: "faults \<Rightarrow> log_db \<Rightarrow> error + string" where
  "read_head flt s =
     (if flt 0 then Inl DBError
      else case chain_head s of None \<Rightarrow> Inr auditGenesisHash | Some h \<Rightarrow> Inr h)"

definition audit_entry_of :: "int \<Rightarrow> time \<Rightarrow> audit_call \<Rightarrow> string \<Rightarrow> audit_entry" where
  "audit_entry_of i now c prev =
     \<lparr>al_id = i, al_event = c_event c, al_severity = c_severity c, al_user = c_user c, al_detail = c_detail c,
      al_ip = Some (c_ip c), al_agent = Some (c_agent c), al_request = c_request c, al_prev = prev,
      al_hash = auditRowHash prev (c_event c) (c_severity c) (user_text (c_user c)) (c_detail c) (c_ip c)
        (c_agent c) (c_request c), al_at = now\<rparr>"

definition insert_audit :: "faults \<Rightarrow> time \<Rightarrow> audit_call \<Rightarrow> string \<Rightarrow> log_db \<Rightarrow> (error + unit) \<times> log_db" where
  "insert_audit flt now c prev s =
     (if flt 0 then (Inl DBError, s)
      else (Inr (), s\<lparr>audit_log := audit_log s @ [audit_entry_of (audit_log_seq s + 1) now c prev],
                     audit_log_seq := audit_log_seq s + 1\<rparr>))"

definition WriteAudit :: "faults \<Rightarrow> time \<Rightarrow> audit_call \<Rightarrow> log_db \<Rightarrow> (error + unit) \<times> log_db" where
  "WriteAudit flt now c s =
     (case read_head flt s of
        Inl e \<Rightarrow> (Inl e, s)
      | Inr prev \<Rightarrow> insert_audit (later 1 flt) now c prev s)"

definition LatestAuditAnchor :: "faults \<Rightarrow> log_db \<Rightarrow> error + audit_anchor option" where
  "LatestAuditAnchor flt s =
     (if flt 0 then Inl DBError
      else case limit_offset 1 0 (order_desc aa_id (audit_anchors s)) of [] \<Rightarrow> Inr None | a # _ \<Rightarrow> Inr (Some a))"

definition RecordAuditAnchor ::
  "faults \<Rightarrow> time \<Rightarrow> string \<Rightarrow> int \<Rightarrow> string \<Rightarrow> string \<Rightarrow> log_db \<Rightarrow> (error + unit) \<times> log_db" where
  "RecordAuditAnchor flt now head count address tx s =
     (if flt 0 then (Inl DBError, s)
      else (Inr (), s\<lparr>audit_anchors := audit_anchors s @ [\<lparr>aa_id = audit_anchors_seq s + 1, aa_head = head,
              aa_count = count, aa_address = address, aa_tx = tx, aa_at = now\<rparr>],
              audit_anchors_seq := audit_anchors_seq s + 1\<rparr>))"

definition head_count :: "log_db \<Rightarrow> int" where
  "head_count s = rows_affected (\<lambda>r. al_hash r \<noteq> []) (audit_log s)"

text \<open>\<open>AuditChainHead\<close> issues two statements, not in one transaction and without the mutex:
  the count is read in \<open>s\<close>, the head in \<open>s'\<close>. Faults: 0 the count, 1 the head.\<close>

definition chain_head_between :: "faults \<Rightarrow> log_db \<Rightarrow> log_db \<Rightarrow> error + (string \<times> int)" where
  "chain_head_between flt s s' =
     (if flt 0 then Inl DBError
      else if head_count s = 0 then Inr ([], 0)
      else if flt 1 then Inl DBError
      else case chain_head s' of None \<Rightarrow> Inl ErrNoRows | Some h \<Rightarrow> Inr (h, head_count s))"

definition AuditChainHead :: "faults \<Rightarrow> log_db \<Rightarrow> error + (string \<times> int)" where
  "AuditChainHead flt s = chain_head_between flt s s"

record chain_result =
  Intact :: bool
  Count :: int
  BrokenAt :: int
  AnchorChecked :: bool
  AnchorMatches :: bool
  AnchorAddress :: string
  AnchoredAt :: "time option"

definition expected_hash :: "string \<Rightarrow> audit_entry \<Rightarrow> string" where
  "expected_hash prev r =
     auditRowHash prev (al_event r) (al_severity r) (user_text (al_user r)) (al_detail r)
       (null_text (al_ip r)) (null_text (al_agent r)) (al_request r)"

definition intact_result :: "audit_anchor option \<Rightarrow> string \<Rightarrow> int \<Rightarrow> chain_result" where
  "intact_result anchor headAt count =
     (case anchor of
        None \<Rightarrow> \<lparr>Intact = True, Count = count, BrokenAt = 0, AnchorChecked = False, AnchorMatches = False,
                 AnchorAddress = [], AnchoredAt = None\<rparr>
      | Some a \<Rightarrow> \<lparr>Intact = True, Count = count, BrokenAt = 0, AnchorChecked = True,
                 AnchorMatches = (headAt \<noteq> [] \<and> headAt = aa_head a),
                 AnchorAddress = aa_address a, AnchoredAt = Some (aa_at a)\<rparr>)"

definition broken_result :: "int \<Rightarrow> int \<Rightarrow> chain_result" where
  "broken_result count i =
     \<lparr>Intact = False, Count = count, BrokenAt = i, AnchorChecked = False, AnchorMatches = False,
      AnchorAddress = [], AnchoredAt = None\<rparr>"

text \<open>The loop of \<open>VerifyAuditChain\<close>. Fault 0 is the fetch of the next row (\<open>Scan\<close> or
  \<open>rows.Err\<close>).\<close>

fun verify_rows ::
  "faults \<Rightarrow> audit_anchor option \<Rightarrow> string \<Rightarrow> int \<Rightarrow> string \<Rightarrow> audit_entry list \<Rightarrow> error + chain_result" where
  "verify_rows flt anchor prev count headAt [] =
     (if flt 0 then Inl DBError else Inr (intact_result anchor headAt count))"
| "verify_rows flt anchor prev count headAt (r # rs) =
     (if flt 0 then Inl DBError
      else if al_prev r \<noteq> prev \<or> al_hash r \<noteq> expected_hash prev r then Inr (broken_result count (al_id r))
      else verify_rows (later 1 flt) anchor (al_hash r) (count + 1)
             (case anchor of None \<Rightarrow> headAt | Some a \<Rightarrow> if count + 1 = aa_count a then al_hash r else headAt) rs)"

text \<open>Faults: 0 the query, 1 the anchor lookup (its error is dropped), then one per row.\<close>

definition VerifyAuditChain :: "faults \<Rightarrow> log_db \<Rightarrow> error + chain_result" where
  "VerifyAuditChain flt s =
     (if flt 0 then Inl DBError
      else let anchor = (case LatestAuditAnchor (later 1 flt) s of Inl _ \<Rightarrow> None | Inr a \<Rightarrow> a)
           in verify_rows (later 2 flt) anchor auditGenesisHash 0 [] (chained s))"

section \<open>System log and retention\<close>

definition WriteSystem ::
  "faults \<Rightarrow> time \<Rightarrow> string \<Rightarrow> string \<Rightarrow> string \<Rightarrow> string \<Rightarrow> string \<Rightarrow> log_db \<Rightarrow> (error + unit) \<times> log_db" where
  "WriteSystem flt now level component message detail request s =
     (if flt 0 then (Inl DBError, s)
      else (Inr (), s\<lparr>system_log := system_log s @ [\<lparr>sl_id = system_log_seq s + 1, sl_level = level,
              sl_component = component, sl_message = message,
              sl_detail = (if detail = [] then None else Some detail), sl_request = request, sl_at = now\<rparr>],
              system_log_seq := system_log_seq s + 1\<rparr>))"

text \<open>The cutoff has the text form of the column, so both dialects compare instants.\<close>

definition CleanupOldLogs :: "faults \<Rightarrow> time \<Rightarrow> int \<Rightarrow> log_db \<Rightarrow> (error + int) \<times> log_db" where
  "CleanupOldLogs flt now retentionDays s =
     (let cutoff = now - retentionDays * seconds_per_day; P = (\<lambda>r. sl_at r < cutoff)
      in if flt 0 then (Inl DBError, s)
         else (Inr (rows_affected P (system_log s)), s\<lparr>system_log := delete_where P (system_log s)\<rparr>))"

text \<open>The file access log: a bare insert, no mutex and no hash.\<close>

definition WriteFileAccess :: "faults \<Rightarrow> time \<Rightarrow> audit_call \<Rightarrow> log_db \<Rightarrow> (error + unit) \<times> log_db" where
  "WriteFileAccess flt now c s =
     (if flt 0 then (Inl DBError, s)
      else (Inr (), s\<lparr>file_access_log := file_access_log s @ [\<lparr>al_id = file_access_seq s + 1, al_event = c_event c,
              al_severity = c_severity c, al_user = c_user c, al_detail = c_detail c, al_ip = Some (c_ip c),
              al_agent = Some (c_agent c), al_request = c_request c, al_prev = [], al_hash = [], al_at = now\<rparr>],
              file_access_seq := file_access_seq s + 1\<rparr>))"

section \<open>Queries\<close>

definition entry_of :: "audit_entry \<Rightarrow> log_entry" where
  "entry_of r = \<lparr>le_id = al_id r, le_event = al_event r, le_severity = al_severity r, le_user = al_user r,
     le_detail = al_detail r, le_ip = al_ip r, le_agent = al_agent r, le_request = al_request r, le_at = al_at r\<rparr>"

definition time_bounds :: "dialect \<Rightarrow> time option \<Rightarrow> time option \<Rightarrow> time \<Rightarrow> bool" where
  "time_bounds d since until t \<longleftrightarrow>
     (case since of None \<Rightarrow> True | Some x \<Rightarrow> created_at_ge d t x) \<and>
     (case until of None \<Rightarrow> True | Some x \<Rightarrow> created_at_le d t x)"

definition buildLogFilter ::
  "dialect \<Rightarrow> string \<Rightarrow> string \<Rightarrow> int option \<Rightarrow> time option \<Rightarrow> time option \<Rightarrow> audit_entry \<Rightarrow> bool" where
  "buildLogFilter d eventType severity userID since until r \<longleftrightarrow>
     (eventType \<noteq> [] \<longrightarrow> al_event r = eventType) \<and>
     (severity \<noteq> [] \<longrightarrow> al_severity r = severity) \<and>
     (case userID of None \<Rightarrow> True | Some i \<Rightarrow> al_user r = Some i) \<and>
     time_bounds d since until (al_at r)"

definition system_filter ::
  "dialect \<Rightarrow> string \<Rightarrow> string \<Rightarrow> time option \<Rightarrow> time option \<Rightarrow> system_entry \<Rightarrow> bool" where
  "system_filter d level component since until r \<longleftrightarrow>
     (level \<noteq> [] \<longrightarrow> sl_level r = level) \<and>
     (component \<noteq> [] \<longrightarrow> sl_component r = component) \<and>
     time_bounds d since until (sl_at r)"

definition config_filter ::
  "dialect \<Rightarrow> string \<Rightarrow> int option \<Rightarrow> time option \<Rightarrow> time option \<Rightarrow> audit_row \<Rightarrow> bool" where
  "config_filter d key changedBy since until r \<longleftrightarrow>
     (key \<noteq> [] \<longrightarrow> ca_key r = key) \<and>
     (case changedBy of None \<Rightarrow> True | Some i \<Rightarrow> ca_by r = Some i) \<and>
     time_bounds d since until (ca_at r)"

text \<open>The body the three queries share: the count's error is dropped (the total then reads 0), the
  query's and the fetch's are returned.\<close>

definition query_page ::
  "faults \<Rightarrow> ('r \<Rightarrow> time) \<Rightarrow> int \<Rightarrow> int \<Rightarrow> 'r list \<Rightarrow> error + ('r list \<times> int)" where
  "query_page flt at limit offset rows =
     (let total = (if flt 0 then 0 else int (length rows))
      in if flt 1 then Inl DBError
         else if flt 2 then Inl DBError
         else Inr (limit_offset (clamp_limit limit) offset (order_desc at rows), total))"

definition QueryAuditLogs ::
  "dialect \<Rightarrow> faults \<Rightarrow> string \<Rightarrow> string \<Rightarrow> int option \<Rightarrow> time option \<Rightarrow> time option \<Rightarrow> int \<Rightarrow> int \<Rightarrow> log_db \<Rightarrow>
     error + (log_entry list \<times> int)" where
  "QueryAuditLogs d flt eventType severity userID since until limit offset s =
     query_page flt le_at limit offset
       (map entry_of (filter (buildLogFilter d eventType severity userID since until) (audit_log s)))"

definition QueryFileAccessLogs ::
  "dialect \<Rightarrow> faults \<Rightarrow> string \<Rightarrow> string \<Rightarrow> int option \<Rightarrow> time option \<Rightarrow> time option \<Rightarrow> int \<Rightarrow> int \<Rightarrow> log_db \<Rightarrow>
     error + (log_entry list \<times> int)" where
  "QueryFileAccessLogs d flt eventType severity userID since until limit offset s =
     query_page flt le_at limit offset
       (map entry_of (filter (buildLogFilter d eventType severity userID since until) (file_access_log s)))"

definition QueryUserActivity ::
  "dialect \<Rightarrow> faults \<Rightarrow> string \<Rightarrow> int option \<Rightarrow> time option \<Rightarrow> time option \<Rightarrow> int \<Rightarrow> int \<Rightarrow> log_db \<Rightarrow>
     error + (log_entry list \<times> int)" where
  "QueryUserActivity d flt severity userID since until limit offset s =
     QueryAuditLogs d flt [] severity userID since until limit offset s"

definition QuerySystemLogs ::
  "dialect \<Rightarrow> faults \<Rightarrow> string \<Rightarrow> string \<Rightarrow> time option \<Rightarrow> time option \<Rightarrow> int \<Rightarrow> int \<Rightarrow> log_db \<Rightarrow>
     error + (system_entry list \<times> int)" where
  "QuerySystemLogs d flt level component since until limit offset s =
     query_page flt sl_at limit offset (filter (system_filter d level component since until) (system_log s))"

definition Log_QueryConfigAudit ::
  "dialect \<Rightarrow> faults \<Rightarrow> string \<Rightarrow> int option \<Rightarrow> time option \<Rightarrow> time option \<Rightarrow> int \<Rightarrow> int \<Rightarrow> settings_db \<Rightarrow>
     error + (audit_row list \<times> int)" where
  "Log_QueryConfigAudit d flt key changedBy since until limit offset s =
     query_page flt ca_at limit offset (filter (config_filter d key changedBy since until) (config_audit s))"

section \<open>Exports\<close>

definition ExportMaxRows :: int where
  "ExportMaxRows = 1000000"

definition ErrExportCapExceeded :: error where
  "ErrExportCapExceeded = ErrMsg ''export exceeded cap of 1000000 rows; narrow the date range and retry''"

text \<open>The loop the three exports share. \<open>emit\<close> is the caller's callback over its own state. Faults per
  row: 0 the fetch, 1 the scan.\<close>

fun stream_rows ::
  "faults \<Rightarrow> ('r \<Rightarrow> 's \<Rightarrow> error option \<times> 's) \<Rightarrow> int \<Rightarrow> 'r list \<Rightarrow> 's \<Rightarrow> (int \<times> error option) \<times> 's" where
  "stream_rows flt emit n [] st = ((n, if flt 0 then Some DBError else None), st)"
| "stream_rows flt emit n (r # rs) st =
     (if flt 0 then ((n, Some DBError), st)
      else if ExportMaxRows < n + 1 then ((ExportMaxRows, Some ErrExportCapExceeded), st)
      else if flt 1 then ((n + 1, Some DBError), st)
      else case emit r st of
             (Some e, st') \<Rightarrow> ((n + 1, Some e), st')
           | (None, st') \<Rightarrow> stream_rows (later 2 flt) emit (n + 1) rs st')"

definition stream_query ::
  "faults \<Rightarrow> ('r \<Rightarrow> time) \<Rightarrow> ('r \<Rightarrow> 's \<Rightarrow> error option \<times> 's) \<Rightarrow> 'r list \<Rightarrow> 's \<Rightarrow> (int \<times> error option) \<times> 's" where
  "stream_query flt at emit rows st =
     (if flt 0 then ((0, Some DBError), st)
      else stream_rows (later 1 flt) emit 0 (limit_offset (ExportMaxRows + 1) 0 (order_desc at rows)) st)"

text \<open>The exports select neither \<open>request_id\<close> column: the struct field keeps its zero value.\<close>

definition export_of :: "audit_entry \<Rightarrow> log_entry" where
  "export_of r = (entry_of r)\<lparr>le_request := []\<rparr>"

definition StreamAuditLogs ::
  "dialect \<Rightarrow> faults \<Rightarrow> string \<Rightarrow> string \<Rightarrow> int option \<Rightarrow> time option \<Rightarrow> time option \<Rightarrow>
     (log_entry \<Rightarrow> 's \<Rightarrow> error option \<times> 's) \<Rightarrow> log_db \<Rightarrow> 's \<Rightarrow> (int \<times> error option) \<times> 's" where
  "StreamAuditLogs d flt eventType severity userID since until emit s st =
     stream_query flt le_at emit
       (map export_of (filter (buildLogFilter d eventType severity userID since until) (audit_log s))) st"

definition StreamFileAccessLogs ::
  "dialect \<Rightarrow> faults \<Rightarrow> string \<Rightarrow> string \<Rightarrow> int option \<Rightarrow> time option \<Rightarrow> time option \<Rightarrow>
     (log_entry \<Rightarrow> 's \<Rightarrow> error option \<times> 's) \<Rightarrow> log_db \<Rightarrow> 's \<Rightarrow> (int \<times> error option) \<times> 's" where
  "StreamFileAccessLogs d flt eventType severity userID since until emit s st =
     stream_query flt le_at emit
       (map export_of (filter (buildLogFilter d eventType severity userID since until) (file_access_log s))) st"

definition StreamSystemLogs ::
  "dialect \<Rightarrow> faults \<Rightarrow> string \<Rightarrow> string \<Rightarrow> time option \<Rightarrow> time option \<Rightarrow>
     (system_entry \<Rightarrow> 's \<Rightarrow> error option \<times> 's) \<Rightarrow> log_db \<Rightarrow> 's \<Rightarrow> (int \<times> error option) \<times> 's" where
  "StreamSystemLogs d flt level component since until emit s st =
     stream_query flt sl_at emit
       (map (\<lambda>r. r\<lparr>sl_request := []\<rparr>) (filter (system_filter d level component since until) (system_log s))) st"

definition StreamConfigAudit ::
  "dialect \<Rightarrow> faults \<Rightarrow> string \<Rightarrow> int option \<Rightarrow> time option \<Rightarrow> time option \<Rightarrow>
     (audit_row \<Rightarrow> 's \<Rightarrow> error option \<times> 's) \<Rightarrow> settings_db \<Rightarrow> 's \<Rightarrow> (int \<times> error option) \<times> 's" where
  "StreamConfigAudit d flt key changedBy since until emit s st =
     stream_query flt ca_at emit (filter (config_filter d key changedBy since until) (config_audit s)) st"

section \<open>Statistics\<close>

record log_stats =
  TotalEntries :: int
  Earliest :: "time option"
  Latest :: "time option"
  DiskUsageBytes :: int
  BySeverity :: "(string \<times> int) list"
  ByEventType :: "(string \<times> int) list"
  ByLevel :: "(string \<times> int) list"
  ByComponent :: "(string \<times> int) list"
  BySettingKey :: "(string \<times> int) list"
  ByDay :: "(int \<times> int) list"

text \<open>\<open>GROUP BY\<close>: one row per key that occurs, with its number of rows.\<close>

definition count_by :: "('r \<Rightarrow> 'k) \<Rightarrow> 'r list \<Rightarrow> 'k \<Rightarrow> int" where
  "count_by key rows k = rows_affected (\<lambda>r. key r = k) rows"

definition group_counts :: "('r \<Rightarrow> 'k) \<Rightarrow> 'r list \<Rightarrow> ('k \<times> int) list" where
  "group_counts key rows = map (\<lambda>k. (k, count_by key rows k)) (remdups (map key rows))"

definition top_counts :: "('r \<Rightarrow> 'k) \<Rightarrow> 'r list \<Rightarrow> ('k \<times> int) list" where
  "top_counts key rows = limit_offset 10 0 (order_desc snd (group_counts key rows))"

text \<open>\<open>tableSize\<close>: \<open>pg_total_relation_size\<close> is an argument; SQLite reports 0.\<close>

definition tableSize :: "dialect \<Rightarrow> faults \<Rightarrow> (string \<Rightarrow> int) \<Rightarrow> string \<Rightarrow> int" where
  "tableSize d flt pg_size table = (case d of SQLite \<Rightarrow> 0 | Postgres \<Rightarrow> if flt 0 then 0 else pg_size table)"

definition thirtyDaysAgo :: "time \<Rightarrow> time" where
  "thirtyDaysAgo now = now - 30 * seconds_per_day"

definition day_of :: "time \<Rightarrow> int" where
  "day_of t = t div seconds_per_day"

text \<open>\<open>scanByDay\<close>: the days 29, 28, ..., 0 days before today, each with its count or 0.\<close>

definition scanByDay :: "time \<Rightarrow> (int \<times> int) list \<Rightarrow> (int \<times> int) list" where
  "scanByDay now rows =
     map (\<lambda>i. let d = day_of (now - int i * seconds_per_day)
              in (d, case map_of rows d of None \<Rightarrow> 0 | Some c \<Rightarrow> c)) (rev [0..<30])"

definition by_day :: "dialect \<Rightarrow> time \<Rightarrow> ('r \<Rightarrow> time) \<Rightarrow> 'r list \<Rightarrow> (int \<times> int) list" where
  "by_day d now at rows =
     scanByDay now (group_counts (\<lambda>r. day_of (at r)) (filter (\<lambda>r. created_at_ge d (at r) (thirtyDaysAgo now)) rows))"

definition min_time :: "('r \<Rightarrow> time) \<Rightarrow> 'r list \<Rightarrow> time option" where
  "min_time at rows = (case order_asc at rows of [] \<Rightarrow> None | r # _ \<Rightarrow> Some (at r))"

definition max_time :: "('r \<Rightarrow> time) \<Rightarrow> 'r list \<Rightarrow> time option" where
  "max_time at rows = (case order_desc at rows of [] \<Rightarrow> None | r # _ \<Rightarrow> Some (at r))"

definition stats_head :: "dialect \<Rightarrow> faults \<Rightarrow> (string \<Rightarrow> int) \<Rightarrow> string \<Rightarrow> ('r \<Rightarrow> time) \<Rightarrow> 'r list \<Rightarrow> log_stats" where
  "stats_head d flt pg_size table at rows =
     \<lparr>TotalEntries = int (length rows), Earliest = min_time at rows, Latest = max_time at rows,
      DiskUsageBytes = tableSize d flt pg_size table, BySeverity = [], ByEventType = [], ByLevel = [],
      ByComponent = [], BySettingKey = [], ByDay = []\<rparr>"

text \<open>Faults: 0 the totals, 1 the table size, then query and fetch of each breakdown.\<close>

definition audit_stats ::
  "dialect \<Rightarrow> faults \<Rightarrow> (string \<Rightarrow> int) \<Rightarrow> string \<Rightarrow> time \<Rightarrow> audit_entry list \<Rightarrow> error + log_stats" where
  "audit_stats d flt pg_size table now rows =
     (if flt 0 then Inl DBError
      else if (\<exists>k \<in> {2..<8}. flt k) then Inl DBError
      else Inr ((stats_head d (later 1 flt) pg_size table al_at rows)
                  \<lparr>BySeverity := group_counts al_severity rows, ByEventType := top_counts al_event rows,
                   ByDay := by_day d now al_at rows\<rparr>))"

definition QueryAuditStats :: "dialect \<Rightarrow> faults \<Rightarrow> (string \<Rightarrow> int) \<Rightarrow> time \<Rightarrow> log_db \<Rightarrow> error + log_stats" where
  "QueryAuditStats d flt pg_size now s = audit_stats d flt pg_size ''audit_log'' now (audit_log s)"

definition QueryFileAccessStats :: "dialect \<Rightarrow> faults \<Rightarrow> (string \<Rightarrow> int) \<Rightarrow> time \<Rightarrow> log_db \<Rightarrow> error + log_stats" where
  "QueryFileAccessStats d flt pg_size now s = audit_stats d flt pg_size ''file_access_log'' now (file_access_log s)"

definition QuerySystemStats :: "dialect \<Rightarrow> faults \<Rightarrow> (string \<Rightarrow> int) \<Rightarrow> time \<Rightarrow> log_db \<Rightarrow> error + log_stats" where
  "QuerySystemStats d flt pg_size now s =
     (if flt 0 then Inl DBError
      else if (\<exists>k \<in> {2..<8}. flt k) then Inl DBError
      else Inr ((stats_head d (later 1 flt) pg_size ''system_log'' sl_at (system_log s))
                  \<lparr>ByLevel := group_counts sl_level (system_log s), ByComponent := top_counts sl_component (system_log s),
                   ByDay := by_day d now sl_at (system_log s)\<rparr>))"

definition QueryConfigAuditStats ::
  "dialect \<Rightarrow> faults \<Rightarrow> (string \<Rightarrow> int) \<Rightarrow> time \<Rightarrow> settings_db \<Rightarrow> error + log_stats" where
  "QueryConfigAuditStats d flt pg_size now s =
     (if flt 0 then Inl DBError
      else if (\<exists>k \<in> {2..<6}. flt k) then Inl DBError
      else Inr ((stats_head d (later 1 flt) pg_size ''config_audit'' ca_at (config_audit s))
                  \<lparr>BySettingKey := top_counts ca_key (config_audit s), ByDay := by_day d now ca_at (config_audit s)\<rparr>))"

end
