(* ===== verification/Audit_Chain.thy ===== *)
theory Audit_Chain
  imports Audit_Log
begin

text \<open>
  What the audit hash chain guarantees. \<open>linked\<close> is the chain condition on a list of rows, and
  \<open>VerifyAuditChain\<close> decides it. \<open>audit_step\<close> interleaves goroutines that write audit rows
  under \<open>auditChainMu\<close> with the other writers of the log tables; its invariant is that the chain
  holds exactly the acknowledged writes. The tamper theorems compare two logs: where verification cannot
  tell them apart, their contents agree or the rows at hand exhibit a SHA-256 collision.
\<close>

section \<open>Chains\<close>

fun linked :: "string \<Rightarrow> audit_entry list \<Rightarrow> bool" where
  "linked prev [] = True"
| "linked prev (r # rs) = (al_prev r = prev \<and> al_hash r = expected_hash prev r \<and> linked (al_hash r) rs)"

definition last_hash :: "string \<Rightarrow> audit_entry list \<Rightarrow> string" where
  "last_hash prev rs = (if rs = [] then prev else al_hash (List.last rs))"

definition log_ok :: "log_db \<Rightarrow> bool" where
  "log_ok s \<longleftrightarrow> keyed al_id (audit_log_seq s) (audit_log s) \<and> sorted (map al_id (audit_log s)) \<and>
     keyed aa_id (audit_anchors_seq s) (audit_anchors s) \<and> sorted (map aa_id (audit_anchors s))"

definition call_of :: "audit_entry \<Rightarrow> audit_call" where
  "call_of r = \<lparr>c_event = al_event r, c_severity = al_severity r, c_user = al_user r, c_detail = al_detail r,
     c_ip = null_text (al_ip r), c_agent = null_text (al_agent r), c_request = al_request r\<rparr>"

definition preimage :: "audit_entry \<Rightarrow> string" where
  "preimage r = nul_terminated [al_prev r, al_event r, al_severity r, user_text (al_user r), al_detail r,
     null_text (al_ip r), null_text (al_agent r), al_request r]"

text \<open>A collision of SHA-256 among the preimages of two lists of rows.\<close>

definition collision_in :: "audit_entry list \<Rightarrow> audit_entry list \<Rightarrow> bool" where
  "collision_in rs rs' \<longleftrightarrow>
     (\<exists>r \<in> set rs. \<exists>r' \<in> set rs'. preimage r \<noteq> preimage r' \<and> sha256 (preimage r) = sha256 (preimage r'))"

definition nul_free :: "audit_entry \<Rightarrow> bool" where
  "nul_free r \<longleftrightarrow> NUL \<notin> set (al_event r) \<and> NUL \<notin> set (al_severity r) \<and> NUL \<notin> set (al_detail r) \<and>
     NUL \<notin> set (null_text (al_ip r)) \<and> NUL \<notin> set (null_text (al_agent r)) \<and> NUL \<notin> set (al_request r)"

lemma length_auditRowHash [simp]: "length (auditRowHash p e v u d i a q) = 64"
  by (simp add: auditRowHash_def)

lemma auditRowHash_nonempty [simp]: "auditRowHash p e v u d i a q \<noteq> []"
  using length_auditRowHash [of p e v u d i a q] by force

lemmas auditRowHash_nonempty_sym [simp] = auditRowHash_nonempty [symmetric]

lemma length_expected_hash [simp]: "length (expected_hash p r) = 64"
  by (simp add: expected_hash_def)

lemma expected_hash_preimage: "expected_hash (al_prev r) r = hex_encode (sha256 (preimage r))"
  by (simp add: expected_hash_def auditRowHash_def preimage_def)

lemma linked_append: "linked prev (xs @ ys) \<longleftrightarrow> linked prev xs \<and> linked (last_hash prev xs) ys"
  by (induction xs arbitrary: prev) (auto simp: last_hash_def)

lemma linked_take: "linked prev rs \<Longrightarrow> linked prev (take n rs)"
  by (metis append_take_drop_id linked_append)

lemma last_hash_append [simp]: "last_hash p (xs @ [r]) = al_hash r"
  by (simp add: last_hash_def)

lemma last_hash_Cons [simp]: "last_hash p (r # rs) = last_hash (al_hash r) rs"
  by (simp add: last_hash_def)

lemma linked_nth:
  assumes "linked prev rs" and "i < length rs"
  shows "al_prev (rs ! i) = (if i = 0 then prev else al_hash (rs ! (i - 1)))"
    and "al_hash (rs ! i) = hex_encode (sha256 (preimage (rs ! i)))"
    and "length (al_hash (rs ! i)) = 64"
proof -
  have "al_prev (rs ! i) = (if i = 0 then prev else al_hash (rs ! (i - 1))) \<and>
        al_hash (rs ! i) = expected_hash (al_prev (rs ! i)) (rs ! i)"
    using assms
  proof (induction rs arbitrary: prev i)
    case (Cons r rs)
    then show ?case by (cases i; cases "i - 1") auto
  qed simp
  then show "al_prev (rs ! i) = (if i = 0 then prev else al_hash (rs ! (i - 1)))"
      "al_hash (rs ! i) = hex_encode (sha256 (preimage (rs ! i)))" "length (al_hash (rs ! i)) = 64"
    by (simp_all add: expected_hash_preimage)
qed

section \<open>What verification decides\<close>

definition hash_at :: "audit_anchor option \<Rightarrow> int \<Rightarrow> string \<Rightarrow> audit_entry list \<Rightarrow> string" where
  "hash_at anchor count headAt rs =
     (case anchor of
        None \<Rightarrow> headAt
      | Some a \<Rightarrow> if count < aa_count a \<and> aa_count a \<le> count + int (length rs)
                 then al_hash (rs ! nat (aa_count a - count - 1)) else headAt)"

lemma hash_at_Cons:
  "hash_at anchor (count + 1) (case anchor of None \<Rightarrow> headAt | Some a \<Rightarrow> if count + 1 = aa_count a then al_hash r else headAt) rs =
   hash_at anchor count headAt (r # rs)"
proof (cases anchor)
  case (Some a)
  have "nat (aa_count a - count - 1) = Suc (nat (aa_count a - count - 2))" if "count + 1 < aa_count a"
    using that by linarith
  moreover have "aa_count a - (count + 1) - 1 = aa_count a - count - 2" by simp
  ultimately show ?thesis
    using Some by (cases "count + 1 = aa_count a") (auto simp: hash_at_def)
qed (simp add: hash_at_def)

lemma verify_rows_linked:
  "linked prev rs \<Longrightarrow> verify_rows no_faults anchor prev count headAt rs =
     Inr (intact_result anchor (hash_at anchor count headAt rs) (count + int (length rs)))"
proof (induction rs arbitrary: prev count headAt)
  case Nil
  then show ?case by (cases anchor) (auto simp: hash_at_def)
next
  case (Cons r rs)
  have "verify_rows no_faults anchor prev count headAt (r # rs) =
      verify_rows no_faults anchor (al_hash r) (count + 1)
        (case anchor of None \<Rightarrow> headAt | Some a \<Rightarrow> if count + 1 = aa_count a then al_hash r else headAt) rs"
    using Cons.prems by simp
  also have "\<dots> = Inr (intact_result anchor (hash_at anchor count headAt (r # rs)) (count + 1 + int (length rs)))"
  proof -
    have "linked (al_hash r) rs" using linked.simps(2) [THEN iffD1, OF Cons.prems] by blast
    then show ?thesis by (simp only: Cons.IH hash_at_Cons)
  qed
  finally show ?case by (simp add: add.assoc)
qed

text \<open>A broken chain is reported at its first broken row, after the rows that link.\<close>

lemma verify_rows_broken:
  "\<not> linked prev rs \<Longrightarrow> \<exists>good r rest. rs = good @ r # rest \<and> linked prev good \<and>
     \<not> linked (last_hash prev good) [r] \<and>
     verify_rows no_faults anchor prev count headAt rs = Inr (broken_result (count + int (length good)) (al_id r))"
proof (induction rs arbitrary: prev count headAt)
  case (Cons r rs)
  show ?case
  proof (cases "al_prev r = prev \<and> al_hash r = expected_hash prev r")
    case False
    then show ?thesis by (intro exI [of _ "[]"] exI [of _ r] exI [of _ rs]) (auto simp: last_hash_def)
  next
    case True
    let ?h = "case anchor of None \<Rightarrow> headAt | Some a \<Rightarrow> if count + 1 = aa_count a then al_hash r else headAt"
    have "\<not> linked (al_hash r) rs" using Cons.prems True by simp
    from Cons.IH [OF this, of "count + 1" ?h] obtain good x rest where g: "rs = good @ x # rest" "linked (al_hash r) good"
        "\<not> linked (last_hash (al_hash r) good) [x]"
        "verify_rows no_faults anchor (al_hash r) (count + 1) ?h rs = Inr (broken_result (count + 1 + int (length good)) (al_id x))"
      by blast
    have "verify_rows no_faults anchor prev count headAt (r # rs) = verify_rows no_faults anchor (al_hash r) (count + 1) ?h rs"
      using True by simp
    then show ?thesis
      using g True by (intro exI [of _ "r # good"] exI [of _ x] exI [of _ rest]) (auto simp: add.assoc)
  qed
qed simp

definition latest_anchor :: "log_db \<Rightarrow> audit_anchor option" where
  "latest_anchor s = (case LatestAuditAnchor no_faults s of Inl _ \<Rightarrow> None | Inr a \<Rightarrow> a)"

lemma intact_result_Intact [simp]: "Intact (intact_result a h n)" "Count (intact_result a h n) = n"
    "BrokenAt (intact_result a h n) = 0"
  by (cases a; simp add: intact_result_def)+

lemma intact_result_Anchor [simp]:
  "AnchorMatches (intact_result a h n) \<longleftrightarrow> (\<exists>x. a = Some x \<and> h \<noteq> [] \<and> h = aa_head x)"
  "AnchorChecked (intact_result a h n) \<longleftrightarrow> a \<noteq> None"
  by (cases a; simp add: intact_result_def)+

lemma broken_result_Intact [simp]: "\<not> Intact (broken_result n i)"
  by (simp add: broken_result_def)

lemma VerifyAuditChain_linked:
  "linked [] (chained s) \<Longrightarrow> VerifyAuditChain no_faults s =
     Inr (intact_result (latest_anchor s) (hash_at (latest_anchor s) 0 [] (chained s)) (int (length (chained s))))"
  by (simp add: VerifyAuditChain_def latest_anchor_def verify_rows_linked Let_def auditGenesisHash_def)

lemma VerifyAuditChain_Intact:
  assumes "VerifyAuditChain no_faults s = Inr c" and "Intact c"
  shows "linked [] (chained s)"
proof (rule ccontr)
  assume "\<not> linked [] (chained s)"
  from verify_rows_broken [OF this, of "latest_anchor s" 0 "[]"] assms show False
    by (auto simp: VerifyAuditChain_def latest_anchor_def Let_def auditGenesisHash_def)
qed

lemma chain_head_chained: "chain_head s = (if chained s = [] then None else Some (last_hash [] (chained s)))"
proof -
  have "order_desc al_id (filter (\<lambda>r. al_hash r \<noteq> []) (audit_log s)) = rev (chained s)"
    by (simp add: order_desc_def chained_def order_asc_def)
  then show ?thesis
    by (cases "chained s" rule: rev_cases) (simp_all add: chain_head_def limit_offset_def)
qed

lemma head_count_chained: "head_count s = int (length (chained s))"
  by (simp add: head_count_def rows_affected_def chained_def)

lemma AuditChainHead_chained:
  "AuditChainHead no_faults s = Inr (last_hash [] (chained s), int (length (chained s)))"
  by (simp add: AuditChainHead_def chain_head_between_def chain_head_chained head_count_chained last_hash_def)

lemma read_head_chained: "read_head no_faults s = Inr (last_hash [] (chained s))"
  by (simp add: read_head_def chain_head_chained last_hash_def auditGenesisHash_def)

lemma chained_ok: "log_ok s \<Longrightarrow> chained s = filter (\<lambda>r. al_hash r \<noteq> []) (audit_log s)"
  unfolding chained_def order_asc_def log_ok_def by (simp add: sort_key_id_if_sorted sorted_filter)


section \<open>Writers under the mutex\<close>

text \<open>A goroutine inside \<open>WriteAudit\<close> holds \<open>auditChainMu\<close>; it has read the head or not yet.
  \<open>a_acked\<close> lists the calls that returned nil, in the order they returned.\<close>

datatype writer = Out | Locked audit_call | Linked audit_call string

record audit_sys =
  a_db :: log_db
  a_lock :: "int option"
  a_at :: "int \<Rightarrow> writer"
  a_acked :: "audit_call list"

definition audit_start :: "log_db \<Rightarrow> audit_sys" where
  "audit_start s = \<lparr>a_db = s, a_lock = None, a_at = (\<lambda>_. Out), a_acked = []\<rparr>"

inductive audit_step :: "audit_sys \<Rightarrow> audit_sys \<Rightarrow> bool" where
  acquire: "a_lock a = None \<Longrightarrow> a_at a g = Out \<Longrightarrow>
     audit_step a (a\<lparr>a_lock := Some g, a_at := (a_at a)(g := Locked c)\<rparr>)"
| read: "a_at a g = Locked c \<Longrightarrow> read_head flt (a_db a) = Inr prev \<Longrightarrow>
     audit_step a (a\<lparr>a_at := (a_at a)(g := Linked c prev)\<rparr>)"
| read_fails: "a_at a g = Locked c \<Longrightarrow> read_head flt (a_db a) = Inl e \<Longrightarrow>
     audit_step a (a\<lparr>a_lock := None, a_at := (a_at a)(g := Out)\<rparr>)"
| insert: "a_at a g = Linked c prev \<Longrightarrow> insert_audit flt now c prev (a_db a) = (Inr u, s) \<Longrightarrow>
     audit_step a (a\<lparr>a_db := s, a_lock := None, a_at := (a_at a)(g := Out), a_acked := a_acked a @ [c]\<rparr>)"
| insert_fails: "a_at a g = Linked c prev \<Longrightarrow> insert_audit flt now c prev (a_db a) = (Inl e, s) \<Longrightarrow>
     audit_step a (a\<lparr>a_db := s, a_lock := None, a_at := (a_at a)(g := Out)\<rparr>)"
| restart: "audit_step a (a\<lparr>a_lock := None, a_at := (\<lambda>_. Out)\<rparr>)"
| write_system: "audit_step a (a\<lparr>a_db := snd (WriteSystem flt now level component message detail request (a_db a))\<rparr>)"
| write_access: "audit_step a (a\<lparr>a_db := snd (WriteFileAccess flt now c (a_db a))\<rparr>)"
| cleanup: "audit_step a (a\<lparr>a_db := snd (CleanupOldLogs flt now days (a_db a))\<rparr>)"
| anchor: "audit_step a (a\<lparr>a_db := snd (RecordAuditAnchor flt now h n address tx (a_db a))\<rparr>)"

text \<open>\<open>WriteAudit\<close> is the three steps of one goroutine that finds the mutex free.\<close>

lemma WriteAudit_steps:
  assumes "a_lock a = None" and "a_at a g = Out" and "WriteAudit flt now c (a_db a) = (Inr (), s)"
  shows "audit_step\<^sup>*\<^sup>* a (a\<lparr>a_db := s, a_acked := a_acked a @ [c]\<rparr>)"
proof -
  obtain prev flt1 where p: "read_head flt (a_db a) = Inr prev" "insert_audit flt1 now c prev (a_db a) = (Inr (), s)"
    using assms(3) by (auto simp: WriteAudit_def split: sum.splits)
  let ?a1 = "a\<lparr>a_lock := Some g, a_at := (a_at a)(g := Locked c)\<rparr>"
  let ?a2 = "?a1\<lparr>a_at := (a_at ?a1)(g := Linked c prev)\<rparr>"
  let ?a3 = "?a2\<lparr>a_db := s, a_lock := None, a_at := (a_at ?a2)(g := Out), a_acked := a_acked ?a2 @ [c]\<rparr>"
  have "audit_step a ?a1" by (rule acquire [OF assms(1,2)])
  moreover have "audit_step ?a1 ?a2" by (rule audit_step.read [where flt = flt]) (simp_all add: p)
  moreover have "audit_step ?a2 ?a3" by (rule audit_step.insert [where flt = flt1 and now = now and u = "()"]) (use p in simp_all)
  moreover have "?a3 = a\<lparr>a_db := s, a_acked := a_acked a @ [c]\<rparr>"
    using assms(1,2) by (cases a) (simp add: fun_upd_idem)
  ultimately have "audit_step a ?a1" "audit_step ?a1 ?a2" "audit_step ?a2 (a\<lparr>a_db := s, a_acked := a_acked a @ [c]\<rparr>)"
    by simp_all
  then show ?thesis
    by (blast intro: rtranclp.rtrancl_into_rtrancl)
qed

definition audit_inv :: "audit_sys \<Rightarrow> bool" where
  "audit_inv a \<longleftrightarrow> log_ok (a_db a) \<and> linked [] (chained (a_db a)) \<and> map call_of (chained (a_db a)) = a_acked a \<and>
     (\<forall>g. a_at a g \<noteq> Out \<longrightarrow> a_lock a = Some g) \<and>
     (\<forall>g c prev. a_at a g = Linked c prev \<longrightarrow> prev = last_hash [] (chained (a_db a)))"

text \<open>The operations that leave the audit rows alone.\<close>

lemma other_tables_keep:
  "audit_log (snd (WriteSystem flt now level component message detail request s)) = audit_log s"
  "audit_log (snd (WriteFileAccess flt now c s)) = audit_log s"
  "audit_log (snd (CleanupOldLogs flt now days s)) = audit_log s"
  "audit_log (snd (RecordAuditAnchor flt now h n address tx s)) = audit_log s"
  by (simp_all add: WriteSystem_def WriteFileAccess_def CleanupOldLogs_def RecordAuditAnchor_def Let_def)

lemma sorted_append_above:
  "sorted (map k rs) \<Longrightarrow> (\<forall>r \<in> set rs. k r \<le> seq) \<Longrightarrow> k x = seq + 1 \<Longrightarrow> sorted (map k (rs @ [x]))" for seq :: int
  by (auto simp: sorted_append)

lemma other_tables_ok:
  assumes "log_ok s"
  shows "log_ok (snd (WriteSystem flt now level component message detail request s))"
    "log_ok (snd (WriteFileAccess flt now c s))"
    "log_ok (snd (CleanupOldLogs flt now days s))"
    "log_ok (snd (RecordAuditAnchor flt now h n address tx s))"
proof -
  show "log_ok (snd (RecordAuditAnchor flt now h n address tx s))"
  proof (cases "flt 0")
    case False
    then show ?thesis
      using assms by (auto simp: log_ok_def RecordAuditAnchor_def keyed_append intro!: sorted_append_above)
        (auto simp: keyed_def sorted_append)
  qed (use assms in \<open>simp add: RecordAuditAnchor_def\<close>)
qed (use assms in \<open>simp_all add: log_ok_def WriteSystem_def WriteFileAccess_def CleanupOldLogs_def Let_def\<close>)

lemma chained_same: "audit_log s = audit_log s' \<Longrightarrow> chained s = chained s'"
  by (simp add: chained_def)

lemma insert_audit_chained:
  assumes "log_ok s" and "insert_audit flt now c prev s = (Inr u, s')"
  shows "log_ok s' \<and> chained s' = chained s @ [audit_entry_of (audit_log_seq s + 1) now c prev]"
proof -
  let ?r = "audit_entry_of (audit_log_seq s + 1) now c prev"
  have s': "s' = s\<lparr>audit_log := audit_log s @ [?r], audit_log_seq := audit_log_seq s + 1\<rparr>"
    using assms(2) by (auto simp: insert_audit_def split: if_splits)
  have "al_id ?r = audit_log_seq s + 1" "al_hash ?r \<noteq> []" by (simp_all add: audit_entry_of_def)
  moreover have "keyed al_id (audit_log_seq s + 1) (audit_log s @ [?r])"
    using assms(1) by (intro keyed_append) (simp_all add: log_ok_def audit_entry_of_def)
  moreover have "sorted (map al_id (audit_log s @ [?r]))"
    using assms(1) by (intro sorted_append_above) (auto simp: log_ok_def keyed_def audit_entry_of_def)
  ultimately have "log_ok s'" using assms(1) unfolding s' by (simp add: log_ok_def)
  then show ?thesis
    using chained_ok [OF assms(1)] chained_ok [of s'] s' \<open>al_hash ?r \<noteq> []\<close> by simp
qed

lemma audit_entry_of_linked: "linked prev [audit_entry_of i now c prev]" "call_of (audit_entry_of i now c prev) = c"
  by (simp_all add: audit_entry_of_def expected_hash_def null_text_def call_of_def)

lemma audit_inv_quiet:
  "audit_inv a \<Longrightarrow> log_ok s \<Longrightarrow> audit_log s = audit_log (a_db a) \<Longrightarrow> audit_inv (a\<lparr>a_db := s\<rparr>)"
  using chained_same [of s "a_db a"] by (simp add: audit_inv_def)

lemma audit_inv_alone: "audit_inv a \<Longrightarrow> a_at a g \<noteq> Out \<Longrightarrow> h \<noteq> g \<Longrightarrow> a_at a h = Out"
  unfolding audit_inv_def by (metis option.inject)

lemma audit_inv_leave:
  assumes "audit_inv a" and "a_at a g \<noteq> Out"
  shows "audit_inv (a\<lparr>a_lock := None, a_at := (a_at a)(g := Out)\<rparr>)"
  using assms audit_inv_alone [OF assms] by (simp add: audit_inv_def)

lemma audit_inv_step: "audit_step a b \<Longrightarrow> audit_inv a \<Longrightarrow> audit_inv b"
proof (induction rule: audit_step.induct)
  case (read a g c flt prev)
  then have "prev = last_hash [] (chained (a_db a))"
    using read_head_chained [of "a_db a"] by (auto simp: read_head_def split: if_splits option.splits)
  then show ?case using read by (simp add: audit_inv_def)
next
  case (insert a g c prev flt now u s)
  have p: "prev = last_hash [] (chained (a_db a))" and ok: "log_ok (a_db a)"
    using insert by (auto simp: audit_inv_def)
  have alone: "a_at a h = Out" if "h \<noteq> g" for h
    using audit_inv_alone [OF insert.prems _ that] insert.hyps(1) by simp
  have "log_ok s" and ch: "chained s = chained (a_db a) @ [audit_entry_of (audit_log_seq (a_db a) + 1) now c prev]"
    using insert_audit_chained [OF ok insert(2)] by simp_all
  then show ?case
    using insert.prems alone audit_entry_of_linked [where prev = prev and i = "audit_log_seq (a_db a) + 1" and now = now and c = c] p
    by (simp add: audit_inv_def linked_append)
next
  case (insert_fails a g c prev flt now e s)
  then have "s = a_db a" by (auto simp: insert_audit_def split: if_splits)
  moreover have "audit_inv (a\<lparr>a_lock := None, a_at := (a_at a)(g := Out)\<rparr>)"
    using insert_fails by (intro audit_inv_leave) simp_all
  ultimately show ?case by simp
next
  case (read_fails a g c flt e)
  then show ?case by (intro audit_inv_leave) simp_all
next
  case (write_system a flt now level component message detail request)
  then show ?case by (intro audit_inv_quiet other_tables_ok other_tables_keep) (auto simp: audit_inv_def)
next
  case (write_access a flt now c)
  then show ?case by (intro audit_inv_quiet other_tables_ok other_tables_keep) (auto simp: audit_inv_def)
next
  case (cleanup a flt now days)
  then show ?case by (intro audit_inv_quiet other_tables_ok other_tables_keep) (auto simp: audit_inv_def)
next
  case (anchor a flt now h n address tx)
  then show ?case by (intro audit_inv_quiet other_tables_ok other_tables_keep) (auto simp: audit_inv_def)
qed (auto simp: audit_inv_def)

lemma audit_inv_reach: "audit_step\<^sup>*\<^sup>* a b \<Longrightarrow> audit_inv a \<Longrightarrow> audit_inv b"
  by (induction rule: rtranclp_induct) (auto intro: audit_inv_step)

text \<open>C5: goroutines that write audit rows, in any interleaving with failing statements, the system log,
  the file access log, retention and anchoring: started on a log whose rows all predate the chain, the log
  verifies as intact in every state, and the chained rows are exactly the acknowledged writes, each once,
  in the order they were acknowledged.\<close>

theorem audit_chain_holds_acknowledged_writes:
  assumes "log_ok s0" and "\<forall>r \<in> set (audit_log s0). al_hash r = []" and "audit_step\<^sup>*\<^sup>* (audit_start s0) a"
  shows "(\<exists>c. VerifyAuditChain no_faults (a_db a) = Inr c \<and> Intact c \<and> BrokenAt c = 0 \<and>
            Count c = int (length (a_acked a))) \<and> map call_of (chained (a_db a)) = a_acked a"
proof -
  have "chained s0 = []" using assms(2) by (simp add: chained_def order_asc_Nil)
  then have "audit_inv (audit_start s0)"
    using assms(1) by (simp add: audit_inv_def audit_start_def)
  then have "audit_inv a" by (rule audit_inv_reach [OF assms(3)])
  then show ?thesis
    by (auto simp: audit_inv_def VerifyAuditChain_linked dest: arg_cong [where f = length])
qed


theorem audit_chain_holds_acknowledged_writes_witness:
  "\<exists>a :: audit_sys. a_acked a = [\<lparr>c_event = ''login'', c_severity = ''info'', c_user = Some 7, c_detail = [], c_ip = ''::1'',
          c_agent = [], c_request = []\<rparr>] \<and> map call_of (chained (a_db a)) = a_acked a"
proof -
  let ?c = "\<lparr>c_event = ''login'', c_severity = ''info'', c_user = Some 7, c_detail = [], c_ip = ''::1'', c_agent = [],
     c_request = []\<rparr>"
  let ?a0 = "audit_start empty_log_db"
  obtain s where w: "WriteAudit no_faults 5 ?c (a_db ?a0) = (Inr (), s)"
    by (simp add: WriteAudit_def insert_audit_def read_head_chained split: prod.splits)
  have reach: "audit_step\<^sup>*\<^sup>* ?a0 (?a0\<lparr>a_db := s, a_acked := a_acked ?a0 @ [?c]\<rparr>)"
    by (rule WriteAudit_steps [where g = 1, OF _ _ w]) (simp_all add: audit_start_def)
  have ok: "log_ok empty_log_db" by (simp add: log_ok_def empty_log_db_def)
  have legacy: "\<forall>r \<in> set (audit_log empty_log_db). al_hash r = []" by (simp add: empty_log_db_def)
  show ?thesis
  proof (rule exI [of _ "?a0\<lparr>a_db := s, a_acked := a_acked ?a0 @ [?c]\<rparr>"], rule conjI)
    show "a_acked (?a0\<lparr>a_db := s, a_acked := a_acked ?a0 @ [?c]\<rparr>) = [?c]" by (simp add: audit_start_def)
  qed (rule audit_chain_holds_acknowledged_writes [OF ok legacy reach, THEN conjunct2])
qed

text \<open>Without the mutex the chain forks: two writers that both read the head before either inserts (two
  processes on one database) leave a log that verification reports as broken.\<close>

lemma unlocked_writers_fork_chain:
  assumes "log_ok s" and "chained s = []"
    and "read_head no_faults s = Inr h" and "insert_audit no_faults t1 c1 h s = (Inr u1, s1)"
    and "insert_audit no_faults t2 c2 h s1 = (Inr u2, s2)"
  shows "\<exists>c. VerifyAuditChain no_faults s2 = Inr c \<and> \<not> Intact c"
proof -
  have h: "h = []" using assms(2,3) by (simp add: read_head_chained last_hash_def)
  have s1: "log_ok s1" "chained s1 = [audit_entry_of (audit_log_seq s + 1) t1 c1 h]"
    using insert_audit_chained [OF assms(1,4)] assms(2) by simp_all
  have "chained s2 = [audit_entry_of (audit_log_seq s + 1) t1 c1 h, audit_entry_of (audit_log_seq s1 + 1) t2 c2 h]"
    using insert_audit_chained [OF s1(1) assms(5)] s1(2) by simp
  then have "\<not> linked [] (chained s2)"
    by (auto simp: audit_entry_of_def h)
  then show ?thesis
    using verify_rows_broken [of "[]" "chained s2" "latest_anchor s2" 0 "[]"]
    by (auto simp: VerifyAuditChain_def latest_anchor_def Let_def auditGenesisHash_def)
qed

section \<open>Tampering\<close>

definition content :: "audit_entry \<Rightarrow> string list" where
  "content r = [al_event r, al_severity r, user_text (al_user r), al_detail r, null_text (al_ip r),
     null_text (al_agent r), al_request r]"

lemma NUL_not_digit: "d < 10 \<Longrightarrow> digit_char d \<noteq> NUL"
proof
  assume "d < 10" "digit_char d = NUL"
  then have "digit_val NUL = Some d" using digit_val_char by metis
  then show False by (simp add: digit_val_def)
qed

lemma show_nat_no_NUL: "NUL \<notin> set (show_nat n)"
proof (induction n rule: show_nat.induct)
  case (1 n)
  then show ?case by (subst show_nat.simps) (auto simp: NUL_not_digit [symmetric] dest: NUL_not_digit)
qed

lemma user_text_no_NUL: "NUL \<notin> set (user_text u)"
  by (auto simp: user_text_def show_int_def show_nat_no_NUL split: option.splits)

lemma user_text_inj: "user_text u = user_text v \<longleftrightarrow> u = v"
proof -
  have ne: "show_int i \<noteq> []" "[] \<noteq> show_int i" for i by (auto simp: show_int_def dest: sym)
  have "show_int i = show_int j \<longleftrightarrow> i = j" for i j by (metis option.inject parse_signed_show_int)
  then show ?thesis by (cases u; cases v) (simp_all add: user_text_def ne)
qed

lemma hex_no_NUL: "NUL \<notin> set (hex_encode bs)"
  using hex_encode_lower [of bs] by (auto simp: list_all_iff lower_hex_char_def)

lemma nul_terminated_Cons_inj:
  "NUL \<notin> set f \<Longrightarrow> NUL \<notin> set g \<Longrightarrow> nul_terminated (f # fs) = nul_terminated (g # gs) \<longleftrightarrow>
     f = g \<and> nul_terminated fs = nul_terminated gs"
  unfolding nul_terminated_def by (auto simp: append_eq_append_conv2 Cons_eq_append_conv append_eq_Cons_conv)

lemma linked_prev_no_NUL:
  assumes "linked [] rs" and "r \<in> set rs"
  shows "NUL \<notin> set (al_prev r)"
proof -
  obtain i where "i < length rs" "r = rs ! i" using assms(2) by (auto simp: in_set_conv_nth)
  then show ?thesis
    using linked_nth (1,2) [OF assms(1), of i] linked_nth(2) [OF assms(1), of "i - 1"] hex_no_NUL by auto
qed

lemma preimage_prev:
  assumes "linked [] rs" "r \<in> set rs" "linked [] rs'" "r' \<in> set rs'" "preimage r = preimage r'"
  shows "al_prev r = al_prev r'"
  using assms linked_prev_no_NUL [OF assms(1,2)] linked_prev_no_NUL [OF assms(3,4)]
  by (simp add: preimage_def nul_terminated_Cons_inj)

lemma preimage_content:
  assumes "linked [] rs" "r \<in> set rs" "linked [] rs'" "r' \<in> set rs'" "preimage r = preimage r'"
    and "nul_free r" "nul_free r'"
  shows "al_prev r = al_prev r' \<and> content r = content r'"
  using assms(5-7) linked_prev_no_NUL [OF assms(1,2)] linked_prev_no_NUL [OF assms(3,4)] user_text_no_NUL
  by (simp add: preimage_def content_def nul_free_def nul_terminated_Cons_inj)

lemma hex_sha_inj: "hex_encode (sha256 x) = hex_encode (sha256 y) \<Longrightarrow> sha256 x = sha256 y"
  by (metis hex_decode_encode option.inject)

lemma same_hash_same_sha:
  assumes "linked [] rs" "i < length rs" "linked [] rs'" "j < length rs'" "al_hash (rs ! i) = al_hash (rs' ! j)"
  shows "sha256 (preimage (rs ! i)) = sha256 (preimage (rs' ! j))"
  using assms(5) unfolding linked_nth(2) [OF assms(1,2)] linked_nth(2) [OF assms(3,4)] by (rule hex_sha_inj)

lemma last_hash_nth: "rs \<noteq> [] \<Longrightarrow> last_hash p rs = al_hash (rs ! (length rs - 1))"
  by (simp add: last_hash_def last_conv_nth)

text \<open>Two chains with equal hashes at one height agree below it, or collide.\<close>

lemma equal_head_equal_history:
  assumes "linked [] rs" and "linked [] rs'" and "\<forall>r \<in> set rs \<union> set rs'. nul_free r"
    and "n \<le> length rs" and "n \<le> length rs'" and "0 < n \<Longrightarrow> al_hash (rs ! (n - 1)) = al_hash (rs' ! (n - 1))"
    and "\<not> collision_in rs rs'"
  shows "map content (take n rs) = map content (take n rs')"
  using assms(4-6)
proof (induction n)
  case (Suc n)
  let ?r = "rs ! n" and ?r' = "rs' ! n"
  have mem: "?r \<in> set rs" "?r' \<in> set rs'" using Suc.prems by simp_all
  have "sha256 (preimage ?r) = sha256 (preimage ?r')"
    using Suc.prems by (intro same_hash_same_sha [OF assms(1) _ assms(2)]) simp_all
  then have "preimage ?r = preimage ?r'"
    using assms(7) mem by (auto simp: collision_in_def)
  then have eq: "al_prev ?r = al_prev ?r'" "content ?r = content ?r'"
    using preimage_content [OF assms(1) mem(1) assms(2) mem(2)] assms(3) mem by auto
  have "al_hash (rs ! (n - 1)) = al_hash (rs' ! (n - 1))" if "0 < n"
    using that eq(1) Suc.prems linked_nth(1) [OF assms(1), of n] linked_nth(1) [OF assms(2), of n] by simp
  then have "map content (take n rs) = map content (take n rs')"
    using Suc by simp
  then show ?case
    using Suc.prems eq(2) by (simp add: take_Suc_conv_app_nth)
qed simp


lemma anchored_height:
  assumes "VerifyAuditChain no_faults s = Inr c" and "Intact c" and "latest_anchor s = Some a"
  shows "AnchorChecked c"
    and "AnchorMatches c \<longleftrightarrow> 0 < aa_count a \<and> aa_count a \<le> int (length (chained s)) \<and>
           al_hash (chained s ! (nat (aa_count a) - 1)) = aa_head a"
proof -
  have l: "linked [] (chained s)" by (rule VerifyAuditChain_Intact [OF assms(1,2)])
  have c: "c = intact_result (latest_anchor s) (hash_at (latest_anchor s) 0 [] (chained s)) (int (length (chained s)))"
    using VerifyAuditChain_linked [OF l] assms(1) by simp
  show "AnchorChecked c" using assms(3) by (simp add: c)
  have "nat (aa_count a - 0 - 1) = nat (aa_count a) - 1" by simp
  moreover have "al_hash (chained s ! (nat (aa_count a) - 1)) \<noteq> []"
    if "0 < aa_count a" "aa_count a \<le> int (length (chained s))"
  proof -
    have "nat (aa_count a) - 1 < length (chained s)" using that by linarith
    then show ?thesis using linked_nth(3) [OF l, of "nat (aa_count a) - 1"] by force
  qed
  ultimately show "AnchorMatches c \<longleftrightarrow> 0 < aa_count a \<and> aa_count a \<le> int (length (chained s)) \<and>
           al_hash (chained s ! (nat (aa_count a) - 1)) = aa_head a"
    using assms(3) by (auto simp: c hash_at_def)
qed


text \<open>The anchored log of one written row.\<close>

definition sample_call :: audit_call where
  "sample_call = \<lparr>c_event = ''login'', c_severity = ''info'', c_user = Some 7, c_detail = [], c_ip = ''::1'',
     c_agent = [], c_request = []\<rparr>"

definition sample_log :: log_db where
  "sample_log = snd (WriteAudit no_faults 5 sample_call empty_log_db)"

definition sample_anchored :: log_db where
  "sample_anchored = snd (RecordAuditAnchor no_faults 6 (last_hash [] (chained sample_log)) 1 ''addr'' [] sample_log)"

lemma sample_log_rows: "audit_log sample_log = [audit_entry_of 1 5 sample_call []]"
  by (simp add: sample_log_def WriteAudit_def insert_audit_def read_head_chained chained_def empty_log_db_def
      last_hash_def order_asc_def)

lemma sample_log_chained: "chained sample_log = [audit_entry_of 1 5 sample_call []]"
  by (simp add: chained_def sample_log_rows order_asc_def audit_entry_of_def)

lemma sample_anchored_chained: "audit_log sample_anchored = audit_log sample_log" "chained sample_anchored = chained sample_log"
  by (simp_all add: sample_anchored_def RecordAuditAnchor_def chained_def)

lemma sample_anchored_anchor:
  "LatestAuditAnchor no_faults sample_anchored = Inr (Some \<lparr>aa_id = 1, aa_head = last_hash [] (chained sample_log),
     aa_count = 1, aa_address = ''addr'', aa_tx = [], aa_at = 6\<rparr>)"
  by (simp add: sample_anchored_def RecordAuditAnchor_def LatestAuditAnchor_def sample_log_def WriteAudit_def insert_audit_def
      read_head_chained empty_log_db_def order_desc_def limit_offset_def)

lemma sample_linked: "linked [] (chained sample_log)"
  unfolding sample_log_chained by (rule audit_entry_of_linked)


section \<open>Deleted rows\<close>

lemma linked_hashes_distinct:
  assumes "linked [] rs" and "i < j" and "j < length rs" and "al_hash (rs ! i) = al_hash (rs ! j)"
  shows "collision_in rs rs"
  using assms(2-4)
proof (induction i arbitrary: j)
  case (0 j)
  then have "sha256 (preimage (rs ! 0)) = sha256 (preimage (rs ! j))"
    by (intro same_hash_same_sha [OF assms(1) _ assms(1)]) auto
  have "al_prev (rs ! 0) = []" "length (al_prev (rs ! j)) = 64"
    using linked_nth(1) [OF assms(1), of 0] linked_nth(1) [OF assms(1), of j]
      linked_nth(3) [OF assms(1), of "j - 1"] 0 by (auto simp: length_greater_0_conv [symmetric] simp del: length_greater_0_conv)
  then have "al_prev (rs ! 0) \<noteq> al_prev (rs ! j)" by force
  moreover have mem: "rs ! 0 \<in> set rs" "rs ! j \<in> set rs"
    using 0 by (auto intro: nth_mem)
  ultimately have "preimage (rs ! 0) \<noteq> preimage (rs ! j)"
    using preimage_prev [OF assms(1) mem(1) assms(1) mem(2)] by blast
  with mem \<open>sha256 (preimage (rs ! 0)) = sha256 (preimage (rs ! j))\<close> show ?case
    unfolding collision_in_def by blast
next
  case (Suc i j)
  have mem: "rs ! Suc i \<in> set rs" "rs ! j \<in> set rs" using Suc.prems by simp_all
  have sha: "sha256 (preimage (rs ! Suc i)) = sha256 (preimage (rs ! j))"
    using Suc.prems by (intro same_hash_same_sha [OF assms(1) _ assms(1)]) simp_all
  show ?case
  proof (cases "preimage (rs ! Suc i) = preimage (rs ! j)")
    case False
    then show ?thesis using mem sha by (auto simp: collision_in_def)
  next
    case True
    then have "al_prev (rs ! Suc i) = al_prev (rs ! j)"
      using preimage_prev [OF assms(1) mem(1) assms(1) mem(2)] by simp
    then have "al_hash (rs ! i) = al_hash (rs ! (j - 1))"
      using Suc.prems linked_nth(1) [OF assms(1), of "Suc i"] linked_nth(1) [OF assms(1), of j] by simp
    then show ?thesis using Suc.IH [of "j - 1"] Suc.prems by simp
  qed
qed

text \<open>Where rows are removed from a chain and what is left still links, the rows removed were the last ones.\<close>

lemma linked_filter_prefix:
  assumes "linked [] (ys @ zs)" and "linked [] (ys @ filter keep zs)" and "\<not> collision_in (ys @ zs) (ys @ zs)"
  shows "\<exists>k. filter keep zs = take k zs"
  using assms
proof (induction zs arbitrary: ys)
  case (Cons z zs)
  show ?case
  proof (cases "keep z")
    case True
    then have "\<exists>k. filter keep zs = take k zs"
      using Cons.IH [of "ys @ [z]"] Cons.prems by simp
    then show ?thesis using True by (metis filter.simps(2) take_Suc_Cons)
  next
    case False
    show ?thesis
    proof (cases "filter keep zs")
      case Nil
      then show ?thesis using False by (intro exI [of _ 0]) simp
    next
      case (Cons w ws)
      then have "linked [] (ys @ w # ws)"
        using Cons.prems(2) False by simp
      then have w: "al_prev w = last_hash [] ys"
        unfolding linked_append linked.simps by blast
      obtain us vs where zs: "zs = us @ w # vs"
        using Cons by (metis filter_eq_Cons_iff)
      have "linked [] ((ys @ z # us) @ w # vs)" using Cons.prems(1) zs by simp
      then have l: "linked [] (ys @ z # us)" and "al_prev w = last_hash [] (ys @ z # us)"
        unfolding linked_append linked.simps by blast+
      then have eq: "last_hash [] (ys @ z # us) = last_hash [] ys" using w by simp
      let ?i = "length ys - 1" and ?j = "length ys + length us" and ?rs = "ys @ z # us"
      have lj: "al_hash (?rs ! ?j) = last_hash [] ?rs"
        by (cases us rule: rev_cases) (simp_all add: last_hash_def nth_append)
      have "length (last_hash [] ?rs) = 64"
        using linked_nth(3) [OF l, of ?j] lj by simp
      then have ne: "ys \<noteq> []" using eq by (auto simp: last_hash_def)
      then have "al_hash (?rs ! ?i) = last_hash [] ys"
        by (simp add: last_hash_def nth_append last_conv_nth)
      then have "collision_in ?rs ?rs"
        using eq lj ne by (intro linked_hashes_distinct [OF l, of ?i ?j]) (simp_all add: less_diff_conv2 Suc_le_eq trans_less_add1)
      moreover have "set ?rs \<subseteq> set (ys @ z # zs)" by (auto simp: zs)
      ultimately have "collision_in (ys @ z # zs) (ys @ z # zs)"
        unfolding collision_in_def by blast
      then show ?thesis using Cons.prems(3) by simp
    qed
  qed
qed simp


definition keep_rows :: "(audit_entry \<Rightarrow> bool) \<Rightarrow> log_db \<Rightarrow> log_db" where
  "keep_rows keep s = s\<lparr>audit_log := filter keep (audit_log s)\<rparr>"

lemma chained_keep_rows: "log_ok s \<Longrightarrow> chained (keep_rows keep s) = filter keep (chained s)"
proof -
  assume "log_ok s"
  moreover from this have "log_ok (keep_rows keep s)"
    by (simp add: log_ok_def keep_rows_def keyed_filter sorted_filter)
  ultimately show ?thesis
    by (simp add: chained_ok) (simp add: keep_rows_def conj_commute)
qed

text \<open>C31: which deletions verification notices. Take an intact log and delete any of its rows. If what is
  left verifies as intact, the chained rows left are an initial part of the chain (or two rows collide under
  SHA-256): a deletion that is not of the newest rows is always noticed. Deleting only the newest rows is not:
  the shortened log verifies as intact, with its smaller count. An anchor taken above the cut then does not
  match.\<close>

theorem only_newest_rows_vanish_unnoticed:
  assumes "log_ok s" and "VerifyAuditChain no_faults s = Inr c" and "Intact c"
  shows "((\<exists>c'. VerifyAuditChain no_faults (keep_rows keep s) = Inr c' \<and> Intact c') \<longrightarrow>
            (\<exists>k. chained (keep_rows keep s) = take k (chained s)) \<or> collision_in (chained s) (chained s)) \<and>
         (\<forall>k. chained (keep_rows keep s) = take k (chained s) \<longrightarrow>
            (\<exists>c'. VerifyAuditChain no_faults (keep_rows keep s) = Inr c' \<and> Intact c' \<and>
               Count c' = int (min k (length (chained s))) \<and>
               (\<forall>a. LatestAuditAnchor no_faults s = Inr (Some a) \<and> int k < aa_count a \<longrightarrow>
                    AnchorChecked c' \<and> \<not> AnchorMatches c')))"
proof (intro conjI impI allI)
  have l: "linked [] (chained s)" by (rule VerifyAuditChain_Intact [OF assms(2,3)])
  show "(\<exists>k. chained (keep_rows keep s) = take k (chained s)) \<or> collision_in (chained s) (chained s)"
    if "\<exists>c'. VerifyAuditChain no_faults (keep_rows keep s) = Inr c' \<and> Intact c'"
  proof -
    have "linked [] (filter keep (chained s))"
      using that VerifyAuditChain_Intact chained_keep_rows [OF assms(1)] by metis
    then show ?thesis
      using linked_filter_prefix [of "[]" "chained s" keep] l chained_keep_rows [OF assms(1)] by auto
  qed
  show "\<exists>c'. VerifyAuditChain no_faults (keep_rows keep s) = Inr c' \<and> Intact c' \<and>
      Count c' = int (min k (length (chained s))) \<and>
      (\<forall>a. LatestAuditAnchor no_faults s = Inr (Some a) \<and> int k < aa_count a \<longrightarrow> AnchorChecked c' \<and> \<not> AnchorMatches c')"
    if k: "chained (keep_rows keep s) = take k (chained s)" for k
  proof -
    have "linked [] (chained (keep_rows keep s))" unfolding k by (rule linked_take [OF l])
    then obtain c' where c': "VerifyAuditChain no_faults (keep_rows keep s) = Inr c'" "Intact c'"
        "Count c' = int (length (chained (keep_rows keep s)))"
      by (simp add: VerifyAuditChain_linked)
    have "AnchorChecked c' \<and> \<not> AnchorMatches c'"
      if "LatestAuditAnchor no_faults s = Inr (Some a)" "int k < aa_count a" for a
    proof -
      have "latest_anchor (keep_rows keep s) = Some a"
        using that(1) by (simp add: latest_anchor_def LatestAuditAnchor_def keep_rows_def split: list.splits)
      from anchored_height [OF c'(1,2) this] show ?thesis using that(2) by (auto simp: k)
    qed
    then show ?thesis using c' by (auto simp: k)
  qed
qed

theorem only_newest_rows_vanish_unnoticed_witness:
  "\<exists>c'. VerifyAuditChain no_faults (keep_rows (\<lambda>_. False) sample_anchored) = Inr c' \<and> Intact c' \<and> Count c' = 0 \<and>
     AnchorChecked c' \<and> \<not> AnchorMatches c'"
proof -
  have ok: "log_ok sample_anchored"
    by (simp add: log_ok_def sample_anchored_chained sample_log_rows)
      (simp add: sample_anchored_def sample_log_def RecordAuditAnchor_def WriteAudit_def read_head_chained insert_audit_def
        empty_log_db_def keyed_def audit_entry_of_def)
  obtain c where c: "VerifyAuditChain no_faults sample_anchored = Inr c" "Intact c"
    using VerifyAuditChain_linked [of sample_anchored] sample_linked by (simp add: sample_anchored_chained)
  have "chained (keep_rows (\<lambda>_. False) sample_anchored) = take 0 (chained sample_anchored)"
    by (simp add: chained_keep_rows [OF ok])
  from only_newest_rows_vanish_unnoticed [OF ok c, THEN conjunct2, rule_format, OF this]
  show ?thesis using sample_anchored_anchor by auto
qed


text \<open>The preimage is not injective on fields with NUL bytes: moving the boundary between two fields keeps the hash.\<close>

lemma moved_boundary_same_hash:
  "auditRowHash p e v u (d @ NUL # d') i a q = auditRowHash p e v u d (d' @ NUL # i) a q"
  by (simp add: auditRowHash_def nul_terminated_def)

end
