(* ===== verification/Publish.thy ===== *)
theory Publish
  imports Audit_Chain Evm_Signer Wallet_Service
begin

text \<open>
  \<open>internal/migrate/publish_datamaps.go\<close> and \<open>internal/worker/audit_anchor.go\<close>: putting a
  chunk on the network against payment, for the data maps of completed private uploads and for the head of
  the audit chain. The antd daemon is the record \<open>chunk_daemon\<close>, a parameter whose answers are
  indexed by the call; the payer is \<open>PayForQuotes\<close> of the signer.
\<close>

section \<open>PublishChunk\<close>

record prepared_chunk =
  pk_stored :: bool
  pk_address :: string
  pk_upload_id :: string
  pk_payments :: "payment_info list"
  pk_token :: string
  pk_vault :: string

record chunk_daemon =
  cd_prepare :: "nat \<Rightarrow> string \<Rightarrow> werr + prepared_chunk"
  cd_finalize :: "nat \<Rightarrow> string \<Rightarrow> (string \<times> string) list \<Rightarrow> werr + string"
  cd_get :: "nat \<Rightarrow> string \<Rightarrow> werr + string"

datatype outcome = NoOutcome | OAlreadyStored | OVerified | OPublished

text \<open>The result is (address, outcome, error), as the Go function returns it.\<close>

definition PublishChunk ::
  "chunk_daemon \<Rightarrow> rpc \<Rightarrow> signer \<Rightarrow> nat \<Rightarrow> string \<Rightarrow> string \<Rightarrow> bool \<Rightarrow> evm \<Rightarrow> (string \<times> outcome \<times> werr option) \<times> evm" where
  "PublishChunk cd r sg k walletKey raw verify ev =
     (case cd_prepare cd k raw of
        Inl e \<Rightarrow> (([], NoOutcome, Some (wrap ''prepare: '' e)), ev)
      | Inr prep \<Rightarrow>
          if pk_stored prep then ((pk_address prep, OAlreadyStored, None), ev)
          else if pk_upload_id prep = [] \<or> pk_payments prep = []
          then (([], NoOutcome, Some (plain ''prepare returned no payment shape for a non-stored chunk'')), ev)
          else case PayForQuotes r sg walletKey (pk_payments prep) (pk_token prep) (pk_vault prep) ev of
                 (Inl e, ev') \<Rightarrow> (([], NoOutcome, Some (wrap ''pay: '' e)), ev')
               | (Inr txHashes, ev') \<Rightarrow>
              (case cd_finalize cd k (pk_upload_id prep) txHashes of
                 Inl e \<Rightarrow> (([], NoOutcome, Some (wrap ''finalize: '' e)), ev')
               | Inr addr \<Rightarrow>
                   if addr \<noteq> pk_address prep then (([], NoOutcome, Some (plain ''address mismatch'')), ev')
                   else if verify
                   then (case cd_get cd k addr of
                           Inl e \<Rightarrow> ((addr, NoOutcome, Some (wrap ''verify chunk_get: '' e)), ev')
                         | Inr got \<Rightarrow>
                             if got \<noteq> raw then ((addr, NoOutcome, Some (plain ''verify mismatch'')), ev')
                             else ((addr, OVerified, None), ev'))
                   else ((addr, OPublished, None), ev')))"

section \<open>PublishDataMaps\<close>

record publish_options =
  po_dry :: bool
  po_limit :: int
  po_uuid :: string
  po_verify :: bool

datatype row_outcome = RDryRun | RSkipped | RFailed | ROk outcome

record row_result =
  rr_uuid :: string
  rr_id :: int
  rr_outcome :: row_outcome
  rr_address :: string

record publish_run =
  pr_candidates :: nat
  pr_published :: nat
  pr_verified :: nat
  pr_already :: nat
  pr_failed :: nat
  pr_dry :: bool
  pr_rows :: "row_result list"

definition row_of :: "upload \<Rightarrow> row_outcome \<Rightarrow> string \<Rightarrow> row_result" where
  "row_of u out addr = \<lparr>rr_uuid = u_uuid u, rr_id = u_id u, rr_outcome = out, rr_address = addr\<rparr>"

definition count_ok :: "outcome \<Rightarrow> publish_run \<Rightarrow> publish_run" where
  "count_ok out run =
     (let run = run\<lparr>pr_published := pr_published run + 1\<rparr>
      in case out of
           OAlreadyStored \<Rightarrow> run\<lparr>pr_already := pr_already run + 1\<rparr>
         | OVerified \<Rightarrow> run\<lparr>pr_verified := pr_verified run + 1\<rparr>
         | _ \<Rightarrow> run)"

text \<open>One candidate: what it adds to the run, to the database and to the chain. Fault 0 is the update.\<close>

definition publish_row ::
  "chunk_daemon \<Rightarrow> rpc \<Rightarrow> signer \<Rightarrow> faults \<Rightarrow> nat \<Rightarrow> string \<Rightarrow> publish_options \<Rightarrow> upload \<Rightarrow>
     publish_run \<times> db \<times> evm \<Rightarrow> publish_run \<times> db \<times> evm" where
  "publish_row cd r sg flt k walletKey opts u st =
     (let (run, s, ev) = st;
          add = (\<lambda>out addr run. run\<lparr>pr_rows := pr_rows run @ [row_of u out addr]\<rparr>);
          failed = (\<lambda>run. run\<lparr>pr_failed := pr_failed run + 1\<rparr>)
      in if po_dry opts then (add RDryRun [] run, s, ev)
         else if u_datamap u = None \<or> u_datamap u = Some [] then (add RSkipped [] run, s, ev)
         else case hex_decode (the (u_datamap u)) of
                None \<Rightarrow> (add RFailed [] (failed run), s, ev)
              | Some raw \<Rightarrow>
             (case PublishChunk cd r sg k walletKey raw (po_verify opts) ev of
                ((addr, out, Some e), ev') \<Rightarrow> (add RFailed addr (failed run), s, ev')
              | ((addr, out, None), ev') \<Rightarrow>
                  (case MarkPublished flt (u_id u) addr s of
                     (Inl e, s') \<Rightarrow> (add RFailed addr (failed run), s', ev')
                   | (Inr _, s') \<Rightarrow> (add (ROk out) addr (count_ok out run), s', ev'))))"

text \<open>The loop; \<open>cancelled k\<close> says that the context is done before the k-th candidate.\<close>

fun publish_rows ::
  "chunk_daemon \<Rightarrow> rpc \<Rightarrow> signer \<Rightarrow> (nat \<Rightarrow> bool) \<Rightarrow> faults \<Rightarrow> nat \<Rightarrow> string \<Rightarrow> publish_options \<Rightarrow> upload list \<Rightarrow>
     publish_run \<times> db \<times> evm \<Rightarrow> (publish_run \<times> db \<times> evm) \<times> error option" where
  "publish_rows cd r sg cancelled flt k walletKey opts [] st = (st, None)"
| "publish_rows cd r sg cancelled flt k walletKey opts (u # us) st =
     (if cancelled k then (st, Some ErrCanceled)
      else publish_rows cd r sg cancelled (later 1 flt) (k + 1) walletKey opts us
             (publish_row cd r sg flt k walletKey opts u st))"

definition PublishDataMaps ::
  "chunk_daemon \<Rightarrow> rpc \<Rightarrow> signer \<Rightarrow> (nat \<Rightarrow> bool) \<Rightarrow> faults \<Rightarrow> string \<Rightarrow> publish_options \<Rightarrow> db \<Rightarrow> evm \<Rightarrow>
     (publish_run option \<times> error option) \<times> db \<times> evm" where
  "PublishDataMaps cd r sg cancelled flt walletKey opts s ev =
     (case ListPrivatePublishCandidates flt (po_limit opts) s of
        Inl e \<Rightarrow> ((None, Some e), s, ev)
      | Inr cands \<Rightarrow>
          let candidates = (if po_uuid opts = [] then cands else filter (\<lambda>u. u_uuid u = po_uuid opts) cands);
              run0 = \<lparr>pr_candidates = length candidates, pr_published = 0, pr_verified = 0, pr_already = 0,
                      pr_failed = 0, pr_dry = po_dry opts, pr_rows = []\<rparr>;
              ((run, s', ev'), err) = publish_rows cd r sg cancelled (later 1 flt) 0 walletKey opts candidates (run0, s, ev)
          in ((Some run, err), s', ev'))"

section \<open>The anchor worker\<close>

definition auditAnchorEnabledSetting :: string where
  "auditAnchorEnabledSetting = ''audit_anchor_enabled''"

definition auditAnchorIntervalSetting :: string where
  "auditAnchorIntervalSetting = ''audit_anchor_interval_hours''"

text \<open>In hours; the code multiplies by \<open>time.Hour\<close> in 64-bit nanoseconds.\<close>

definition anchor_interval :: "faults \<Rightarrow> settings_db \<Rightarrow> int" where
  "anchor_interval flt st =
     (case Settings_Get flt auditAnchorIntervalSetting st of
        Inl _ \<Rightarrow> 24 * 3600 * 10 ^ 9
      | Inr v \<Rightarrow> (case Atoi v of
                   Some n \<Rightarrow> if 0 < n then i64 (n * (3600 * 10 ^ 9)) else 24 * 3600 * 10 ^ 9
                 | None \<Rightarrow> 24 * 3600 * 10 ^ 9))"

text \<open>\<open>json.Marshal\<close> of the payload map: keys sorted, and the head is lower-case hex.\<close>

definition anchor_payload :: "string \<Rightarrow> int \<Rightarrow> string" where
  "anchor_payload headHash count =
     CHR ''{'' # CHR 0x22 # ''head_hash'' @ [CHR 0x22, CHR '':'', CHR 0x22] @ headHash @
       [CHR 0x22, CHR '','', CHR 0x22] @ ''kind'' @ [CHR 0x22, CHR '':'', CHR 0x22] @ ''indelible-audit-anchor'' @
       [CHR 0x22, CHR '','', CHR 0x22] @ ''row_count'' @ [CHR 0x22, CHR '':''] @ show_int count @ ''}''"

text \<open>What one pass works with. \<open>an_dial\<close> says which URLs the RPC client connects to.\<close>

record anchor_env =
  an_daemon :: chunk_daemon
  an_rpc :: rpc
  an_dial :: "string \<Rightarrow> bool"
  an_url :: string
  an_ring :: keyring

text \<open>Faults: 0 the setting, 1 the wallet, 2 and 3 the head, 4 the latest anchor, 5 the record.\<close>

definition anchorOnce ::
  "anchor_env \<Rightarrow> faults \<Rightarrow> nat \<Rightarrow> time \<Rightarrow> settings_db \<Rightarrow> db \<Rightarrow> log_db \<times> evm \<Rightarrow> (bool \<times> werr option) \<times> log_db \<times> evm" where
  "anchorOnce an flt k now st d w =
     (let (lg, ev) = w
      in if (case Settings_Get flt auditAnchorEnabledSetting st of Inl _ \<Rightarrow> [] | Inr v \<Rightarrow> v) \<noteq> ''true''
         then ((False, None), lg, ev)
         else case GetDefault (later 1 flt) d of
           Inl _ \<Rightarrow> ((False, None), lg, ev)
         | Inr wallet \<Rightarrow>
        (case AuditChainHead (later 2 flt) lg of
           Inl _ \<Rightarrow> ((False, Some (plain ''chain head'')), lg, ev)
         | Inr (headHash, count) \<Rightarrow>
             if headHash = [] then ((False, None), lg, ev)
             else if (case LatestAuditAnchor (later 4 flt) lg of
                        Inr (Some a) \<Rightarrow> aa_count a = count \<and> aa_head a = headHash | _ \<Rightarrow> False)
             then ((False, None), lg, ev)
             else if an_url an = [] then ((False, None), lg, ev)
             else case DecryptKey (an_ring an) wallet of
                    Inl _ \<Rightarrow> ((False, Some (plain ''decrypt wallet key'')), lg, ev)
                  | Inr walletKey \<Rightarrow>
                 (case NewSigner (an_dial an) (an_url an) of
                    Inl e \<Rightarrow> ((False, Some (wrap ''build payer: '' e)), lg, ev)
                  | Inr sg \<Rightarrow>
                 (case PublishChunk (an_daemon an) (an_rpc an) sg k walletKey (anchor_payload headHash count) True ev of
                    ((addr, out, Some e), ev') \<Rightarrow> ((False, Some (wrap ''publish anchor: '' e)), lg, ev')
                  | ((addr, out, None), ev') \<Rightarrow>
                      (case RecordAuditAnchor (later 5 flt) now headHash count addr [] lg of
                         (Inl _, lg') \<Rightarrow> ((False, Some (plain ''record anchor'')), lg', ev')
                       | (Inr _, lg') \<Rightarrow> ((True, None), lg', ev'))))))"


section \<open>Lemmas\<close>

lemma length_quote_plan: "length (quote_plan ps) \<le> 1"
  by (simp add: quote_plan_def split: option.splits)

text \<open>What a chunk costs: at most one payment, and none where the daemon has the chunk.\<close>

lemma PublishChunk_log:
  assumes "PublishChunk cd r sg k key raw verify ev = ((addr, out, err), ev')"
  shows "(payments_sent ev' = payments_sent ev \<or> (\<exists>p. payments_sent ev' = payments_sent ev @ [p])) \<and>
         (out = OAlreadyStored \<longrightarrow> ev' = ev) \<and> (err = None \<longleftrightarrow> out \<noteq> NoOutcome)"
proof (cases "cd_prepare cd k raw")
  case (Inl e)
  then show ?thesis using assms by (auto simp: PublishChunk_def)
next
  case (Inr prep)
  show ?thesis
  proof (cases "pk_stored prep \<or> pk_upload_id prep = [] \<or> pk_payments prep = []")
    case True
    then show ?thesis using Inr assms by (auto simp: PublishChunk_def split: if_splits)
  next
    case False
    obtain r1 ev1 where p: "PayForQuotes r sg key (pk_payments prep) (pk_token prep) (pk_vault prep) ev = (r1, ev1)" by force
    have len: "payments_sent ev1 = payments_sent ev \<or> (\<exists>p. payments_sent ev1 = payments_sent ev @ [p])"
      using PayForQuotes_log [OF p] length_quote_plan [of "pk_payments prep"]
      by (cases "quote_plan (pk_payments prep)") auto
    have "ev' = ev1 \<and> out \<noteq> OAlreadyStored \<and> (err = None \<longleftrightarrow> out \<noteq> NoOutcome)"
      using assms Inr False p by (auto simp: PublishChunk_def split: sum.splits if_splits)
    then show ?thesis using len by simp
  qed
qed

section \<open>The anchor pass\<close>

lemma RecordAuditAnchor_latest:
  assumes "log_ok lg" and "RecordAuditAnchor flt now h n addr tx lg = (Inr u, lg')"
  shows "latest_anchor lg' = Some \<lparr>aa_id = audit_anchors_seq lg + 1, aa_head = h, aa_count = n, aa_address = addr,
           aa_tx = tx, aa_at = now\<rparr>"
    and "chained lg' = chained lg"
proof -
  let ?a = "\<lparr>aa_id = audit_anchors_seq lg + 1, aa_head = h, aa_count = n, aa_address = addr, aa_tx = tx, aa_at = now\<rparr>"
  have lg': "lg' = lg\<lparr>audit_anchors := audit_anchors lg @ [?a], audit_anchors_seq := audit_anchors_seq lg + 1\<rparr>"
    using assms(2) by (auto simp: RecordAuditAnchor_def split: if_splits)
  have "sorted (map aa_id (audit_anchors lg @ [?a]))"
    using assms(1) by (intro sorted_append_above) (auto simp: log_ok_def keyed_def)
  then have "sort_key aa_id (audit_anchors lg @ [?a]) = audit_anchors lg @ [?a]"
    by (rule sort_key_id_if_sorted)
  then have "order_desc aa_id (audit_anchors lg') = ?a # rev (audit_anchors lg)"
    by (simp only: order_desc_def lg') simp
  then show "latest_anchor lg' = Some ?a"
    by (simp add: latest_anchor_def LatestAuditAnchor_def limit_offset_def)
  show "chained lg' = chained lg" by (simp add: chained_def lg')
qed

lemma latest_anchor_faults: "\<not> flt 0 \<Longrightarrow> LatestAuditAnchor flt s = Inr (latest_anchor s)"
  by (simp add: LatestAuditAnchor_def latest_anchor_def split: list.splits)

lemma AuditChainHead_Inr: "AuditChainHead flt s = Inr (h, n) \<Longrightarrow> h = last_hash [] (chained s) \<and> n = int (length (chained s))"
  using AuditChainHead_chained [of s] by (auto simp: AuditChainHead_def chain_head_between_def split: if_splits option.splits)

text \<open>Every way a pass can end.\<close>

definition paid_once :: "evm \<Rightarrow> evm \<Rightarrow> bool" where
  "paid_once ev ev' \<longleftrightarrow> payments_sent ev' = payments_sent ev \<or> (\<exists>p. payments_sent ev' = payments_sent ev @ [p])"

lemma RecordAuditAnchor_Inl: "RecordAuditAnchor flt now h n addr tx lg = (Inl e, lg') \<Longrightarrow> lg' = lg"
  by (simp add: RecordAuditAnchor_def split: if_splits)

lemma anchorOnce_cases:
  assumes "anchorOnce an flt k now st d (lg, ev) = ((did, err), lg', ev')"
  shows "(\<not> did \<and> err = None \<and> lg' = lg \<and> ev' = ev) \<or>
         (\<not> did \<and> err \<noteq> None \<and> lg' = lg \<and> paid_once ev ev') \<or>
         (did \<and> err = None \<and> chained lg \<noteq> [] \<and> paid_once ev ev' \<and>
          (\<exists>addr flt'. RecordAuditAnchor flt' now (last_hash [] (chained lg)) (int (length (chained lg))) addr [] lg =
             (Inr (), lg')))"
proof (cases "\<exists>h n w key sg. AuditChainHead (later 2 flt) lg = Inr (h, n) \<and> h \<noteq> [] \<and>
    GetDefault (later 1 flt) d = Inr w \<and> DecryptKey (an_ring an) w = Inr key \<and> NewSigner (an_dial an) (an_url an) = Inr sg")
  case False
  have same: "paid_once ev ev" by (simp add: paid_once_def)
  note [simp del] = One_nat_def
  show ?thesis
  proof (cases "GetDefault (later 1 flt) d")
    case (Inl e)
    then show ?thesis using assms by (simp add: anchorOnce_def split: if_splits)
  next
    case w: (Inr w)
    show ?thesis
    proof (cases "AuditChainHead (later 2 flt) lg")
      case (Inl e)
      then show ?thesis using assms w same by (auto simp: anchorOnce_def split: if_splits)
    next
      case (Inr p)
      obtain h n where p: "p = (h, n)" by force
      consider "h = []" | e where "h \<noteq> []" "DecryptKey (an_ring an) w = Inl e"
        | key e where "h \<noteq> []" "DecryptKey (an_ring an) w = Inr key" "NewSigner (an_dial an) (an_url an) = Inl e"
        using False w Inr p by (metis obj_sumE)
      then show ?thesis
        by cases (use assms w Inr p same in \<open>auto simp: anchorOnce_def split: if_splits\<close>)
    qed
  qed
next
  case True
  then obtain h n w key sg where t: "AuditChainHead (later 2 flt) lg = Inr (h, n)" "h \<noteq> []"
      "GetDefault (later 1 flt) d = Inr w" "DecryptKey (an_ring an) w = Inr key" "NewSigner (an_dial an) (an_url an) = Inr sg"
    by blast
  have hd: "h = last_hash [] (chained lg)" "n = int (length (chained lg))"
    using AuditChainHead_Inr [OF t(1)] by simp_all
  then have ne: "chained lg \<noteq> []" using t(2) by (auto simp: last_hash_def)
  obtain addr out e ev1 where pc: "PublishChunk (an_daemon an) (an_rpc an) sg k key (anchor_payload h n) True ev = ((addr, out, e), ev1)"
    by (metis prod_cases3 surj_pair)
  obtain rr lg1 where rec: "RecordAuditAnchor (later 5 flt) now h n addr [] lg = (rr, lg1)" by force
  have once: "paid_once ev ev1" using PublishChunk_log [OF pc] by (simp add: paid_once_def)
  let ?skip = "(case Settings_Get flt auditAnchorEnabledSetting st of Inl _ \<Rightarrow> [] | Inr v \<Rightarrow> v) \<noteq> ''true'' \<or>
      (case LatestAuditAnchor (later 4 flt) lg of Inr (Some a) \<Rightarrow> aa_count a = n \<and> aa_head a = h | _ \<Rightarrow> False) \<or> an_url an = []"
  have step: "anchorOnce an flt k now st d (lg, ev) =
      (if ?skip then ((False, None), lg, ev)
       else case e of Some x \<Rightarrow> ((False, Some (wrap ''publish anchor: '' x)), lg, ev1)
         | None \<Rightarrow> (case rr of Inl _ \<Rightarrow> ((False, Some (plain ''record anchor'')), lg1, ev1)
                   | Inr _ \<Rightarrow> ((True, None), lg1, ev1)))"
    unfolding anchorOnce_def Let_def by (simp add: t pc rec del: One_nat_def)
  show ?thesis
  proof (cases ?skip)
    case True
    then show ?thesis using assms unfolding step if_P [OF True] by simp
  next
    case no: False
    show ?thesis
    proof (cases rr)
      case (Inl x)
      then show ?thesis
        using assms once RecordAuditAnchor_Inl [of "later 5 flt" now h n addr "[]" lg x lg1] rec
        unfolding step if_not_P [OF no] by (auto split: option.splits)
    next
      case (Inr u)
      then show ?thesis
        using assms once rec ne hd unfolding step if_not_P [OF no] by (auto split: option.splits)
    qed
  qed
qed


text \<open>A pass that reads the count before an audit write and the head after it records an anchor that never
  matches (short of a collision), although nobody touched the log.\<close>

lemma anchor_across_write_never_matches:
  assumes "log_ok s" and "linked [] (chained s)" and "WriteAudit no_faults t c s = (Inr (), s1)"
    and "chain_head_between no_faults s s1 = Inr (h, n)" and "h \<noteq> []"
    and "RecordAuditAnchor no_faults t2 h n addr [] s1 = (Inr (), s2)"
    and "VerifyAuditChain no_faults s2 = Inr res" and "AnchorMatches res"
  shows "collision_in (chained s1) (chained s1)"
proof -
  let ?r = "audit_entry_of (audit_log_seq s + 1) t c (last_hash [] (chained s))"
  have w: "log_ok s1" "chained s1 = chained s @ [?r]"
    using insert_audit_chained [OF assms(1)] assms(3) by (simp_all add: WriteAudit_def read_head_chained)
  have l1: "linked [] (chained s1)"
    using assms(2) audit_entry_of_linked by (simp add: w(2) linked_append)
  have n: "n = int (length (chained s))" and h: "h = al_hash ?r" and ne: "chained s \<noteq> []"
    using assms(4,5) w(2) by (auto simp: chain_head_between_def head_count_chained chain_head_chained split: if_splits)
  have l2: "linked [] (chained s2)" and la: "latest_anchor s2 = Some \<lparr>aa_id = audit_anchors_seq s1 + 1, aa_head = h,
      aa_count = n, aa_address = addr, aa_tx = [], aa_at = t2\<rparr>" and ch: "chained s2 = chained s1"
    using RecordAuditAnchor_latest [OF w(1) assms(6)] l1 by simp_all
  have i: "Intact res" using VerifyAuditChain_linked [OF l2] assms(7) by auto
  let ?j = "length (chained s)"
  have "al_hash (chained s1 ! (?j - 1)) = al_hash (chained s1 ! ?j)"
    using anchored_height(2) [OF assms(7) i la] assms(8) n h ne by (simp add: ch w(2) nth_append split: if_splits)
  then show ?thesis
    using ne by (intro linked_hashes_distinct [OF l1, of "?j - 1" ?j]) (auto simp: w(2) Suc_le_eq)
qed


text \<open>A network that takes one payment, stores the chunk and hands it back.\<close>

definition pay_rpc :: rpc where
  "pay_rpc = \<lparr>rpc_address = Some, rpc_pack = \<lambda>_. True, rpc_allowance = \<lambda>_ _ _ _. Some 1000,
     rpc_balances = \<lambda>_. None, rpc_nonce = Some, rpc_gas_price = \<lambda>_. Some 1, rpc_estimate = \<lambda>_. Some 100,
     rpc_sign = \<lambda>_. True, rpc_submit = \<lambda>_. True, rpc_tx_hash = \<lambda>_. ''0xh'',
     rpc_polls = \<lambda>_. [Some \<lparr>rc_success = True, rc_logs = []\<rparr>], rpc_wait_end = \<lambda>_. ParentDone, rpc_event_id = []\<rparr>"

definition one_chunk_daemon :: "(nat \<Rightarrow> string \<Rightarrow> werr + string) \<Rightarrow> chunk_daemon" where
  "one_chunk_daemon get = \<lparr>cd_prepare = \<lambda>_ raw. Inr \<lparr>pk_stored = False, pk_address = ''addr'', pk_upload_id = ''u'',
       pk_payments = [\<lparr>pi_hash = sample_hex_key CHR ''q'', pi_rewards = ''r'', pi_amount = show_int 3\<rparr>], pk_token = ''t'',
       pk_vault = ''v''\<rparr>,
     cd_finalize = \<lambda>_ _ _. Inr ''addr'', cd_get = get\<rparr>"

lemma sample_quote_hash: "hexTo32Bytes (sample_hex_key CHR ''q'') = Some (replicate 32 CHR ''q'')"
proof -
  have "take 2 (sample_hex_key CHR ''q'') \<noteq> ''0x''"
  proof -
    have q: "replicate 32 c = c # replicate 31 c" for c :: char
      using replicate_Suc [of 31 c] by simp
    have "hd (hex_encode (c # cs)) = hex_digit (of_char c div 16)" for c cs by (simp add: hex_encode_def)
    then have "hd (sample_hex_key CHR ''q'') = hex_digit 7"
      by (simp only: sample_hex_key_def q) (simp add: of_char_def)
    moreover have "hex_digit 7 \<noteq> CHR ''0''"
    proof
      assume "hex_digit 7 = CHR ''0''"
      then have "of_char (hex_digit 7) = (48 :: nat)" by simp
      then show False by (simp add: of_char_hex_digit)
    qed
    ultimately show ?thesis by (cases "sample_hex_key CHR ''q''") auto
  qed
  then have "trim_0x (sample_hex_key CHR ''q'') = sample_hex_key CHR ''q''" by (simp add: trim_0x_def)
  then show ?thesis by (simp add: hexTo32Bytes_def sample_hex_key_def hex_decode_encode)
qed

lemma pay_rpc_sends:
  assumes "sendTx pay_rpc sg sender to cd ev = (res, ev')"
  shows "res = Inr ''0xh''" and "payments_sent ev' = payments_sent ev @ filter is_payment [cd]"
  using assms unfolding sendTx_def sendTxWithReceipt_def pay_rpc_def Let_def
  by (simp_all, clarsimp simp: payments_sent_def)

lemma one_chunk_published:
  assumes "get k ''addr'' = Inr raw"
  shows "\<exists>ev'. PublishChunk (one_chunk_daemon get) pay_rpc sg k key raw True ev = ((''addr'', OVerified, None), ev') \<and>
     length (payments_sent ev') = length (payments_sent ev) + 1"
proof -
  let ?ps = "[\<lparr>pi_hash = sample_hex_key CHR ''q'', pi_rewards = ''r'', pi_amount = show_int 3\<rparr>]"
  obtain res ev1 where tx0: "sendTx pay_rpc sg (trim_0x key) ''v'' (PayQuotes [(''r'', 3, replicate 32 CHR ''q'')]) ev = (res, ev1)"
    by force
  have tx: "sendTx pay_rpc sg (trim_0x key) ''v'' (PayQuotes [(''r'', 3, replicate 32 CHR ''q'')]) ev = (Inr ''0xh'', ev1)"
      "length (payments_sent ev1) = length (payments_sent ev) + 1"
    using pay_rpc_sends [OF tx0] tx0 by simp_all
  have "ensureAllowance pay_rpc sg (trim_0x key) ''t'' ''v'' 3 ev = (Inr (), ev)"
    by (simp add: ensureAllowance_def pay_rpc_def)
  moreover have "rpc_address pay_rpc = Some" "rpc_pack pay_rpc = (\<lambda>_. True)" by (simp_all add: pay_rpc_def)
  moreover have "data_payments ?ps = Some [(''r'', 3, replicate 32 CHR ''q'')]"
    by (simp only: data_payments.simps payment_info.simps sample_quote_hash option.case SetString10_show_int)
  ultimately have "PayForQuotes pay_rpc sg key ?ps ''t'' ''v'' ev = (Inr (map (\<lambda>p. (pi_hash p, ''0xh'')) ?ps), ev1)"
    using tx(1) by (simp add: PayForQuotes_def)
  then have "PublishChunk (one_chunk_daemon get) pay_rpc sg k key raw True ev = ((''addr'', OVerified, None), ev1)"
    using assms by (simp add: PublishChunk_def one_chunk_daemon_def)
  then show ?thesis using tx(2) by blast
qed

definition anchor_settings :: settings_db where
  "anchor_settings = \<lparr>settings = [\<lparr>g_key = auditAnchorEnabledSetting, g_value = ''true'', g_updated_at = 0, g_updated_by = None\<rparr>],
     config_audit = [], audit_seq = 0\<rparr>"


text \<open>The ticker panics on an interval that is not positive; large settings wrap to one.\<close>

lemma anchor_interval_wraps:
  "setting_value st auditAnchorIntervalSetting = Some ''2562048'' \<Longrightarrow> anchor_interval no_faults st < 0"
proof -
  have "Atoi ''2562048'' = Some 2562048" by (simp add: Atoi_def parse_signed_def parse_digits_def digit_val_def is_i64_def)
  then show "anchor_interval no_faults st < 0" if "setting_value st auditAnchorIntervalSetting = Some ''2562048''"
    using that by (simp add: anchor_interval_def Settings_Get_def i64_def)
qed


section \<open>Publishing data maps\<close>

text \<open>What a report row says happened to the database.\<close>

definition mark_row :: "row_result \<Rightarrow> db \<Rightarrow> db" where
  "mark_row row s =
     (case rr_outcome row of
        ROk _ \<Rightarrow> s\<lparr>uploads := update_where (\<lambda>u. u_id u = rr_id row)
                   (\<lambda>u. u\<lparr>u_visibility := Public, u_address := Some (rr_address row)\<rparr>) (uploads s)\<rparr>
      | _ \<Rightarrow> s)"

definition is_ok :: "row_result \<Rightarrow> bool" where
  "is_ok row \<longleftrightarrow> (\<exists>out. rr_outcome row = ROk out)"

text \<open>The rows that may have cost a payment.\<close>

definition may_cost :: "row_result \<Rightarrow> bool" where
  "may_cost row \<longleftrightarrow> rr_outcome row \<notin> {RDryRun, RSkipped, ROk OAlreadyStored}"

definition counters_ok :: "publish_run \<Rightarrow> bool" where
  "counters_ok run \<longleftrightarrow>
     pr_published run = length (filter is_ok (pr_rows run)) \<and>
     pr_failed run = length (filter (\<lambda>r. rr_outcome r = RFailed) (pr_rows run)) \<and>
     pr_already run = length (filter (\<lambda>r. rr_outcome r = ROk OAlreadyStored) (pr_rows run)) \<and>
     pr_verified run = length (filter (\<lambda>r. rr_outcome r = ROk OVerified) (pr_rows run))"

lemma publish_row_step:
  assumes "publish_row cd r sg flt k key opts u (run, s, ev) = (run', s', ev')" and "row = List.last (pr_rows run')"
  shows "pr_rows run' = pr_rows run @ [row] \<and> rr_id row = u_id u \<and> s' = mark_row row s \<and>
           (counters_ok run \<longrightarrow> counters_ok run') \<and> pr_candidates run' = pr_candidates run \<and>
           (\<exists>ps. payments_sent ev' = payments_sent ev @ ps \<and> length ps \<le> (if may_cost row then 1 else 0)) \<and>
           (po_dry opts \<longrightarrow> rr_outcome row = RDryRun)"
proof -
  show ?thesis
  proof (cases "po_dry opts \<or> u_datamap u = None \<or> u_datamap u = Some [] \<or> hex_decode (the (u_datamap u)) = None")
    case True
    define out where "out = (if po_dry opts then RDryRun else if u_datamap u = None \<or> u_datamap u = Some [] then RSkipped else RFailed)"
    have out: "out \<in> {RDryRun, RSkipped, RFailed}" "po_dry opts \<longrightarrow> out = RDryRun"
      by (simp_all add: out_def)
    have "publish_row cd r sg flt k key opts u (run, s, ev) =
          (run\<lparr>pr_failed := pr_failed run + (if out = RFailed then 1 else 0), pr_rows := pr_rows run @ [row_of u out []]\<rparr>, s, ev)"
    proof (cases "po_dry opts \<or> u_datamap u = None \<or> u_datamap u = Some []")
      case False
      then obtain dm where "u_datamap u = Some dm" "dm \<noteq> []" "\<not> po_dry opts" by auto
      then show ?thesis using True by (simp add: publish_row_def out_def)
    qed (auto simp: publish_row_def out_def)
    then have eq: "run' = run\<lparr>pr_failed := pr_failed run + (if out = RFailed then 1 else 0), pr_rows := pr_rows run @ [row_of u out []]\<rparr>"
        "s' = s" "ev' = ev"
      using assms(1) by simp_all
    show ?thesis
      using out assms(2) unfolding eq
      by (auto simp: row_of_def mark_row_def counters_ok_def is_ok_def may_cost_def)
  next
    case False
    then obtain raw where raw: "hex_decode (the (u_datamap u)) = Some raw" by auto
    obtain addr out err ev1 where pc: "PublishChunk cd r sg k key raw (po_verify opts) ev = ((addr, out, err), ev1)"
      by (metis prod_cases3 surj_pair)
    have log: "\<exists>ps. payments_sent ev1 = payments_sent ev @ ps \<and> length ps \<le> 1" "out = OAlreadyStored \<Longrightarrow> ev1 = ev"
        "err = None \<longleftrightarrow> out \<noteq> NoOutcome"
      using PublishChunk_log [OF pc] by auto
    have go: "publish_row cd r sg flt k key opts u (run, s, ev) =
        (case err of
           Some e \<Rightarrow> (run\<lparr>pr_failed := pr_failed run + 1, pr_rows := pr_rows run @ [row_of u RFailed addr]\<rparr>, s, ev1)
         | None \<Rightarrow>
             if flt 0 then (run\<lparr>pr_failed := pr_failed run + 1, pr_rows := pr_rows run @ [row_of u RFailed addr]\<rparr>, s, ev1)
             else ((count_ok out run)\<lparr>pr_rows := pr_rows run @ [row_of u (ROk out) addr]\<rparr>,
                   s\<lparr>uploads := update_where (\<lambda>x. u_id x = u_id u)
                      (\<lambda>x. x\<lparr>u_visibility := Public, u_address := Some addr\<rparr>) (uploads s)\<rparr>, ev1))"
    proof -
      obtain dm where "u_datamap u = Some dm" "dm \<noteq> []" "\<not> po_dry opts" using False by auto
      then show ?thesis
        using raw pc
        by (cases err; cases "flt 0"; cases out)
          (simp_all add: publish_row_def Let_def MarkPublished_def err_only_def exec_update_def count_ok_def)
    qed
    show ?thesis
    proof (cases "err = None \<and> \<not> flt 0")
      case False
      then have "run' = run\<lparr>pr_failed := pr_failed run + 1, pr_rows := pr_rows run @ [row_of u RFailed addr]\<rparr>"
          "s' = s" "ev' = ev1"
        using go assms(1) by (auto split: option.splits)
      then show ?thesis
        using assms(2) log(1) \<open>\<not> (po_dry opts \<or> _ \<or> _ \<or> _)\<close>
        by (simp add: row_of_def mark_row_def counters_ok_def is_ok_def may_cost_def)
    next
      case True
      then have "run' = (count_ok out run)\<lparr>pr_rows := pr_rows run @ [row_of u (ROk out) addr]\<rparr>" "ev' = ev1"
        and s': "s' = s\<lparr>uploads := update_where (\<lambda>x. u_id x = u_id u)
                      (\<lambda>x. x\<lparr>u_visibility := Public, u_address := Some addr\<rparr>) (uploads s)\<rparr>"
        using go assms(1) by auto
      then show ?thesis
        using assms(2) log True \<open>\<not> (po_dry opts \<or> _ \<or> _ \<or> _)\<close> unfolding s'
        by (cases out) (simp_all add: row_of_def mark_row_def counters_ok_def is_ok_def may_cost_def count_ok_def Let_def)
    qed
  qed
qed

lemma publish_rows_run:
  assumes "publish_rows cd r sg cancelled flt k key opts us (run, s, ev) = ((run', s', ev'), err)"
  shows "\<exists>rows. pr_rows run' = pr_rows run @ rows \<and> map rr_id rows = map u_id (take (length rows) us) \<and>
           length rows \<le> length us \<and> s' = fold mark_row rows s \<and>
           (counters_ok run \<longrightarrow> counters_ok run') \<and> pr_candidates run' = pr_candidates run \<and>
           (\<exists>ps. payments_sent ev' = payments_sent ev @ ps \<and> length ps \<le> length (filter may_cost rows)) \<and>
           (err = None \<longrightarrow> length rows = length us) \<and>
           (po_dry opts \<longrightarrow> (\<forall>row \<in> set rows. rr_outcome row = RDryRun))"
  using assms
proof (induction us arbitrary: flt k run s ev)
  case Nil
  then show ?case by (intro exI [of _ "[]"]) auto
next
  case (Cons u us)
  show ?case
  proof (cases "cancelled k")
    case True
    then show ?thesis using Cons.prems by (intro exI [of _ "[]"]) auto
  next
    case False
    obtain run1 s1 ev1 where p: "publish_row cd r sg flt k key opts u (run, s, ev) = (run1, s1, ev1)" by (metis prod_cases3)
    define row where "row = List.last (pr_rows run1)"
    have row: "pr_rows run1 = pr_rows run @ [row]" "rr_id row = u_id u" "s1 = mark_row row s"
        "counters_ok run \<longrightarrow> counters_ok run1" "pr_candidates run1 = pr_candidates run"
        "\<exists>ps. payments_sent ev1 = payments_sent ev @ ps \<and> length ps \<le> (if may_cost row then 1 else 0)"
        "po_dry opts \<longrightarrow> rr_outcome row = RDryRun"
      using publish_row_step [OF p row_def] by blast+
    have "publish_rows cd r sg cancelled (later 1 flt) (k + 1) key opts us (run1, s1, ev1) = ((run', s', ev'), err)"
      using Cons.prems False p by simp
    from Cons.IH [OF this] obtain rows where rows: "pr_rows run' = pr_rows run1 @ rows" "map rr_id rows = map u_id (take (length rows) us)"
        "length rows \<le> length us" "s' = fold mark_row rows s1" "counters_ok run1 \<longrightarrow> counters_ok run'"
        "pr_candidates run' = pr_candidates run1"
        "\<exists>ps. payments_sent ev' = payments_sent ev1 @ ps \<and> length ps \<le> length (filter may_cost rows)"
        "err = None \<longrightarrow> length rows = length us" "po_dry opts \<longrightarrow> (\<forall>row \<in> set rows. rr_outcome row = RDryRun)"
      by blast
    obtain ps1 ps2 where "payments_sent ev1 = payments_sent ev @ ps1" "length ps1 \<le> (if may_cost row then 1 else 0)"
        "payments_sent ev' = payments_sent ev1 @ ps2" "length ps2 \<le> length (filter may_cost rows)"
      using row(6) rows(7) by blast
    then have "\<exists>ps. payments_sent ev' = payments_sent ev @ ps \<and> length ps \<le> length (filter may_cost (row # rows))"
      by (intro exI [of _ "ps1 @ ps2"]) (auto split: if_splits)
    then show ?thesis
      using row(1-5,7) rows(1-6,8,9) by (intro exI [of _ "row # rows"]) auto
  qed
qed

text \<open>A row nobody reported keeps its value; a reported one has its report's.\<close>

lemma fold_mark_row:
  assumes "distinct (map rr_id rows)"
  shows "upload_row (fold mark_row rows s) i =
     (case find (\<lambda>row. rr_id row = i \<and> is_ok row) rows of
        None \<Rightarrow> upload_row s i
      | Some row \<Rightarrow> map_option (\<lambda>u. u\<lparr>u_visibility := Public, u_address := Some (rr_address row)\<rparr>) (upload_row s i))"
  using assms
proof (induction rows arbitrary: s)
  case (Cons row rows)
  have m: "upload_row (mark_row row s) i =
      (if rr_id row = i \<and> is_ok row then map_option (\<lambda>u. u\<lparr>u_visibility := Public, u_address := Some (rr_address row)\<rparr>) (upload_row s i)
       else upload_row s i)"
    by (auto simp: mark_row_def is_ok_def upload_row_update map_option_case dest: upload_row_SomeD
        split: row_outcome.splits option.splits)
  have "find (\<lambda>x. rr_id x = i \<and> is_ok x) rows = None" if "rr_id row = i"
    using Cons.prems that by (auto simp: find_None_iff) (metis image_eqI)
  then show ?case using Cons m by (simp split: option.split)
qed simp


lemma counters_ok_start [simp]: "counters_ok \<lparr>pr_candidates = n, pr_published = 0, pr_verified = 0, pr_already = 0,
     pr_failed = 0, pr_dry = b, pr_rows = []\<rparr>"
  by (simp add: counters_ok_def)

text \<open>A publishing run reports exactly what it did. The rows reported are the first candidates, each once; a
  row reported as published is public under the reported address, every other row of the database is as it was;
  the summary counts its rows; payments sent are at most one per row that was neither a dry run nor skipped nor
  found on the network; a run that ends without error has a row per candidate; a dry run changes nothing.\<close>

theorem publish_run_accounts_for_rows:
  assumes "db_ok s" and "PublishDataMaps cd r sg cancelled flt key opts s ev = ((Some run, err), s', ev')"
  shows "distinct (map rr_id (pr_rows run)) \<and>
    (\<forall>row \<in> set (pr_rows run). \<exists>u \<in> set (uploads s). u_id u = rr_id row \<and> publish_candidate u) \<and>
    (\<forall>i. upload_row s' i =
       (case find (\<lambda>row. rr_id row = i \<and> is_ok row) (pr_rows run) of
          None \<Rightarrow> upload_row s i
        | Some row \<Rightarrow> map_option (\<lambda>u. u\<lparr>u_visibility := Public, u_address := Some (rr_address row)\<rparr>) (upload_row s i))) \<and>
    counters_ok run \<and>
    (\<exists>ps. payments_sent ev' = payments_sent ev @ ps \<and> length ps \<le> length (filter may_cost (pr_rows run))) \<and>
    (err = None \<longrightarrow> length (pr_rows run) = pr_candidates run) \<and>
    (po_dry opts \<longrightarrow> s' = s \<and> payments_sent ev' = payments_sent ev)"
proof -
  define rows where "rows = order_asc u_id (filter publish_candidate (uploads s))"
  define cands0 where "cands0 = (if 0 < po_limit opts then take (nat (po_limit opts)) rows else rows)"
  define cands where "cands = (if po_uuid opts = [] then cands0 else filter (\<lambda>u. u_uuid u = po_uuid opts) cands0)"
  let ?run0 = "\<lparr>pr_candidates = length cands, pr_published = 0, pr_verified = 0, pr_already = 0, pr_failed = 0,
                pr_dry = po_dry opts, pr_rows = []\<rparr>"
  have go: "publish_rows cd r sg cancelled (later 1 flt) 0 key opts cands (?run0, s, ev) = ((run, s', ev'), err)"
    using assms(2) unfolding PublishDataMaps_def ListPrivatePublishCandidates_def cands_def cands0_def rows_def
    by (auto simp: Let_def split: prod.splits if_splits)
  from publish_rows_run [OF go] obtain rs where rs: "pr_rows run = rs" "map rr_id rs = map u_id (take (length rs) cands)"
      "length rs \<le> length cands" "s' = fold mark_row rs s" "counters_ok run" "pr_candidates run = length cands"
      "\<exists>ps. payments_sent ev' = payments_sent ev @ ps \<and> length ps \<le> length (filter may_cost rs)"
      "err = None \<longrightarrow> length rs = length cands" "po_dry opts \<longrightarrow> (\<forall>row \<in> set rs. rr_outcome row = RDryRun)"
    by auto
  have "distinct (map u_id (uploads s))" using assms(1) by (simp add: db_ok_def keyed_def)
  then have "distinct (map u_id rows)"
    by (simp add: rows_def order_asc_def distinct_map distinct_filter inj_on_def)
  then have d: "distinct (map u_id cands)"
    by (simp add: cands_def cands0_def distinct_map_filter take_map [symmetric])
  have mem: "u \<in> set (uploads s) \<and> publish_candidate u" if "u \<in> set cands" for u
    using that by (auto simp: cands_def cands0_def rows_def split: if_splits dest: in_set_takeD)
  have dist: "distinct (map rr_id rs)"
    unfolding rs(2) take_map [symmetric] using d by simp
  have "\<exists>u \<in> set (uploads s). u_id u = rr_id row \<and> publish_candidate u" if "row \<in> set rs" for row
  proof -
    have "rr_id row \<in> u_id ` set (take (length rs) cands)" using that rs(2) by (metis image_eqI list.set_map)
    then obtain u where "u \<in> set cands" "u_id u = rr_id row" by (auto dest: in_set_takeD)
    then show ?thesis using mem by blast
  qed
  moreover have "s' = s \<and> payments_sent ev' = payments_sent ev" if "po_dry opts"
  proof -
    have dry: "\<forall>row \<in> set rs. rr_outcome row = RDryRun" using rs(9) that by blast
    then have "filter may_cost rs = []" by (auto simp: filter_empty_conv may_cost_def)
    moreover have "fold mark_row rs t = t" if "\<forall>row \<in> set rs. rr_outcome row = RDryRun" for t
      using that by (induction rs) (auto simp: mark_row_def)
    ultimately show ?thesis using rs(4,7) dry by auto
  qed
  ultimately show ?thesis
    using rs dist fold_mark_row [OF dist, of s] by auto
qed


definition stored_upload :: upload where
  "stored_upload = (new_upload 1 ''u'' 5 1 None ''f'' ''f'' 10 ''t'' Private ''/tmp/f'' None)
     \<lparr>u_status := Completed, u_datamap := Some ''00'', u_address := None\<rparr>"

definition stored_db :: db where
  "stored_db = empty_db\<lparr>uploads := [stored_upload], upload_seq := 1\<rparr>"

theorem publish_run_accounts_for_rows_witness:
  "\<exists>run s' ev'. PublishDataMaps (one_chunk_daemon (\<lambda>_ _. Inr [NUL])) pay_rpc \<lparr>sg_url = ''rpc'', sg_timeout = 0\<rparr> (\<lambda>_. False)
     no_faults ''pk'' \<lparr>po_dry = False, po_limit = 0, po_uuid = [], po_verify = True\<rparr> stored_db \<lparr>ev_step = 0, ev_sent = []\<rparr> =
     ((Some run, None), s', ev') \<and> counters_ok run \<and> length (pr_rows run) = 1 \<and> length (payments_sent ev') \<le> 1"
proof -
  let ?cd = "one_chunk_daemon (\<lambda>_ _. Inr [NUL])" and ?sg = "\<lparr>sg_url = ''rpc'', sg_timeout = 0\<rparr>"
  let ?opts = "\<lparr>po_dry = False, po_limit = 0, po_uuid = [], po_verify = True\<rparr>" and ?ev = "\<lparr>ev_step = 0, ev_sent = []\<rparr>"
  have ok: "db_ok stored_db"
    by (simp add: db_ok_def stored_db_def empty_db_def keyed_def fk_uploads_def fk_wallets_def stored_upload_def new_upload_def)
  have list: "ListPrivatePublishCandidates no_faults 0 stored_db = Inr [stored_upload]"
    by (simp add: ListPrivatePublishCandidates_def stored_db_def stored_upload_def new_upload_def publish_candidate_def order_asc_def)
  let ?run0 = "\<lparr>pr_candidates = 1, pr_published = 0, pr_verified = 0, pr_already = 0, pr_failed = 0, pr_dry = False, pr_rows = []\<rparr>"
  obtain run s' ev' where row: "publish_row ?cd pay_rpc ?sg no_faults 0 ''pk'' ?opts stored_upload (?run0, stored_db, ?ev) = (run, s', ev')"
    by (metis prod_cases3)
  have run: "PublishDataMaps ?cd pay_rpc ?sg (\<lambda>_. False) no_faults ''pk'' ?opts stored_db ?ev = ((Some run, None), s', ev')"
    using row by (simp add: PublishDataMaps_def list)
  note all = publish_run_accounts_for_rows [OF ok run]
  have "pr_rows run = pr_rows ?run0 @ [List.last (pr_rows run)]" using publish_row_step [OF row refl] by (elim conjE)
  then have "length (pr_rows run) = 1" by (metis append_Nil length_Cons list.size(3) One_nat_def publish_run.select_convs(7))
  moreover have "counters_ok run" using all by (elim conjE)
  moreover have "length (filter may_cost (pr_rows run)) \<le> 1"
    using \<open>length (pr_rows run) = 1\<close> length_filter_le [of may_cost "pr_rows run"] by simp
  then have "length (payments_sent ev') \<le> 1"
    using all by (elim conjE exE) (simp add: payments_sent_def [of ?ev])
  ultimately show ?thesis using run by blast
qed

end
