(* ===== verification/Log_Reports.thy ===== *)
theory Log_Reports
  imports Audit_Chain
begin

text \<open>
  What the log exports and statistics report: an export hands every selected row to its callback exactly
  once, newest first, or stops at the cap with an error; the \<open>by_day\<close> breakdown counts each of the last
  30 days exactly, in both dialects.
\<close>

section \<open>Exports\<close>

text \<open>A callback that never fails and keeps what it gets.\<close>

definition collect :: "'r \<Rightarrow> 'r list \<Rightarrow> error option \<times> 'r list" where
  "collect r acc = (None, acc @ [r])"

lemma stream_rows_collect:
  assumes "0 \<le> n" and "n \<le> ExportMaxRows"
  shows "stream_rows no_faults collect n rows acc =
     (if n + int (length rows) \<le> ExportMaxRows then ((n + int (length rows), None), acc @ rows)
      else ((ExportMaxRows, Some ErrExportCapExceeded), acc @ take (nat (ExportMaxRows - n)) rows))"
  using assms
proof (induction rows arbitrary: n acc)
  case (Cons r rows)
  show ?case
  proof (cases "ExportMaxRows < n + 1")
    case True
    then show ?thesis using Cons.prems by simp
  next
    case False
    then have "nat (ExportMaxRows - n) = Suc (nat (ExportMaxRows - (n + 1)))" by linarith
    then show ?thesis
      using Cons.IH [of "n + 1" "acc @ [r]"] Cons.prems False by (simp add: collect_def add.assoc)
  qed
qed simp

lemma stream_query_collect:
  "stream_query no_faults at collect rows [] =
     (if int (length rows) \<le> ExportMaxRows then ((int (length rows), None), order_desc at rows)
      else ((ExportMaxRows, Some ErrExportCapExceeded), take (nat ExportMaxRows) (order_desc at rows)))"
proof -
  let ?rs = "limit_offset (ExportMaxRows + 1) 0 (order_desc at rows)"
  have len: "int (length ?rs) = min (ExportMaxRows + 1) (int (length rows))"
    by (simp add: limit_offset_def ExportMaxRows_def)
  have "take (nat ExportMaxRows) ?rs = take (nat ExportMaxRows) (order_desc at rows)"
    by (simp add: limit_offset_def ExportMaxRows_def min_def)
  moreover have "?rs = order_desc at rows" if "int (length rows) \<le> ExportMaxRows"
    using that by (simp add: limit_offset_def ExportMaxRows_def)
  ultimately show ?thesis
    using stream_rows_collect [of 0 ?rs "[]"] len
    by (auto simp: stream_query_def ExportMaxRows_def)
qed

text \<open>An audit export without database error hands the callback the selected rows, each once and newest
  first. When there are at most a million it reports their number; when there are more it has handed over
  exactly a million and returns the cap error, never a silent cut. The request id column is not selected, so
  every exported entry carries the empty one.\<close>

theorem audit_export_complete_or_capped:
  "let rows = map export_of (filter (buildLogFilter d event severity uid since until) (audit_log s));
       ((n, err), out) = StreamAuditLogs d no_faults event severity uid since until collect s []
   in n = int (length out) \<and> n \<le> ExportMaxRows \<and>
      (err = None \<longleftrightarrow> int (length rows) \<le> ExportMaxRows) \<and>
      (err = None \<longrightarrow> out = order_desc le_at rows) \<and>
      (err \<noteq> None \<longrightarrow> err = Some ErrExportCapExceeded \<and> out = take (nat ExportMaxRows) (order_desc le_at rows)) \<and>
      (\<forall>e \<in> set out. le_request e = [])"
proof -
  let ?rows = "map export_of (filter (buildLogFilter d event severity uid since until) (audit_log s))"
  have blank: "\<forall>e \<in> set ?rows. le_request e = []" by (auto simp: export_of_def)
  then have "\<forall>e \<in> set (take k (order_desc le_at ?rows)). le_request e = []" for k
    by (metis in_set_takeD set_order_desc)
  then show ?thesis
    using blank by (simp add: StreamAuditLogs_def stream_query_collect Let_def ExportMaxRows_def)
qed

theorem audit_export_complete_or_capped_witness:
  "snd (StreamAuditLogs SQLite no_faults [] [] None None None collect sample_log []) =
     [export_of (audit_entry_of 1 5 sample_call [])]"
  using audit_export_complete_or_capped [of SQLite "[]" "[]" None None None sample_log]
  by (simp add: Let_def sample_log_rows buildLogFilter_def time_bounds_def order_desc_def ExportMaxRows_def split: prod.splits)

section \<open>Statistics\<close>

lemma map_of_group_counts:
  "map_of (group_counts key rows) k = (if k \<in> key ` set rows then Some (count_by key rows k) else None)"
proof -
  have "map_of (map (\<lambda>k. (k, f k)) ks) k = (if k \<in> set ks then Some (f k) else None)" for ks and f :: "'a \<Rightarrow> int"
    by (induction ks) auto
  then show ?thesis by (simp add: group_counts_def)
qed

lemma count_by_filter:
  "(\<And>r. r \<in> set rows \<Longrightarrow> key r = k \<Longrightarrow> P r) \<Longrightarrow> count_by key (filter P rows) k = count_by key rows k"
  by (induction rows) (auto simp: count_by_def rows_affected_def)

lemma count_by_absent: "k \<notin> key ` set rows \<Longrightarrow> count_by key rows k = 0"
  by (auto simp: count_by_def rows_affected_def filter_empty_conv)

lemma day_of_minus: "day_of (t - k * seconds_per_day) = day_of t - k"
proof -
  have "day_of (t + (- k) * seconds_per_day) = - k + day_of t"
    unfolding day_of_def by (rule div_mult_self1) (simp add: seconds_per_day_def)
  then show ?thesis by simp
qed

text \<open>The window the query selects contains the 30 days shown, in both dialects.\<close>

lemma window_covers_days:
  assumes "i < 30" and "day_of t = day_of now - int i"
  shows "created_at_ge d t (thirtyDaysAgo now)"
proof -
  have lt: "day_of (thirtyDaysAgo now) < day_of t"
    using assms by (simp add: thirtyDaysAgo_def day_of_minus)
  have "thirtyDaysAgo now \<le> t"
  proof (rule ccontr)
    assume "\<not> thirtyDaysAgo now \<le> t"
    then have "day_of t \<le> day_of (thirtyDaysAgo now)"
      unfolding day_of_def by (intro zdiv_mono1) (simp_all add: seconds_per_day_def)
    then show False using lt by simp
  qed
  then show ?thesis using lt by (simp add: created_at_ge_def day_of_def split: dialect.split)
qed

text \<open>The per-day breakdown of every log: 30 entries, from 29 days ago to today in order, each the exact
  number of rows of that day, whichever database holds them.\<close>

theorem by_day_counts_each_day:
  "by_day d now at rows =
     map (\<lambda>i. (day_of now - 29 + int i, count_by (\<lambda>r. day_of (at r)) rows (day_of now - 29 + int i))) [0..<30]"
proof -
  let ?k = "\<lambda>r. day_of (at r)" and ?P = "\<lambda>r. created_at_ge d (at r) (thirtyDaysAgo now)"
  have one: "(let e = day_of (now - int i * seconds_per_day)
        in (e, case map_of (group_counts ?k (filter ?P rows)) e of None \<Rightarrow> 0 | Some c \<Rightarrow> c)) =
      (day_of now - int i, count_by ?k rows (day_of now - int i))" if "i < 30" for i
  proof -
    have "count_by ?k (filter ?P rows) (day_of now - int i) = count_by ?k rows (day_of now - int i)"
      by (rule count_by_filter) (rule window_covers_days [OF that])
    moreover have "(case map_of (group_counts ?k (filter ?P rows)) e of None \<Rightarrow> 0 | Some c \<Rightarrow> c) = count_by ?k (filter ?P rows) e" for e
      using count_by_absent [of e ?k "filter ?P rows"] by (simp add: map_of_group_counts del: set_filter)
    ultimately show ?thesis
      by (simp add: Let_def day_of_minus)
  qed
  have "rev [0..<30] = map (\<lambda>i. 29 - i) [0..<30]"
    by (rule nth_equalityI) (simp_all add: rev_nth)
  moreover have "by_day d now at rows = map (\<lambda>i. (day_of now - int i, count_by ?k rows (day_of now - int i))) (rev [0..<30])"
    unfolding by_day_def scanByDay_def by (intro map_cong refl one) simp
  ultimately have "by_day d now at rows = map (\<lambda>i. (day_of now - int (29 - i), count_by ?k rows (day_of now - int (29 - i)))) [0..<30]"
    by simp
  also have "\<dots> = map (\<lambda>i. (day_of now - 29 + int i, count_by ?k rows (day_of now - 29 + int i))) [0..<30]"
    by (intro map_cong refl) (simp add: of_nat_diff algebra_simps)
  finally show ?thesis .
qed

end
