(* ===== verification/Webhooks.thy ===== *)
theory Webhooks
  imports Audit_Log
begin

text \<open>
  \<open>internal/services/webhook.go\<close>, \<open>webhook_delivery.go\<close> and the egress guard of
  \<open>safehttp.go\<close>: webhook rows, signing, delivery with retries, the delivery log and the dead-letter
  queue. The HTTP client is a parameter that gives the answer of each attempt. A payload is kept as the
  value of which the Go code stores the JSON text; \<open>marshal\<close> is \<open>json.Marshal\<close>, a parameter. The
  \<open>events\<close> column is the list it decodes to, \<open>None\<close> where it is no JSON array of strings.
\<close>

section \<open>Egress guard\<close>

text \<open>A \<open>net.IP\<close> is its 4 or 16 bytes; \<open>To4\<close> also takes the IPv4-mapped 16-byte form.\<close>

type_synonym ip = "nat list"

definition To4 :: "ip \<Rightarrow> ip option" where
  "To4 a = (if length a = 4 then Some a
     else if length a = 16 \<and> take 10 a = replicate 10 0 \<and> a ! 10 = 255 \<and> a ! 11 = 255 then Some (drop 12 a)
     else None)"

definition IsLoopback :: "ip \<Rightarrow> bool" where
  "IsLoopback a = (case To4 a of Some b \<Rightarrow> b ! 0 = 127 | None \<Rightarrow> a = replicate 15 0 @ [1])"

definition IsPrivate :: "ip \<Rightarrow> bool" where
  "IsPrivate a = (case To4 a of
     Some b \<Rightarrow> b ! 0 = 10 \<or> (b ! 0 = 172 \<and> b ! 1 div 16 = 1) \<or> (b ! 0 = 192 \<and> b ! 1 = 168)
   | None \<Rightarrow> length a = 16 \<and> a ! 0 div 2 = 126)"

definition IsLinkLocalUnicast :: "ip \<Rightarrow> bool" where
  "IsLinkLocalUnicast a = (case To4 a of
     Some b \<Rightarrow> b ! 0 = 169 \<and> b ! 1 = 254
   | None \<Rightarrow> length a = 16 \<and> a ! 0 = 254 \<and> a ! 1 div 64 = 2)"

definition IsLinkLocalMulticast :: "ip \<Rightarrow> bool" where
  "IsLinkLocalMulticast a = (case To4 a of
     Some b \<Rightarrow> b ! 0 = 224 \<and> b ! 1 = 0 \<and> b ! 2 = 0
   | None \<Rightarrow> length a = 16 \<and> a ! 0 = 255 \<and> a ! 1 mod 16 = 2)"

definition IsUnspecified :: "ip \<Rightarrow> bool" where
  "IsUnspecified a = (case To4 a of Some b \<Rightarrow> b = [0, 0, 0, 0] | None \<Rightarrow> a = replicate 16 0)"

definition IsMulticast :: "ip \<Rightarrow> bool" where
  "IsMulticast a = (case To4 a of Some b \<Rightarrow> b ! 0 div 16 = 14 | None \<Rightarrow> length a = 16 \<and> a ! 0 = 255)"

definition isBlockedIP :: "ip option \<Rightarrow> bool" where
  "isBlockedIP a = (case a of
     None \<Rightarrow> True
   | Some x \<Rightarrow> IsLoopback x \<or> IsPrivate x \<or> IsLinkLocalUnicast x \<or> IsLinkLocalMulticast x \<or> IsUnspecified x \<or> IsMulticast x)"

text \<open>\<open>ssrfControl\<close> in a production build: \<open>split\<close> is \<open>net.SplitHostPort\<close> and \<open>parse\<close>
  is \<open>net.ParseIP\<close>; true means that the connection may proceed.\<close>

definition ssrfControl :: "(string \<Rightarrow> string option) \<Rightarrow> (string \<Rightarrow> ip option) \<Rightarrow> string \<Rightarrow> bool" where
  "ssrfControl split parse address =
     (case split address of None \<Rightarrow> False | Some host \<Rightarrow> \<not> isBlockedIP (parse host))"

text \<open>The redirect policy: at most five hops, each dialed through the guard.\<close>

definition allow_redirect :: "nat \<Rightarrow> bool" where
  "allow_redirect via \<longleftrightarrow> via < 5"

text \<open>\<open>url.Parse\<close> gives scheme and host, or fails.\<close>

type_synonym url_parser = "string \<Rightarrow> (string \<times> string) option"

definition validateOutboundURL :: "url_parser \<Rightarrow> string \<Rightarrow> bool" where
  "validateOutboundURL parse raw =
     (case parse raw of
        None \<Rightarrow> False
      | Some (scheme, host) \<Rightarrow> (scheme = ''http'' \<or> scheme = ''https'') \<and> host \<noteq> [])"

definition RedactWebhookURL :: "url_parser \<Rightarrow> string \<Rightarrow> string" where
  "RedactWebhookURL parse raw =
     (case parse raw of
        None \<Rightarrow> ''redacted''
      | Some (scheme, host) \<Rightarrow> if host = [] then ''redacted'' else scheme @ ''://'' @ host)"

section \<open>State\<close>

record webhook =
  wh_id :: int
  wh_url :: string
  wh_type :: string
  wh_enabled :: bool
  wh_events :: "string list option"
  wh_secret :: string
  wh_created_at :: time
  wh_updated_at :: time

record upload_data =
  ud_uuid :: string
  ud_user :: int
  ud_token :: "int option"
  ud_filename :: string
  ud_status :: string
  ud_size :: int
  ud_visibility :: string
  ud_cost :: "string option"
  ud_error :: "string option"

text \<open>\<open>Value\<close> is a float that the code only prints; \<open>sd_percent\<close> is it in the format \<open>%.1f\<close>.\<close>

record system_data =
  sd_alert :: string
  sd_message :: string
  sd_percent :: string

record payload =
  py_event :: string
  py_timestamp :: string
  py_upload :: "upload_data option"
  py_system :: "system_data option"
  py_tags :: "(string \<times> (string \<times> string list) list) option"
  py_collection :: "(string \<times> int \<times> string) option"
  py_auth :: "(string \<times> string) option"

record delivery =
  dv_id :: int
  dv_webhook :: int
  dv_event :: string
  dv_status :: "int option"
  dv_success :: bool
  dv_attempts :: int
  dv_error :: "string option"
  dv_at :: time

record dead_letter =
  dl_id :: int
  dl_webhook :: int
  dl_event :: string
  dl_payload :: payload
  dl_status :: "int option"
  dl_error :: "string option"
  dl_attempts :: int
  dl_resends :: int
  dl_auth :: bool
  dl_at :: time
  dl_resolved :: "time option"

record hook_db =
  hooks :: "webhook list"
  hook_seq :: int
  deliveries :: "delivery list"
  delivery_seq :: int
  dead_letters :: "dead_letter list"
  dead_letter_seq :: int
  hook_logs :: log_db

definition ErrWebhookNotFound :: error where
  "ErrWebhookNotFound = ErrMsg ''webhook not found''"

definition ErrDeadLetterNotFound :: error where
  "ErrDeadLetterNotFound = ErrMsg ''dead-letter entry not found''"

definition ErrInvalidURL :: error where
  "ErrInvalidURL = ErrMsg ''invalid URL''"

section \<open>WebhookService\<close>

definition Webhook_GetByID :: "faults \<Rightarrow> int \<Rightarrow> hook_db \<Rightarrow> error + webhook" where
  "Webhook_GetByID flt i s =
     (if flt 0 then Inl DBError
      else case find (\<lambda>w. wh_id w = i) (hooks s) of None \<Rightarrow> Inl ErrWebhookNotFound | Some w \<Rightarrow> Inr w)"

definition default_events :: "string list" where
  "default_events = [''completed'', ''failed'']"

text \<open>\<open>raw\<close> are the 32 random bytes. An empty \<open>events\<close> argument is \<open>None\<close> here: the default list is
  stored. Faults: 0 the random source, 1 the insert, 2 the read.\<close>

definition Webhook_Create ::
  "url_parser \<Rightarrow> faults \<Rightarrow> time \<Rightarrow> string \<Rightarrow> string \<Rightarrow> string \<Rightarrow> string list option option \<Rightarrow> hook_db \<Rightarrow> (error + webhook) \<times> hook_db" where
  "Webhook_Create parse flt now raw url integrationType events s =
     (if \<not> validateOutboundURL parse url then (Inl ErrInvalidURL, s)
      else if flt 0 then (Inl ErrIO, s)
      else if flt 1 then (Inl DBError, s)
      else let i = hook_seq s + 1;
               w = \<lparr>wh_id = i, wh_url = url, wh_type = (if integrationType = [] then ''generic'' else integrationType),
                    wh_enabled = True, wh_events = (case events of None \<Rightarrow> Some default_events | Some e \<Rightarrow> e),
                    wh_secret = ''whsec_'' @ hex_encode raw, wh_created_at = now, wh_updated_at = now\<rparr>;
               s' = s\<lparr>hooks := hooks s @ [w], hook_seq := i\<rparr>
           in (Webhook_GetByID (later 2 flt) i s', s'))"

definition Webhook_List :: "faults \<Rightarrow> hook_db \<Rightarrow> error + webhook list" where
  "Webhook_List flt s = (if flt 0 then Inl DBError else Inr (order_asc wh_created_at (hooks s)))"

definition Webhook_Update ::
  "url_parser \<Rightarrow> faults \<Rightarrow> time \<Rightarrow> int \<Rightarrow> string \<Rightarrow> string \<Rightarrow> string list option \<Rightarrow> bool \<Rightarrow> hook_db \<Rightarrow> (error + webhook) \<times> hook_db" where
  "Webhook_Update parse flt now i url integrationType events isEnabled s =
     (if \<not> validateOutboundURL parse url then (Inl ErrInvalidURL, s)
      else if flt 0 then (Inl DBError, s)
      else let s' = s\<lparr>hooks := update_where (\<lambda>w. wh_id w = i)
                 (\<lambda>w. w\<lparr>wh_url := url, wh_type := integrationType, wh_events := events, wh_enabled := isEnabled,
                        wh_updated_at := now\<rparr>) (hooks s)\<rparr>
           in (Webhook_GetByID (later 1 flt) i s', s'))"

text \<open>The foreign keys of the delivery log and of the dead letters cascade.\<close>

definition Webhook_Delete :: "faults \<Rightarrow> int \<Rightarrow> hook_db \<Rightarrow> (error + unit) \<times> hook_db" where
  "Webhook_Delete flt i s =
     (if flt 0 then (Inl DBError, s)
      else if rows_affected (\<lambda>w. wh_id w = i) (hooks s) = 0 then (Inl ErrWebhookNotFound, s)
      else (Inr (), s\<lparr>hooks := delete_where (\<lambda>w. wh_id w = i) (hooks s),
                     deliveries := delete_where (\<lambda>d. dv_webhook d = i) (deliveries s),
                     dead_letters := delete_where (\<lambda>d. dl_webhook d = i) (dead_letters s)\<rparr>))"

definition Webhook_RotateSecret :: "faults \<Rightarrow> time \<Rightarrow> string \<Rightarrow> int \<Rightarrow> hook_db \<Rightarrow> (error + string) \<times> hook_db" where
  "Webhook_RotateSecret flt now raw i s =
     (if flt 0 then (Inl ErrIO, s)
      else if flt 1 then (Inl DBError, s)
      else if rows_affected (\<lambda>w. wh_id w = i) (hooks s) = 0 then (Inl ErrWebhookNotFound, s)
      else (Inr (''whsec_'' @ hex_encode raw),
            s\<lparr>hooks := update_where (\<lambda>w. wh_id w = i)
                 (\<lambda>w. w\<lparr>wh_secret := ''whsec_'' @ hex_encode raw, wh_updated_at := now\<rparr>) (hooks s)\<rparr>))"

definition GetEnabled :: "faults \<Rightarrow> hook_db \<Rightarrow> error + webhook list" where
  "GetEnabled flt s = (if flt 0 then Inl DBError else Inr (filter wh_enabled (hooks s)))"

section \<open>Signing\<close>

definition xor_byte :: "nat \<Rightarrow> char \<Rightarrow> char" where
  "xor_byte k c = char_of ((of_char c :: nat) XOR k)"

definition hmac_key :: "string \<Rightarrow> string" where
  "hmac_key key = (let k = if 64 < length key then sha256 key else key in k @ replicate (64 - length k) NUL)"

definition hmac_sha256 :: "string \<Rightarrow> string \<Rightarrow> string" where
  "hmac_sha256 key msg =
     sha256 (map (xor_byte 92) (hmac_key key) @ sha256 (map (xor_byte 54) (hmac_key key) @ msg))"

definition signed_message :: "time \<Rightarrow> string \<Rightarrow> string" where
  "signed_message ts body = show_int ts @ ''.'' @ body"

record request =
  rq_url :: string
  rq_body :: string
  rq_timestamp :: string
  rq_signature :: "string option"

definition setSignedHeaders :: "time \<Rightarrow> webhook \<Rightarrow> string \<Rightarrow> request" where
  "setSignedHeaders now wh body =
     \<lparr>rq_url = wh_url wh, rq_body = body, rq_timestamp = show_int now,
      rq_signature = (if wh_secret wh = [] then None
         else Some (''sha256='' @ hex_encode (hmac_sha256 (wh_secret wh) (signed_message now body))))\<rparr>"

definition webhookSubscribedTo :: "webhook \<Rightarrow> string \<Rightarrow> bool" where
  "webhookSubscribedTo wh event = (case wh_events wh of None \<Rightarrow> False | Some es \<Rightarrow> event \<in> set es)"

section \<open>Payloads\<close>

fun escapeSlackText :: "string \<Rightarrow> string" where
  "escapeSlackText [] = []"
| "escapeSlackText (c # cs) =
     (if c = CHR ''&'' then ''&amp;'' else if c = CHR ''<'' then ''&lt;'' else if c = CHR ''>'' then ''&gt;'' else [c])
       @ escapeSlackText cs"

text \<open>The dash of the messages in UTF-8.\<close>

definition em_dash :: string where
  "em_dash = [CHR 0xE2, CHR 0x80, CHR 0x94]"

definition backtick :: char where
  "backtick = CHR 0x60"

definition quoted :: "string \<Rightarrow> string" where
  "quoted t = backtick # t @ [backtick]"

definition slack_text :: "payload \<Rightarrow> string" where
  "slack_text p =
     (let head = ''*'' @ py_event p @ ''*''
      in case py_upload p of
           Some u \<Rightarrow> head @ '': '' @ quoted (escapeSlackText (ud_filename u)) @ '' '' @ em_dash @ '' '' @
               escapeSlackText (ud_status u) @ '' ('' @ show_int (ud_size u) @ '' bytes)'' @
               (case ud_cost u of None \<Rightarrow> [] | Some c \<Rightarrow> '' | Cost: '' @ escapeSlackText c @ '' atto'') @
               (case ud_error u of None \<Rightarrow> [] | Some e \<Rightarrow> CHR 0x0A # ''Error: '' @ escapeSlackText e)
         | None \<Rightarrow>
        (case py_tags p of
           Some (uuid, tags) \<Rightarrow> head @ '': '' @ quoted (escapeSlackText uuid) @ '' '' @ em_dash @ '' '' @
               show_int (int (length tags)) @ '' tags''
         | None \<Rightarrow>
        (case py_collection p of
           Some (uuid, i, name) \<Rightarrow> head @ '': '' @ quoted (escapeSlackText uuid) @ '' '' @ em_dash @ '' collection '' @
               quoted (escapeSlackText name)
         | None \<Rightarrow>
        (case py_system p of
           Some d \<Rightarrow> head @ '': '' @ escapeSlackText (sd_message d) @ '' ('' @ sd_percent d @ ''%)''
         | None \<Rightarrow>
        (case py_auth p of
           Some (to, url) \<Rightarrow> head @ [CHR 0x0A] @ ''Deliver to: '' @ quoted (escapeSlackText to) @ [CHR 0x0A] @
               ''<'' @ url @ ''|Click here to continue>''
         | None \<Rightarrow> head @ '' '' @ em_dash @ '' Indelible test ping at '' @ py_timestamp p)))))"

text \<open>What \<open>json.Marshal\<close> is given: the payload struct, or the Slack map around a text. The parameter
  answers \<open>None\<close> on a marshalling error.\<close>

datatype json_doc = Payload_JSON payload | Slack_JSON string

type_synonym marshaller = "json_doc \<Rightarrow> string option"

definition formatPayload :: "marshaller \<Rightarrow> string \<Rightarrow> payload \<Rightarrow> string option" where
  "formatPayload marshal integrationType p =
     (if integrationType = ''slack'' then marshal (Slack_JSON (slack_text p)) else marshal (Payload_JSON p))"

definition empty_payload :: "string \<Rightarrow> string \<Rightarrow> payload" where
  "empty_payload event ts = \<lparr>py_event = event, py_timestamp = ts, py_upload = None, py_system = None, py_tags = None,
     py_collection = None, py_auth = None\<rparr>"

definition upload_payload :: "string \<Rightarrow> string \<Rightarrow> upload \<Rightarrow> payload" where
  "upload_payload event ts u = (empty_payload event ts)\<lparr>py_upload := Some
     \<lparr>ud_uuid = u_uuid u, ud_user = u_user u, ud_token = u_token u, ud_filename = u_original u,
      ud_status = status_text (u_status u), ud_size = u_size u, ud_visibility = visibility_text (u_visibility u),
      ud_cost = u_actual_cost u, ud_error = u_error u\<rparr>\<rparr>"

section \<open>Delivery\<close>

text \<open>One \<open>go s.deliver(wh, payload)\<close> per enabled and subscribed webhook.\<close>

definition fire :: "faults \<Rightarrow> payload \<Rightarrow> hook_db \<Rightarrow> (webhook \<times> payload) list" where
  "fire flt p s =
     (case GetEnabled flt s of
        Inl _ \<Rightarrow> []
      | Inr ws \<Rightarrow> map (\<lambda>w. (w, p)) (filter (\<lambda>w. webhookSubscribedTo w (py_event p)) ws))"

definition FireUploadEvent :: "faults \<Rightarrow> string \<Rightarrow> string \<Rightarrow> upload \<Rightarrow> hook_db \<Rightarrow> (webhook \<times> payload) list" where
  "FireUploadEvent flt ts event u s = fire flt (upload_payload event ts u) s"

definition FireSystemEvent :: "faults \<Rightarrow> string \<Rightarrow> string \<Rightarrow> system_data \<Rightarrow> hook_db \<Rightarrow> (webhook \<times> payload) list" where
  "FireSystemEvent flt ts event d s = fire flt ((empty_payload event ts)\<lparr>py_system := Some d\<rparr>) s"

definition FireTagEvent ::
  "faults \<Rightarrow> string \<Rightarrow> string \<Rightarrow> string \<Rightarrow> (string \<times> string list) list \<Rightarrow> hook_db \<Rightarrow> (webhook \<times> payload) list" where
  "FireTagEvent flt ts event uuid tags s = fire flt ((empty_payload event ts)\<lparr>py_tags := Some (uuid, tags)\<rparr>) s"

definition FireCollectionEvent ::
  "faults \<Rightarrow> string \<Rightarrow> string \<Rightarrow> string \<Rightarrow> int \<Rightarrow> string \<Rightarrow> hook_db \<Rightarrow> (webhook \<times> payload) list" where
  "FireCollectionEvent flt ts event uuid i name s =
     fire flt ((empty_payload event ts)\<lparr>py_collection := Some (uuid, i, name)\<rparr>) s"

definition FireAuthEvent ::
  "faults \<Rightarrow> string \<Rightarrow> string \<Rightarrow> string \<times> string \<Rightarrow> hook_db \<Rightarrow> (webhook \<times> payload) list" where
  "FireAuthEvent flt ts event d s = fire flt ((empty_payload event ts)\<lparr>py_auth := Some d\<rparr>) s"

text \<open>\<open>logDelivery\<close> keeps no error.\<close>

definition logDelivery ::
  "faults \<Rightarrow> time \<Rightarrow> int \<Rightarrow> string \<Rightarrow> int \<Rightarrow> bool \<Rightarrow> int \<Rightarrow> string \<Rightarrow> hook_db \<Rightarrow> hook_db" where
  "logDelivery flt now webhookID event statusCode success attempts errMsg s =
     (if flt 0 then s
      else s\<lparr>deliveries := deliveries s @ [\<lparr>dv_id = delivery_seq s + 1, dv_webhook = webhookID, dv_event = event,
               dv_status = (if 0 < statusCode then Some statusCode else None), dv_success = success,
               dv_attempts = attempts, dv_error = (if errMsg = [] then None else Some errMsg), dv_at = now\<rparr>],
             delivery_seq := delivery_seq s + 1\<rparr>)"

definition is_auth_event :: "string \<Rightarrow> bool" where
  "is_auth_event event \<longleftrightarrow> take 5 event = ''auth.''"

text \<open>Faults: 0 marshalling, 1 the insert, 2 the system log.\<close>

definition recordDeadLetter :: "faults \<Rightarrow> time \<Rightarrow> webhook \<Rightarrow> payload \<Rightarrow> int \<Rightarrow> string \<Rightarrow> hook_db \<Rightarrow> hook_db" where
  "recordDeadLetter flt now wh p lastStatusCode lastErr s =
     (if flt 0 \<or> flt 1 then s
      else let s' = s\<lparr>dead_letters := dead_letters s @ [\<lparr>dl_id = dead_letter_seq s + 1, dl_webhook = wh_id wh,
                 dl_event = py_event p, dl_payload = p, dl_status = (if 0 < lastStatusCode then Some lastStatusCode else None),
                 dl_error = (if lastErr = [] then None else Some lastErr), dl_attempts = 3, dl_resends = 0,
                 dl_auth = is_auth_event (py_event p), dl_at = now, dl_resolved = None\<rparr>],
               dead_letter_seq := dead_letter_seq s + 1\<rparr>
           in if is_auth_event (py_event p)
              then s'\<lparr>hook_logs := snd (WriteSystem (later 2 flt) now ''error'' ''webhook''
                       (''auth notification delivery failed ('' @ py_event p @ '') '' @ em_dash @ '' recovery link queued in dead-letter'')
                       (''webhook_id='' @ show_int (wh_id wh) @ '' to='' @ (case py_auth p of None \<Rightarrow> [] | Some (to, _) \<Rightarrow> to) @
                        '' last_error='' @ lastErr) [] (hook_logs s'))\<rparr>
              else s')"


text \<open>What the HTTP client answers to the k-th attempt (an error text, or a status code), the clock at each
  attempt, and whether \<open>http.NewRequest\<close> accepts a URL.\<close>

record http =
  hp_formable :: "string \<Rightarrow> bool"
  hp_answer :: "nat \<Rightarrow> request \<Rightarrow> string + int"
  hp_clock :: "nat \<Rightarrow> time"

text \<open>What left the process: the requests, and the pauses between them in units of \<open>backoffBase\<close>.\<close>

record trace =
  tr_requests :: "request list"
  tr_sleeps :: "nat list"

definition no_trace :: trace where
  "no_trace = \<lparr>tr_requests = [], tr_sleeps = []\<rparr>"

datatype delivery_end = Accepted int nat | Unformable nat | Exhausted int string

definition success_code :: "int \<Rightarrow> bool" where
  "success_code c \<longleftrightarrow> 200 \<le> c \<and> c < 300"

definition http_error :: "int \<Rightarrow> string" where
  "http_error c = ''HTTP '' @ show_int c"

fun delivery_loop ::
  "http \<Rightarrow> webhook \<Rightarrow> string \<Rightarrow> nat list \<Rightarrow> int \<Rightarrow> string \<Rightarrow> trace \<Rightarrow> delivery_end \<times> trace" where
  "delivery_loop h wh body [] lastStatusCode lastErr tr = (Exhausted lastStatusCode lastErr, tr)"
| "delivery_loop h wh body (attempt # rest) lastStatusCode lastErr tr =
     (let tr1 = (if 0 < attempt then tr\<lparr>tr_sleeps := tr_sleeps tr @ [2 ^ attempt]\<rparr> else tr)
      in if \<not> hp_formable h (wh_url wh) then (Unformable (attempt + 1), tr1)
         else let rq = setSignedHeaders (hp_clock h attempt) wh body;
                  tr2 = tr1\<lparr>tr_requests := tr_requests tr1 @ [rq]\<rparr>
              in case hp_answer h attempt rq of
                   Inl e \<Rightarrow> delivery_loop h wh body rest lastStatusCode e tr2
                 | Inr code \<Rightarrow>
                     if success_code code then (Accepted code (attempt + 1), tr2)
                     else delivery_loop h wh body rest code (http_error code) tr2)"

text \<open>Faults: 0 the delivery log, then those of the dead letter.\<close>

definition deliver ::
  "marshaller \<Rightarrow> http \<Rightarrow> faults \<Rightarrow> time \<Rightarrow> webhook \<Rightarrow> payload \<Rightarrow> hook_db \<Rightarrow> hook_db \<times> trace" where
  "deliver marshal h flt now wh p s =
     (case formatPayload marshal (wh_type wh) p of
        None \<Rightarrow> (logDelivery flt now (wh_id wh) (py_event p) 0 False 0 ''json error'' s, no_trace)
      | Some body \<Rightarrow>
          (case delivery_loop h wh body [0, 1, 2] 0 [] no_trace of
             (Accepted code n, tr) \<Rightarrow> (logDelivery flt now (wh_id wh) (py_event p) code True (int n) [] s, tr)
           | (Unformable n, tr) \<Rightarrow> (logDelivery flt now (wh_id wh) (py_event p) 0 False (int n) ''bad request'' s, tr)
           | (Exhausted code e, tr) \<Rightarrow>
               (recordDeadLetter (later 1 flt) now wh p code e (logDelivery flt now (wh_id wh) (py_event p) code False 3 e s), tr)))"

definition FireTestPing ::
  "marshaller \<Rightarrow> http \<Rightarrow> faults \<Rightarrow> time \<Rightarrow> string \<Rightarrow> webhook \<Rightarrow> hook_db \<Rightarrow> (int \<times> bool \<times> string option) \<times> hook_db" where
  "FireTestPing marshal h flt now ts wh s =
     (let log = (\<lambda>code ok e. logDelivery flt now (wh_id wh) ''test_ping'' code ok 1 e s)
      in case formatPayload marshal (wh_type wh) (empty_payload ''test_ping'' ts) of
           None \<Rightarrow> ((0, False, Some ''json error''), log 0 False ''json error'')
         | Some body \<Rightarrow>
             if \<not> hp_formable h (wh_url wh) then ((0, False, Some ''bad request''), log 0 False ''bad request'')
             else case hp_answer h 0 (setSignedHeaders (hp_clock h 0) wh body) of
                    Inl e \<Rightarrow> ((0, False, Some e), log 0 False e)
                  | Inr code \<Rightarrow> ((code, success_code code, None),
                                log code (success_code code) (if success_code code then [] else http_error code)))"

section \<open>The delivery log and the dead letters\<close>

definition GetDeliveryLog :: "faults \<Rightarrow> int \<Rightarrow> int \<Rightarrow> hook_db \<Rightarrow> error + delivery list" where
  "GetDeliveryLog flt webhookID limit s =
     (if flt 0 then Inl DBError
      else Inr (limit_offset (if limit \<le> 0 then 20 else limit) 0
                 (order_desc dv_at (filter (\<lambda>d. dv_webhook d = webhookID) (deliveries s)))))"

text \<open>The two prunes bind a \<open>time.Time\<close>; \<open>bound t\<close> is the instant the database driver compares the column with
  (the identity on PostgreSQL; the SQLite driver stores a local-time text).\<close>

definition PruneDeliveryLog :: "faults \<Rightarrow> (time \<Rightarrow> time) \<Rightarrow> time \<Rightarrow> int \<Rightarrow> hook_db \<Rightarrow> (error + int) \<times> hook_db" where
  "PruneDeliveryLog flt bound now olderThan s =
     (let P = (\<lambda>d. dv_at d < bound (now - olderThan))
      in if flt 0 then (Inl DBError, s)
         else (Inr (rows_affected P (deliveries s)), s\<lparr>deliveries := delete_where P (deliveries s)\<rparr>))"

text \<open>Each row with the URL of its webhook (an inner join).\<close>

definition ListDeadLetters :: "faults \<Rightarrow> bool \<Rightarrow> int \<Rightarrow> hook_db \<Rightarrow> error + (dead_letter \<times> string) list" where
  "ListDeadLetters flt includeResolved limit s =
     (if flt 0 then Inl DBError
      else Inr (limit_offset (if limit \<le> 0 \<or> 200 < limit then 50 else limit) 0
                 (order_desc (\<lambda>x. dl_at (fst x))
                   (concat (map (\<lambda>d. case find (\<lambda>w. wh_id w = dl_webhook d) (hooks s) of
                                       None \<Rightarrow> [] | Some w \<Rightarrow> [(d, wh_url w)])
                     (filter (\<lambda>d. includeResolved \<or> dl_resolved d = None) (dead_letters s)))))))"

definition getDeadLetter :: "faults \<Rightarrow> int \<Rightarrow> hook_db \<Rightarrow> error + dead_letter" where
  "getDeadLetter flt i s =
     (if flt 0 then Inl DBError
      else case find (\<lambda>d. dl_id d = i) (dead_letters s) of None \<Rightarrow> Inl ErrDeadLetterNotFound | Some d \<Rightarrow> Inr d)"

text \<open>\<open>Resend\<close>: one synchronous attempt. Faults: 0 the row, 1 the webhook, 2 the delivery log, 3 the update.\<close>

definition Resend :: "marshaller \<Rightarrow> http \<Rightarrow> faults \<Rightarrow> time \<Rightarrow> int \<Rightarrow> hook_db \<Rightarrow> (error + unit) \<times> hook_db" where
  "Resend marshal h flt now i s =
     (case getDeadLetter flt i s of
        Inl e \<Rightarrow> (Inl e, s)
      | Inr dl \<Rightarrow>
     (case Webhook_GetByID (later 1 flt) (dl_webhook dl) s of
        Inl e \<Rightarrow> (Inl e, s)
      | Inr wh \<Rightarrow>
     (case formatPayload marshal (wh_type wh) (dl_payload dl) of
        None \<Rightarrow> (Inl ErrInvalid, s)
      | Some body \<Rightarrow>
          if \<not> hp_formable h (wh_url wh) then (Inl ErrInvalid, s)
          else let (statusCode, errMsg, ok) =
                 (case hp_answer h 0 (setSignedHeaders (hp_clock h 0) wh body) of
                    Inl e \<Rightarrow> (0, e, False)
                  | Inr code \<Rightarrow> (code, if success_code code then [] else http_error code, success_code code));
                 s1 = logDelivery (later 2 flt) now (wh_id wh) (py_event (dl_payload dl)) statusCode ok (dl_resends dl + 1) errMsg s
               in if ok
                  then (if flt 3 then (Inl DBError, s1)
                        else (Inr (), s1\<lparr>dead_letters := update_where (\<lambda>d. dl_id d = i)
                               (\<lambda>d. d\<lparr>dl_resolved := Some now, dl_resends := dl_resends d + 1,
                                      dl_status := Some statusCode, dl_error := None\<rparr>) (dead_letters s1)\<rparr>))
                  else (Inl (ErrMsg (''resend failed: '' @ errMsg)),
                        if flt 3 then s1
                        else s1\<lparr>dead_letters := update_where (\<lambda>d. dl_id d = i)
                               (\<lambda>d. d\<lparr>dl_resends := dl_resends d + 1, dl_status := (if 0 < statusCode then Some statusCode else None),
                                      dl_error := (if errMsg = [] then None else Some errMsg)\<rparr>) (dead_letters s1)\<rparr>))))"

definition ResolveDeadLetter :: "faults \<Rightarrow> time \<Rightarrow> int \<Rightarrow> hook_db \<Rightarrow> (error + unit) \<times> hook_db" where
  "ResolveDeadLetter flt now i s =
     (let P = (\<lambda>d. dl_id d = i \<and> dl_resolved d = None)
      in if flt 0 then (Inl DBError, s)
         else if rows_affected P (dead_letters s) = 0
              then ((case getDeadLetter (later 1 flt) i s of Inl e \<Rightarrow> Inl e | Inr _ \<Rightarrow> Inr ()), s)
         else (Inr (), s\<lparr>dead_letters := update_where P (\<lambda>d. d\<lparr>dl_resolved := Some now\<rparr>) (dead_letters s)\<rparr>))"

definition PruneDeadLetters :: "faults \<Rightarrow> (time \<Rightarrow> time) \<Rightarrow> time \<Rightarrow> int \<Rightarrow> hook_db \<Rightarrow> (error + int) \<times> hook_db" where
  "PruneDeadLetters flt bound now olderThan s =
     (let P = (\<lambda>d. case dl_resolved d of None \<Rightarrow> False | Some t \<Rightarrow> t < bound (now - olderThan))
      in if flt 0 then (Inl DBError, s)
         else (Inr (rows_affected P (dead_letters s)), s\<lparr>dead_letters := delete_where P (dead_letters s)\<rparr>))"

end
