(* ===== verification/Webhook_Guarantees.thy ===== *)
theory Webhook_Guarantees
  imports Webhooks
begin

text \<open>
  What webhook delivery guarantees: each delivery is settled by exactly one log row and, when all attempts
  failed, one dead letter; signatures bind timestamp and body; an unresolved dead letter outlives every
  operation that does not settle it; the egress guard blocks exactly the listed address ranges.
\<close>

section \<open>Delivery\<close>

definition accepted_at :: "http \<Rightarrow> webhook \<Rightarrow> string \<Rightarrow> nat \<Rightarrow> bool" where
  "accepted_at h wh body k =
     (case hp_answer h k (setSignedHeaders (hp_clock h k) wh body) of Inl _ \<Rightarrow> False | Inr c \<Rightarrow> success_code c)"

definition attempts_made :: "http \<Rightarrow> webhook \<Rightarrow> string \<Rightarrow> nat" where
  "attempts_made h wh body = (if accepted_at h wh body 0 then 1 else if accepted_at h wh body 1 then 2 else 3)"

definition sends :: "http \<Rightarrow> webhook \<Rightarrow> string \<Rightarrow> nat \<Rightarrow> request list" where
  "sends h wh body n = map (\<lambda>k. setSignedHeaders (hp_clock h k) wh body) [0..<n]"

lemma delivery_loop_three:
  assumes "hp_formable h (wh_url wh)"
  shows "\<exists>e. delivery_loop h wh body [0, 1, 2] 0 [] no_trace =
     (e, \<lparr>tr_requests = sends h wh body (attempts_made h wh body), tr_sleeps = take (attempts_made h wh body - 1) [2, 4]\<rparr>) \<and>
     ((\<exists>c. e = Accepted c (attempts_made h wh body) \<and> success_code c \<and> (\<exists>k < 3. accepted_at h wh body k)) \<or>
      (\<exists>c t. e = Exhausted c t \<and> \<not> (\<exists>k < 3. accepted_at h wh body k)))"
proof -
  let ?a = "\<lambda>k. hp_answer h k (setSignedHeaders (hp_clock h k) wh body)"
  have three: "(\<exists>k < 3. P k) \<longleftrightarrow> P 0 \<or> P 1 \<or> P 2" for P :: "nat \<Rightarrow> bool"
    by (simp add: numeral_eq_Suc less_Suc_eq) blast
  have seqs: "[0..<1] = [0 :: nat]" "[0..<2] = [0 :: nat, 1]" "[0..<3] = [0 :: nat, 1, 2]" "[0..<Suc 0] = [0]"
    by (simp_all add: upt_rec)
  show ?thesis
    unfolding three attempts_made_def sends_def accepted_at_def
    using assms
    by (cases "?a 0"; cases "?a 1"; cases "?a 2") (auto simp: no_trace_def seqs Let_def simp del: upt_Suc)
qed


section \<open>Signatures\<close>

lemma dot_not_in_int: "CHR ''.'' \<notin> set (show_int n)"
proof -
  have digit: "d < 10 \<Longrightarrow> digit_char d \<noteq> CHR ''.''" for d
  proof
    assume "d < 10" "digit_char d = CHR ''.''"
    then have "digit_val (CHR ''.'') = Some d" using digit_val_char by metis
    then show False by (simp add: digit_val_def)
  qed
  have "CHR ''.'' \<notin> set (show_nat k)" for k
  proof (induction k rule: show_nat.induct)
    case (1 k)
    then show ?case using digit by (subst show_nat.simps) (auto dest: sym)
  qed
  then show ?thesis by (simp add: show_int_def)
qed

lemma signed_message_inj: "signed_message t b = signed_message t' b' \<longleftrightarrow> t = t' \<and> b = b'"
proof -
  have split: "f @ x # u = g @ x # v \<longleftrightarrow> f = g \<and> u = v" if "x \<notin> set f" "x \<notin> set g" for f g u v and x :: char
    using that by (auto simp: append_eq_append_conv2 Cons_eq_append_conv append_eq_Cons_conv)
  have "show_int t = show_int t' \<longleftrightarrow> t = t'" by (metis option.inject parse_signed_show_int)
  then show ?thesis
    using split [OF dot_not_in_int dot_not_in_int] by (simp add: signed_message_def)
qed

text \<open>The receiver's check: the signature header over the received timestamp and body.\<close>

definition signature_valid :: "string \<Rightarrow> request \<Rightarrow> bool" where
  "signature_valid secret rq \<longleftrightarrow>
     rq_signature rq = Some (''sha256='' @ hex_encode (hmac_sha256 secret (rq_timestamp rq @ ''.'' @ rq_body rq)))"

lemma hex_encode_inj: "hex_encode x = hex_encode y \<longleftrightarrow> x = y"
  by (metis hex_decode_encode option.inject)

text \<open>C35: every request of a webhook with a secret passes the receiver's check, and its signature fits no other
  request: a request that passes the check with the same signature but another timestamp or another body
  exhibits two messages with one HMAC under the secret. A webhook without secret sends no signature.\<close>

theorem webhook_signature_binds_request:
  "(wh_secret wh \<noteq> [] \<longrightarrow> signature_valid (wh_secret wh) (setSignedHeaders now wh body) \<and>
     (\<forall>t' body'. let rq = \<lparr>rq_url = url, rq_body = body', rq_timestamp = show_int t',
                          rq_signature = rq_signature (setSignedHeaders now wh body)\<rparr>
        in signature_valid (wh_secret wh) rq \<longrightarrow>
           (t' = now \<and> body' = body) \<or>
           (signed_message t' body' \<noteq> signed_message now body \<and>
            hmac_sha256 (wh_secret wh) (signed_message t' body') = hmac_sha256 (wh_secret wh) (signed_message now body)))) \<and>
   (wh_secret wh = [] \<longrightarrow> rq_signature (setSignedHeaders now wh body) = None)"
  using signed_message_inj [of _ _ now body]
  by (auto simp: signature_valid_def setSignedHeaders_def signed_message_def hex_encode_inj Let_def)

section \<open>Dead letters\<close>

datatype hook_op =
    OpCreate url_parser faults time string string string "string list option option"
  | OpUpdate url_parser faults time int string string "string list option" bool
  | OpDelete faults int
  | OpRotate faults time string int
  | OpDeliver marshaller http faults time webhook payload
  | OpPing marshaller http faults time string webhook
  | OpResend marshaller http faults time int
  | OpResolve faults time int
  | OpPruneLog faults "time \<Rightarrow> time" time int
  | OpPruneDead faults "time \<Rightarrow> time" time int

fun run_hook :: "hook_op \<Rightarrow> hook_db \<Rightarrow> hook_db" where
  "run_hook (OpCreate parse flt now raw url ty es) s = snd (Webhook_Create parse flt now raw url ty es s)"
| "run_hook (OpUpdate parse flt now i url ty es en) s = snd (Webhook_Update parse flt now i url ty es en s)"
| "run_hook (OpDelete flt i) s = snd (Webhook_Delete flt i s)"
| "run_hook (OpRotate flt now raw i) s = snd (Webhook_RotateSecret flt now raw i s)"
| "run_hook (OpDeliver marshal h flt now wh p) s = fst (deliver marshal h flt now wh p s)"
| "run_hook (OpPing marshal h flt now ts wh) s = snd (FireTestPing marshal h flt now ts wh s)"
| "run_hook (OpResend marshal h flt now i) s = snd (Resend marshal h flt now i s)"
| "run_hook (OpResolve flt now i) s = snd (ResolveDeadLetter flt now i s)"
| "run_hook (OpPruneLog flt bound now age) s = snd (PruneDeliveryLog flt bound now age s)"
| "run_hook (OpPruneDead flt bound now age) s = snd (PruneDeadLetters flt bound now age s)"

text \<open>The operations that end the life of a dead letter: its webhook is deleted, a resend reports success, or
  it is resolved.\<close>

fun settles :: "hook_op \<Rightarrow> hook_db \<Rightarrow> dead_letter \<Rightarrow> bool" where
  "settles (OpDelete flt i) s d \<longleftrightarrow> i = dl_webhook d"
| "settles (OpResend marshal h flt now i) s d \<longleftrightarrow> i = dl_id d \<and> fst (Resend marshal h flt now i s) = Inr ()"
| "settles (OpResolve flt now i) s d \<longleftrightarrow> i = dl_id d"
| "settles _ s d \<longleftrightarrow> False"

fun unsettled_run :: "hook_op list \<Rightarrow> dead_letter \<Rightarrow> hook_db \<Rightarrow> bool" where
  "unsettled_run [] d s = True"
| "unsettled_run (op # ops) d s = (\<not> settles op s d \<and> unsettled_run ops d (run_hook op s))"

definition queued :: "dead_letter \<Rightarrow> hook_db \<Rightarrow> bool" where
  "queued d s \<longleftrightarrow> (\<exists>x \<in> set (dead_letters s). dl_id x = dl_id d \<and> dl_webhook x = dl_webhook d \<and>
     dl_payload x = dl_payload d \<and> dl_auth x = dl_auth d \<and> dl_resolved x = None)"

lemma dead_letters_logDelivery [simp]: "dead_letters (logDelivery flt now i ev c ok n e s) = dead_letters s"
  by (simp add: logDelivery_def)

lemma queued_append: "dead_letters s' = dead_letters s @ xs \<Longrightarrow> queued d s \<Longrightarrow> queued d s'"
  by (auto simp: queued_def)

lemma queued_same: "dead_letters s' = dead_letters s \<Longrightarrow> queued d s \<Longrightarrow> queued d s'"
  by (simp add: queued_def)

lemma queued_update:
  assumes "queued d s" and "dead_letters s' = update_where P f (dead_letters s)"
    and "\<And>x. P x \<Longrightarrow> dl_id x = dl_id d \<Longrightarrow> dl_id (f x) = dl_id x \<and> dl_webhook (f x) = dl_webhook x \<and>
           dl_payload (f x) = dl_payload x \<and> dl_auth (f x) = dl_auth x \<and> dl_resolved (f x) = dl_resolved x"
  shows "queued d s'"
proof -
  obtain x where x: "x \<in> set (dead_letters s)" "dl_id x = dl_id d" "dl_webhook x = dl_webhook d"
      "dl_payload x = dl_payload d" "dl_auth x = dl_auth d" "dl_resolved x = None"
    using assms(1) by (auto simp: queued_def)
  then have "(if P x then f x else x) \<in> set (dead_letters s')"
    unfolding assms(2) set_update_where by blast
  then show ?thesis using x assms(3) [of x] unfolding queued_def by (metis (no_types, lifting))
qed

lemma deliver_appends: "\<exists>xs. dead_letters (fst (deliver marshal h flt now wh p s)) = dead_letters s @ xs"
  by (auto simp: deliver_def recordDeadLetter_def Let_def split: option.split prod.split delivery_end.split)

lemma Resend_effect:
  "(dead_letters (snd (Resend marshal h flt now i s)) = dead_letters s \<and> fst (Resend marshal h flt now i s) \<noteq> Inr ()) \<or>
   (\<exists>c. dead_letters (snd (Resend marshal h flt now i s)) = update_where (\<lambda>d. dl_id d = i)
        (\<lambda>d. d\<lparr>dl_resolved := Some now, dl_resends := dl_resends d + 1, dl_status := c, dl_error := None\<rparr>) (dead_letters s) \<and>
      fst (Resend marshal h flt now i s) = Inr ()) \<or>
   (\<exists>c e. dead_letters (snd (Resend marshal h flt now i s)) = update_where (\<lambda>d. dl_id d = i)
        (\<lambda>d. d\<lparr>dl_resends := dl_resends d + 1, dl_status := c, dl_error := e\<rparr>) (dead_letters s))"
proof (cases "\<exists>dl wh body. getDeadLetter flt i s = Inr dl \<and> Webhook_GetByID (later 1 flt) (dl_webhook dl) s = Inr wh \<and>
    formatPayload marshal (wh_type wh) (dl_payload dl) = Some body \<and> hp_formable h (wh_url wh)")
  case False
  then show ?thesis
    by (auto simp: Resend_def simp del: One_nat_def split: sum.splits option.splits)
next
  case True
  then obtain dl wh body where t: "getDeadLetter flt i s = Inr dl" "Webhook_GetByID (later 1 flt) (dl_webhook dl) s = Inr wh"
      "formatPayload marshal (wh_type wh) (dl_payload dl) = Some body" "hp_formable h (wh_url wh)" by blast
  show ?thesis
    by (cases "hp_answer h 0 (setSignedHeaders (hp_clock h 0) wh body)"; cases "flt 3")
      (auto simp: Resend_def t simp del: One_nat_def split: if_split)
qed

lemma unresolved_step:
  assumes "queued d s" and "\<not> settles op s d"
  shows "queued d (run_hook op s)"
proof (cases op)
  case (OpCreate parse flt now raw url ty es)
  then show ?thesis using assms(1) by (auto simp: Webhook_Create_def Let_def intro: queued_same)
next
  case (OpUpdate parse flt now i url ty es en)
  then show ?thesis using assms(1) by (auto simp: Webhook_Update_def Let_def intro: queued_same)
next
  case (OpRotate flt now raw i)
  then show ?thesis using assms(1) by (auto simp: Webhook_RotateSecret_def intro: queued_same)
next
  case (OpDelete flt i)
  then show ?thesis
    using assms by (fastforce simp: Webhook_Delete_def queued_def)
next
  case (OpDeliver marshal h flt now wh p)
  then show ?thesis using assms(1) deliver_appends queued_append by (metis run_hook.simps(5))
next
  case (OpPing marshal h flt now ts wh)
  have "dead_letters (snd (FireTestPing marshal h flt now ts wh s)) = dead_letters s"
    by (simp add: FireTestPing_def Let_def split: option.split sum.split)
  then show ?thesis using queued_same [OF _ assms(1)] OpPing by simp
next
  case op: (OpResend marshal h flt now i)
  show ?thesis
  proof (cases "i = dl_id d")
    case True
    then have "fst (Resend marshal h flt now i s) \<noteq> Inr ()" using assms(2) op by simp
    then show ?thesis
      using Resend_effect [of marshal h flt now i s] op assms(1) by (auto intro: queued_same queued_update)
  next
    case False
    show ?thesis
      using Resend_effect [of marshal h flt now i s] op assms(1) False by (auto intro: queued_same queued_update)
  qed
next
  case (OpResolve flt now i)
  then have i: "i \<noteq> dl_id d" using assms(2) by simp
  have "dead_letters (snd (ResolveDeadLetter flt now i s)) = dead_letters s \<or>
      dead_letters (snd (ResolveDeadLetter flt now i s)) =
        update_where (\<lambda>d. dl_id d = i \<and> dl_resolved d = None) (\<lambda>d. d\<lparr>dl_resolved := Some now\<rparr>) (dead_letters s)"
    by (simp add: ResolveDeadLetter_def Let_def)
  then have "queued d (snd (ResolveDeadLetter flt now i s))"
    using i by (auto intro: queued_same [OF _ assms(1)] queued_update [OF assms(1)])
  then show ?thesis using OpResolve by simp
next
  case (OpPruneLog flt bound now age)
  then show ?thesis using assms(1) by (auto simp: PruneDeliveryLog_def Let_def intro: queued_same)
next
  case (OpPruneDead flt bound now age)
  then show ?thesis
    using assms(1) by (fastforce simp: PruneDeadLetters_def Let_def queued_def)
qed

text \<open>C32: a dead letter that waits for its operator is not lost: whatever sequence of webhook operations runs,
  with failing statements and refused deliveries, it stays in the queue, unresolved and with its payload, as long
  as nobody deletes its webhook, resolves it, or resends it with success; and the queue lists it.\<close>

theorem unresolved_dead_letter_survives:
  assumes "d \<in> set (dead_letters s)" and "dl_resolved d = None" and "unsettled_run ops d s"
  shows "\<exists>x \<in> set (dead_letters (fold run_hook ops s)). dl_id x = dl_id d \<and> dl_webhook x = dl_webhook d \<and>
     dl_payload x = dl_payload d \<and> dl_auth x = dl_auth d \<and> dl_resolved x = None"
proof -
  have "queued d s" using assms(1,2) by (auto simp: queued_def)
  then have "queued d (fold run_hook ops s)"
    using assms(3) by (induction ops arbitrary: s) (auto intro: unresolved_step)
  then show ?thesis by (simp add: queued_def)
qed


section \<open>Concrete deliveries\<close>

definition sample_hook :: webhook where
  "sample_hook = \<lparr>wh_id = 1, wh_url = ''https://h/x'', wh_type = ''generic'', wh_enabled = True,
     wh_events = Some [''auth.reset''], wh_secret = ''whsec'', wh_created_at = 0, wh_updated_at = 0\<rparr>"

definition sample_hooks :: hook_db where
  "sample_hooks = \<lparr>hooks = [sample_hook], hook_seq = 1, deliveries = [], delivery_seq = 0, dead_letters = [],
     dead_letter_seq = 0, hook_logs = empty_log_db\<rparr>"

definition reset_payload :: payload where
  "reset_payload = (empty_payload ''auth.reset'' ''t'')\<lparr>py_auth := Some (''a@b'', ''https://link'')\<rparr>"

text \<open>A receiver that answers 500, and one that answers 500 and then 204.\<close>

definition failing_http :: http where
  "failing_http = \<lparr>hp_formable = \<lambda>_. True, hp_answer = \<lambda>_ _. Inr 500, hp_clock = \<lambda>k. 100 + int k\<rparr>"

definition second_try_http :: http where
  "second_try_http = failing_http\<lparr>hp_answer := \<lambda>k _. if k = 1 then Inr 204 else Inr 500\<rparr>"

definition plain_json :: marshaller where
  "plain_json doc = Some ''body''"

lemma format_plain: "formatPayload plain_json ty p = Some ''body''"
  by (simp add: formatPayload_def plain_json_def)


theorem webhook_signature_binds_request_witness:
  "signature_valid ''whsec'' (setSignedHeaders 5 sample_hook ''body'')"
  using webhook_signature_binds_request [of sample_hook 5 "''body''" "[]"] by (simp add: sample_hook_def)

definition after_failure :: hook_db where
  "after_failure = fst (deliver plain_json failing_http no_faults 9 sample_hook reset_payload sample_hooks)"

definition first_letter :: dead_letter where
  "first_letter = \<lparr>dl_id = 1, dl_webhook = 1, dl_event = ''auth.reset'', dl_payload = reset_payload, dl_status = Some 500,
     dl_error = Some (http_error 500), dl_attempts = 3, dl_resends = 0, dl_auth = True, dl_at = 9, dl_resolved = None\<rparr>"

lemma after_failure_queue: "dead_letters after_failure = [first_letter]" "hooks after_failure = [sample_hook]"
proof -
  have loop: "fst (delivery_loop failing_http sample_hook ''body'' [0, 1, 2] 0 [] no_trace) = Exhausted 500 (http_error 500)"
    by (simp add: failing_http_def success_code_def Let_def)
  then obtain tr where tr: "delivery_loop failing_http sample_hook ''body'' [0, 1, 2] 0 [] no_trace = (Exhausted 500 (http_error 500), tr)"
    by (metis prod.collapse)
  have eq: "after_failure = recordDeadLetter no_faults 9 sample_hook reset_payload 500 (http_error 500)
      (logDelivery no_faults 9 (wh_id sample_hook) (py_event reset_payload) 500 False 3 (http_error 500) sample_hooks)"
    by (simp only: after_failure_def deliver_def format_plain option.case tr prod.case delivery_end.case fst_conv later_no_faults)
  show "dead_letters after_failure = [first_letter]" "hooks after_failure = [sample_hook]"
    unfolding eq by (simp_all add: recordDeadLetter_def logDelivery_def Let_def sample_hooks_def first_letter_def sample_hook_def
        reset_payload_def empty_payload_def is_auth_event_def http_error_def)
qed

theorem unresolved_dead_letter_survives_witness:
  "\<exists>x \<in> set (dead_letters (fold run_hook [OpPruneDead no_faults id 1000000 1, OpResend plain_json failing_http no_faults 50 1]
       after_failure)). dl_payload x = reset_payload \<and> dl_resolved x = None"
proof -
  let ?ops = "[OpPruneDead no_faults id 1000000 1, OpResend plain_json failing_http no_faults 50 1]"
  have "fst (Resend plain_json failing_http no_faults 50 1 s) \<noteq> Inr ()" for s
    by (simp add: Resend_def failing_http_def success_code_def Let_def split: sum.split option.split)
  then have "unsettled_run ?ops first_letter after_failure" by simp
  moreover have "first_letter \<in> set (dead_letters after_failure)" "dl_resolved first_letter = None"
    by (simp_all add: after_failure_queue) (simp add: first_letter_def)
  ultimately show ?thesis
    using unresolved_dead_letter_survives [of first_letter after_failure ?ops] by (auto simp: first_letter_def)
qed

section \<open>The egress guard\<close>

definition in_range :: "nat \<Rightarrow> nat \<Rightarrow> nat \<Rightarrow> bool" where
  "in_range lo hi n \<longleftrightarrow> lo \<le> n \<and> n \<le> hi"

text \<open>The address as one number, a.b.c.d.\<close>

definition v4 :: "nat \<Rightarrow> nat \<Rightarrow> nat \<Rightarrow> nat \<Rightarrow> nat" where
  "v4 a b c d = ((a * 256 + b) * 256 + c) * 256 + d"

lemma v4_eq: "v4 a b c d = a * 16777216 + b * 65536 + c * 256 + d"
  by (simp add: v4_def algebra_simps)

lemma range_first_byte:
  assumes "b < 256" "c < 256" "d < 256"
  shows "in_range (v4 x 0 0 0) (v4 y 255 255 255) (v4 a b c d) \<longleftrightarrow> x \<le> a \<and> a \<le> y"
proof -
  have "v4 x 0 0 0 \<le> v4 a b c d \<longleftrightarrow> x \<le> a"
    using assms unfolding v4_eq by arith
  moreover have "v4 a b c d \<le> v4 y 255 255 255 \<longleftrightarrow> a \<le> y"
    using assms unfolding v4_eq by arith
  ultimately show ?thesis by (simp add: in_range_def)
qed

lemma range_two_bytes:
  assumes "b < 256" "c < 256" "d < 256" "y < 256" "z < 256"
  shows "in_range (v4 x y 0 0) (v4 x z 255 255) (v4 a b c d) \<longleftrightarrow> a = x \<and> y \<le> b \<and> b \<le> z"
proof (cases "a = x")
  case True
  have "v4 x y 0 0 \<le> v4 x b c d \<longleftrightarrow> y \<le> b"
    using assms unfolding v4_eq by arith
  moreover have "v4 x b c d \<le> v4 x z 255 255 \<longleftrightarrow> b \<le> z"
    using assms unfolding v4_eq by arith
  ultimately show ?thesis using True by (simp add: in_range_def)
next
  case False
  then consider "a < x" | "x < a" by linarith
  then show ?thesis
  proof cases
    case 1
    then have "v4 a b c d < v4 x y 0 0" using assms unfolding v4_eq by arith
    then show ?thesis using False by (simp add: in_range_def)
  next
    case 2
    then have "v4 x z 255 255 < v4 a b c d" using assms unfolding v4_eq by arith
    then show ?thesis using False by (simp add: in_range_def)
  qed
qed

lemma nibble_block: "(x::nat) div 16 = k \<longleftrightarrow> 16 * k \<le> x \<and> x < 16 * k + 16"
  by linarith

text \<open>The egress guard refuses exactly these IPv4 destinations, written as 32-bit numbers: 0.0.0.0 and the
  blocks 10/8, 127/8, 169.254/16 (with the cloud metadata address), 172.16/12, 192.168/16 and 224/4. An
  IPv4-mapped IPv6 address is judged as its IPv4 address, and an address that does not parse is refused.\<close>

theorem egress_guard_blocks_ranges:
  assumes "a < 256" "b < 256" "c < 256" "d < 256"
  shows "(isBlockedIP (Some [a, b, c, d]) \<longleftrightarrow>
           v4 a b c d = 0 \<or>
           in_range (v4 10 0 0 0) (v4 10 255 255 255) (v4 a b c d) \<or>
           in_range (v4 127 0 0 0) (v4 127 255 255 255) (v4 a b c d) \<or>
           in_range (v4 169 254 0 0) (v4 169 254 255 255) (v4 a b c d) \<or>
           in_range (v4 172 16 0 0) (v4 172 31 255 255) (v4 a b c d) \<or>
           in_range (v4 192 168 0 0) (v4 192 168 255 255) (v4 a b c d) \<or>
           in_range (v4 224 0 0 0) (v4 239 255 255 255) (v4 a b c d)) \<and>
         isBlockedIP (Some (replicate 10 0 @ [255, 255, a, b, c, d])) = isBlockedIP (Some [a, b, c, d]) \<and>
         isBlockedIP None"
proof -
  have zero: "v4 a b c d = 0 \<longleftrightarrow> a = 0 \<and> b = 0 \<and> c = 0 \<and> d = 0"
    by (simp add: v4_def)
  have nib: "b div 16 = 1 \<longleftrightarrow> 16 \<le> b \<and> b \<le> 31" "a div 16 = 14 \<longleftrightarrow> 224 \<le> a \<and> a \<le> 239"
    by (auto simp: nibble_block)
  have four: "To4 [a, b, c, d] = Some [a, b, c, d]" "To4 (replicate 10 0 @ [255, 255, a, b, c, d]) = Some [a, b, c, d]"
    by (simp_all add: To4_def nth_append)
  have byte: "254 < (256::nat)" "16 < (256::nat)" "31 < (256::nat)" "168 < (256::nat)" by simp_all
  note defs = IsLoopback_def IsPrivate_def IsLinkLocalUnicast_def IsLinkLocalMulticast_def IsUnspecified_def IsMulticast_def
  have blocked: "isBlockedIP (Some [a, b, c, d]) \<longleftrightarrow>
      (a = 0 \<and> b = 0 \<and> c = 0 \<and> d = 0) \<or> a = 10 \<or> a = 127 \<or> (a = 169 \<and> b = 254) \<or>
      (a = 172 \<and> 16 \<le> b \<and> b \<le> 31) \<or> (a = 192 \<and> b = 168) \<or> (224 \<le> a \<and> a \<le> 239)"
    by (auto simp: isBlockedIP_def defs four nib)
  have one: "x \<le> n \<and> n \<le> x \<longleftrightarrow> n = x" for x n :: nat by auto
  have "isBlockedIP (Some [a, b, c, d]) \<longleftrightarrow>
           v4 a b c d = 0 \<or>
           in_range (v4 10 0 0 0) (v4 10 255 255 255) (v4 a b c d) \<or>
           in_range (v4 127 0 0 0) (v4 127 255 255 255) (v4 a b c d) \<or>
           in_range (v4 169 254 0 0) (v4 169 254 255 255) (v4 a b c d) \<or>
           in_range (v4 172 16 0 0) (v4 172 31 255 255) (v4 a b c d) \<or>
           in_range (v4 192 168 0 0) (v4 192 168 255 255) (v4 a b c d) \<or>
           in_range (v4 224 0 0 0) (v4 239 255 255 255) (v4 a b c d)"
    unfolding blocked zero range_first_byte [OF assms(2-4)] range_two_bytes [OF assms(2-4) byte(1,1)]
      range_two_bytes [OF assms(2-4) byte(2,3)] range_two_bytes [OF assms(2-4) byte(4,4)] one ..
  moreover have "isBlockedIP (Some (replicate 10 0 @ [255, 255, a, b, c, d])) = isBlockedIP (Some [a, b, c, d])"
    unfolding isBlockedIP_def defs option.case four ..
  moreover have "isBlockedIP None" by (simp add: isBlockedIP_def)
  ultimately show ?thesis by (intro conjI)
qed

theorem egress_guard_blocks_ranges_witness:
  "isBlockedIP (Some [169, 254, 169, 254]) \<and> \<not> isBlockedIP (Some [8, 8, 8, 8])"
  using egress_guard_blocks_ranges [of 169 254 169 254] egress_guard_blocks_ranges [of 8 8 8 8]
  by (simp add: in_range_def v4_def)

end
