(* ===== verification/Floats.thy ===== *)
theory Floats
  imports Complex_Main Numbers
begin

text \<open>
  Go's \<open>float64\<close> as far as the services compute with it: rationals rounded to 53 significant bits,
  ties to even, after every operation. The quotients, products and byte counts of the code are far from the
  subnormal and the overflow range, which are not modelled. \<open>fmt.Sprintf\<close> with \<open>%.1f\<close> and \<open>%.0f\<close>
  rounds the exact value to the last printed digit, ties to even.
\<close>

function bit_count :: "int \<Rightarrow> int" where
  "bit_count n = (if n \<le> 0 then 0 else 1 + bit_count (n div 2))"
  by auto
termination by (relation "measure nat") auto

declare bit_count.simps [simp del]

definition round_even :: "rat \<Rightarrow> int" where
  "round_even q = (let f = \<lfloor>q\<rfloor>; r = q - of_int f
     in if r < 1 / 2 then f else if 1 / 2 < r then f + 1 else if even f then f else f + 1)"

definition pow2 :: "int \<Rightarrow> rat" where
  "pow2 e = (if 0 \<le> e then of_int (2 ^ nat e) else 1 / of_int (2 ^ nat (- e)))"

text \<open>The weight of the last of the 53 bits of a positive rational.\<close>

definition unit_exp :: "rat \<Rightarrow> int" where
  "unit_exp q = (let (n, d) = quotient_of q; e = bit_count n - bit_count d - 53
     in if q / pow2 e < 2 ^ 53 then e else e + 1)"

definition float64 :: "rat \<Rightarrow> rat" where
  "float64 q =
     (if q = 0 then 0
      else let e = unit_exp \<bar>q\<bar>; m = of_int (round_even (\<bar>q\<bar> / pow2 e)) * pow2 e in if q < 0 then - m else m)"

definition fdiv :: "rat \<Rightarrow> rat \<Rightarrow> rat" where
  "fdiv a b = float64 (a / b)"

definition fmul :: "rat \<Rightarrow> rat \<Rightarrow> rat" where
  "fmul a b = float64 (a * b)"

text \<open>\<open>float64(n)\<close> of an integer.\<close>

definition float_of :: "int \<Rightarrow> rat" where
  "float_of n = float64 (of_int n)"

definition format0 :: "rat \<Rightarrow> string" where
  "format0 q = (if q < 0 then CHR ''-'' # show_int (round_even (- q)) else show_int (round_even q))"

definition format1 :: "rat \<Rightarrow> string" where
  "format1 q = (let t = round_even (\<bar>q\<bar> * 10)
     in (if q < 0 then ''-'' else []) @ show_int (t div 10) @ ''.'' @ show_int (t mod 10))"

section \<open>Lemmas\<close>

lemma round_even_int [simp]: "round_even (of_int n) = n"
  by (simp add: round_even_def)

lemma round_even_near: "\<bar>q - of_int (round_even q)\<bar> \<le> 1 / 2"
proof -
  have "of_int \<lfloor>q\<rfloor> \<le> q" "q < of_int \<lfloor>q\<rfloor> + 1" by linarith+
  then show ?thesis unfolding round_even_def Let_def by (simp add: abs_if; linarith)
qed

lemma round_even_mono:
  assumes "p \<le> q"
  shows "round_even p \<le> round_even q"
proof (cases "\<lfloor>p\<rfloor> = \<lfloor>q\<rfloor>")
  case True
  then show ?thesis using assms by (auto simp: round_even_def Let_def)
next
  case False
  then have "\<lfloor>p\<rfloor> + 1 \<le> \<lfloor>q\<rfloor>" using floor_mono [OF assms] by linarith
  moreover have "round_even p \<le> \<lfloor>p\<rfloor> + 1" "\<lfloor>q\<rfloor> \<le> round_even q" by (auto simp: round_even_def Let_def)
  ultimately show ?thesis by linarith
qed

lemma pow2_pos [simp]: "0 < pow2 e"
  by (simp add: pow2_def)

lemma float64_zero [simp]: "float64 0 = 0"
  by (simp add: float64_def)

lemma float64_nonneg: "0 \<le> q \<Longrightarrow> 0 \<le> float64 q"
proof -
  assume "0 \<le> q"
  moreover have "0 \<le> round_even (q / pow2 (unit_exp q))"
    using round_even_mono [of "of_int 0" "q / pow2 (unit_exp q)"] \<open>0 \<le> q\<close> by (simp del: of_int_0 add: pow2_pos less_imp_le) (simp add: less_imp_le)
  ultimately show "0 \<le> float64 q" by (simp add: float64_def Let_def less_imp_le)
qed

text \<open>The relative error of one operation is at most half a unit in the last place.\<close>

lemma float64_near:
  assumes q: "0 < q"
  shows "\<bar>float64 q - q\<bar> \<le> pow2 (unit_exp q) / 2"
proof -
  define u where "u = pow2 (unit_exp q)"
  have u: "0 < u" by (simp add: u_def)
  let ?m = "of_int (round_even (q / u)) :: rat"
  have "q - ?m * u = (q / u - ?m) * u" using u by (simp add: left_diff_distrib)
  then have "\<bar>q - ?m * u\<bar> = \<bar>q / u - ?m\<bar> * u" using u by (simp add: abs_mult)
  also have "\<dots> \<le> 1 / 2 * u" using u round_even_near [of "q / u"] by (intro mult_right_mono) simp_all
  finally show ?thesis using q by (simp add: float64_def Let_def u_def abs_minus_commute)
qed

end
