(* ===== verification/Monitors.thy ===== *)
theory Monitors
  imports Floats Webhooks Wallet_Service
begin

text \<open>
  \<open>internal/worker/log_retention.go\<close>, \<open>disk_alert.go\<close> and \<open>system_monitor.go\<close>: the
  background checks. Each works on \<open>ops_db\<close> (the tables, with the alert events handed to the webhook service and
  the deliveries that service started) and on its own in-memory record. A \<open>tick\<close> is one run of a check: the
  clock, the time stamp of its payloads, and the faults of its statements in order. Readings of the machine and
  the network (disk usage, probe answers, file sizes) are arguments. Tickers and goroutines are not modelled.
\<close>

record tick =
  tk_now :: time
  tk_stamp :: string
  tk_faults :: faults

definition skip :: "nat \<Rightarrow> tick \<Rightarrow> tick" where
  "skip n t = t\<lparr>tk_faults := later n (tk_faults t)\<rparr>"

record ops_db =
  od_db :: db
  od_settings :: settings_db
  od_hooks :: hook_db
  od_events :: "system_data list"
  od_sent :: "(webhook \<times> payload) list"

definition raise_event :: "tick \<Rightarrow> string \<Rightarrow> string \<Rightarrow> rat \<Rightarrow> ops_db \<Rightarrow> ops_db" where
  "raise_event t event message val w =
     (let d = \<lparr>sd_alert = event, sd_message = message, sd_percent = format1 val\<rparr>
      in w\<lparr>od_events := od_events w @ [d],
           od_sent := od_sent w @ FireSystemEvent (tk_faults t) (tk_stamp t) event d (od_hooks w)\<rparr>)"

definition log_line :: "tick \<Rightarrow> string \<Rightarrow> string \<Rightarrow> string \<Rightarrow> ops_db \<Rightarrow> ops_db" where
  "log_line t level component message w =
     w\<lparr>od_hooks := (od_hooks w)\<lparr>hook_logs :=
         snd (WriteSystem (tk_faults t) (tk_now t) level component message [] [] (hook_logs (od_hooks w)))\<rparr>\<rparr>"

definition setting_or_empty :: "error + string \<Rightarrow> string" where
  "setting_or_empty r = (case r of Inl _ \<Rightarrow> [] | Inr v \<Rightarrow> v)"

definition bool_text :: "bool \<Rightarrow> string" where
  "bool_text b = (if b then ''true'' else ''false'')"

section \<open>Log retention\<close>

definition retention_days :: "string \<Rightarrow> int" where
  "retention_days s = (case Atoi s of Some d \<Rightarrow> if 0 < d then d else 30 | None \<Rightarrow> 30)"

text \<open>\<open>time.Duration(days) * 24 * time.Hour\<close> in nanoseconds wraps; here it is read back in seconds.\<close>

definition days_duration :: "int \<Rightarrow> int" where
  "days_duration days = quot (i64 (i64 (days * 24) * 3600000000000)) 1000000000"

text \<open>Faults: 0 and 1 the settings, 2 the system log, 3 the delivery log, 4 the dead letters.\<close>

definition retention_run :: "(time \<Rightarrow> time) \<Rightarrow> tick \<Rightarrow> ops_db \<Rightarrow> ops_db" where
  "retention_run bound t w =
     (let flt = tk_faults t in
      if setting_or_empty (Settings_Get flt ''log_retention_enabled'' (od_settings w)) \<noteq> ''true'' then w
      else let days = retention_days (setting_or_empty (Settings_Get (later 1 flt) ''log_retention_days'' (od_settings w)));
               h = od_hooks w
           in case CleanupOldLogs (later 2 flt) (tk_now t) days (hook_logs h) of
                (Inl _, _) \<Rightarrow> w
              | (Inr _, logs) \<Rightarrow>
                  (let h1 = h\<lparr>hook_logs := logs\<rparr>
                   in case PruneDeliveryLog (later 3 flt) bound (tk_now t) (days_duration days) h1 of
                        (Inl _, _) \<Rightarrow> w\<lparr>od_hooks := h1\<rparr>
                      | (Inr _, h2) \<Rightarrow> w\<lparr>od_hooks := snd (PruneDeadLetters (later 4 flt) bound (tk_now t) (days_duration days) h2)\<rparr>))"

section \<open>Disk alerts\<close>

record disk_alert =
  da_paused :: bool
  da_level :: string

definition UploadsPausedSetting :: string where
  "UploadsPausedSetting = ''uploads_paused''"

definition setPaused :: "tick \<Rightarrow> bool \<Rightarrow> disk_alert \<times> ops_db \<Rightarrow> disk_alert \<times> ops_db" where
  "setPaused t p = (\<lambda>(a, w).
     if da_paused a = p then (a, w)
     else (a\<lparr>da_paused := p\<rparr>,
           w\<lparr>od_settings := snd (SetInternal (tk_faults t) (tk_now t) UploadsPausedSetting (bool_text p) (od_settings w))\<rparr>))"

definition disk_pct :: "int \<Rightarrow> int \<Rightarrow> rat" where
  "disk_pct cap used = fmul (fdiv (float_of used) (float_of cap)) 100"

text \<open>A reading is total and used bytes, or \<open>None\<close>. Faults: 0 the setting, 1 the log line, 2 the webhooks.\<close>

definition disk_check :: "tick \<Rightarrow> (int \<times> int) option \<Rightarrow> disk_alert \<times> ops_db \<Rightarrow> disk_alert \<times> ops_db" where
  "disk_check t reading aw =
     (case reading of
        None \<Rightarrow> aw
      | Some (bytes, used) \<Rightarrow>
          if bytes = 0 then aw
          else let pct = disk_pct bytes used; txt = format1 pct in
            if 95 \<le> pct then
              (let (a, w) = (if \<not> da_paused (fst aw)
                   then apsnd (log_line (skip 1 t) ''error'' ''disk_alert'' (''Critical: disk usage at '' @ txt @ ''%, uploads paused''))
                          (setPaused t True aw)
                   else aw)
               in if da_level a \<noteq> ''critical''
                  then (a\<lparr>da_level := ''critical''\<rparr>,
                        raise_event (skip 2 t) ''disk_critical'' (''Disk usage at '' @ txt @ ''%, uploads paused'') pct w)
                  else (a, w))
            else if 80 \<le> pct then
              (let (a, w) = apsnd (log_line (skip 1 t) ''warn'' ''disk_alert'' (''Warning: disk usage at '' @ txt @ ''%''))
                              (setPaused t False aw)
               in if da_level a \<noteq> ''warning''
                  then (a\<lparr>da_level := ''warning''\<rparr>,
                        raise_event (skip 2 t) ''disk_warning'' (''Disk usage at '' @ txt @ ''%'') pct w)
                  else (a, w))
            else
              (let (a, w) = (if da_paused (fst aw)
                   then apsnd (log_line (skip 1 t) ''info'' ''disk_alert'' (''Disk usage back to normal ('' @ txt @ ''%)''))
                          (setPaused t False aw)
                   else aw)
               in if da_level a \<noteq> []
                  then (a\<lparr>da_level := []\<rparr>,
                        raise_event (skip 2 t) ''disk_recovered'' (''Disk usage back to normal ('' @ txt @ ''%)'') pct w)
                  else (a, w)))"

text \<open>\<open>Start\<close>: a fresh worker reads the persisted flag and checks once.\<close>

definition disk_start :: "tick \<Rightarrow> (int \<times> int) option \<Rightarrow> ops_db \<Rightarrow> disk_alert \<times> ops_db" where
  "disk_start t reading w =
     (let p = (case Settings_Get (tk_faults t) UploadsPausedSetting (od_settings w) of Inl _ \<Rightarrow> False | Inr v \<Rightarrow> v = ''true'')
      in disk_check (skip 1 t) reading (\<lparr>da_paused = p, da_level = []\<rparr>, w))"

section \<open>System monitor\<close>

record monitor =
  mo_alerts :: "string \<Rightarrow> string option"
  mo_dequeue :: "time option"
  mo_soft :: int
  mo_down :: bool
  mo_cache :: setting_cache

text \<open>\<open>Start\<close> seeds the flag from its persisted value.\<close>

definition AntdUnavailableSetting :: string where
  "AntdUnavailableSetting = ''antd_unavailable''"

definition antdHealthCriticalThreshold :: int where
  "antdHealthCriticalThreshold = 3"

definition monitor_start :: "faults \<Rightarrow> ops_db \<Rightarrow> monitor" where
  "monitor_start flt w =
     \<lparr>mo_alerts = Map.empty, mo_dequeue = None, mo_soft = 0,
      mo_down = (case Settings_Get flt AntdUnavailableSetting (od_settings w) of Inl _ \<Rightarrow> False | Inr v \<Rightarrow> v = ''true''),
      mo_cache = \<lparr>sc_values = []\<rparr>\<rparr>"

definition RecordDequeue :: "time \<Rightarrow> monitor \<Rightarrow> monitor" where
  "RecordDequeue now m = m\<lparr>mo_dequeue := Some now\<rparr>"

text \<open>Faults of both: 0 the log line, 1 the webhooks.\<close>

definition fireAlert ::
  "tick \<Rightarrow> string \<Rightarrow> string \<Rightarrow> string \<Rightarrow> string \<Rightarrow> rat \<Rightarrow> monitor \<times> ops_db \<Rightarrow> monitor \<times> ops_db" where
  "fireAlert t checkName level event message val = (\<lambda>(m, w).
     if mo_alerts m checkName = Some level then (m, w)
     else (m\<lparr>mo_alerts := (mo_alerts m)(checkName \<mapsto> level)\<rparr>,
           raise_event (skip 1 t) event message val (log_line t level ''system_monitor'' message w)))"

definition clearAlert ::
  "tick \<Rightarrow> string \<Rightarrow> string \<Rightarrow> string \<Rightarrow> rat \<Rightarrow> monitor \<times> ops_db \<Rightarrow> monitor \<times> ops_db" where
  "clearAlert t checkName event message val = (\<lambda>(m, w).
     if mo_alerts m checkName = None then (m, w)
     else (m\<lparr>mo_alerts := (mo_alerts m)(checkName := None)\<rparr>,
           raise_event (skip 1 t) event message val (log_line t ''info'' ''system_monitor'' message w)))"

definition setAntdUnavailable :: "tick \<Rightarrow> bool \<Rightarrow> monitor \<times> ops_db \<Rightarrow> monitor \<times> ops_db" where
  "setAntdUnavailable t b = (\<lambda>(m, w).
     if mo_down m = b then (m, w)
     else (m\<lparr>mo_down := b\<rparr>,
           w\<lparr>od_settings := snd (SetInternal (tk_faults t) (tk_now t) AntdUnavailableSetting (bool_text b) (od_settings w))\<rparr>))"

text \<open>The error of a probe: its text, and what \<open>errors.Is\<close> and \<open>errors.As\<close> find in it.\<close>

record probe_error =
  pe_deadline :: bool
  pe_network :: bool
  pe_unavailable :: bool
  pe_text :: string

definition isAntdHardDown :: "probe_error \<Rightarrow> bool" where
  "isAntdHardDown e = (if pe_deadline e then False else if pe_network e \<or> pe_unavailable e then False else True)"

text \<open>The probe is asked with the timeout in seconds. Faults: 0 the setting, 1 the flag, 2 and 3 the alert.\<close>

definition checkAntdHealth ::
  "tick \<Rightarrow> string \<Rightarrow> (int \<Rightarrow> probe_error option) \<Rightarrow> monitor \<times> ops_db \<Rightarrow> monitor \<times> ops_db" where
  "checkAntdHealth t url probe = (\<lambda>(m, w).
     if url = [] then (m, w)
     else let (timeout, c) = GetIntWithBounds (tk_faults t) (tk_now t) ''antd_health_probe_timeout_secs'' 15 1 120
                               (od_settings w) (mo_cache m);
              m1 = m\<lparr>mo_cache := c\<rparr>
          in case probe timeout of
               None \<Rightarrow> clearAlert (skip 2 t) ''antd_health'' ''antd_recovered''
                   ''antd is connected to the Autonomi network again'' 0
                   (setAntdUnavailable (skip 1 t) False (m1\<lparr>mo_soft := 0\<rparr>, w))
             | Some e \<Rightarrow>
                 if isAntdHardDown e
                 then fireAlert (skip 2 t) ''antd_health'' ''critical'' ''antd_unreachable''
                        (''antd is unreachable at '' @ url @ '' (connection failed): '' @ pe_text e) 0
                        (setAntdUnavailable (skip 1 t) True (m1, w))
                 else let n = mo_soft m1 + 1; m2 = m1\<lparr>mo_soft := n\<rparr>
                      in if antdHealthCriticalThreshold \<le> n
                         then fireAlert (skip 2 t) ''antd_health'' ''critical'' ''antd_unreachable''
                                (''antd cannot reach the Autonomi network at '' @ url @ '' '' @ em_dash @ '' '' @ show_int n @
                                 '' consecutive failed probes'') (float_of n)
                                (setAntdUnavailable (skip 1 t) True (m2, w))
                         else fireAlert (skip 2 t) ''antd_health'' ''warning'' ''antd_unreachable''
                                (''antd network probe slow/degraded at '' @ url @ '' ('' @ show_int n @ ''/'' @
                                 show_int antdHealthCriticalThreshold @ '' before critical): '' @ pe_text e) (float_of n) (m2, w))"

text \<open>\<open>formable\<close>: the request can be built; \<open>reached\<close>: the transport answered.\<close>

definition checkEvmRpcHealth :: "tick \<Rightarrow> string \<Rightarrow> bool \<Rightarrow> bool \<Rightarrow> monitor \<times> ops_db \<Rightarrow> monitor \<times> ops_db" where
  "checkEvmRpcHealth t url formable reached mw =
     (if url = [] \<or> \<not> formable then mw
      else if \<not> reached then fireAlert t ''evm_rpc'' ''critical'' ''evm_rpc_unreachable''
             (''EVM RPC endpoint is unreachable at '' @ url) 0 mw
      else clearAlert t ''evm_rpc'' ''evm_rpc_recovered'' ''EVM RPC endpoint is reachable again'' 0 mw)"

text \<open>\<open>strconv.ParseInt(s, 10, 64)\<close> with its error dropped: 0 for a malformed text, the nearest bound for a value
  out of range (found before the rest of the text is read).\<close>

fun parse_u64 :: "string \<Rightarrow> int \<Rightarrow> int option" where
  "parse_u64 [] acc = Some acc"
| "parse_u64 (c # cs) acc =
     (case digit_val c of
        None \<Rightarrow> None
      | Some d \<Rightarrow> if 2 ^ 64 \<le> 10 * acc + int d then Some (2 ^ 64 - 1) else parse_u64 cs (10 * acc + int d))"

definition parseAtto :: "string \<Rightarrow> int" where
  "parseAtto s =
     (let (neg, ds) = (case s of [] \<Rightarrow> (False, [])
                      | c # cs \<Rightarrow> if c = CHR ''-'' then (True, cs) else if c = CHR ''+'' then (False, cs) else (False, s))
      in if ds = [] then 0
         else case parse_u64 ds 0 of
                None \<Rightarrow> 0
              | Some n \<Rightarrow> if neg then (if 2 ^ 63 < n then - (2 ^ 63) else - n)
                          else (if 2 ^ 63 \<le> n then 2 ^ 63 - 1 else n))"

text \<open>Faults: 0 the wallet, 1 the setting, 2 and 3 the alert.\<close>

definition checkWalletBalance :: "tick \<Rightarrow> monitor \<times> ops_db \<Rightarrow> monitor \<times> ops_db" where
  "checkWalletBalance t = (\<lambda>(m, w).
     case GetDefault (tk_faults t) (od_db w) of
       Inl _ \<Rightarrow> (m, w)
     | Inr wa \<Rightarrow>
         (let (r, c) = Cached_Get (later 1 (tk_faults t)) (tk_now t) ''wallet_balance_alert_threshold'' (od_settings w) (mo_cache m);
              th = setting_or_empty r; m1 = m\<lparr>mo_cache := c\<rparr>;
              balance = parseAtto (w_payment_balance wa); threshold = parseAtto th
          in if th = [] \<or> th = ''0'' then (m1, w)
             else if 0 < threshold \<and> balance < threshold
             then fireAlert (skip 2 t) ''wallet_balance'' ''warning'' ''wallet_balance_low''
                    (''Wallet balance is low: '' @ w_payment_balance wa @ '' (threshold: '' @ th @ '')'') (float_of balance) (m1, w)
             else clearAlert (skip 2 t) ''wallet_balance'' ''wallet_balance_ok'' ''Wallet balance is above threshold''
                    (float_of balance) (m1, w)))"

text \<open>Faults of each: 0 the counts, then a setting or a second count, then the alert.\<close>

definition checkQueueBacklog :: "tick \<Rightarrow> monitor \<times> ops_db \<Rightarrow> monitor \<times> ops_db" where
  "checkQueueBacklog t = (\<lambda>(m, w).
     case CountByStatus (tk_faults t) (od_db w) of
       Inl _ \<Rightarrow> (m, w)
     | Inr counts \<Rightarrow>
         (let count = (\<lambda>st. case counts st of None \<Rightarrow> 0 | Some n \<Rightarrow> n);
              backlog = count Queued + count Processing;
              (r, c) = Cached_Get (later 1 (tk_faults t)) (tk_now t) ''max_queued_uploads'' (od_settings w) (mo_cache m);
              maxQueued = (case Atoi (setting_or_empty r) of Some n \<Rightarrow> if 0 < n then n else 500 | None \<Rightarrow> 500);
              threshold = quot (i64 (maxQueued * 80)) 100;
              m1 = m\<lparr>mo_cache := c\<rparr>
          in if threshold < backlog
             then fireAlert (skip 2 t) ''queue_backlog'' ''warning'' ''queue_backlog_high''
                    (''Upload queue backlog is high: '' @ show_int backlog @ '' items (threshold: '' @ show_int threshold @ '')'')
                    (float_of backlog) (m1, w)
             else clearAlert (skip 2 t) ''queue_backlog'' ''queue_backlog_normal''
                    (''Queue backlog normal: '' @ show_int backlog @ '' items'') (float_of backlog) (m1, w)))"

text \<open>A count whose query fails is 0: the error of \<open>Scan\<close> is dropped.\<close>

definition count_rows :: "bool \<Rightarrow> ('r \<Rightarrow> bool) \<Rightarrow> 'r list \<Rightarrow> int" where
  "count_rows failed P rs = (if failed then 0 else rows_affected P rs)"

definition rate_pct :: "int \<Rightarrow> int \<Rightarrow> rat" where
  "rate_pct part whole = fmul (fdiv (float_of part) (float_of whole)) 100"

definition percent_sign :: string where
  "percent_sign = ''%''"

definition checkFailureRate :: "tick \<Rightarrow> monitor \<times> ops_db \<Rightarrow> monitor \<times> ops_db" where
  "checkFailureRate t = (\<lambda>(m, w).
     let cutoff = tk_now t - 900;
         recentFail = count_rows (tk_faults t 0)
            (\<lambda>u. case u_failed_at u of None \<Rightarrow> False | Some f \<Rightarrow> cutoff < f) (uploads (od_db w));
         recentTotal = count_rows (tk_faults t 1) (\<lambda>u. cutoff < u_created_at u) (uploads (od_db w))
     in if recentTotal < 5 then (m, w)
        else let failRate = rate_pct recentFail recentTotal
             in if 25 < failRate
                then fireAlert (skip 2 t) ''failure_rate'' ''warning'' ''failure_rate_high''
                       (''Upload failure rate is high: '' @ format0 failRate @ percent_sign @ '' ('' @ show_int recentFail @ ''/'' @
                        show_int recentTotal @ '' in last 15 min)'') failRate (m, w)
                else clearAlert (skip 2 t) ''failure_rate'' ''failure_rate_normal''
                       (''Upload failure rate normal: '' @ format0 failRate @ percent_sign) failRate (m, w))"

text \<open>On PostgreSQL \<open>success = 0\<close> compares a boolean column with an integer, which the server refuses.\<close>

definition checkWebhookDeliveryFailures :: "dialect \<Rightarrow> tick \<Rightarrow> monitor \<times> ops_db \<Rightarrow> monitor \<times> ops_db" where
  "checkWebhookDeliveryFailures d t = (\<lambda>(m, w).
     let cutoff = tk_now t - 3600;
         failed = count_rows (tk_faults t 0 \<or> d = Postgres) (\<lambda>x. cutoff < dv_at x \<and> \<not> dv_success x) (deliveries (od_hooks w));
         sent = count_rows (tk_faults t 1) (\<lambda>x. cutoff < dv_at x) (deliveries (od_hooks w))
     in if sent < 3 then (m, w)
        else let failRate = rate_pct failed sent
             in if 50 < failRate
                then fireAlert (skip 2 t) ''webhook_delivery'' ''warning'' ''webhook_delivery_failing''
                       (''Webhook delivery failure rate: '' @ format0 failRate @ percent_sign @ '' ('' @ show_int failed @ ''/'' @
                        show_int sent @ '' in last hour)'') failRate (m, w)
                else clearAlert (skip 2 t) ''webhook_delivery'' ''webhook_delivery_ok'' ''Webhook delivery rate normal'' failRate (m, w))"

definition checkGasBackoffCount :: "tick \<Rightarrow> monitor \<times> ops_db \<Rightarrow> monitor \<times> ops_db" where
  "checkGasBackoffCount t = (\<lambda>(m, w).
     let n = count_rows (tk_faults t 0) (\<lambda>u. u_detail u = Some gas_backoff_detail) (uploads (od_db w))
     in if 10 \<le> n
        then fireAlert (skip 1 t) ''gas_backoff'' ''warning'' ''gas_backoff_high''
               (show_int n @ '' uploads waiting in gas backoff '' @ em_dash @ '' network costs may be elevated'') (float_of n) (m, w)
        else clearAlert (skip 1 t) ''gas_backoff'' ''gas_backoff_normal''
               (''Gas backoff count normal: '' @ show_int n) (float_of n) (m, w))"

definition checkStaleUploads :: "tick \<Rightarrow> monitor \<times> ops_db \<Rightarrow> monitor \<times> ops_db" where
  "checkStaleUploads t = (\<lambda>(m, w).
     let cutoff = tk_now t - 600;
         n = count_rows (tk_faults t 0)
           (\<lambda>u. u_status u = Processing \<and> (case u_processing_at u of None \<Rightarrow> False | Some p \<Rightarrow> p < cutoff)) (uploads (od_db w))
     in if 0 < n
        then fireAlert (skip 1 t) ''stale_uploads'' ''warning'' ''stale_uploads_detected''
               (show_int n @ '' uploads stuck in processing for >10 minutes'') (float_of n) (m, w)
        else clearAlert (skip 1 t) ''stale_uploads'' ''stale_uploads_clear'' ''No stale uploads'' 0 (m, w))"

text \<open>\<open>sizes\<close> are the sizes of the regular files the walk finds.\<close>

definition checkTempDirSize :: "tick \<Rightarrow> int list \<Rightarrow> monitor \<times> ops_db \<Rightarrow> monitor \<times> ops_db" where
  "checkTempDirSize t sizes mw =
     (let totalSize = foldl (\<lambda>a n. i64 (a + n)) 0 sizes
      in if 10 * 1024 * 1024 * 1024 < totalSize
         then let sizeGB = fdiv (float_of totalSize) (1024 * 1024 * 1024)
              in fireAlert t ''temp_dir_size'' ''warning'' ''temp_dir_large''
                   (''Temp upload directory is '' @ format1 sizeGB @ '' GB '' @ em_dash @ '' files may not be cleaning up'') sizeGB mw
         else clearAlert t ''temp_dir_size'' ''temp_dir_ok'' ''Temp directory size normal'' (float_of totalSize) mw)"

text \<open>\<open>Duration.Minutes\<close>.\<close>

definition minutes :: "int \<Rightarrow> rat" where
  "minutes secs = float64 (float_of (secs div 60) + fdiv (float_of ((secs mod 60) * 1000000000)) (60 * 1000000000))"

definition checkWorkerLiveness :: "tick \<Rightarrow> monitor \<times> ops_db \<Rightarrow> monitor \<times> ops_db" where
  "checkWorkerLiveness t = (\<lambda>(m, w).
     case mo_dequeue m of
       None \<Rightarrow> (m, w)
     | Some lastDequeue \<Rightarrow>
         (case CountByStatus (tk_faults t) (od_db w) of
            Inl _ \<Rightarrow> (m, w)
          | Inr counts \<Rightarrow>
              (let queued = (case counts Queued of None \<Rightarrow> 0 | Some n \<Rightarrow> n); since = tk_now t - lastDequeue
               in if queued = 0
                  then clearAlert (skip 1 t) ''worker_liveness'' ''worker_alive'' ''Upload worker is processing normally'' 0 (m, w)
                  else if 300 < since
                  then fireAlert (skip 1 t) ''worker_liveness'' ''critical'' ''worker_stuck''
                         (''Upload worker appears stuck '' @ em_dash @ '' '' @ show_int queued @
                          '' queued items but no dequeue in '' @ format0 (minutes since) @ '' minutes'') (minutes since) (m, w)
                  else clearAlert (skip 1 t) ''worker_liveness'' ''worker_alive'' ''Upload worker is processing normally'' 0 (m, w))))"

text \<open>One round of each loop; every check has its own tick.\<close>

definition fastChecks :: "(nat \<Rightarrow> tick) \<Rightarrow> string \<Rightarrow> (int \<Rightarrow> probe_error option) \<Rightarrow> monitor \<times> ops_db \<Rightarrow> monitor \<times> ops_db" where
  "fastChecks t url probe = checkStaleUploads (t 2) \<circ> checkWorkerLiveness (t 1) \<circ> checkAntdHealth (t 0) url probe"

record slow_inputs =
  si_dialect :: dialect
  si_rpc_url :: string
  si_formable :: bool
  si_reached :: bool
  si_sizes :: "int list"

definition slowChecks :: "(nat \<Rightarrow> tick) \<Rightarrow> slow_inputs \<Rightarrow> monitor \<times> ops_db \<Rightarrow> monitor \<times> ops_db" where
  "slowChecks t si = checkTempDirSize (t 6) (si_sizes si) \<circ> checkGasBackoffCount (t 5) \<circ>
     checkWebhookDeliveryFailures (si_dialect si) (t 4) \<circ> checkEvmRpcHealth (t 3) (si_rpc_url si) (si_formable si) (si_reached si) \<circ>
     checkFailureRate (t 2) \<circ> checkQueueBacklog (t 1) \<circ> checkWalletBalance (t 0)"

end
