(* ===== verification/Monitor_Guarantees.thy ===== *)
theory Monitor_Guarantees
  imports Monitors
begin

text \<open>
  What the background checks guarantee: the disk worker's pause flag and alerts are those of its readings, the
  upload gate of the system monitor is that of its probe history, and retention never removes evidence.
\<close>

lemma raise_event_simps [simp]:
  "od_events (raise_event t e msg v w) = od_events w @ [\<lparr>sd_alert = e, sd_message = msg, sd_percent = format1 v\<rparr>]"
  "od_settings (raise_event t e msg v w) = od_settings w"
  "od_hooks (raise_event t e msg v w) = od_hooks w"
  "od_db (raise_event t e msg v w) = od_db w"
  by (simp_all add: raise_event_def Let_def)

lemma log_line_simps [simp]:
  "od_events (log_line t l c msg w) = od_events w"
  "od_settings (log_line t l c msg w) = od_settings w"
  "od_db (log_line t l c msg w) = od_db w"
  by (simp_all add: log_line_def)

lemma skip_faults [simp]: "tk_faults (skip n t) = later n (tk_faults t)" "tk_now (skip n t) = tk_now t"
  by (simp_all add: skip_def)

lemma setting_value_SetInternal:
  "\<not> flt 0 \<Longrightarrow> setting_value (snd (SetInternal flt now key v s)) = (setting_value s)(key \<mapsto> v)"
  by (rule ext) (simp add: SetInternal_def setting_value_def setting_value_upsert)

section \<open>Disk alerts\<close>

definition disk_level :: "int \<Rightarrow> int \<Rightarrow> string" where
  "disk_level cap used = (let p = disk_pct cap used in if 95 \<le> p then ''critical'' else if 80 \<le> p then ''warning'' else [])"

definition disk_event :: "string \<Rightarrow> string" where
  "disk_event l = (if l = ''critical'' then ''disk_critical'' else if l = ''warning'' then ''disk_warning'' else ''disk_recovered'')"

definition readings :: "(tick \<times> (int \<times> int) option) list \<Rightarrow> string list" where
  "readings rs = concat (map (\<lambda>(t, r). case r of None \<Rightarrow> [] | Some (cap, used) \<Rightarrow> if cap = 0 then [] else [disk_level cap used]) rs)"

definition disk_run :: "(tick \<times> (int \<times> int) option) list \<Rightarrow> disk_alert \<times> ops_db \<Rightarrow> disk_alert \<times> ops_db" where
  "disk_run rs = fold (\<lambda>(t, r). disk_check t r) rs"

definition pause_stored :: "disk_alert \<times> ops_db \<Rightarrow> bool" where
  "pause_stored aw \<longleftrightarrow> setting_value (od_settings (snd aw)) UploadsPausedSetting = Some (bool_text (da_paused (fst aw)))"

lemma disk_check_step:
  assumes "cap \<noteq> 0" and r: "disk_check t (Some (cap, used)) (a, w) = (a', w')"
  shows "da_level a' = disk_level cap used"
    and "da_paused a' \<longleftrightarrow> disk_level cap used = ''critical''"
    and "map sd_alert (od_events w') = map sd_alert (od_events w) @
           (if da_level a = disk_level cap used then [] else [disk_event (disk_level cap used)])"
    and "\<not> tk_faults t 0 \<Longrightarrow> pause_stored (a, w) \<Longrightarrow> pause_stored (a', w')"
proof -
  note defs = disk_check_def disk_level_def setPaused_def disk_event_def Let_def
  show "da_level a' = disk_level cap used" "da_paused a' \<longleftrightarrow> disk_level cap used = ''critical''"
    "map sd_alert (od_events w') = map sd_alert (od_events w) @
       (if da_level a = disk_level cap used then [] else [disk_event (disk_level cap used)])"
    using assms by (auto simp: defs split: if_splits)
  assume "\<not> tk_faults t 0" "pause_stored (a, w)"
  then show "pause_stored (a', w')"
    using assms by (auto simp: defs pause_stored_def setting_value_SetInternal split: if_splits)
qed

lemma readings_Cons: "readings ((t, r) # rs) =
   (case r of None \<Rightarrow> [] | Some (cap, used) \<Rightarrow> if cap = 0 then [] else [disk_level cap used]) @ readings rs"
  by (simp add: readings_def)

lemma disk_check_unreadable: "r = None \<or> (\<exists>used. r = Some (0, used)) \<Longrightarrow> disk_check t r aw = aw"
  by (auto simp: disk_check_def)

lemma changes_Cons:
  "tl (remdups_adj (x # y # ys)) = (if x = y then [] else [y]) @ tl (remdups_adj (y # ys))"
  by (auto simp: remdups_adj_Cons split: list.splits)

lemma disk_run_follows:
  assumes "disk_run rs (a, w) = (a', w')"
  shows "da_level a' = List.last (da_level a # readings rs) \<and>
         (if readings rs = [] then da_paused a' = da_paused a else da_paused a' = (List.last (readings rs) = ''critical'')) \<and>
         map sd_alert (od_events w') = map sd_alert (od_events w) @ map disk_event (tl (remdups_adj (da_level a # readings rs))) \<and>
         ((\<forall>(t, r) \<in> set rs. \<not> tk_faults t 0) \<longrightarrow> pause_stored (a, w) \<longrightarrow> pause_stored (a', w'))"
  using assms
proof (induction rs arbitrary: a w)
  case Nil
  then show ?case by (simp add: disk_run_def readings_def)
next
  case (Cons x rs)
  obtain t r where x: "x = (t, r)" by fastforce
  obtain a1 w1 where s: "disk_check t r (a, w) = (a1, w1)" by fastforce
  have rest: "disk_run rs (a1, w1) = (a', w')" using Cons.prems by (simp add: disk_run_def x s)
  note IH = Cons.IH [OF rest]
  show ?case
  proof (cases "r = None \<or> (\<exists>used. r = Some (0, used))")
    case True
    then have "a1 = a" "w1 = w" "readings (x # rs) = readings rs"
      using s by (auto simp: disk_check_unreadable x readings_Cons)
    then show ?thesis using IH by (auto simp: x)
  next
    case False
    then obtain cap used where r: "r = Some (cap, used)" "cap \<noteq> 0" by (cases r) auto
    note step = disk_check_step [OF r(2) s [unfolded r(1)]]
    have l: "readings (x # rs) = disk_level cap used # readings rs" by (simp add: x r readings_Cons)
    show ?thesis unfolding l changes_Cons
      using IH step by (auto simp: x step(1) split: if_splits)
  qed
qed

text \<open>In any run of disk checks, the alerts sent are one per change of level between consecutive
  readable readings (95 percent and above critical, 80 and above warning), so no alert is ever repeated; the pause
  flag says whether the last readable reading was critical; and as long as its writes succeed, the stored setting the
  upload handler reads is that flag.\<close>

theorem disk_alerts_follow_readings:
  assumes "disk_run rs (a, w) = (a', w')"
  shows "map sd_alert (od_events w') = map sd_alert (od_events w) @ map disk_event (tl (remdups_adj (da_level a # readings rs))) \<and>
         (readings rs \<noteq> [] \<longrightarrow> da_paused a' = (List.last (readings rs) = ''critical'')) \<and>
         ((\<forall>(t, r) \<in> set rs. \<not> tk_faults t 0) \<longrightarrow> pause_stored (a, w) \<longrightarrow> pause_stored (a', w'))"
  using disk_run_follows [OF assms] by (auto split: if_splits)

text \<open>The flag is written on transitions only, so a write that failed is not repeated while the level stays critical.\<close>

lemma disk_failed_pause_not_retried:
  assumes "disk_run rs (\<lparr>da_paused = True, da_level = l\<rparr>, w) = (a', w')" and "set (readings rs) \<subseteq> {''critical''}"
  shows "od_settings w' = od_settings w"
  using assms
proof (induction rs arbitrary: l w)
  case Nil
  then show ?case by (simp add: disk_run_def)
next
  case (Cons x rs)
  obtain t r where x: "x = (t, r)" by fastforce
  obtain a1 w1 where s: "disk_check t r (\<lparr>da_paused = True, da_level = l\<rparr>, w) = (a1, w1)" by fastforce
  have rest: "disk_run rs (a1, w1) = (a', w')" using Cons.prems(1) by (simp add: disk_run_def x s)
  have sub: "set (readings rs) \<subseteq> {''critical''}" using Cons.prems(2) by (auto simp: x readings_Cons)
  have "od_settings w1 = od_settings w \<and> da_paused a1"
  proof (cases "r = None \<or> (\<exists>used. r = Some (0, used))")
    case True
    then show ?thesis using s by (auto simp: disk_check_unreadable)
  next
    case False
    then obtain cap used where r: "r = Some (cap, used)" "cap \<noteq> 0" by (cases r) auto
    have "disk_level cap used = ''critical''" using Cons.prems(2) by (simp add: x r readings_Cons)
    then have "95 \<le> disk_pct cap used" by (auto simp: disk_level_def Let_def split: if_splits)
    then show ?thesis using s r by (auto simp: disk_check_def Let_def split: if_splits)
  qed
  moreover obtain l1 where "a1 = \<lparr>da_paused = da_paused a1, da_level = l1\<rparr>" by (cases a1) simp
  ultimately show ?case using Cons.IH [of l1 w1] rest sub by simp
qed

section \<open>The upload gate of the system monitor\<close>

text \<open>A history is the list of probe answers, oldest first. \<open>since_ok\<close> are the failures since the last success,
  newest first.\<close>

definition since_ok :: "probe_error option list \<Rightarrow> probe_error list" where
  "since_ok hs = map the (takeWhile (\<lambda>r. r \<noteq> None) (rev hs))"

definition soft_count :: "probe_error list \<Rightarrow> int" where
  "soft_count f = int (length (filter (\<lambda>e. \<not> isAntdHardDown e) f))"

definition antd_level :: "probe_error list \<Rightarrow> string option" where
  "antd_level f = (case f of [] \<Rightarrow> None
     | e # _ \<Rightarrow> if isAntdHardDown e \<or> 3 \<le> soft_count f then Some ''critical'' else Some ''warning'')"

definition gate_closed :: "bool \<Rightarrow> probe_error option list \<Rightarrow> bool" where
  "gate_closed seeded hs \<longleftrightarrow>
     (\<exists>e \<in> set (since_ok hs). isAntdHardDown e) \<or> 3 \<le> soft_count (since_ok hs) \<or> (None \<notin> set hs \<and> seeded)"

definition antd_event :: "string option \<Rightarrow> string" where
  "antd_event l = (case l of None \<Rightarrow> ''antd_recovered'' | Some _ \<Rightarrow> ''antd_unreachable'')"

definition antd_levels :: "probe_error option list \<Rightarrow> string option list" where
  "antd_levels hs = map (\<lambda>k. antd_level (since_ok (take k hs))) [0..<Suc (length hs)]"

definition antd_run :: "string \<Rightarrow> (tick \<times> probe_error option) list \<Rightarrow> monitor \<times> ops_db \<Rightarrow> monitor \<times> ops_db" where
  "antd_run url xs = fold (\<lambda>(t, r). checkAntdHealth t url (\<lambda>_. r)) xs"

definition gate_stored :: "monitor \<times> ops_db \<Rightarrow> bool" where
  "gate_stored mw \<longleftrightarrow> setting_value (od_settings (snd mw)) AntdUnavailableSetting = Some (bool_text (mo_down (fst mw)))"

lemma since_ok_snoc: "since_ok (hs @ [r]) = (case r of None \<Rightarrow> [] | Some e \<Rightarrow> e # since_ok hs)"
  by (simp add: since_ok_def split: option.split)

lemma antd_levels_snoc: "antd_levels (hs @ [r]) = antd_levels hs @ [antd_level (since_ok (hs @ [r]))]"
  by (simp add: antd_levels_def)

lemma antd_levels_ends: "\<exists>ls. antd_levels hs = ls @ [antd_level (since_ok hs)]"
  by (simp add: antd_levels_def)

lemma soft_count_Cons: "soft_count (e # f) = soft_count f + (if isAntdHardDown e then 0 else 1)"
  by (simp add: soft_count_def)

lemma changes_snoc:
  "tl (remdups_adj (ls @ [x, y])) = tl (remdups_adj (ls @ [x])) @ (if x = y then [] else [y])"
  by (cases "remdups_adj (ls @ [x])") (auto simp: remdups_adj_append_two)

text \<open>What an alert, a clearing and a change of the gate do, field by field.\<close>

lemma fireAlert_simps [simp]:
  "mo_alerts (fst (fireAlert t c l e msg v mw)) = (mo_alerts (fst mw))(c \<mapsto> l)"
  "mo_soft (fst (fireAlert t c l e msg v mw)) = mo_soft (fst mw)"
  "mo_down (fst (fireAlert t c l e msg v mw)) = mo_down (fst mw)"
  "mo_dequeue (fst (fireAlert t c l e msg v mw)) = mo_dequeue (fst mw)"
  "od_settings (snd (fireAlert t c l e msg v mw)) = od_settings (snd mw)"
  "map sd_alert (od_events (snd (fireAlert t c l e msg v mw))) =
     map sd_alert (od_events (snd mw)) @ (if mo_alerts (fst mw) c = Some l then [] else [e])"
  by (auto simp: fireAlert_def split: prod.split)

lemma clearAlert_simps [simp]:
  "mo_alerts (fst (clearAlert t c e msg v mw)) = (mo_alerts (fst mw))(c := None)"
  "mo_soft (fst (clearAlert t c e msg v mw)) = mo_soft (fst mw)"
  "mo_down (fst (clearAlert t c e msg v mw)) = mo_down (fst mw)"
  "mo_dequeue (fst (clearAlert t c e msg v mw)) = mo_dequeue (fst mw)"
  "od_settings (snd (clearAlert t c e msg v mw)) = od_settings (snd mw)"
  "map sd_alert (od_events (snd (clearAlert t c e msg v mw))) =
     map sd_alert (od_events (snd mw)) @ (if mo_alerts (fst mw) c = None then [] else [e])"
  by (auto simp: clearAlert_def split: prod.split)

lemma setAntdUnavailable_simps [simp]:
  "mo_alerts (fst (setAntdUnavailable t b mw)) = mo_alerts (fst mw)"
  "mo_soft (fst (setAntdUnavailable t b mw)) = mo_soft (fst mw)"
  "mo_down (fst (setAntdUnavailable t b mw)) = b"
  "mo_dequeue (fst (setAntdUnavailable t b mw)) = mo_dequeue (fst mw)"
  "od_events (snd (setAntdUnavailable t b mw)) = od_events (snd mw)"
  by (auto simp: setAntdUnavailable_def split: prod.split)

lemma gate_stored_cong:
  "od_settings (snd x) = od_settings (snd y) \<Longrightarrow> mo_down (fst x) = mo_down (fst y) \<Longrightarrow> gate_stored x = gate_stored y"
  by (simp add: gate_stored_def)

lemma gate_stored_set:
  "\<not> tk_faults t 0 \<Longrightarrow> gate_stored mw \<Longrightarrow> gate_stored (setAntdUnavailable t b mw)"
  by (cases mw) (auto simp: setAntdUnavailable_def gate_stored_def setting_value_SetInternal)

text \<open>One probe, with the messages and the timeout abstracted away.\<close>

lemma antd_cases:
  assumes "url \<noteq> []"
  obtains c msg v where
    "checkAntdHealth t url (\<lambda>_. r) (m, w) =
       (case r of
          None \<Rightarrow> clearAlert (skip 2 t) ''antd_health'' ''antd_recovered'' msg v
                    (setAntdUnavailable (skip 1 t) False (m\<lparr>mo_cache := c, mo_soft := 0\<rparr>, w))
        | Some e \<Rightarrow>
            if isAntdHardDown e
            then fireAlert (skip 2 t) ''antd_health'' ''critical'' ''antd_unreachable'' msg v
                   (setAntdUnavailable (skip 1 t) True (m\<lparr>mo_cache := c\<rparr>, w))
            else if 3 \<le> mo_soft m + 1
            then fireAlert (skip 2 t) ''antd_health'' ''critical'' ''antd_unreachable'' msg v
                   (setAntdUnavailable (skip 1 t) True (m\<lparr>mo_cache := c, mo_soft := mo_soft m + 1\<rparr>, w))
            else fireAlert (skip 2 t) ''antd_health'' ''warning'' ''antd_unreachable'' msg v
                   (m\<lparr>mo_cache := c, mo_soft := mo_soft m + 1\<rparr>, w))"
proof -
  obtain n c where n: "GetIntWithBounds (tk_faults t) (tk_now t) ''antd_health_probe_timeout_secs'' 15 1 120
      (od_settings w) (mo_cache m) = (n, c)" by fastforce
  show ?thesis
  proof (cases r)
    case None
    show ?thesis by (rule that [of _ _ c], simp only: checkAntdHealth_def Let_def n assms None option.case prod.case if_False)
  next
    case (Some e)
    consider "isAntdHardDown e" | "\<not> isAntdHardDown e" "3 \<le> mo_soft m + 1" | "\<not> isAntdHardDown e" "\<not> 3 \<le> mo_soft m + 1" by blast
    then show ?thesis
      by cases (rule that [of _ _ c], simp add: checkAntdHealth_def Let_def n assms Some antdHealthCriticalThreshold_def)+
  qed
qed

lemma antd_step:
  assumes url: "url \<noteq> []" and r: "checkAntdHealth t url (\<lambda>_. r) (m, w) = (m', w')"
    and soft: "mo_soft m = soft_count f" and lvl: "mo_alerts m ''antd_health'' = antd_level f"
  defines "g \<equiv> (case r of None \<Rightarrow> [] | Some e \<Rightarrow> e # f)"
  shows "mo_soft m' = soft_count g" and "mo_alerts m' ''antd_health'' = antd_level g"
    and "mo_down m' = (case r of None \<Rightarrow> False | Some e \<Rightarrow> mo_down m \<or> isAntdHardDown e \<or> 3 \<le> soft_count g)"
    and "map sd_alert (od_events w') = map sd_alert (od_events w) @ (if antd_level f = antd_level g then [] else [antd_event (antd_level g)])"
    and "\<not> tk_faults t 1 \<Longrightarrow> gate_stored (m, w) \<Longrightarrow> gate_stored (m', w')"
proof -
  obtain c msg v where k: "checkAntdHealth t url (\<lambda>_. r) (m, w) = (case r of
          None \<Rightarrow> clearAlert (skip 2 t) ''antd_health'' ''antd_recovered'' msg v
                    (setAntdUnavailable (skip 1 t) False (m\<lparr>mo_cache := c, mo_soft := 0\<rparr>, w))
        | Some e \<Rightarrow>
            if isAntdHardDown e
            then fireAlert (skip 2 t) ''antd_health'' ''critical'' ''antd_unreachable'' msg v
                   (setAntdUnavailable (skip 1 t) True (m\<lparr>mo_cache := c\<rparr>, w))
            else if 3 \<le> mo_soft m + 1
            then fireAlert (skip 2 t) ''antd_health'' ''critical'' ''antd_unreachable'' msg v
                   (setAntdUnavailable (skip 1 t) True (m\<lparr>mo_cache := c, mo_soft := mo_soft m + 1\<rparr>, w))
            else fireAlert (skip 2 t) ''antd_health'' ''warning'' ''antd_unreachable'' msg v
                   (m\<lparr>mo_cache := c, mo_soft := mo_soft m + 1\<rparr>, w))" (is "_ = ?k")
    by (rule antd_cases [OF url])
  have m': "m' = fst ?k" "w' = snd ?k" using r k by simp_all
  have g: "antd_level g = (case r of None \<Rightarrow> None
      | Some e \<Rightarrow> if isAntdHardDown e \<or> 3 \<le> soft_count (e # f) then Some ''critical'' else Some ''warning'')"
    by (simp add: g_def antd_level_def split: option.split)
  show "mo_soft m' = soft_count g" unfolding m' g_def
    by (cases r) (simp_all add: soft soft_count_Cons soft_count_def [of "[]"])
  show "mo_alerts m' ''antd_health'' = antd_level g"
    unfolding m' g by (cases r) (simp_all add: soft soft_count_Cons)
  show "mo_down m' = (case r of None \<Rightarrow> False | Some e \<Rightarrow> mo_down m \<or> isAntdHardDown e \<or> 3 \<le> soft_count g)"
    unfolding m' g_def by (cases r) (simp_all add: soft soft_count_Cons)
  show "map sd_alert (od_events w') = map sd_alert (od_events w) @ (if antd_level f = antd_level g then [] else [antd_event (antd_level g)])"
    unfolding m' g by (cases r) (simp_all add: soft soft_count_Cons lvl antd_event_def)
  assume "\<not> tk_faults t 1" "gate_stored (m, w)"
  moreover have "gate_stored (m\<lparr>mo_cache := c, mo_soft := n\<rparr>, w) = gate_stored (m, w)"
      "gate_stored (m\<lparr>mo_cache := c\<rparr>, w) = gate_stored (m, w)" for n by (simp_all add: gate_stored_def)
  ultimately have *: "gate_stored (setAntdUnavailable (skip 1 t) b (m\<lparr>mo_cache := c, mo_soft := n\<rparr>, w))"
      "gate_stored (setAntdUnavailable (skip 1 t) b (m\<lparr>mo_cache := c\<rparr>, w))"
      "gate_stored (m\<lparr>mo_cache := c, mo_soft := n\<rparr>, w)" for b n
    by (auto intro!: gate_stored_set)
  have fc: "gate_stored (fireAlert t' c' l e msg' v' mw) = gate_stored mw" "gate_stored (clearAlert t' c' e msg' v' mw) = gate_stored mw"
    for t' c' l e msg' v' mw by (rule gate_stored_cong; simp)+
  have "gate_stored ?k" using * by (simp add: fc split: option.split)
  then show "gate_stored (m', w')" unfolding m' by simp
qed

lemma antd_run_snoc: "antd_run url (xs @ [(t, r)]) mw = checkAntdHealth t url (\<lambda>_. r) (antd_run url xs mw)"
  by (simp add: antd_run_def)

lemma antd_run_follows:
  assumes url: "url \<noteq> []" and m: "mo_soft m = 0" "mo_alerts m ''antd_health'' = None"
    and "antd_run url xs (m, w) = (m', w')"
  shows "mo_soft m' = soft_count (since_ok (map snd xs)) \<and>
         mo_alerts m' ''antd_health'' = antd_level (since_ok (map snd xs)) \<and>
         mo_down m' = gate_closed (mo_down m) (map snd xs) \<and>
         map sd_alert (od_events w') = map sd_alert (od_events w) @ map antd_event (tl (remdups_adj (antd_levels (map snd xs)))) \<and>
         ((\<forall>(t, r) \<in> set xs. \<not> tk_faults t 1) \<longrightarrow> gate_stored (m, w) \<longrightarrow> gate_stored (m', w'))"
  using assms(4)
proof (induction xs arbitrary: m' w' rule: rev_induct)
  case Nil
  then show ?case
    using m by (auto simp: antd_run_def since_ok_def soft_count_def antd_level_def gate_closed_def antd_levels_def)
next
  case (snoc x xs)
  obtain t r where x: "x = (t, r)" by fastforce
  obtain m1 w1 where a: "antd_run url xs (m, w) = (m1, w1)" by fastforce
  have s: "checkAntdHealth t url (\<lambda>_. r) (m1, w1) = (m', w')"
    using snoc.prems by (simp add: x antd_run_snoc a)
  let ?f = "since_ok (map snd xs)" and ?g = "since_ok (map snd (xs @ [x]))"
  have g: "?g = (case r of None \<Rightarrow> [] | Some e \<Rightarrow> e # ?f)" by (simp add: x since_ok_snoc)
  note IH = snoc.IH [OF a]
  have "mo_soft m1 = soft_count ?f" "mo_alerts m1 ''antd_health'' = antd_level ?f" using IH by blast+
  note step = antd_step [OF url s this, folded g]
  have "mo_down m' = gate_closed (mo_down m) (map snd (xs @ [x]))"
    using step(3) IH by (cases r) (auto simp: gate_closed_def g x soft_count_Cons since_ok_def soft_count_def [of "[]"] split: if_splits)
  moreover obtain ls where ls: "antd_levels (map snd xs) = ls @ [antd_level ?f]" using antd_levels_ends by blast
  then have "antd_levels (map snd (xs @ [x])) = ls @ [antd_level ?f, antd_level ?g]" by (simp add: antd_levels_snoc)
  then have "map sd_alert (od_events w') = map sd_alert (od_events w) @
      map antd_event (tl (remdups_adj (antd_levels (map snd (xs @ [x])))))"
    using step(4) IH by (simp add: changes_snoc ls)
  moreover have "(\<forall>(t, r) \<in> set (xs @ [x]). \<not> tk_faults t 1) \<longrightarrow> gate_stored (m, w) \<longrightarrow> gate_stored (m', w')"
    using step(5) IH by (auto simp: x)
  ultimately show ?case using step(1,2) by blast
qed

text \<open>C19: after any history of probe answers, the gate that makes the upload handler answer 503 is closed
  exactly when, since the last successful probe, one probe could not reach antd at all or at least three failed
  softly (or nothing has succeeded yet and the gate was found closed at start); alerts are sent once per change of
  the level that history gives; and while its writes succeed, the stored setting is the gate.\<close>

theorem upload_gate_follows_probes:
  assumes "url \<noteq> []" and "antd_run url xs (monitor_start flt w, w) = (m', w')"
  shows "mo_down m' = gate_closed (mo_down (monitor_start flt w)) (map snd xs) \<and>
         map sd_alert (od_events w') = map sd_alert (od_events w) @ map antd_event (tl (remdups_adj (antd_levels (map snd xs)))) \<and>
         ((\<forall>(t, r) \<in> set xs. \<not> tk_faults t 1) \<longrightarrow> gate_stored (monitor_start flt w, w) \<longrightarrow> gate_stored (m', w'))"
  using antd_run_follows [OF assms(1) _ _ assms(2)] by (simp add: monitor_start_def)

text \<open>The level of the alert can fall back to warning while the gate stays closed: a hard failure, then a slow
  answer.\<close>

lemma gate_outlasts_critical_alert:
  assumes "isAntdHardDown e1" and "\<not> isAntdHardDown e2"
  shows "gate_closed False [Some e1, Some e2] \<and> antd_level (since_ok [Some e1, Some e2]) = Some ''warning''"
  using assms by (simp add: gate_closed_def since_ok_def antd_level_def soft_count_def)

section \<open>Checks that cannot alert\<close>

text \<open>No code calls \<open>RecordDequeue\<close>, so the liveness check never runs: the rounds of both loops keep the time of
  the last dequeue unset.\<close>

lemma checks_keep_dequeue:
  "mo_dequeue (fst (checkAntdHealth t url probe mw)) = mo_dequeue (fst mw)"
  "mo_dequeue (fst (checkEvmRpcHealth t url fo re mw)) = mo_dequeue (fst mw)"
  "mo_dequeue (fst (checkWalletBalance t mw)) = mo_dequeue (fst mw)"
  "mo_dequeue (fst (checkQueueBacklog t mw)) = mo_dequeue (fst mw)"
  "mo_dequeue (fst (checkFailureRate t mw)) = mo_dequeue (fst mw)"
  "mo_dequeue (fst (checkWebhookDeliveryFailures d t mw)) = mo_dequeue (fst mw)"
  "mo_dequeue (fst (checkGasBackoffCount t mw)) = mo_dequeue (fst mw)"
  "mo_dequeue (fst (checkStaleUploads t mw)) = mo_dequeue (fst mw)"
  "mo_dequeue (fst (checkTempDirSize t sizes mw)) = mo_dequeue (fst mw)"
  "mo_dequeue (fst (checkWorkerLiveness t mw)) = mo_dequeue (fst mw)"
  by (cases mw; simp add: checkAntdHealth_def checkEvmRpcHealth_def checkWalletBalance_def checkQueueBacklog_def
      checkFailureRate_def checkWebhookDeliveryFailures_def checkGasBackoffCount_def checkStaleUploads_def
      checkTempDirSize_def checkWorkerLiveness_def Let_def split: prod.split sum.split option.split)+

lemma liveness_check_never_runs:
  "fold (\<lambda>step. step) (map (\<lambda>(t, url, probe). fastChecks t url probe) fs) (monitor_start flt w, w) = (m, w') \<Longrightarrow>
   checkWorkerLiveness t (m, w') = (m, w')"
proof -
  assume r: "fold (\<lambda>step. step) (map (\<lambda>(t, url, probe). fastChecks t url probe) fs) (monitor_start flt w, w) = (m, w')"
  have "mo_dequeue (fst (fold (\<lambda>step. step) (map (\<lambda>(t, url, probe). fastChecks t url probe) fs) mw)) = mo_dequeue (fst mw)" for mw
    by (induction fs arbitrary: mw) (auto simp: fastChecks_def checks_keep_dequeue)
  from this [of "(monitor_start flt w, w)"] have "mo_dequeue m = None" unfolding r by (simp add: monitor_start_def)
  then show ?thesis by (simp add: checkWorkerLiveness_def)
qed

text \<open>On PostgreSQL the delivery check never sees a failure, and amounts from 2^63 on compare as equal.\<close>

lemma delivery_alert_dead_on_postgres:
  "mo_alerts m ''webhook_delivery'' = None \<Longrightarrow> checkWebhookDeliveryFailures Postgres t (m, w) = (m, w)"
  by (simp add: checkWebhookDeliveryFailures_def count_rows_def rate_pct_def fdiv_def fmul_def float_of_def clearAlert_def Let_def)

lemma balance_alert_saturates:
  "parseAtto ''10000000000000000000'' = parseAtto ''20000000000000000000''"
  by code_simp

section \<open>Retention\<close>

lemma days_duration_exact: "0 < d \<Longrightarrow> d \<le> 106751 \<Longrightarrow> days_duration d = d * seconds_per_day"
  by (simp add: days_duration_def i64_def quot_def seconds_per_day_def sgn_if)

text \<open>A setting meant as "for ever" wraps to a negative duration: everything is older than the cutoff.\<close>

lemma retention_days_wrap: "days_duration 999999 < - 5000000000"
  by code_simp

text \<open>What one run leaves of the three tables it prunes, and everything else.\<close>

definition evidence :: "ops_db \<Rightarrow> _" where
  "evidence w = (let h = od_hooks w; l = hook_logs h
     in (audit_log l, audit_anchors l, file_access_log l, hooks h, od_settings w, od_db w, od_events w, od_sent w))"

definition resolved_before :: "time \<Rightarrow> dead_letter \<Rightarrow> bool" where
  "resolved_before cutoff d \<longleftrightarrow> (case dl_resolved d of None \<Rightarrow> False | Some t \<Rightarrow> t < cutoff)"

definition pruned :: "bool \<Rightarrow> ('r \<Rightarrow> bool) \<Rightarrow> 'r list \<Rightarrow> 'r list \<Rightarrow> bool" where
  "pruned all P rs rs' \<longleftrightarrow> rs' = filter (\<lambda>r. \<not> P r) rs \<or> (\<not> all \<and> rs' = rs)"


section \<open>Concrete runs\<close>

definition quiet :: tick where
  "quiet = \<lparr>tk_now = 100 * 86400, tk_stamp = ''t'', tk_faults = no_faults\<rparr>"

definition sample_ops :: ops_db where
  "sample_ops = \<lparr>od_db = empty_db,
     od_settings = empty_settings\<lparr>settings := [
       \<lparr>g_key = ''log_retention_enabled'', g_value = ''true'', g_updated_at = 0, g_updated_by = None\<rparr>,
       \<lparr>g_key = ''log_retention_days'', g_value = ''7'', g_updated_at = 0, g_updated_by = None\<rparr>,
       \<lparr>g_key = ''uploads_paused'', g_value = ''false'', g_updated_at = 0, g_updated_by = None\<rparr>]\<rparr>,
     od_hooks = \<lparr>hooks = [], hook_seq = 0,
       deliveries = [\<lparr>dv_id = 1, dv_webhook = 1, dv_event = ''e'', dv_status = None, dv_success = True, dv_attempts = 1, dv_error = None, dv_at = 0\<rparr>],
       delivery_seq = 1, dead_letters = [], dead_letter_seq = 0, hook_logs = empty_log_db\<rparr>,
     od_events = [], od_sent = []\<rparr>"

theorem disk_alerts_follow_readings_witness:
  "\<exists>a' w'. disk_run [(quiet, Some (64, 62)), (quiet, Some (64, 63)), (quiet, None), (quiet, Some (64, 32))]
       (\<lparr>da_paused = False, da_level = []\<rparr>, sample_ops) = (a', w') \<and>
     map sd_alert (od_events w') = [''disk_critical'', ''disk_recovered''] \<and> \<not> da_paused a'"
proof -
  let ?rs = "[(quiet, Some (64, 62)), (quiet, Some (64, 63)), (quiet, None), (quiet, Some (64, 32))]"
  obtain a' w' where r: "disk_run ?rs (\<lparr>da_paused = False, da_level = []\<rparr>, sample_ops) = (a', w')" by force
  have "disk_level 64 62 = ''critical''" "disk_level 64 63 = ''critical''" "disk_level 64 32 = []" by code_simp+
  then have l: "readings ?rs = [''critical'', ''critical'', []]" by (simp add: readings_def)
  show ?thesis
    using disk_alerts_follow_readings [OF r] r unfolding l by (simp add: sample_ops_def disk_event_def)
qed

theorem upload_gate_follows_probes_witness:
  "\<exists>m' w'. antd_run ''u'' [(quiet, Some \<lparr>pe_deadline = True, pe_network = False, pe_unavailable = False, pe_text = ''slow''\<rparr>)]
       (monitor_start no_faults sample_ops, sample_ops) = (m', w') \<and>
     \<not> mo_down m' \<and> map sd_alert (od_events w') = [''antd_unreachable'']"
proof -
  let ?e = "\<lparr>pe_deadline = True, pe_network = False, pe_unavailable = False, pe_text = ''slow''\<rparr>"
  obtain m' w' where r: "antd_run ''u'' [(quiet, Some ?e)] (monitor_start no_faults sample_ops, sample_ops) = (m', w')" by force
  have "mo_down (monitor_start no_faults sample_ops) = False"
    by (simp add: monitor_start_def Settings_Get_def setting_value_def sample_ops_def AntdUnavailableSetting_def)
  then have "\<not> mo_down m'" "map sd_alert (od_events w') = [''antd_unreachable'']"
    using upload_gate_follows_probes [OF _ r]
    by (simp_all add: gate_closed_def since_ok_def soft_count_def isAntdHardDown_def antd_levels_def antd_level_def
        antd_event_def sample_ops_def)
  with r show ?thesis by (intro exI conjI)
qed


end
