(* ===== verification/Accounts.thy ===== *)
theory Accounts
  imports Schema Numbers
begin

text \<open>
  \<open>internal/services\<close>: \<open>user.go\<close>, \<open>permission.go\<close>, \<open>group.go\<close>, \<open>token.go\<close>,
  \<open>reset_token.go\<close>, \<open>email_verification.go\<close>, \<open>scim_token.go\<close>, \<open>notification_pref.go\<close> and
  \<open>admin_seed.go\<close>: the tables behind identity and access, with their unique, check and foreign-key constraints.
  The quota service of \<open>Quota\<close> sees the same users, groups and members as bare ids. Random bytes, uuids and bcrypt
  are arguments.
\<close>

section \<open>State\<close>

record user =
  us_id :: int
  us_email :: string
  us_hash :: "string option"
  us_first :: string
  us_last :: string
  us_active :: bool
  us_service :: bool
  us_verified :: bool
  us_external :: "string option"
  us_last_login :: "time option"
  us_max :: "int option"
  us_types :: "string option"
  us_changed :: "time option"
  us_created :: time
  us_updated :: time
  us_deleted :: "time option"

record permission_row =
  pm_user :: int
  pm_level :: string
  pm_by :: int
  pm_at :: time

record group_row =
  gp_id :: int
  gp_name :: string
  gp_desc :: string
  gp_level :: string
  gp_active :: bool
  gp_external :: "string option"
  gp_created :: time
  gp_updated :: time

record member_row =
  mb_group :: int
  mb_user :: int
  mb_by :: "int option"
  mb_at :: time

record token_row =
  at_id :: int
  at_uuid :: string
  at_name :: string
  at_desc :: string
  at_hash :: string
  at_user :: int
  at_perms :: string
  at_dept :: "string option"
  at_max :: "int option"
  at_types :: "string option"
  at_expires :: "time option"
  at_revoked :: "time option"
  at_revoked_by :: "int option"
  at_reason :: "string option"
  at_usage :: int
  at_last_used :: "time option"
  at_created :: time

record usage_row =
  ul_token :: int
  ul_endpoint :: string
  ul_method :: string
  ul_ip :: string
  ul_agent :: string
  ul_status :: int
  ul_at :: time

text \<open>The rows of \<open>password_reset_tokens\<close> and \<open>email_verification_tokens\<close>.\<close>

record link_row =
  lk_user :: int
  lk_token :: string
  lk_expires :: time
  lk_used :: "time option"

record scim_row =
  sk_id :: int
  sk_name :: string
  sk_hash :: string
  sk_active :: bool
  sk_by :: int
  sk_last_used :: "time option"
  sk_created :: time
  sk_revoked :: "time option"

record pref_row =
  np_user :: int
  np_url :: "string option"
  np_events :: string
  np_digest :: string

record acct_db =
  ac_users :: "user list"
  ac_user_seq :: int
  ac_perms :: "permission_row list"
  ac_groups :: "group_row list"
  ac_group_seq :: int
  ac_members :: "member_row list"
  ac_tokens :: "token_row list"
  ac_token_seq :: int
  ac_usage :: "usage_row list"
  ac_resets :: "link_row list"
  ac_verifs :: "link_row list"
  ac_scim :: "scim_row list"
  ac_scim_seq :: int
  ac_identities :: "(int \<times> int \<times> string) list"
  ac_default_groups :: "int list"
  ac_prefs :: "pref_row list"

definition empty_accounts :: acct_db where
  "empty_accounts = \<lparr>ac_users = [], ac_user_seq = 0, ac_perms = [], ac_groups = [], ac_group_seq = 0, ac_members = [],
     ac_tokens = [], ac_token_seq = 0, ac_usage = [], ac_resets = [], ac_verifs = [], ac_scim = [], ac_scim_seq = 0,
     ac_identities = [], ac_default_groups = [], ac_prefs = []\<rparr>"

text \<open>The foreign keys to \<open>users(id)\<close> and \<open>groups(id)\<close>; a NULL reference is allowed.\<close>

definition user_exists :: "int \<Rightarrow> acct_db \<Rightarrow> bool" where
  "user_exists i s \<longleftrightarrow> (\<exists>u \<in> set (ac_users s). us_id u = i)"

definition group_exists :: "int \<Rightarrow> acct_db \<Rightarrow> bool" where
  "group_exists i s \<longleftrightarrow> (\<exists>g \<in> set (ac_groups s). gp_id g = i)"

definition null_or :: "('a \<Rightarrow> bool) \<Rightarrow> 'a option \<Rightarrow> bool" where
  "null_or P x = (case x of None \<Rightarrow> True | Some y \<Rightarrow> P y)"

text \<open>The sentinel errors.\<close>

definition ErrUserNotFound :: error where "ErrUserNotFound = ErrMsg ''user not found''"
definition ErrEmailTaken :: error where "ErrEmailTaken = ErrMsg ''email already registered''"
definition ErrInvalidCredentials :: error where "ErrInvalidCredentials = ErrMsg ''invalid email or password''"
definition ErrGroupNotFound :: error where "ErrGroupNotFound = ErrMsg ''group not found''"
definition ErrGroupNameTaken :: error where "ErrGroupNameTaken = ErrMsg ''group name already exists''"
definition ErrAlreadyMember :: error where "ErrAlreadyMember = ErrMsg ''user is already a member''"
definition ErrNotMember :: error where "ErrNotMember = ErrMsg ''user is not a member''"
definition ErrTokenNotFound :: error where "ErrTokenNotFound = ErrMsg ''token not found''"
definition ErrScimTokenNotFound :: error where "ErrScimTokenNotFound = ErrMsg ''SCIM token not found''"

section \<open>UserService\<close>

definition select_user :: "faults \<Rightarrow> (user \<Rightarrow> bool) \<Rightarrow> acct_db \<Rightarrow> error + user" where
  "select_user flt P s =
     (if flt 0 then Inl DBError
      else case find (\<lambda>u. P u \<and> us_deleted u = None) (ac_users s) of None \<Rightarrow> Inl ErrUserNotFound | Some u \<Rightarrow> Inr u)"

definition User_GetByID :: "faults \<Rightarrow> int \<Rightarrow> acct_db \<Rightarrow> error + user" where
  "User_GetByID flt i s = select_user flt (\<lambda>u. us_id u = i) s"

definition User_GetByEmail :: "faults \<Rightarrow> string \<Rightarrow> acct_db \<Rightarrow> error + user" where
  "User_GetByEmail flt email s = select_user flt (\<lambda>u. us_email u = email) s"

definition User_GetByExternalID :: "faults \<Rightarrow> string \<Rightarrow> acct_db \<Rightarrow> error + user" where
  "User_GetByExternalID flt e s = select_user flt (\<lambda>u. us_external u = Some e) s"

text \<open>\<open>UNIQUE(email)\<close> and the unique index on non-null external ids count deleted rows too.\<close>

definition unique_user :: "(user \<Rightarrow> bool) \<Rightarrow> string \<Rightarrow> string option \<Rightarrow> acct_db \<Rightarrow> bool" where
  "unique_user other email external s \<longleftrightarrow>
     (\<forall>u \<in> set (ac_users s). other u \<longrightarrow> us_email u \<noteq> email \<and> (external \<noteq> None \<longrightarrow> us_external u \<noteq> external))"

definition fresh_user ::
  "int \<Rightarrow> time \<Rightarrow> string \<Rightarrow> string option \<Rightarrow> string \<Rightarrow> string \<Rightarrow> bool \<Rightarrow> string option \<Rightarrow> user" where
  "fresh_user i now email hash first_name last_name service external =
     \<lparr>us_id = i, us_email = email, us_hash = hash, us_first = first_name, us_last = last_name, us_active = True,
      us_service = service, us_verified = False, us_external = external, us_last_login = None, us_max = None,
      us_types = None, us_changed = None, us_created = now, us_updated = now, us_deleted = None\<rparr>"

text \<open>The three inserts differ in the columns they set. Faults: 0 the insert, 1 the read.\<close>

definition insert_user ::
  "faults \<Rightarrow> time \<Rightarrow> string \<Rightarrow> string option \<Rightarrow> string \<Rightarrow> string \<Rightarrow> bool \<Rightarrow> string option \<Rightarrow> acct_db \<Rightarrow> (error + user) \<times> acct_db" where
  "insert_user flt now email hash first_name last_name service external s =
     (if flt 0 then (Inl DBError, s)
      else if \<not> unique_user (\<lambda>_. True) email external s then (Inl ErrEmailTaken, s)
      else let i = ac_user_seq s + 1;
               s' = s\<lparr>ac_users := ac_users s @ [fresh_user i now email hash first_name last_name service external],
                     ac_user_seq := i\<rparr>
           in (User_GetByID (later 1 flt) i s', s'))"

definition User_Create :: "faults \<Rightarrow> time \<Rightarrow> string \<Rightarrow> string \<Rightarrow> string \<Rightarrow> string \<Rightarrow> acct_db \<Rightarrow> (error + user) \<times> acct_db" where
  "User_Create flt now email hash first_name last_name s =
     insert_user flt now email (Some hash) first_name last_name False None s"

definition CreateServiceAccount :: "faults \<Rightarrow> time \<Rightarrow> string \<Rightarrow> string \<Rightarrow> string \<Rightarrow> acct_db \<Rightarrow> (error + user) \<times> acct_db" where
  "CreateServiceAccount flt now email first_name last_name s = insert_user flt now email None first_name last_name True None s"

definition CreateFromSCIM :: "faults \<Rightarrow> time \<Rightarrow> string \<Rightarrow> string \<Rightarrow> string \<Rightarrow> string \<Rightarrow> acct_db \<Rightarrow> (error + user) \<times> acct_db" where
  "CreateFromSCIM flt now email first_name last_name external s =
     insert_user flt now email None first_name last_name False (if external = [] then None else Some external) s"

text \<open>An \<open>UPDATE users ... WHERE id = ?\<close>.\<close>

definition update_user :: "faults \<Rightarrow> int \<Rightarrow> (user \<Rightarrow> user) \<Rightarrow> acct_db \<Rightarrow> (error + unit) \<times> acct_db" where
  "update_user flt i f s =
     (if flt 0 then (Inl DBError, s)
      else (Inr (), s\<lparr>ac_users := update_where (\<lambda>u. us_id u = i) f (ac_users s)\<rparr>))"

definition UpdateLastLogin :: "faults \<Rightarrow> time \<Rightarrow> int \<Rightarrow> acct_db \<Rightarrow> (error + unit) \<times> acct_db" where
  "UpdateLastLogin flt now i s = update_user flt i (\<lambda>u. u\<lparr>us_last_login := Some now, us_updated := now\<rparr>) s"

definition User_Count :: "faults \<Rightarrow> acct_db \<Rightarrow> error + int" where
  "User_Count flt s = (if flt 0 then Inl DBError else Inr (rows_affected (\<lambda>u. us_deleted u = None) (ac_users s)))"

definition User_List :: "faults \<Rightarrow> int \<Rightarrow> int \<Rightarrow> acct_db \<Rightarrow> error + user list \<times> int" where
  "User_List flt limit offset s =
     (if flt 0 \<or> flt 1 then Inl DBError
      else Inr (limit_offset limit offset (order_desc us_created (filter (\<lambda>u. us_deleted u = None) (ac_users s))),
                rows_affected (\<lambda>u. us_deleted u = None) (ac_users s)))"

definition User_Update :: "faults \<Rightarrow> time \<Rightarrow> int \<Rightarrow> string \<Rightarrow> string \<Rightarrow> bool option \<Rightarrow> acct_db \<Rightarrow> (error + unit) \<times> acct_db" where
  "User_Update flt now i first_name last_name isActive s =
     (case User_GetByID flt i s of
        Inl e \<Rightarrow> (Inl e, s)
      | Inr u \<Rightarrow>
          update_user (later 1 flt) i
            (\<lambda>r. r\<lparr>us_first := (if first_name = [] then us_first u else first_name),
                   us_last := (if last_name = [] then us_last u else last_name),
                   us_active := (case isActive of None \<Rightarrow> us_active u | Some b \<Rightarrow> b), us_updated := now\<rparr>) s)"

definition UpdateRestrictions :: "faults \<Rightarrow> time \<Rightarrow> int \<Rightarrow> int option \<Rightarrow> string \<Rightarrow> acct_db \<Rightarrow> (error + unit) \<times> acct_db" where
  "UpdateRestrictions flt now i maxFileSize allowedTypes s =
     update_user flt i (\<lambda>u. u\<lparr>us_max := maxFileSize, us_types := (if allowedTypes = [] then None else Some allowedTypes),
                             us_updated := now\<rparr>) s"

text \<open>Faults: 0 \<open>Begin\<close>, 1 the identities, 2 the user, 3 \<open>Commit\<close>.\<close>

definition deleted_suffix :: "time \<Rightarrow> string" where
  "deleted_suffix now = ''.deleted.'' @ show_int now"

definition SoftDelete :: "faults \<Rightarrow> time \<Rightarrow> int \<Rightarrow> acct_db \<Rightarrow> (error + unit) \<times> acct_db" where
  "SoftDelete flt now i s =
     (if flt 0 \<or> flt 1 \<or> flt 2 then (Inl DBError, s)
      else let us = update_where (\<lambda>u. us_id u = i)
                      (\<lambda>u. u\<lparr>us_email := us_email u @ deleted_suffix now, us_deleted := Some now, us_updated := now\<rparr>) (ac_users s)
           in if \<not> distinct (map us_email us) then (Inl UniqueViolation, s)
              else if flt 3 then (Inl DBError, s)
              else (Inr (), s\<lparr>ac_users := us, ac_identities := delete_where (\<lambda>x. fst x = i) (ac_identities s)\<rparr>))"

definition UpdatePassword :: "faults \<Rightarrow> time \<Rightarrow> int \<Rightarrow> string \<Rightarrow> acct_db \<Rightarrow> (error + unit) \<times> acct_db" where
  "UpdatePassword flt now i hash s =
     update_user flt i (\<lambda>u. u\<lparr>us_hash := Some hash, us_changed := Some now, us_updated := now\<rparr>) s"

definition UpdateFromSCIM ::
  "faults \<Rightarrow> time \<Rightarrow> int \<Rightarrow> string \<Rightarrow> string \<Rightarrow> string \<Rightarrow> string option \<Rightarrow> bool option \<Rightarrow> acct_db \<Rightarrow> (error + unit) \<times> acct_db" where
  "UpdateFromSCIM flt now i email first_name last_name externalID isActive s =
     (let external = (case externalID of None \<Rightarrow> None | Some e \<Rightarrow> if e = [] then None else Some e);
          P = (\<lambda>u. us_id u = i \<and> us_deleted u = None)
      in if flt 0 then (Inl DBError, s)
         else if (\<exists>u \<in> set (ac_users s). P u) \<and> \<not> unique_user (\<lambda>u. us_id u \<noteq> i) email external s then (Inl UniqueViolation, s)
         else (Inr (), s\<lparr>ac_users := update_where P
                 (\<lambda>u. u\<lparr>us_email := email, us_first := first_name, us_last := last_name, us_external := external,
                        us_active := (case isActive of None \<Rightarrow> us_active u | Some b \<Rightarrow> b), us_updated := now\<rparr>) (ac_users s)\<rparr>))"

definition User_SetExternalID :: "faults \<Rightarrow> time \<Rightarrow> int \<Rightarrow> string \<Rightarrow> acct_db \<Rightarrow> (error + unit) \<times> acct_db" where
  "User_SetExternalID flt now i externalID s =
     (if flt 0 then (Inl DBError, s)
      else if user_exists i s \<and> (\<exists>u \<in> set (ac_users s). us_id u \<noteq> i \<and> us_external u = Some externalID) then (Inl UniqueViolation, s)
      else (Inr (), s\<lparr>ac_users := update_where (\<lambda>u. us_id u = i)
              (\<lambda>u. u\<lparr>us_external := Some externalID, us_updated := now\<rparr>) (ac_users s)\<rparr>))"



section \<open>PermissionService\<close>

definition level_rank :: "string \<Rightarrow> nat" where
  "level_rank l = (if l = ''admin'' then 3 else if l = ''write'' then 2 else if l = ''read'' then 1 else 0)"

definition highest :: "string \<Rightarrow> string \<Rightarrow> string" where
  "highest a b = (if level_rank b \<le> level_rank a then a else b)"

definition validPermissionLevel :: "string \<Rightarrow> bool" where
  "validPermissionLevel l \<longleftrightarrow> l = ''read'' \<or> l = ''write'' \<or> l = ''admin''"

text \<open>An upsert with the check constraint on the level and the foreign keys of user and granter.\<close>

definition SetDirect :: "faults \<Rightarrow> time \<Rightarrow> int \<Rightarrow> string \<Rightarrow> int \<Rightarrow> acct_db \<Rightarrow> (error + unit) \<times> acct_db" where
  "SetDirect flt now userID level grantedBy s =
     (if flt 0 \<or> \<not> validPermissionLevel level then (Inl DBError, s)
      else if \<not> user_exists userID s \<or> \<not> user_exists grantedBy s then (Inl FKViolation, s)
      else (Inr (), s\<lparr>ac_perms :=
              (if (\<exists>p \<in> set (ac_perms s). pm_user p = userID)
               then update_where (\<lambda>p. pm_user p = userID) (\<lambda>p. p\<lparr>pm_level := level, pm_by := grantedBy, pm_at := now\<rparr>) (ac_perms s)
               else ac_perms s @ [\<lparr>pm_user = userID, pm_level = level, pm_by = grantedBy, pm_at = now\<rparr>])\<rparr>))"

definition GetDirect :: "faults \<Rightarrow> int \<Rightarrow> acct_db \<Rightarrow> error + string" where
  "GetDirect flt userID s =
     (if flt 0 then Inl DBError
      else case find (\<lambda>p. pm_user p = userID) (ac_perms s) of None \<Rightarrow> Inr [] | Some p \<Rightarrow> Inr (pm_level p))"

text \<open>The levels of the active groups of a user, one per membership.\<close>

definition group_levels :: "int \<Rightarrow> acct_db \<Rightarrow> string list" where
  "group_levels userID s =
     concat (map (\<lambda>m. map gp_level (filter (\<lambda>g. gp_id g = mb_group m \<and> gp_active g) (ac_groups s)))
       (filter (\<lambda>m. mb_user m = userID) (ac_members s)))"

definition group_level :: "int \<Rightarrow> acct_db \<Rightarrow> string" where
  "group_level userID s = (case order_desc level_rank (group_levels userID s) of [] \<Rightarrow> [] | l # _ \<Rightarrow> l)"

definition GetEffective :: "faults \<Rightarrow> int \<Rightarrow> acct_db \<Rightarrow> error + string" where
  "GetEffective flt userID s =
     (case GetDirect flt userID s of
        Inl e \<Rightarrow> Inl e
      | Inr direct \<Rightarrow> if flt 1 then Inl DBError else Inr (highest direct (group_level userID s)))"

definition IsAdmin :: "faults \<Rightarrow> int \<Rightarrow> acct_db \<Rightarrow> error + bool" where
  "IsAdmin flt userID s = (case GetEffective flt userID s of Inl e \<Rightarrow> Inl e | Inr level \<Rightarrow> Inr (level = ''admin''))"

definition CountAdmins :: "faults \<Rightarrow> acct_db \<Rightarrow> error + int" where
  "CountAdmins flt s =
     (if flt 0 then Inl DBError
      else Inr (int (length (remdups (map us_id (filter (\<lambda>u. us_active u \<and> us_deleted u = None \<and>
             ((\<exists>p \<in> set (ac_perms s). pm_user p = us_id u \<and> pm_level p = ''admin'') \<or>
              (\<exists>m \<in> set (ac_members s). mb_user m = us_id u \<and>
                 (\<exists>g \<in> set (ac_groups s). gp_id g = mb_group m \<and> gp_active g \<and> gp_level g = ''admin'')))) (ac_users s)))))))"

section \<open>GroupService\<close>

definition Group_GetByID :: "faults \<Rightarrow> int \<Rightarrow> acct_db \<Rightarrow> error + group_row" where
  "Group_GetByID flt i s =
     (if flt 0 then Inl DBError
      else case find (\<lambda>g. gp_id g = i) (ac_groups s) of None \<Rightarrow> Inl ErrGroupNotFound | Some g \<Rightarrow> Inr g)"

definition Group_GetByExternalID :: "faults \<Rightarrow> string \<Rightarrow> acct_db \<Rightarrow> error + group_row" where
  "Group_GetByExternalID flt e s =
     (if flt 0 then Inl DBError
      else case find (\<lambda>g. gp_external g = Some e) (ac_groups s) of None \<Rightarrow> Inl ErrGroupNotFound | Some g \<Rightarrow> Inr g)"

definition Group_Create :: "faults \<Rightarrow> time \<Rightarrow> string \<Rightarrow> string \<Rightarrow> string \<Rightarrow> acct_db \<Rightarrow> (error + group_row) \<times> acct_db" where
  "Group_Create flt now name description level s =
     (if flt 0 \<or> \<not> validPermissionLevel level then (Inl DBError, s)
      else if (\<exists>g \<in> set (ac_groups s). gp_name g = name) then (Inl ErrGroupNameTaken, s)
      else let i = ac_group_seq s + 1;
               s' = s\<lparr>ac_groups := ac_groups s @ [\<lparr>gp_id = i, gp_name = name, gp_desc = description, gp_level = level,
                        gp_active = True, gp_external = None, gp_created = now, gp_updated = now\<rparr>], ac_group_seq := i\<rparr>
           in (Group_GetByID (later 1 flt) i s', s'))"

definition Group_List :: "faults \<Rightarrow> acct_db \<Rightarrow> error + group_row list" where
  "Group_List flt s = (if flt 0 then Inl DBError else Inr (order_asc gp_name (ac_groups s)))"

definition Group_ListByUser :: "faults \<Rightarrow> int \<Rightarrow> acct_db \<Rightarrow> error + group_row list" where
  "Group_ListByUser flt userID s =
     (if flt 0 then Inl DBError
      else Inr (order_asc gp_name (concat (map (\<lambda>m. filter (\<lambda>g. gp_id g = mb_group m) (ac_groups s))
             (filter (\<lambda>m. mb_user m = userID) (ac_members s))))))"

definition Group_Update ::
  "faults \<Rightarrow> time \<Rightarrow> int \<Rightarrow> string \<Rightarrow> string \<Rightarrow> string \<Rightarrow> bool option \<Rightarrow> acct_db \<Rightarrow> (error + unit) \<times> acct_db" where
  "Group_Update flt now i name description level isActive s =
     (case Group_GetByID flt i s of
        Inl e \<Rightarrow> (Inl e, s)
      | Inr g \<Rightarrow>
          (let name' = (if name = [] then gp_name g else name);
               level' = (if level = [] then gp_level g else level)
           in if flt 1 \<or> \<not> validPermissionLevel level' then (Inl DBError, s)
              else if (\<exists>x \<in> set (ac_groups s). gp_id x \<noteq> i \<and> gp_name x = name') then (Inl UniqueViolation, s)
              else (Inr (), s\<lparr>ac_groups := update_where (\<lambda>x. gp_id x = i)
                     (\<lambda>x. x\<lparr>gp_name := name', gp_desc := (if description = [] then gp_desc g else description), gp_level := level',
                            gp_active := (case isActive of None \<Rightarrow> gp_active g | Some b \<Rightarrow> b), gp_updated := now\<rparr>) (ac_groups s)\<rparr>)))"

text \<open>Two statements outside a transaction; an OIDC provider may reference the group.\<close>

definition Group_Delete :: "faults \<Rightarrow> int \<Rightarrow> acct_db \<Rightarrow> (error + unit) \<times> acct_db" where
  "Group_Delete flt i s =
     (if flt 0 then (Inl DBError, s)
      else let s' = s\<lparr>ac_members := delete_where (\<lambda>m. mb_group m = i) (ac_members s)\<rparr>
           in if flt 1 then (Inl DBError, s')
              else if i \<in> set (ac_default_groups s) then (Inl FKViolation, s')
              else (Inr (), s'\<lparr>ac_groups := delete_where (\<lambda>g. gp_id g = i) (ac_groups s)\<rparr>))"

definition nullableAddedBy :: "int \<Rightarrow> int option" where
  "nullableAddedBy addedBy = (if addedBy = 0 then None else Some addedBy)"

definition insert_member :: "bool \<Rightarrow> time \<Rightarrow> int \<Rightarrow> int \<Rightarrow> int option \<Rightarrow> acct_db \<Rightarrow> (error + unit) \<times> acct_db" where
  "insert_member fails now groupID userID by s =
     (if fails then (Inl DBError, s)
      else if (\<exists>m \<in> set (ac_members s). mb_group m = groupID \<and> mb_user m = userID) then (Inl UniqueViolation, s)
      else if \<not> group_exists groupID s \<or> \<not> user_exists userID s \<or> \<not> null_or (\<lambda>u. user_exists u s) by then (Inl FKViolation, s)
      else (Inr (), s\<lparr>ac_members := ac_members s @ [\<lparr>mb_group = groupID, mb_user = userID, mb_by = by, mb_at = now\<rparr>]\<rparr>))"

definition AddMember :: "faults \<Rightarrow> time \<Rightarrow> int \<Rightarrow> int \<Rightarrow> int \<Rightarrow> acct_db \<Rightarrow> (error + unit) \<times> acct_db" where
  "AddMember flt now groupID userID addedBy s =
     (case insert_member (flt 0) now groupID userID (nullableAddedBy addedBy) s of
        (Inl UniqueViolation, s') \<Rightarrow> (Inl ErrAlreadyMember, s')
      | r \<Rightarrow> r)"

definition RemoveMember :: "faults \<Rightarrow> int \<Rightarrow> int \<Rightarrow> acct_db \<Rightarrow> (error + unit) \<times> acct_db" where
  "RemoveMember flt groupID userID s =
     (let P = (\<lambda>m. mb_group m = groupID \<and> mb_user m = userID)
      in if flt 0 then (Inl DBError, s)
         else if rows_affected P (ac_members s) = 0 then (Inl ErrNotMember, s)
         else (Inr (), s\<lparr>ac_members := delete_where P (ac_members s)\<rparr>))"

definition ListMembers :: "faults \<Rightarrow> int \<Rightarrow> acct_db \<Rightarrow> error + int list" where
  "ListMembers flt groupID s =
     (if flt 0 then Inl DBError else Inr (map mb_user (filter (\<lambda>m. mb_group m = groupID) (ac_members s))))"

definition MemberCount :: "faults \<Rightarrow> int \<Rightarrow> acct_db \<Rightarrow> error + int" where
  "MemberCount flt groupID s =
     (if flt 0 then Inl DBError else Inr (rows_affected (\<lambda>m. mb_group m = groupID) (ac_members s)))"

definition Group_SetExternalID :: "faults \<Rightarrow> time \<Rightarrow> int \<Rightarrow> string \<Rightarrow> acct_db \<Rightarrow> (error + unit) \<times> acct_db" where
  "Group_SetExternalID flt now i externalID s =
     (if flt 0 then (Inl DBError, s)
      else if group_exists i s \<and> (\<exists>g \<in> set (ac_groups s). gp_id g \<noteq> i \<and> gp_external g = Some externalID) then (Inl UniqueViolation, s)
      else (Inr (), s\<lparr>ac_groups := update_where (\<lambda>g. gp_id g = i)
              (\<lambda>g. g\<lparr>gp_external := Some externalID, gp_updated := now\<rparr>) (ac_groups s)\<rparr>))"

text \<open>\<open>ReplaceMembers\<close>, one transaction. Faults: 0 \<open>Begin\<close>, 1 the delete, one per insert, then \<open>Commit\<close>.\<close>

fun insert_members :: "faults \<Rightarrow> time \<Rightarrow> int \<Rightarrow> int option \<Rightarrow> int list \<Rightarrow> acct_db \<Rightarrow> (error + unit) \<times> acct_db" where
  "insert_members flt now groupID by [] s = (Inr (), s)"
| "insert_members flt now groupID by (uid # uids) s =
     (case insert_member (flt 0) now groupID uid by s of
        (Inl e, s') \<Rightarrow> (Inl e, s')
      | (Inr _, s') \<Rightarrow> insert_members (later 1 flt) now groupID by uids s')"

definition ReplaceMembers :: "faults \<Rightarrow> time \<Rightarrow> int \<Rightarrow> int list \<Rightarrow> int \<Rightarrow> acct_db \<Rightarrow> (error + unit) \<times> acct_db" where
  "ReplaceMembers flt now groupID userIDs addedBy s =
     (if flt 0 \<or> flt 1 then (Inl DBError, s)
      else case insert_members (later 2 flt) now groupID (nullableAddedBy addedBy) userIDs
                  (s\<lparr>ac_members := delete_where (\<lambda>m. mb_group m = groupID) (ac_members s)\<rparr>) of
             (Inl e, _) \<Rightarrow> (Inl e, s)
           | (Inr _, s') \<Rightarrow> if flt (2 + length userIDs) then (Inl DBError, s) else (Inr (), s'))"

section \<open>TokenService\<close>

text \<open>bcrypt: hashing may fail (a password of more than 72 bytes); \<open>hh_check hash password\<close> is the comparison.\<close>

record hasher =
  hh_hash :: "string \<Rightarrow> string option"
  hh_check :: "string \<Rightarrow> string \<Rightarrow> bool"

definition Token_GetByID :: "faults \<Rightarrow> int \<Rightarrow> acct_db \<Rightarrow> error + token_row" where
  "Token_GetByID flt i s =
     (if flt 0 then Inl DBError
      else case find (\<lambda>t. at_id t = i) (ac_tokens s) of None \<Rightarrow> Inl ErrTokenNotFound | Some t \<Rightarrow> Inr t)"

definition Token_GetByUUID :: "faults \<Rightarrow> string \<Rightarrow> acct_db \<Rightarrow> error + token_row" where
  "Token_GetByUUID flt uuid s =
     (if flt 0 then Inl DBError
      else case find (\<lambda>t. at_uuid t = uuid) (ac_tokens s) of None \<Rightarrow> Inl ErrTokenNotFound | Some t \<Rightarrow> Inr t)"

text \<open>What a token is issued with. \<open>raw\<close> are the random bytes of the secret.\<close>

record token_spec =
  ts_user :: int
  ts_name :: string
  ts_desc :: string
  ts_perms :: string
  ts_dept :: string
  ts_max :: "int option"
  ts_types :: string
  ts_expires :: "time option"

definition none_if_empty :: "string \<Rightarrow> string option" where
  "none_if_empty x = (if x = [] then None else Some x)"

text \<open>Faults: 0 the random source, 1 the insert, 2 the read.\<close>

definition Token_Create ::
  "hasher \<Rightarrow> faults \<Rightarrow> time \<Rightarrow> string \<Rightarrow> string \<Rightarrow> token_spec \<Rightarrow> acct_db \<Rightarrow> (error + string \<times> token_row) \<times> acct_db" where
  "Token_Create hh flt now raw uuid ts s =
     (if flt 0 then (Inl ErrIO, s)
      else let secret = ''ind_'' @ hex_encode raw
           in case hh_hash hh secret of
                None \<Rightarrow> (Inl ErrInvalid, s)
              | Some hash \<Rightarrow>
                  if flt 1 then (Inl DBError, s)
                  else if \<not> user_exists (ts_user ts) s then (Inl FKViolation, s)
                  else if (\<exists>t \<in> set (ac_tokens s). at_uuid t = uuid \<or> at_hash t = hash) then (Inl UniqueViolation, s)
                  else let i = ac_token_seq s + 1;
                           t = \<lparr>at_id = i, at_uuid = uuid, at_name = ts_name ts, at_desc = ts_desc ts, at_hash = hash,
                                at_user = ts_user ts, at_perms = (if ts_perms ts = [] then ''[\"read\"]'' else ts_perms ts),
                                at_dept = none_if_empty (ts_dept ts), at_max = ts_max ts, at_types = none_if_empty (ts_types ts),
                                at_expires = ts_expires ts, at_revoked = None, at_revoked_by = None, at_reason = None,
                                at_usage = 0, at_last_used = None, at_created = now\<rparr>;
                           s' = s\<lparr>ac_tokens := ac_tokens s @ [t], ac_token_seq := i\<rparr>
                       in (case Token_GetByID (later 2 flt) i s' of Inl e \<Rightarrow> Inl e | Inr r \<Rightarrow> Inr (secret, r), s'))"

text \<open>The rows come in the order of the table; the first match that is neither revoked nor expired wins.
  Faults: 0 the query.\<close>

definition expired :: "time \<Rightarrow> token_row \<Rightarrow> bool" where
  "expired now t \<longleftrightarrow> (case at_expires t of None \<Rightarrow> False | Some e \<Rightarrow> e < now)"

definition Token_ValidateSecret :: "hasher \<Rightarrow> faults \<Rightarrow> time \<Rightarrow> string \<Rightarrow> acct_db \<Rightarrow> error + token_row" where
  "Token_ValidateSecret hh flt now secret s =
     (if flt 0 then Inl DBError
      else case find (\<lambda>t. at_revoked t = None \<and> \<not> expired now t \<and> hh_check hh (at_hash t) secret) (ac_tokens s) of
             None \<Rightarrow> Inl ErrTokenNotFound | Some t \<Rightarrow> Inr t)"

definition Token_RecordUsage :: "faults \<Rightarrow> time \<Rightarrow> int \<Rightarrow> acct_db \<Rightarrow> acct_db" where
  "Token_RecordUsage flt now i s =
     (if flt 0 then s
      else s\<lparr>ac_tokens := update_where (\<lambda>t. at_id t = i) (\<lambda>t. t\<lparr>at_usage := at_usage t + 1, at_last_used := Some now\<rparr>) (ac_tokens s)\<rparr>)"

definition LogUsage :: "faults \<Rightarrow> time \<Rightarrow> int \<Rightarrow> string \<Rightarrow> string \<Rightarrow> string \<Rightarrow> string \<Rightarrow> int \<Rightarrow> acct_db \<Rightarrow> acct_db" where
  "LogUsage flt now i endpoint method ip agent status s =
     (if flt 0 \<or> \<not> (\<exists>t \<in> set (ac_tokens s). at_id t = i) then s
      else s\<lparr>ac_usage := ac_usage s @ [\<lparr>ul_token = i, ul_endpoint = endpoint, ul_method = method, ul_ip = ip, ul_agent = agent,
              ul_status = status, ul_at = now\<rparr>]\<rparr>)"

definition Token_ListByUser :: "faults \<Rightarrow> int \<Rightarrow> acct_db \<Rightarrow> error + token_row list" where
  "Token_ListByUser flt userID s =
     (if flt 0 then Inl DBError else Inr (order_desc at_created (filter (\<lambda>t. at_user t = userID) (ac_tokens s))))"

definition Token_ListAll :: "faults \<Rightarrow> int \<Rightarrow> int \<Rightarrow> acct_db \<Rightarrow> error + token_row list \<times> int" where
  "Token_ListAll flt limit offset s =
     (if flt 0 \<or> flt 1 then Inl DBError
      else Inr (limit_offset limit offset (order_desc at_created (ac_tokens s)), int (length (ac_tokens s))))"

definition nullableRevokedBy :: "int \<Rightarrow> int option" where
  "nullableRevokedBy revokedBy = (if revokedBy = 0 then None else Some revokedBy)"

text \<open>The \<open>UPDATE\<close> of the three revocations; the check of \<open>revoked_by\<close> only matters when a row is updated.\<close>

definition revoke_where ::
  "faults \<Rightarrow> time \<Rightarrow> int \<Rightarrow> string \<Rightarrow> (token_row \<Rightarrow> bool) \<Rightarrow> acct_db \<Rightarrow> (error + int) \<times> acct_db" where
  "revoke_where flt now revokedBy reason Q s =
     (let P = (\<lambda>t. Q t \<and> at_revoked t = None)
      in if flt 0 then (Inl DBError, s)
         else if 0 < rows_affected P (ac_tokens s) \<and> \<not> null_or (\<lambda>u. user_exists u s) (nullableRevokedBy revokedBy) then (Inl FKViolation, s)
         else (Inr (rows_affected P (ac_tokens s)),
               s\<lparr>ac_tokens := update_where P (\<lambda>t. t\<lparr>at_revoked := Some now, at_revoked_by := nullableRevokedBy revokedBy,
                                                      at_reason := Some reason\<rparr>) (ac_tokens s)\<rparr>))"

definition Revoke :: "faults \<Rightarrow> time \<Rightarrow> int \<Rightarrow> int \<Rightarrow> string \<Rightarrow> acct_db \<Rightarrow> (error + unit) \<times> acct_db" where
  "Revoke flt now tokenID revokedBy reason s =
     (case revoke_where flt now revokedBy reason (\<lambda>t. at_id t = tokenID) s of
        (Inl e, s') \<Rightarrow> (Inl e, s')
      | (Inr n, s') \<Rightarrow> (if n = 0 then Inl ErrTokenNotFound else Inr (), s'))"

definition RevokeAllByUser :: "faults \<Rightarrow> time \<Rightarrow> int \<Rightarrow> int \<Rightarrow> string \<Rightarrow> acct_db \<Rightarrow> (error + int) \<times> acct_db" where
  "RevokeAllByUser flt now userID revokedBy reason s = revoke_where flt now revokedBy reason (\<lambda>t. at_user t = userID) s"

definition BulkRevoke :: "faults \<Rightarrow> time \<Rightarrow> int list \<Rightarrow> int \<Rightarrow> string \<Rightarrow> acct_db \<Rightarrow> (error + int) \<times> acct_db" where
  "BulkRevoke flt now tokenIDs revokedBy reason s =
     (if tokenIDs = [] then (Inr 0, s) else revoke_where flt now revokedBy reason (\<lambda>t. at_id t \<in> set tokenIDs) s)"

section \<open>Reset and verification links\<close>

definition issue_link :: "faults \<Rightarrow> time \<Rightarrow> int \<Rightarrow> string \<Rightarrow> int \<Rightarrow> acct_db \<Rightarrow> link_row list \<Rightarrow> (error + string) \<times> link_row list" where
  "issue_link flt now lifetime raw userID s rows =
     (if flt 0 then (Inl ErrIO, rows)
      else let token = hex_encode raw;
               rows1 = (if flt 1 then rows
                        else update_where (\<lambda>l. lk_user l = userID \<and> lk_used l = None) (\<lambda>l. l\<lparr>lk_used := Some now\<rparr>) rows)
           in if flt 2 then (Inl DBError, rows1)
              else if \<not> user_exists userID s then (Inl FKViolation, rows1)
              else if (\<exists>l \<in> set rows1. lk_token l = token) then (Inl UniqueViolation, rows1)
              else (Inr token, rows1 @ [\<lparr>lk_user = userID, lk_token = token, lk_expires = now + lifetime, lk_used = None\<rparr>]))"

text \<open>Faults: 0 the row, 1 the mark, whose error is dropped.\<close>

definition redeem_link :: "faults \<Rightarrow> time \<Rightarrow> string \<Rightarrow> link_row list \<Rightarrow> (error + int) \<times> link_row list" where
  "redeem_link flt now token rows =
     (if flt 0 then (Inl DBError, rows)
      else case find (\<lambda>l. lk_token l = token \<and> lk_used l = None) rows of
             None \<Rightarrow> (Inl ErrInvalidCredentials, rows)
           | Some l \<Rightarrow>
               if lk_expires l < now then (Inl ErrInvalidCredentials, rows)
               else (Inr (lk_user l),
                     if flt 1 then rows else update_where (\<lambda>x. lk_token x = token) (\<lambda>x. x\<lparr>lk_used := Some now\<rparr>) rows))"

text \<open>\<open>ResetTokenService\<close> (one hour) and \<open>EmailVerificationService\<close> (a day; it also marks the user).\<close>

definition Reset_Create :: "faults \<Rightarrow> time \<Rightarrow> string \<Rightarrow> int \<Rightarrow> acct_db \<Rightarrow> (error + string) \<times> acct_db" where
  "Reset_Create flt now raw userID s =
     (let (r, rows) = issue_link flt now 3600 raw userID s (ac_resets s) in (r, s\<lparr>ac_resets := rows\<rparr>))"

definition Reset_Validate :: "faults \<Rightarrow> time \<Rightarrow> string \<Rightarrow> acct_db \<Rightarrow> (error + int) \<times> acct_db" where
  "Reset_Validate flt now token s =
     (let (r, rows) = redeem_link flt now token (ac_resets s) in (r, s\<lparr>ac_resets := rows\<rparr>))"

definition Verification_Create :: "faults \<Rightarrow> time \<Rightarrow> string \<Rightarrow> int \<Rightarrow> acct_db \<Rightarrow> (error + string) \<times> acct_db" where
  "Verification_Create flt now raw userID s =
     (let (r, rows) = issue_link flt now 86400 raw userID s (ac_verifs s) in (r, s\<lparr>ac_verifs := rows\<rparr>))"

definition Verification_Validate :: "faults \<Rightarrow> time \<Rightarrow> string \<Rightarrow> acct_db \<Rightarrow> (error + int) \<times> acct_db" where
  "Verification_Validate flt now token s =
     (case redeem_link flt now token (ac_verifs s) of
        (Inl e, rows) \<Rightarrow> (Inl e, s\<lparr>ac_verifs := rows\<rparr>)
      | (Inr uid, rows) \<Rightarrow>
          (let s' = s\<lparr>ac_verifs := rows\<rparr>
           in if flt 2 then (Inl DBError, s')
              else (Inr uid, s'\<lparr>ac_users := update_where (\<lambda>u. us_id u = uid \<and> us_deleted u = None)
                                   (\<lambda>u. u\<lparr>us_verified := True\<rparr>) (ac_users s')\<rparr>)))"

section \<open>ScimTokenService\<close>

definition Scim_GetByID :: "faults \<Rightarrow> int \<Rightarrow> acct_db \<Rightarrow> error + scim_row" where
  "Scim_GetByID flt i s =
     (if flt 0 then Inl DBError
      else case find (\<lambda>t. sk_id t = i) (ac_scim s) of None \<Rightarrow> Inl ErrScimTokenNotFound | Some t \<Rightarrow> Inr t)"

definition Scim_Create :: "hasher \<Rightarrow> faults \<Rightarrow> time \<Rightarrow> string \<Rightarrow> string \<Rightarrow> int \<Rightarrow> acct_db \<Rightarrow> (error + string \<times> scim_row) \<times> acct_db" where
  "Scim_Create hh flt now raw name createdBy s =
     (if flt 0 then (Inl ErrIO, s)
      else let secret = ''scim_'' @ hex_encode raw
           in case hh_hash hh secret of
                None \<Rightarrow> (Inl ErrInvalid, s)
              | Some hash \<Rightarrow>
                  if flt 1 then (Inl DBError, s)
                  else if \<not> user_exists createdBy s then (Inl FKViolation, s)
                  else let i = ac_scim_seq s + 1;
                           s' = s\<lparr>ac_scim := ac_scim s @ [\<lparr>sk_id = i, sk_name = name, sk_hash = hash, sk_active = True,
                                    sk_by = createdBy, sk_last_used = None, sk_created = now, sk_revoked = None\<rparr>], ac_scim_seq := i\<rparr>
                       in (case Scim_GetByID (later 2 flt) i s' of Inl e \<Rightarrow> Inl e | Inr r \<Rightarrow> Inr (secret, r), s'))"

definition Scim_Validate :: "hasher \<Rightarrow> faults \<Rightarrow> string \<Rightarrow> acct_db \<Rightarrow> error + scim_row" where
  "Scim_Validate hh flt secret s =
     (if flt 0 then Inl DBError
      else case find (\<lambda>t. sk_active t \<and> sk_revoked t = None \<and> hh_check hh (sk_hash t) secret) (ac_scim s) of
             None \<Rightarrow> Inl ErrScimTokenNotFound | Some t \<Rightarrow> Inr t)"

definition Scim_List :: "faults \<Rightarrow> acct_db \<Rightarrow> error + scim_row list" where
  "Scim_List flt s = (if flt 0 then Inl DBError else Inr (order_desc sk_created (ac_scim s)))"

definition Scim_Revoke :: "faults \<Rightarrow> time \<Rightarrow> int \<Rightarrow> acct_db \<Rightarrow> (error + unit) \<times> acct_db" where
  "Scim_Revoke flt now i s =
     (let P = (\<lambda>t. sk_id t = i \<and> sk_revoked t = None)
      in if flt 0 then (Inl DBError, s)
         else if rows_affected P (ac_scim s) = 0 then (Inl ErrScimTokenNotFound, s)
         else (Inr (), s\<lparr>ac_scim := update_where P (\<lambda>t. t\<lparr>sk_active := False, sk_revoked := Some now\<rparr>) (ac_scim s)\<rparr>))"

definition Scim_RecordUsage :: "faults \<Rightarrow> time \<Rightarrow> int \<Rightarrow> acct_db \<Rightarrow> acct_db" where
  "Scim_RecordUsage flt now i s =
     (if flt 0 then s
      else s\<lparr>ac_scim := update_where (\<lambda>t. sk_id t = i) (\<lambda>t. t\<lparr>sk_last_used := Some now\<rparr>) (ac_scim s)\<rparr>)"

section \<open>Notification preferences and the bootstrap administrator\<close>

definition Pref_Get :: "faults \<Rightarrow> int \<Rightarrow> acct_db \<Rightarrow> error + pref_row" where
  "Pref_Get flt userID s =
     (if flt 0 then Inl DBError
      else Inr (case find (\<lambda>p. np_user p = userID) (ac_prefs s) of
                  None \<Rightarrow> \<lparr>np_user = userID, np_url = None, np_events = ''[]'', np_digest = ''realtime''\<rparr> | Some p \<Rightarrow> p))"

definition Pref_Update :: "faults \<Rightarrow> int \<Rightarrow> string option \<Rightarrow> string \<Rightarrow> string \<Rightarrow> acct_db \<Rightarrow> (error + pref_row) \<times> acct_db" where
  "Pref_Update flt userID webhookURL events digestMode s =
     (let row = \<lparr>np_user = userID, np_url = (case webhookURL of None \<Rightarrow> None | Some u \<Rightarrow> none_if_empty u),
                 np_events = (if events = [] then ''[]'' else events), np_digest = (if digestMode = [] then ''realtime'' else digestMode)\<rparr>
      in if flt 0 \<or> np_digest row \<notin> {''realtime'', ''daily'', ''weekly''} then (Inl DBError, s)
         else if \<not> user_exists userID s then (Inl FKViolation, s)
         else let s' = s\<lparr>ac_prefs := (if (\<exists>p \<in> set (ac_prefs s). np_user p = userID)
                           then update_where (\<lambda>p. np_user p = userID) (\<lambda>_. row) (ac_prefs s) else ac_prefs s @ [row])\<rparr>
              in (Pref_Get (later 1 flt) userID s', s'))"

text \<open>Faults: 0 the count, 1 and 2 the user, 3 the grant.\<close>

definition SeedAdmin :: "hasher \<Rightarrow> faults \<Rightarrow> time \<Rightarrow> string \<Rightarrow> string \<Rightarrow> acct_db \<Rightarrow> (error + bool) \<times> acct_db" where
  "SeedAdmin hh flt now email password s =
     (if email = [] \<or> password = [] then (Inr False, s)
      else case CountAdmins flt s of
             Inl e \<Rightarrow> (Inl e, s)
           | Inr n \<Rightarrow>
               if 0 < n then (Inr False, s)
               else case hh_hash hh password of
                      None \<Rightarrow> (Inl ErrInvalid, s)
                    | Some hash \<Rightarrow>
                        (case User_Create (later 1 flt) now email hash ''Admin'' ''User'' s of
                           (Inl e, s') \<Rightarrow> (if e = ErrEmailTaken then Inr False else Inl e, s')
                         | (Inr u, s') \<Rightarrow>
                             (case SetDirect (later 3 flt) now (us_id u) ''admin'' (us_id u) s' of
                                (Inl e, s'') \<Rightarrow> (Inl e, s'')
                              | (Inr _, s'') \<Rightarrow> (Inr True, s''))))"

end
