(* ===== verification/Sessions.thy ===== *)
theory Sessions
  imports Accounts Keyring Settings Webhooks
begin

unbundle bit_operations_syntax

text \<open>
  \<open>internal/auth/jwt.go\<close> and \<open>internal/middleware\<close>: who a request is from, and whether it may go on.
  A middleware is a decision on the request: a \<open>reply\<close> that ends it, or what it adds to the request. The JWT library
  (signing, and parsing with one HMAC secret, with its checks of algorithm and expiry) and bcrypt are parameters.
\<close>

datatype reply = Reply (rp_status: int) (rp_text: string)

record incoming =
  in_method :: string
  in_session :: "string option"
  in_authorization :: string
  in_csrf_header :: string
  in_csrf_cookie :: "string option"
  in_remote :: string
  in_forwarded :: string
  in_client :: "string option"
  in_idem_key :: string
  in_agent :: string
  in_request_id :: string

section \<open>Client address\<close>

text \<open>\<open>net.SplitHostPort\<close>: the host, or \<open>None\<close> on its errors.\<close>

definition index_of :: "char \<Rightarrow> string \<Rightarrow> nat option" where
  "index_of c s = (if c \<in> set s then Some (length (takeWhile (\<lambda>x. x \<noteq> c) s)) else None)"

definition last_index_of :: "char \<Rightarrow> string \<Rightarrow> nat option" where
  "last_index_of c s = map_option (\<lambda>k. length s - 1 - k) (index_of c (rev s))"

definition SplitHostPort :: "string \<Rightarrow> string option" where
  "SplitHostPort s =
     (case last_index_of (CHR '':'') s of
        None \<Rightarrow> None
      | Some i \<Rightarrow>
          if take 1 s = ''[''
          then (case index_of (CHR '']'') s of
                  None \<Rightarrow> None
                | Some e \<Rightarrow>
                    if e + 1 \<noteq> i then None
                    else if CHR ''['' \<in> set (drop 1 s) \<or> CHR '']'' \<in> set (drop (e + 1) s) then None
                    else Some (drop 1 (take e s)))
          else if CHR '':'' \<in> set (take i s) \<or> CHR ''['' \<in> set s \<or> CHR '']'' \<in> set s then None
          else Some (take i s))"

definition remote_host :: "incoming \<Rightarrow> string" where
  "remote_host r = (case SplitHostPort (in_remote r) of None \<Rightarrow> in_remote r | Some h \<Rightarrow> if h = [] then in_remote r else h)"

text \<open>\<open>net.ParseIP\<close> and \<open>net.ParseCIDR\<close> (network and mask) as functions on texts; \<open>IPNet.Contains\<close>.\<close>

record netlib =
  nl_ip :: "string \<Rightarrow> ip option"
  nl_cidr :: "string \<Rightarrow> (ip \<times> ip) option"

definition net_contains :: "ip \<times> ip \<Rightarrow> ip \<Rightarrow> bool" where
  "net_contains nm a =
     (let (n, m) = nm; x = (case To4 a of Some b \<Rightarrow> b | None \<Rightarrow> a)
      in length x = length n \<and> (\<forall>k < length x. (n ! k) AND (m ! k) = (x ! k) AND (m ! k)))"

definition isTrustedProxy :: "netlib \<Rightarrow> string \<Rightarrow> string list \<Rightarrow> bool" where
  "isTrustedProxy nl addr trusted =
     (case nl_ip nl addr of
        None \<Rightarrow> False
      | Some parsed \<Rightarrow>
          (\<exists>t \<in> set trusted.
             if CHR ''/'' \<in> set t then (case nl_cidr nl t of None \<Rightarrow> False | Some nm \<Rightarrow> net_contains nm parsed)
             else t = addr))"

definition ClientIP :: "netlib \<Rightarrow> incoming \<Rightarrow> string list \<Rightarrow> string" where
  "ClientIP nl r trustedProxies =
     (let remoteIP = remote_host r
      in if trustedProxies = [] then remoteIP
         else if \<not> isTrustedProxy nl remoteIP trustedProxies then remoteIP
         else let first_hop = TrimSpace (takeWhile (\<lambda>c. c \<noteq> CHR '','') (in_forwarded r))
              in if in_forwarded r \<noteq> [] \<and> first_hop \<noteq> [] then first_hop else remoteIP)"

definition ResolveClientIP :: "netlib \<Rightarrow> string list \<Rightarrow> incoming \<Rightarrow> incoming" where
  "ResolveClientIP nl trustedProxies r = r\<lparr>in_client := Some (ClientIP nl r trustedProxies)\<rparr>"

definition RequestClientIP :: "incoming \<Rightarrow> string" where
  "RequestClientIP r = (case in_client r of None \<Rightarrow> remote_host r | Some a \<Rightarrow> if a = [] then remote_host r else a)"

section \<open>Rate limits\<close>

record limiter =
  rl_entries :: "string \<Rightarrow> (int \<times> time) option"
  rl_max :: int
  rl_window :: int

definition NewRateLimiter :: "int \<Rightarrow> int \<Rightarrow> limiter" where
  "NewRateLimiter n window = \<lparr>rl_entries = Map.empty, rl_max = n, rl_window = window\<rparr>"

definition limiter_cleanup :: "time \<Rightarrow> limiter \<Rightarrow> limiter" where
  "limiter_cleanup now l =
     l\<lparr>rl_entries := (\<lambda>k. case rl_entries l k of None \<Rightarrow> None | Some (n, resetAt) \<Rightarrow> if resetAt < now then None else Some (n, resetAt))\<rparr>"

record verdict =
  vd_allowed :: bool
  vd_limit :: int
  vd_remaining :: int
  vd_reset :: time

definition limiter_Check :: "time \<Rightarrow> string \<Rightarrow> limiter \<Rightarrow> verdict \<times> limiter" where
  "limiter_Check now key l =
     (let fresh = (\<lparr>vd_allowed = True, vd_limit = rl_max l, vd_remaining = rl_max l - 1, vd_reset = now + rl_window l\<rparr>,
                   l\<lparr>rl_entries := (rl_entries l)(key \<mapsto> (1, now + rl_window l))\<rparr>)
      in case rl_entries l key of
           None \<Rightarrow> fresh
         | Some (n, resetAt) \<Rightarrow>
             if resetAt < now then fresh
             else (\<lparr>vd_allowed = n + 1 \<le> rl_max l, vd_limit = rl_max l,
                     vd_remaining = (if rl_max l - (n + 1) < 0 then 0 else rl_max l - (n + 1)), vd_reset = resetAt\<rparr>,
                   l\<lparr>rl_entries := (rl_entries l)(key \<mapsto> (n + 1, resetAt))\<rparr>))"

definition limiter_Allow :: "time \<Rightarrow> string \<Rightarrow> limiter \<Rightarrow> bool \<times> limiter" where
  "limiter_Allow now key l = apfst vd_allowed (limiter_Check now key l)"

definition user_key :: "int \<Rightarrow> string" where
  "user_key userID = ''user:'' @ show_int userID"

definition RateLimit :: "netlib \<Rightarrow> string list \<Rightarrow> time \<Rightarrow> incoming \<Rightarrow> limiter \<Rightarrow> reply option \<times> limiter" where
  "RateLimit nl trustedProxies now r l =
     (let (v, l') = limiter_Check now (ClientIP nl r trustedProxies) l
      in (if vd_allowed v then None else Some (Reply 429 ''rate_limit_exceeded''), l'))"

definition RateLimitByUser :: "time \<Rightarrow> int \<Rightarrow> limiter \<Rightarrow> reply option \<times> limiter" where
  "RateLimitByUser now userID l =
     (let (v, l') = limiter_Check now (user_key userID) l
      in (if vd_allowed v then None else Some (Reply 429 ''rate_limit_exceeded''), l'))"

section \<open>Session tokens\<close>

record claims =
  cl_user :: int
  cl_email :: string
  cl_issued :: "time option"

record jwt =
  jw_sign :: "string \<Rightarrow> claims \<Rightarrow> time \<Rightarrow> string option"
  jw_parse :: "string \<Rightarrow> time \<Rightarrow> string \<Rightarrow> claims option"

text \<open>\<open>time.Duration(expiryHours) * time.Hour\<close> wraps in nanoseconds; here it is read back in seconds.\<close>

definition hours_duration :: "int \<Rightarrow> int" where
  "hours_duration h = quot (i64 (h * 3600000000000)) 1000000000"

definition GenerateToken :: "jwt \<Rightarrow> time \<Rightarrow> string \<Rightarrow> int \<Rightarrow> string \<Rightarrow> int \<Rightarrow> string option" where
  "GenerateToken jw now secret userID email expiryHours =
     jw_sign jw secret \<lparr>cl_user = userID, cl_email = email, cl_issued = Some now\<rparr> (now + hours_duration expiryHours)"

fun first_valid :: "jwt \<Rightarrow> time \<Rightarrow> string list \<Rightarrow> string \<Rightarrow> claims option" where
  "first_valid jw now [] token = None"
| "first_valid jw now (secret # secrets) token =
     (case jw_parse jw secret now token of Some c \<Rightarrow> Some c | None \<Rightarrow> first_valid jw now secrets token)"

definition ValidateToken :: "jwt \<Rightarrow> time \<Rightarrow> string \<Rightarrow> string \<Rightarrow> string list \<Rightarrow> claims option" where
  "ValidateToken jw now primary token previous = first_valid jw now (primary # previous) token"

section \<open>Authentication\<close>

record auth_env =
  ae_jwt :: jwt
  ae_hasher :: hasher
  ae_keys :: keyring

datatype auth_source = FromCookie | FromHeader

record identity =
  id_user :: int
  id_token :: int
  id_source :: auth_source

definition unauthorized :: "string \<Rightarrow> reply" where
  "unauthorized msg = Reply 401 msg"

definition credential :: "incoming \<Rightarrow> reply + string \<times> auth_source" where
  "credential r =
     (case in_session r of
        Some c \<Rightarrow> if c \<noteq> [] then Inr (c, FromCookie) else
          (if in_authorization r = [] then Inl (unauthorized ''missing authorization'')
           else if take 7 (in_authorization r) \<noteq> ''Bearer '' then Inl (unauthorized ''invalid authorization format'')
           else Inr (drop 7 (in_authorization r), FromHeader))
      | None \<Rightarrow>
          (if in_authorization r = [] then Inl (unauthorized ''missing authorization'')
           else if take 7 (in_authorization r) \<noteq> ''Bearer '' then Inl (unauthorized ''invalid authorization format'')
           else Inr (drop 7 (in_authorization r), FromHeader)))"

definition outdated_session :: "user \<Rightarrow> claims \<Rightarrow> bool" where
  "outdated_session u c = (case (us_changed u, cl_issued c) of (Some ch, Some iat) \<Rightarrow> iat < ch | _ \<Rightarrow> False)"

text \<open>Faults: of a session 0 the user; of an API token 0 the tokens, 1 the owner, 2 the usage count.\<close>

definition Authenticate :: "auth_env \<Rightarrow> faults \<Rightarrow> time \<Rightarrow> incoming \<Rightarrow> acct_db \<Rightarrow> (reply + identity) \<times> acct_db" where
  "Authenticate ae flt now r s =
     (case credential r of
        Inl e \<Rightarrow> (Inl e, s)
      | Inr (token, source) \<Rightarrow>
          (case ValidateToken (ae_jwt ae) now (Keyring_Primary (ae_keys ae)) token (Keyring_Previous (ae_keys ae)) of
             Some c \<Rightarrow>
               (case User_GetByID flt (cl_user c) s of
                  Inl _ \<Rightarrow> (Inl (unauthorized ''user not found or inactive''), s)
                | Inr u \<Rightarrow>
                    if \<not> us_active u then (Inl (unauthorized ''user not found or inactive''), s)
                    else if outdated_session u c then (Inl (unauthorized ''session invalidated by password change''), s)
                    else (Inr \<lparr>id_user = cl_user c, id_token = 0, id_source = source\<rparr>, s))
           | None \<Rightarrow>
               (case Token_ValidateSecret (ae_hasher ae) flt now token s of
                  Inr t \<Rightarrow>
                    (case User_GetByID (later 1 flt) (at_user t) s of
                       Inl _ \<Rightarrow> (Inl (unauthorized ''token owner not found or inactive''), s)
                     | Inr u \<Rightarrow>
                         if \<not> us_active u then (Inl (unauthorized ''token owner not found or inactive''), s)
                         else (Inr \<lparr>id_user = at_user t, id_token = at_id t, id_source = source\<rparr>,
                               Token_RecordUsage (later 2 flt) now (at_id t) s))
                | Inl _ \<Rightarrow> (Inl (unauthorized ''invalid or expired token''), s))))"

definition RequireAdmin :: "faults \<Rightarrow> identity \<Rightarrow> acct_db \<Rightarrow> reply option" where
  "RequireAdmin flt i s =
     (case IsAdmin flt (id_user i) s of
        Inl _ \<Rightarrow> Some (Reply 403 ''admin access required'')
      | Inr b \<Rightarrow> if b then None else Some (Reply 403 ''admin access required''))"

definition CSRF :: "bool \<Rightarrow> auth_source option \<Rightarrow> incoming \<Rightarrow> reply option" where
  "CSRF enforce source r =
     (if in_method r = ''GET'' \<or> in_method r = ''HEAD'' \<or> in_method r = ''OPTIONS'' then None
      else if source \<noteq> Some FromCookie then None
      else let mismatch = (case in_csrf_cookie r of None \<Rightarrow> True | Some c \<Rightarrow> in_csrf_header r = [] \<or> c = [] \<or> in_csrf_header r \<noteq> c)
           in if mismatch \<and> enforce then Some (Reply 403 ''csrf token invalid or missing'') else None)"

text \<open>Faults: 0 the mode, 1 and 2 the caller's level, 3 the message.\<close>

definition MaintenanceMode :: "faults \<Rightarrow> int \<Rightarrow> settings_db \<Rightarrow> acct_db \<Rightarrow> reply option" where
  "MaintenanceMode flt userID g s =
     (if Settings_Get flt ''maintenance_mode'' g \<noteq> Inr ''true'' then None
      else if userID \<noteq> 0 \<and> IsAdmin (later 1 flt) userID s = Inr True then None
      else Some (Reply 503 (case Settings_Get (later 3 flt) ''maintenance_message'' g of
             Inl _ \<Rightarrow> ''System is under maintenance. Please try again later.''
           | Inr m \<Rightarrow> if m = [] then ''System is under maintenance. Please try again later.'' else m)))"

text \<open>Faults: 0 the setting, 1 the tokens, 2 the usage.\<close>

definition SCIMAuth :: "hasher \<Rightarrow> faults \<Rightarrow> time \<Rightarrow> incoming \<Rightarrow> settings_db \<Rightarrow> acct_db \<Rightarrow> (reply + int) \<times> acct_db" where
  "SCIMAuth hh flt now r g s =
     (if Settings_Get flt ''scim_enabled'' g \<noteq> Inr ''true'' then (Inl (Reply 404 ''SCIM is not enabled''), s)
      else if in_authorization r = [] then (Inl (unauthorized ''missing authorization header''), s)
      else let token = (if take 7 (in_authorization r) = ''Bearer '' then drop 7 (in_authorization r) else in_authorization r)
           in if take 5 token \<noteq> ''scim_'' then (Inl (unauthorized ''invalid authorization format''), s)
              else case Scim_Validate hh (later 1 flt) token s of
                     Inl _ \<Rightarrow> (Inl (unauthorized ''invalid or revoked SCIM token''), s)
                   | Inr t \<Rightarrow> (Inr (sk_id t), Scim_RecordUsage (later 2 flt) now (sk_id t) s))"

definition healthRequesterIsAdmin :: "auth_env \<Rightarrow> faults \<Rightarrow> time \<Rightarrow> incoming \<Rightarrow> acct_db \<Rightarrow> bool" where
  "healthRequesterIsAdmin ae flt now r s =
     (let bearer = (if take 7 (in_authorization r) = ''Bearer '' then drop 7 (in_authorization r) else []);
          token = (case in_session r of Some c \<Rightarrow> if c \<noteq> [] then c else bearer | None \<Rightarrow> bearer)
      in if token = [] then False
         else case ValidateToken (ae_jwt ae) now (Keyring_Primary (ae_keys ae)) token (Keyring_Previous (ae_keys ae)) of
                None \<Rightarrow> False
              | Some c \<Rightarrow> IsAdmin flt (cl_user c) s = Inr True)"

section \<open>Idempotent requests\<close>

record idem_row =
  ik_key :: string
  ik_user :: int
  ik_status :: int
  ik_body :: string
  ik_created :: time

text \<open>The downstream handler is a function from the state to an answer and a state; the first component of the result
  says whether the answer is a replay. Faults: 0 the lookup, 1 the insert; an error of either is dropped.\<close>

definition Idempotency ::
  "faults \<Rightarrow> time \<Rightarrow> incoming \<Rightarrow> int \<Rightarrow> ('s \<Rightarrow> (int \<times> string) \<times> 's) \<Rightarrow> idem_row list \<times> 's \<Rightarrow>
     (bool \<times> int \<times> string) \<times> idem_row list \<times> 's" where
  "Idempotency flt now r userID handler = (\<lambda>(rows, s).
     if in_method r \<noteq> ''POST'' \<or> in_idem_key r = [] then (let (a, s') = handler s in ((False, a), rows, s'))
     else case (if flt 0 then None else find (\<lambda>x. ik_key x = in_idem_key r \<and> ik_user x = userID) rows) of
            Some x \<Rightarrow> ((True, ik_status x, ik_body x), rows, s)
          | None \<Rightarrow>
              (let ((status, body), s') = handler s
               in ((False, status, body),
                   (if 200 \<le> status \<and> status < 500 \<and> \<not> flt 1 \<and> \<not> (\<exists>x \<in> set rows. ik_key x = in_idem_key r \<and> ik_user x = userID)
                    then rows @ [\<lparr>ik_key = in_idem_key r, ik_user = userID, ik_status = status, ik_body = body, ik_created = now\<rparr>]
                    else rows), s')))"

definition CleanupIdempotencyKeys :: "faults \<Rightarrow> time \<Rightarrow> idem_row list \<Rightarrow> idem_row list" where
  "CleanupIdempotencyKeys flt now rows = (if flt 0 then rows else delete_where (\<lambda>x. ik_created x < now - 86400) rows)"

text \<open>\<open>MaxBodySize\<close>: the limit put on the body, if any.\<close>

definition MaxBodySize :: "int \<Rightarrow> string \<Rightarrow> int option" where
  "MaxBodySize maxBytes ct =
     (if take (length ''multipart/form-data'') ct \<noteq> ''multipart/form-data'' \<and>
         take (length ''application/x-ndjson'') ct \<noteq> ''application/x-ndjson''
      then Some maxBytes else None)"

end
