(* ===== verification/Account_Handlers.thy ===== *)
theory Account_Handlers
  imports Sessions
begin

text \<open>
  \<open>internal/handlers\<close>: \<open>auth.go\<close>, \<open>admin_users.go\<close>, \<open>admin_groups.go\<close>, \<open>tokens.go\<close> and
  \<open>audit.go\<close>: the requests that change accounts. A handler takes the decoded body (\<open>None\<close> where decoding
  fails) and path texts, and gives a status with the fixed part of its answer. Each handler has one fault plan; the
  numbers used are listed. Mail is the list of messages handed to the notifier. \<open>strings.ToLower\<close> is taken on ASCII,
  and \<open>mail.ParseAddress\<close> is the predicate \<open>valid_email\<close>. Reading handlers are not modelled.
\<close>

record site =
  st_acct :: acct_db
  st_logs :: log_db
  st_settings :: settings_db
  st_mail :: "(string \<times> string \<times> string) list"

definition auditEvent ::
  "faults \<Rightarrow> time \<Rightarrow> incoming \<Rightarrow> string \<Rightarrow> string \<Rightarrow> int option \<Rightarrow> string \<Rightarrow> site \<Rightarrow> site" where
  "auditEvent flt now r event severity userID detail st =
     st\<lparr>st_logs := snd (WriteAudit flt now
         \<lparr>c_event = event, c_severity = severity, c_user = userID, c_detail = detail, c_ip = RequestClientIP r,
          c_agent = in_agent r, c_request = in_request_id r\<rparr> (st_logs st))\<rparr>"

text \<open>\<open>fileAccessEvent\<close>: the same fields in the unchained table.\<close>

definition fileAccessEvent ::
  "faults \<Rightarrow> time \<Rightarrow> incoming \<Rightarrow> string \<Rightarrow> string \<Rightarrow> int option \<Rightarrow> string \<Rightarrow> site \<Rightarrow> site" where
  "fileAccessEvent flt now r event severity userID detail st =
     st\<lparr>st_logs := snd (WriteFileAccess flt now
         \<lparr>c_event = event, c_severity = severity, c_user = userID, c_detail = detail, c_ip = RequestClientIP r,
          c_agent = in_agent r, c_request = in_request_id r\<rparr> (st_logs st))\<rparr>"

definition lower_char :: "char \<Rightarrow> char" where
  "lower_char c = (let n = of_char c :: nat in if 65 \<le> n \<and> n \<le> 90 then char_of (n + 32) else c)"

definition normal_email :: "string \<Rightarrow> string" where
  "normal_email e = TrimSpace (map lower_char e)"

section \<open>Signing in, registration, passwords\<close>

definition jwt_expiry_hours :: "error + string \<Rightarrow> int" where
  "jwt_expiry_hours v =
     (case v of Inl _ \<Rightarrow> 24 | Inr t \<Rightarrow> (case Atoi t of None \<Rightarrow> 24 | Some n \<Rightarrow> if 0 < n then n else 24))"

text \<open>Faults: 0 the user, 1 the setting, 2 the last login, 3 and 4 the audit row, 5 the random source. A reply of 200
  carries the session token.\<close>

definition Login :: "auth_env \<Rightarrow> faults \<Rightarrow> time \<Rightarrow> incoming \<Rightarrow> (string \<times> string) option \<Rightarrow> site \<Rightarrow> reply \<times> site" where
  "Login ae flt now r body st =
     (case body of
        None \<Rightarrow> (Reply 400 ''invalid request body'', st)
      | Some (mail, password) \<Rightarrow>
          (let email = normal_email mail; audit = auditEvent (later 3 flt) now r ''login_failed'' ''warn''
           in if email = [] \<or> password = [] then (Reply 400 ''email and password are required'', st)
              else case User_GetByEmail flt email (st_acct st) of
                     Inl _ \<Rightarrow> (Reply 401 ''invalid email or password'', audit None (''unknown email: '' @ email) st)
                   | Inr u \<Rightarrow>
                       if \<not> us_active u then (Reply 403 ''account is inactive'', audit (Some (us_id u)) ''account inactive'' st)
                       else if (case us_hash u of None \<Rightarrow> True | Some h \<Rightarrow> \<not> hh_check (ae_hasher ae) h password)
                       then (Reply 401 ''invalid email or password'', audit (Some (us_id u)) ''incorrect password'' st)
                       else case GenerateToken (ae_jwt ae) now (Keyring_Primary (ae_keys ae)) (us_id u) (us_email u)
                                   (jwt_expiry_hours (Settings_Get (later 1 flt) ''jwt_expiry_hours'' (st_settings st))) of
                              None \<Rightarrow> (Reply 500 ''failed to generate token'', st)
                            | Some token \<Rightarrow>
                                (let st1 = st\<lparr>st_acct := snd (UpdateLastLogin (later 2 flt) now (us_id u) (st_acct st))\<rparr>;
                                     st2 = auditEvent (later 3 flt) now r ''login'' ''info'' (Some (us_id u)) ''password'' st1
                                 in (if flt 5 then Reply 500 ''failed to set session cookies'' else Reply 200 token, st2))))"

text \<open>The user id is 0 where no authentication ran before.\<close>

definition Logout :: "faults \<Rightarrow> time \<Rightarrow> incoming \<Rightarrow> int \<Rightarrow> site \<Rightarrow> reply \<times> site" where
  "Logout flt now r userID st =
     (Reply 200 ''logged out'', auditEvent flt now r ''logout'' ''info'' (if userID = 0 then None else Some userID) [] st)"

definition registrationEnabled :: "faults \<Rightarrow> settings_db \<Rightarrow> bool" where
  "registrationEnabled flt g \<longleftrightarrow> Settings_Get flt ''registration_enabled'' g = Inr ''true''"

definition base_url :: "string \<Rightarrow> string" where
  "base_url cfg = (if cfg = [] then ''http://localhost:8080'' else cfg)"

record new_user =
  nu_email :: string
  nu_password :: string
  nu_first :: string
  nu_last :: string

text \<open>Faults: 0 the setting, 1 and 2 the user, 3 the grant, 4 to 6 the link. \<open>raw\<close> are its random bytes.\<close>

definition Register ::
  "hasher \<Rightarrow> (string \<Rightarrow> bool) \<Rightarrow> string \<Rightarrow> faults \<Rightarrow> time \<Rightarrow> string \<Rightarrow> new_user option \<Rightarrow> site \<Rightarrow> reply \<times> site" where
  "Register hh valid_email cfg flt now raw body st =
     (if \<not> registrationEnabled flt (st_settings st) then (Reply 403 ''self-registration is disabled'', st)
      else case body of
             None \<Rightarrow> (Reply 400 ''invalid request body'', st)
           | Some b \<Rightarrow>
               (let email = normal_email (nu_email b); f = TrimSpace (nu_first b); l = TrimSpace (nu_last b)
                in if email = [] \<or> nu_password b = [] \<or> f = [] \<or> l = []
                   then (Reply 400 ''email, password, first_name, and last_name are required'', st)
                   else if \<not> valid_email email then (Reply 400 ''email is not a valid address'', st)
                   else if length (nu_password b) < 8 then (Reply 400 ''password must be at least 8 characters'', st)
                   else case hh_hash hh (nu_password b) of
                          None \<Rightarrow> (Reply 500 ''failed to hash password'', st)
                        | Some hash \<Rightarrow>
                            (case User_Create (later 1 flt) now email hash f l (st_acct st) of
                               (Inl e, s1) \<Rightarrow>
                                 (if e = ErrEmailTaken then Reply 202 ''verification email'' else Reply 500 ''failed to create user'',
                                  st\<lparr>st_acct := s1\<rparr>)
                             | (Inr u, s1) \<Rightarrow>
                                 (let s2 = snd (SetDirect (later 3 flt) now (us_id u) ''read'' (us_id u) s1);
                                      (link, s3) = Verification_Create (later 4 flt) now raw (us_id u) s2
                                  in (Reply 202 ''verification email'',
                                      st\<lparr>st_acct := s3, st_mail := st_mail st @ (case link of Inl _ \<Rightarrow> []
                                         | Inr token \<Rightarrow> [(''verify'', us_email u, base_url cfg @ ''/verify-email?token='' @ token)])\<rparr>)))))"

text \<open>Faults: 0 the user, 1 the update, 2 and 3 the audit row.\<close>

definition ChangePassword ::
  "hasher \<Rightarrow> faults \<Rightarrow> time \<Rightarrow> incoming \<Rightarrow> int \<Rightarrow> (string \<times> string) option \<Rightarrow> site \<Rightarrow> reply \<times> site" where
  "ChangePassword hh flt now r userID body st =
     (case body of
        None \<Rightarrow> (Reply 400 ''invalid request body'', st)
      | Some (current, new_password) \<Rightarrow>
          if length new_password < 8 then (Reply 400 ''new password must be at least 8 characters'', st)
          else case User_GetByID flt userID (st_acct st) of
                 Inl _ \<Rightarrow> (Reply 404 ''user not found'', st)
               | Inr u \<Rightarrow>
                   if (case us_hash u of None \<Rightarrow> True | Some h \<Rightarrow> \<not> hh_check hh h current)
                   then (Reply 401 ''current password is incorrect'', st)
                   else case hh_hash hh new_password of
                          None \<Rightarrow> (Reply 500 ''failed to hash password'', st)
                        | Some hash \<Rightarrow>
                            (case UpdatePassword (later 1 flt) now userID hash (st_acct st) of
                               (Inl _, s') \<Rightarrow> (Reply 500 ''failed to update password'', st\<lparr>st_acct := s'\<rparr>)
                             | (Inr _, s') \<Rightarrow>
                                 (Reply 200 ''password updated'',
                                  auditEvent (later 2 flt) now r ''password_changed'' ''info'' (Some userID) [] (st\<lparr>st_acct := s'\<rparr>))))"

text \<open>Faults: 0 the user, 1 to 3 the link, 4 and 5 the audit row. The answer is the same in every case.\<close>

definition ForgotPassword ::
  "string \<Rightarrow> faults \<Rightarrow> time \<Rightarrow> string \<Rightarrow> incoming \<Rightarrow> string option \<Rightarrow> site \<Rightarrow> reply \<times> site" where
  "ForgotPassword cfg flt now raw r body st =
     (case body of
        None \<Rightarrow> (Reply 400 ''invalid request body'', st)
      | Some mail \<Rightarrow>
          (Reply 200 ''if that email exists, a reset link has been sent'',
           let email = normal_email mail; audit = auditEvent (later 4 flt) now r ''password_reset_requested''
           in case User_GetByEmail flt email (st_acct st) of
                Inl _ \<Rightarrow> audit ''warn'' None (''unknown email: '' @ email) st
              | Inr u \<Rightarrow>
                  if \<not> us_active u \<or> us_service u then audit ''warn'' (Some (us_id u)) ''inactive or service account'' st
                  else case Reset_Create (later 1 flt) now raw (us_id u) (st_acct st) of
                         (Inl _, s') \<Rightarrow> st\<lparr>st_acct := s'\<rparr>
                       | (Inr token, s') \<Rightarrow>
                           audit ''info'' (Some (us_id u)) []
                             (st\<lparr>st_acct := s', st_mail := st_mail st @
                                [(''reset'', us_email u, base_url cfg @ ''/reset-password?token='' @ token)]\<rparr>)))"

text \<open>Faults: 0 and 1 the link, 2 the password, 3 and 4 the audit row.\<close>

definition ResetPassword ::
  "hasher \<Rightarrow> faults \<Rightarrow> time \<Rightarrow> incoming \<Rightarrow> (string \<times> string) option \<Rightarrow> site \<Rightarrow> reply \<times> site" where
  "ResetPassword hh flt now r body st =
     (case body of
        None \<Rightarrow> (Reply 400 ''invalid request body'', st)
      | Some (token, new_password) \<Rightarrow>
          (let audit = auditEvent (later 3 flt) now r ''password_reset_completed'' in
           if length new_password < 8 then (Reply 400 ''password must be at least 8 characters'', st)
           else case Reset_Validate flt now token (st_acct st) of
                  (Inl _, s1) \<Rightarrow> (Reply 401 ''invalid or expired reset token'', audit ''warn'' None ''invalid or expired token'' (st\<lparr>st_acct := s1\<rparr>))
                | (Inr userID, s1) \<Rightarrow>
                    (case hh_hash hh new_password of
                       None \<Rightarrow> (Reply 500 ''failed to hash password'', st\<lparr>st_acct := s1\<rparr>)
                     | Some hash \<Rightarrow>
                         (case UpdatePassword (later 2 flt) now userID hash s1 of
                            (Inl _, s2) \<Rightarrow> (Reply 500 ''failed to update password'', st\<lparr>st_acct := s2\<rparr>)
                          | (Inr _, s2) \<Rightarrow> (Reply 200 ''password reset successfully'', audit ''info'' (Some userID) [] (st\<lparr>st_acct := s2\<rparr>))))))"

text \<open>Faults: 0 to 2 the link and the user, 3 and 4 the audit row.\<close>

definition VerifyEmail :: "faults \<Rightarrow> time \<Rightarrow> incoming \<Rightarrow> string \<Rightarrow> site \<Rightarrow> reply \<times> site" where
  "VerifyEmail flt now r token st =
     (if token = [] then (Reply 400 ''token is required'', st)
      else case Verification_Validate flt now token (st_acct st) of
             (Inl _, s') \<Rightarrow> (Reply 401 ''invalid or expired verification token'',
                 auditEvent (later 3 flt) now r ''email_verified'' ''warn'' None ''invalid or expired token'' (st\<lparr>st_acct := s'\<rparr>))
           | (Inr userID, s') \<Rightarrow> (Reply 200 ''email verified successfully'',
                 auditEvent (later 3 flt) now r ''email_verified'' ''info'' (Some userID) [] (st\<lparr>st_acct := s'\<rparr>)))"

text \<open>Faults: 0 the user, 1 to 3 the link, 4 and 5 the audit row.\<close>

definition ResendVerification :: "string \<Rightarrow> faults \<Rightarrow> time \<Rightarrow> string \<Rightarrow> incoming \<Rightarrow> int \<Rightarrow> site \<Rightarrow> reply \<times> site" where
  "ResendVerification cfg flt now raw r userID st =
     (case User_GetByID flt userID (st_acct st) of
        Inl _ \<Rightarrow> (Reply 404 ''user not found'', st)
      | Inr u \<Rightarrow>
          if us_verified u then (Reply 200 ''email already verified'', st)
          else case Verification_Create (later 1 flt) now raw (us_id u) (st_acct st) of
                 (Inl _, s') \<Rightarrow> (Reply 500 ''failed to generate verification token'', st\<lparr>st_acct := s'\<rparr>)
               | (Inr token, s') \<Rightarrow>
                   (Reply 200 ''verification email sent'',
                    auditEvent (later 4 flt) now r ''email_verification_requested'' ''info'' (Some userID) []
                      (st\<lparr>st_acct := s', st_mail := st_mail st @
                         [(''verify'', us_email u, base_url cfg @ ''/verify-email?token='' @ token)]\<rparr>)))"

definition UpdateProfile :: "faults \<Rightarrow> time \<Rightarrow> int \<Rightarrow> (string \<times> string) option \<Rightarrow> site \<Rightarrow> reply \<times> site" where
  "UpdateProfile flt now userID body st =
     (case body of
        None \<Rightarrow> (Reply 400 ''invalid request body'', st)
      | Some (f, l) \<Rightarrow>
          (case User_Update flt now userID (TrimSpace f) (TrimSpace l) None (st_acct st) of
             (Inl _, s') \<Rightarrow> (Reply 500 ''failed to update profile'', st\<lparr>st_acct := s'\<rparr>)
           | (Inr _, s') \<Rightarrow> (Reply 200 [], st\<lparr>st_acct := s'\<rparr>)))"

section \<open>User administration\<close>

record user_patch =
  up_first :: "string option"
  up_last :: "string option"
  up_active :: "bool option"
  up_max :: "int option"
  up_types :: "string list option"

text \<open>\<open>json.Marshal\<close> of a list of strings is the parameter \<open>marshal\<close>. The restrictions are a second write, made when
  either field is given. Faults: 0 the row, 1 the update.\<close>

definition update_restrictions ::
  "(string list \<Rightarrow> string) \<Rightarrow> faults \<Rightarrow> time \<Rightarrow> int \<Rightarrow> user_patch \<Rightarrow> acct_db \<Rightarrow> reply + acct_db" where
  "update_restrictions marshal flt now i b s =
     (if up_max b = None \<and> up_types b = None then Inr s
      else case User_GetByID flt i s of
             Inl _ \<Rightarrow> Inl (Reply 500 ''failed to load user'')
           | Inr current \<Rightarrow>
               (let maxSize = (case up_max b of Some n \<Rightarrow> if 0 < n then Some n else None | None \<Rightarrow> us_max current);
                    allowed = (case up_types b of
                        Some ts \<Rightarrow> if ts = [] then [] else marshal ts
                      | None \<Rightarrow> (case us_types current of None \<Rightarrow> [] | Some t \<Rightarrow> t))
                in case UpdateRestrictions (later 1 flt) now i maxSize allowed s of
                     (Inl _, _) \<Rightarrow> Inl (Reply 500 ''failed to update user restrictions'')
                   | (Inr _, s') \<Rightarrow> Inr s'))"

text \<open>Faults: 0 the row before, 1 and 2 the update, 3 and 4 the restrictions, 5 the tokens, 6 and 7 the audit row. The
  body of the answer, which reads the row once more, is left out.\<close>

definition AdminUpdateUser ::
  "(string list \<Rightarrow> string) \<Rightarrow> faults \<Rightarrow> time \<Rightarrow> incoming \<Rightarrow> int \<Rightarrow> string \<Rightarrow> user_patch option \<Rightarrow> site \<Rightarrow> reply \<times> site" where
  "AdminUpdateUser marshal flt now r callerID path body st =
     (case Atoi path of
        None \<Rightarrow> (Reply 400 ''invalid user id'', st)
      | Some i \<Rightarrow>
     (case body of
        None \<Rightarrow> (Reply 400 ''invalid request body'', st)
      | Some b \<Rightarrow>
          (let preActive = (case up_active b of None \<Rightarrow> None
                 | Some _ \<Rightarrow> (case User_GetByID flt i (st_acct st) of Inl _ \<Rightarrow> None | Inr u \<Rightarrow> Some (us_active u)));
               trim = (\<lambda>x. case x of None \<Rightarrow> [] | Some t \<Rightarrow> TrimSpace t)
           in case User_Update (later 1 flt) now i (trim (up_first b)) (trim (up_last b)) (up_active b) (st_acct st) of
                (Inl e, s1) \<Rightarrow> (if e = ErrUserNotFound then Reply 404 ''user not found'' else Reply 500 ''failed to update user'', st\<lparr>st_acct := s1\<rparr>)
              | (Inr _, s1) \<Rightarrow>
                  (case update_restrictions marshal (later 3 flt) now i b s1 of
                     Inl e \<Rightarrow> (e, st\<lparr>st_acct := s1\<rparr>)
                   | Inr s2 \<Rightarrow>
                       (let deactivating = (preActive = Some True \<and> up_active b = Some False);
                            s3 = (if deactivating then snd (RevokeAllByUser (later 5 flt) now i callerID ''user deactivated'' s2) else s2);
                            st3 = st\<lparr>st_acct := s3\<rparr>;
                            changed = (case (preActive, up_active b) of (Some x, Some y) \<Rightarrow> x \<noteq> y | _ \<Rightarrow> False)
                        in (Reply 200 [],
                            if changed
                            then auditEvent (later 6 flt) now r (if up_active b = Some False then ''user_disabled'' else ''user_enabled'')
                                   ''info'' (Some callerID) (''target='' @ show_int i) st3
                            else st3))))))"

text \<open>Faults: 0 the tokens, 1 to 4 the deletion, 5 and 6 the audit row.\<close>

definition AdminDeleteUser :: "faults \<Rightarrow> time \<Rightarrow> incoming \<Rightarrow> int \<Rightarrow> string \<Rightarrow> site \<Rightarrow> reply \<times> site" where
  "AdminDeleteUser flt now r callerID path st =
     (case Atoi path of
        None \<Rightarrow> (Reply 400 ''invalid user id'', st)
      | Some i \<Rightarrow>
          if i = callerID then (Reply 400 ''cannot delete yourself'', st)
          else case RevokeAllByUser flt now i callerID ''user deleted'' (st_acct st) of
                 (Inl _, s1) \<Rightarrow> (Reply 500 ''failed to revoke user tokens'', st\<lparr>st_acct := s1\<rparr>)
               | (Inr _, s1) \<Rightarrow>
                   (case SoftDelete (later 1 flt) now i s1 of
                      (Inl _, s2) \<Rightarrow> (Reply 500 ''failed to delete user'', st\<lparr>st_acct := s2\<rparr>)
                    | (Inr _, s2) \<Rightarrow>
                        (Reply 200 ''user deleted'',
                         auditEvent (later 5 flt) now r ''user_deleted'' ''warn'' (Some callerID) (''target='' @ show_int i) (st\<lparr>st_acct := s2\<rparr>))))"

text \<open>Faults: 0 and 1 the user, 2 the grant, 3 and 4 the audit row.\<close>

definition AdminCreateUser ::
  "hasher \<Rightarrow> (string \<Rightarrow> bool) \<Rightarrow> faults \<Rightarrow> time \<Rightarrow> incoming \<Rightarrow> int \<Rightarrow> (new_user \<times> string) option \<Rightarrow> site \<Rightarrow> reply \<times> site" where
  "AdminCreateUser hh valid_email flt now r callerID body st =
     (case body of
        None \<Rightarrow> (Reply 400 ''invalid request body'', st)
      | Some (b, level) \<Rightarrow>
          (let email = normal_email (nu_email b); f = TrimSpace (nu_first b); l = TrimSpace (nu_last b);
               perms = (if level = [] then ''read'' else level)
           in if email = [] \<or> nu_password b = [] \<or> f = [] \<or> l = []
              then (Reply 400 ''email, password, first_name, and last_name are required'', st)
              else if \<not> valid_email email then (Reply 400 ''email is not a valid address'', st)
              else if length (nu_password b) < 8 then (Reply 400 ''password must be at least 8 characters'', st)
              else case hh_hash hh (nu_password b) of
                     None \<Rightarrow> (Reply 500 ''failed to hash password'', st)
                   | Some hash \<Rightarrow>
                       (case User_Create flt now email hash f l (st_acct st) of
                          (Inl e, s1) \<Rightarrow> (if e = ErrEmailTaken then Reply 409 ''email already registered'' else Reply 500 ''failed to create user'',
                                          st\<lparr>st_acct := s1\<rparr>)
                        | (Inr u, s1) \<Rightarrow>
                            (Reply 201 perms,
                             auditEvent (later 3 flt) now r ''user_created'' ''info'' (Some callerID)
                               (''id='' @ show_int (us_id u) @ '' email='' @ us_email u @ '' permissions='' @ perms)
                               (st\<lparr>st_acct := snd (SetDirect (later 2 flt) now (us_id u) perms callerID s1)\<rparr>)))))"

definition AdminCreateServiceAccount ::
  "faults \<Rightarrow> time \<Rightarrow> incoming \<Rightarrow> int \<Rightarrow> (string \<times> string \<times> string \<times> string) option \<Rightarrow> site \<Rightarrow> reply \<times> site" where
  "AdminCreateServiceAccount flt now r callerID body st =
     (case body of
        None \<Rightarrow> (Reply 400 ''invalid request body'', st)
      | Some (mail, f, l, level) \<Rightarrow>
          (let email = normal_email mail; perms = (if level = [] then ''read'' else level)
           in if email = [] \<or> f = [] then (Reply 400 ''email and first_name are required'', st)
              else if \<not> validPermissionLevel perms then (Reply 400 ''permissions must be read, write, or admin'', st)
              else case CreateServiceAccount flt now email f l (st_acct st) of
                     (Inl e, s1) \<Rightarrow> (if e = ErrEmailTaken then Reply 409 ''email already registered'' else Reply 500 ''failed to create service account'',
                                     st\<lparr>st_acct := s1\<rparr>)
                   | (Inr u, s1) \<Rightarrow>
                       (Reply 201 perms,
                        auditEvent (later 3 flt) now r ''user_created'' ''info'' (Some callerID)
                          (''service_account id='' @ show_int (us_id u) @ '' email='' @ us_email u @ '' permissions='' @ perms)
                          (st\<lparr>st_acct := snd (SetDirect (later 2 flt) now (us_id u) perms callerID s1)\<rparr>))))"

text \<open>Faults: 0 and 1 the old level, 2 the count, 3 the grant, 4 and 5 the audit row. Errors of the first two reads are
  dropped.\<close>

definition AdminSetPermissions :: "faults \<Rightarrow> time \<Rightarrow> incoming \<Rightarrow> int \<Rightarrow> string \<Rightarrow> string option \<Rightarrow> site \<Rightarrow> reply \<times> site" where
  "AdminSetPermissions flt now r callerID path body st =
     (case Atoi path of
        None \<Rightarrow> (Reply 400 ''invalid user id'', st)
      | Some i \<Rightarrow>
     (case body of
        None \<Rightarrow> (Reply 400 ''invalid request body'', st)
      | Some level \<Rightarrow>
          if \<not> validPermissionLevel level then (Reply 400 ''permission must be read, write, or admin'', st)
          else let oldPerm = (case GetEffective flt i (st_acct st) of Inl _ \<Rightarrow> [] | Inr p \<Rightarrow> p);
                   count = (case CountAdmins (later 2 flt) (st_acct st) of Inl _ \<Rightarrow> 0 | Inr n \<Rightarrow> n)
               in if level \<noteq> ''admin'' \<and> oldPerm = ''admin'' \<and> count \<le> 1 then (Reply 409 ''cannot remove the last admin'', st)
                  else case SetDirect (later 3 flt) now i level callerID (st_acct st) of
                         (Inl _, s') \<Rightarrow> (Reply 500 ''failed to set permissions'', st\<lparr>st_acct := s'\<rparr>)
                       | (Inr _, s') \<Rightarrow>
                           (Reply 200 ''permissions updated'',
                            auditEvent (later 4 flt) now r ''user_permissions_changed'' ''warn'' (Some callerID)
                              (''target='' @ show_int i @ '' old='' @ oldPerm @ '' new='' @ level) (st\<lparr>st_acct := s'\<rparr>))))"

section \<open>Groups\<close>

definition AdminCreateGroup ::
  "faults \<Rightarrow> time \<Rightarrow> incoming \<Rightarrow> int \<Rightarrow> (string \<times> string \<times> string) option \<Rightarrow> site \<Rightarrow> reply \<times> site" where
  "AdminCreateGroup flt now r callerID body st =
     (case body of
        None \<Rightarrow> (Reply 400 ''invalid request body'', st)
      | Some (raw_name, description, level) \<Rightarrow>
          (let name = TrimSpace raw_name
           in if name = [] then (Reply 400 ''name is required'', st)
              else if \<not> validPermissionLevel level then (Reply 400 ''permission_level must be read, write, or admin'', st)
              else case Group_Create flt now name description level (st_acct st) of
                     (Inl e, s') \<Rightarrow> (if e = ErrGroupNameTaken then Reply 409 ''group name already exists'' else Reply 500 ''failed to create group'',
                                     st\<lparr>st_acct := s'\<rparr>)
                   | (Inr g, s') \<Rightarrow>
                       (Reply 201 [],
                        auditEvent (later 2 flt) now r ''group_created'' ''info'' (Some callerID)
                          (''id='' @ show_int (gp_id g) @ '' name='' @ gp_name g @ '' permission='' @ level) (st\<lparr>st_acct := s'\<rparr>))))"

record group_patch =
  gq_name :: string
  gq_desc :: string
  gq_level :: string
  gq_active :: "bool option"

definition AdminUpdateGroup ::
  "faults \<Rightarrow> time \<Rightarrow> incoming \<Rightarrow> int \<Rightarrow> string \<Rightarrow> group_patch option \<Rightarrow> site \<Rightarrow> reply \<times> site" where
  "AdminUpdateGroup flt now r callerID path body st =
     (case Atoi path of
        None \<Rightarrow> (Reply 400 ''invalid group id'', st)
      | Some i \<Rightarrow>
     (case body of
        None \<Rightarrow> (Reply 400 ''invalid request body'', st)
      | Some b \<Rightarrow>
          if gq_level b \<noteq> [] \<and> \<not> validPermissionLevel (gq_level b)
          then (Reply 400 ''permission_level must be read, write, or admin'', st)
          else case Group_Update flt now i (TrimSpace (gq_name b)) (gq_desc b) (gq_level b) (gq_active b) (st_acct st) of
                 (Inl e, s') \<Rightarrow> (if e = ErrGroupNotFound then Reply 404 ''group not found'' else Reply 500 ''failed to update group'',
                                 st\<lparr>st_acct := s'\<rparr>)
               | (Inr _, s') \<Rightarrow>
                   (Reply 200 [],
                    auditEvent (later 2 flt) now r ''group_updated'' ''info'' (Some callerID) (''id='' @ show_int i) (st\<lparr>st_acct := s'\<rparr>))))"

definition AdminDeleteGroup :: "faults \<Rightarrow> time \<Rightarrow> incoming \<Rightarrow> int \<Rightarrow> string \<Rightarrow> site \<Rightarrow> reply \<times> site" where
  "AdminDeleteGroup flt now r callerID path st =
     (case Atoi path of
        None \<Rightarrow> (Reply 400 ''invalid group id'', st)
      | Some i \<Rightarrow>
          (case Group_Delete flt i (st_acct st) of
             (Inl _, s') \<Rightarrow> (Reply 500 ''failed to delete group'', st\<lparr>st_acct := s'\<rparr>)
           | (Inr _, s') \<Rightarrow>
               (Reply 200 ''group deleted'',
                auditEvent (later 2 flt) now r ''group_deleted'' ''warn'' (Some callerID) (''id='' @ show_int i) (st\<lparr>st_acct := s'\<rparr>))))"

definition AdminAddGroupMember :: "faults \<Rightarrow> time \<Rightarrow> incoming \<Rightarrow> int \<Rightarrow> string \<Rightarrow> int option \<Rightarrow> site \<Rightarrow> reply \<times> site" where
  "AdminAddGroupMember flt now r callerID path body st =
     (case Atoi path of
        None \<Rightarrow> (Reply 400 ''invalid group id'', st)
      | Some i \<Rightarrow>
     (case body of
        None \<Rightarrow> (Reply 400 ''invalid request body'', st)
      | Some userID \<Rightarrow>
          (case AddMember flt now i userID callerID (st_acct st) of
             (Inl e, s') \<Rightarrow> (if e = ErrAlreadyMember then Reply 409 ''user is already a member'' else Reply 500 ''failed to add member'',
                             st\<lparr>st_acct := s'\<rparr>)
           | (Inr _, s') \<Rightarrow>
               (Reply 201 ''member added'',
                auditEvent (later 1 flt) now r ''group_member_added'' ''info'' (Some callerID)
                  (''group='' @ show_int i @ '' user='' @ show_int userID) (st\<lparr>st_acct := s'\<rparr>)))))"

definition AdminRemoveGroupMember :: "faults \<Rightarrow> time \<Rightarrow> incoming \<Rightarrow> int \<Rightarrow> string \<Rightarrow> string \<Rightarrow> site \<Rightarrow> reply \<times> site" where
  "AdminRemoveGroupMember flt now r callerID path user_path st =
     (case Atoi path of
        None \<Rightarrow> (Reply 400 ''invalid group id'', st)
      | Some i \<Rightarrow>
     (case Atoi user_path of
        None \<Rightarrow> (Reply 400 ''invalid user id'', st)
      | Some userID \<Rightarrow>
          (case RemoveMember flt i userID (st_acct st) of
             (Inl e, s') \<Rightarrow> (if e = ErrNotMember then Reply 404 ''user is not a member'' else Reply 500 ''failed to remove member'',
                             st\<lparr>st_acct := s'\<rparr>)
           | (Inr _, s') \<Rightarrow>
               (Reply 200 ''member removed'',
                auditEvent (later 1 flt) now r ''group_member_removed'' ''info'' (Some callerID)
                  (''group='' @ show_int i @ '' user='' @ show_int userID) (st\<lparr>st_acct := s'\<rparr>)))))"

section \<open>API tokens\<close>

record token_request =
  tq_name :: string
  tq_desc :: string
  tq_perms :: "string list"
  tq_dept :: string
  tq_days :: "int option"
  tq_max :: "int option"
  tq_types :: "string list"

definition default_token_days :: "error + string \<Rightarrow> int" where
  "default_token_days v =
     (case v of Inl _ \<Rightarrow> 90 | Inr t \<Rightarrow> (case Atoi t of None \<Rightarrow> 90 | Some n \<Rightarrow> if 0 < n then n else 90))"

text \<open>\<open>AddDate\<close> in days of 24 hours, as on a server that runs in UTC.\<close>

definition token_expiry :: "time \<Rightarrow> int \<Rightarrow> time option" where
  "token_expiry now days = (if 0 < days \<and> days \<le> 3650 then Some (now + days * 86400) else None)"

text \<open>Faults: 0 and 1 the caller's level (errors read as not an admin), 2 the setting, 3 to 5 the token, 6 and 7 the audit row. A
  reply of 201 carries the secret.\<close>

definition CreateToken ::
  "hasher \<Rightarrow> (string list \<Rightarrow> string) \<Rightarrow> faults \<Rightarrow> time \<Rightarrow> string \<Rightarrow> string \<Rightarrow> incoming \<Rightarrow> int \<Rightarrow> token_request option \<Rightarrow> site \<Rightarrow> reply \<times> site" where
  "CreateToken hh marshal flt now raw uuid r userID body st =
     (case body of
        None \<Rightarrow> (Reply 400 ''invalid request body'', st)
      | Some b \<Rightarrow>
          (let name = TrimSpace (tq_name b); perms = (if tq_perms b = [] then [''read''] else tq_perms b);
               isAdmin = (IsAdmin flt userID (st_acct st) = Inr True);
               days = (case tq_days b of Some d \<Rightarrow> d
                 | None \<Rightarrow> default_token_days (Settings_Get (later 2 flt) ''default_token_expiry_days'' (st_settings st)))
           in if name = [] then (Reply 400 ''name is required'', st)
              else if \<not> list_all validPermissionLevel perms then (Reply 400 ''permissions must be read, write, or admin'', st)
              else if ''admin'' \<in> set perms \<and> \<not> isAdmin then (Reply 403 ''only admins can create admin tokens'', st)
              else case Token_Create hh (later 3 flt) now raw uuid
                          \<lparr>ts_user = userID, ts_name = name, ts_desc = tq_desc b, ts_perms = marshal perms, ts_dept = tq_dept b,
                           ts_max = (case tq_max b of Some n \<Rightarrow> if 0 < n then Some n else None | None \<Rightarrow> None),
                           ts_types = (if tq_types b = [] then [] else marshal (tq_types b)), ts_expires = token_expiry now days\<rparr>
                          (st_acct st) of
                     (Inl _, s') \<Rightarrow> (Reply 500 ''failed to create token'', st\<lparr>st_acct := s'\<rparr>)
                   | (Inr (secret, t), s') \<Rightarrow>
                       (Reply 201 secret,
                        auditEvent (later 6 flt) now r ''api_token_issued'' ''info'' (Some userID)
                          (''token='' @ at_uuid t @ '' scopes='' @ marshal perms) (st\<lparr>st_acct := s'\<rparr>))))"

text \<open>The body is optional. Faults: 0 the token, 1 the update, 2 and 3 the audit row.\<close>

definition RevokeToken :: "faults \<Rightarrow> time \<Rightarrow> incoming \<Rightarrow> int \<Rightarrow> string \<Rightarrow> string \<Rightarrow> site \<Rightarrow> reply \<times> site" where
  "RevokeToken flt now r userID uuid reason st =
     (case Token_GetByUUID flt uuid (st_acct st) of
        Inl e \<Rightarrow> (if e = ErrTokenNotFound then Reply 404 ''token not found'' else Reply 500 ''failed to find token'', st)
      | Inr t \<Rightarrow>
          if at_user t \<noteq> userID then (Reply 404 ''token not found'', st)
          else case Revoke (later 1 flt) now (at_id t) userID reason (st_acct st) of
                 (Inl _, s') \<Rightarrow> (Reply 500 ''failed to revoke token'', st\<lparr>st_acct := s'\<rparr>)
               | (Inr _, s') \<Rightarrow>
                   (Reply 200 ''token revoked'',
                    auditEvent (later 2 flt) now r ''api_token_revoked'' ''info'' (Some userID)
                      (''token='' @ at_uuid t @ '' reason='' @ reason) (st\<lparr>st_acct := s'\<rparr>)))"

text \<open>One read per uuid, then the update and the audit row.\<close>

fun resolve_tokens :: "faults \<Rightarrow> string list \<Rightarrow> acct_db \<Rightarrow> int list" where
  "resolve_tokens flt [] s = []"
| "resolve_tokens flt (u # us) s =
     (case Token_GetByUUID flt u s of Inl _ \<Rightarrow> [] | Inr t \<Rightarrow> [at_id t]) @ resolve_tokens (later 1 flt) us s"

definition AdminBulkRevokeTokens ::
  "faults \<Rightarrow> time \<Rightarrow> incoming \<Rightarrow> int \<Rightarrow> (string list \<times> string) option \<Rightarrow> site \<Rightarrow> reply \<times> site" where
  "AdminBulkRevokeTokens flt now r adminID body st =
     (case body of
        None \<Rightarrow> (Reply 400 ''invalid request body'', st)
      | Some (uuids, reason) \<Rightarrow>
          if uuids = [] then (Reply 400 ''token_uuids is required'', st)
          else case BulkRevoke (later (length uuids) flt) now (resolve_tokens flt uuids (st_acct st)) adminID reason (st_acct st) of
                 (Inl _, s') \<Rightarrow> (Reply 500 ''failed to revoke tokens'', st\<lparr>st_acct := s'\<rparr>)
               | (Inr n, s') \<Rightarrow>
                   (Reply 200 ''tokens revoked'',
                    auditEvent (later (length uuids + 1) flt) now r ''api_token_bulk_revoked'' ''info'' (Some adminID)
                      (''count='' @ show_int n @ '' reason='' @ reason) (st\<lparr>st_acct := s'\<rparr>)))"

end
