(* ===== verification/Access_Guarantees.thy ===== *)
theory Access_Guarantees
  imports Account_Handlers
begin

text \<open>
  What the accounts and the request guards guarantee: who passes authentication and reaches the admin handlers, that
  an administrator remains, that a password change ends older sessions, and that a reset link works once. The runs
  of requests are the relation \<open>acct_run\<close> over the steps \<open>acct_step\<close>.
\<close>

section \<open>Effective levels and administrators\<close>

text \<open>Ids are unique and below the counter, and a user has at most one direct permission row.\<close>

definition acct_ok :: "acct_db \<Rightarrow> bool" where
  "acct_ok s \<longleftrightarrow> keyed us_id (ac_user_seq s) (ac_users s) \<and> distinct (map pm_user (ac_perms s))"

definition live_admin :: "acct_db \<Rightarrow> user \<Rightarrow> bool" where
  "live_admin s u \<longleftrightarrow> u \<in> set (ac_users s) \<and> us_active u \<and> us_deleted u = None \<and> IsAdmin no_faults (us_id u) s = Inr True"

lemma level_rank_admin [simp]: "level_rank l = 3 \<longleftrightarrow> l = ''admin''" "level_rank l \<le> 3"
  by (auto simp: level_rank_def)

lemma highest_admin: "highest a b = ''admin'' \<longleftrightarrow> a = ''admin'' \<or> b = ''admin''"
  using level_rank_admin by (auto simp: highest_def level_rank_def split: if_splits)

lemma hd_order_desc_max: "order_desc k xs = x # ys \<Longrightarrow> y \<in> set xs \<Longrightarrow> k y \<le> k x"
proof -
  assume "order_desc k xs = x # ys" and y: "y \<in> set xs"
  then have e: "sort_key k xs = rev ys @ [x]" by (simp add: order_desc_def rev_eq_Cons_iff)
  have "sorted (map k (rev ys @ [x]))" using sorted_sort_key [of k xs] unfolding e .
  moreover have "y \<in> set (rev ys @ [x])" using y unfolding e [symmetric] by simp
  ultimately show ?thesis by (auto simp: sorted_append)
qed

lemma order_desc_mem: "order_desc k xs = x # ys \<Longrightarrow> x \<in> set xs"
  by (metis list.set_intros(1) order_desc_def set_rev set_sort)

lemma group_level_admin: "group_level i s = ''admin'' \<longleftrightarrow> ''admin'' \<in> set (group_levels i s)"
proof (cases "order_desc level_rank (group_levels i s)")
  case Nil
  then show ?thesis by (simp add: group_level_def order_desc_def) (metis empty_iff empty_set set_sort)
next
  case (Cons l ls)
  then have "group_level i s = l" by (simp add: group_level_def)
  moreover have "l \<in> set (group_levels i s)" using Cons by (rule order_desc_mem)
  moreover have "l = ''admin''" if "''admin'' \<in> set (group_levels i s)"
    using hd_order_desc_max [OF Cons that] by (metis level_rank_admin le_antisym)
  ultimately show ?thesis by metis
qed

lemma join_mem:
  "l \<in> set (concat (map (\<lambda>m. map f (filter (Q m) gs)) (filter P ms))) \<longleftrightarrow>
     (\<exists>m \<in> set ms. P m \<and> (\<exists>g \<in> set gs. Q m g \<and> f g = l))"
  by auto

lemma distinct_map_eq: "distinct (map k xs) \<Longrightarrow> a \<in> set xs \<Longrightarrow> b \<in> set xs \<Longrightarrow> k a = k b \<Longrightarrow> a = b"
  by (auto simp: distinct_map inj_on_def)

lemma find_unique_iff:
  assumes "distinct (map k xs)"
  shows "(case find (\<lambda>x. k x = i) xs of None \<Rightarrow> False | Some x \<Rightarrow> Q x) \<longleftrightarrow> (\<exists>x \<in> set xs. k x = i \<and> Q x)"
proof (cases "find (\<lambda>x. k x = i) xs")
  case None
  then show ?thesis using find_NoneD [OF None] by auto
next
  case (Some x)
  then have x: "x \<in> set xs" "k x = i" using find_SomeD [OF Some] by auto
  then show ?thesis using Some distinct_map_eq [OF assms] by auto
qed

lemma group_levels_admin:
  "''admin'' \<in> set (group_levels i s) \<longleftrightarrow>
     (\<exists>m \<in> set (ac_members s). mb_user m = i \<and> (\<exists>g \<in> set (ac_groups s). gp_id g = mb_group m \<and> gp_active g \<and> gp_level g = ''admin''))"
  unfolding group_levels_def join_mem by (simp only: conj_assoc)

lemma direct_admin:
  assumes "acct_ok s"
  shows "GetDirect no_faults i s = Inr ''admin'' \<longleftrightarrow> (\<exists>p \<in> set (ac_perms s). pm_user p = i \<and> pm_level p = ''admin'')"
proof -
  have "distinct (map pm_user (ac_perms s))" using assms by (simp add: acct_ok_def)
  from find_unique_iff [OF this, of "\<lambda>p. pm_level p = ''admin''" i]
  show ?thesis by (auto simp: GetDirect_def split: option.splits)
qed

lemma GetDirect_no_faults: "\<exists>d. GetDirect no_faults i s = Inr d"
  by (auto simp: GetDirect_def split: option.split)

lemma IsAdmin_iff:
  assumes "acct_ok s"
  shows "IsAdmin no_faults i s = Inr True \<longleftrightarrow>
    (\<exists>p \<in> set (ac_perms s). pm_user p = i \<and> pm_level p = ''admin'') \<or>
    (\<exists>m \<in> set (ac_members s). mb_user m = i \<and> (\<exists>g \<in> set (ac_groups s). gp_id g = mb_group m \<and> gp_active g \<and> gp_level g = ''admin''))"
proof -
  obtain d where d: "GetDirect no_faults i s = Inr d" using GetDirect_no_faults by blast
  have "IsAdmin no_faults i s = Inr True \<longleftrightarrow> d = ''admin'' \<or> ''admin'' \<in> set (group_levels i s)"
    by (simp add: IsAdmin_def GetEffective_def d highest_admin group_level_admin)
  then show ?thesis using direct_admin [OF assms, of i] by (simp add: d group_levels_admin)
qed

lemma CountAdmins_eq:
  assumes "acct_ok s"
  shows "CountAdmins no_faults s = Inr (int (card {us_id u | u. live_admin s u}))"
proof -
  have "{us_id u | u. live_admin s u} = set (map us_id (filter (\<lambda>u. us_active u \<and> us_deleted u = None \<and>
             ((\<exists>p \<in> set (ac_perms s). pm_user p = us_id u \<and> pm_level p = ''admin'') \<or>
              (\<exists>m \<in> set (ac_members s). mb_user m = us_id u \<and>
                 (\<exists>g \<in> set (ac_groups s). gp_id g = mb_group m \<and> gp_active g \<and> gp_level g = ''admin'')))) (ac_users s)))"
    by (auto simp: live_admin_def IsAdmin_iff [OF assms])
  then show ?thesis unfolding CountAdmins_def by (simp only: length_remdups_card_conv if_False)
qed

text \<open>The SQL count of administrators, with its joins, is the number of live users for whom the request
  guard's own question, the highest of direct and active group levels, answers admin.\<close>

theorem admin_count_matches_effective_level:
  assumes "acct_ok s"
  shows "CountAdmins no_faults s = Inr (int (card {us_id u | u. live_admin s u}))"
  using assms by (rule CountAdmins_eq)

section \<open>An administrator remains\<close>

lemma auditEvent_acct [simp]: "st_acct (auditEvent flt now r e sv u d st) = st_acct st"
  by (simp add: auditEvent_def)

lemma Bex_update_where: "(\<exists>r \<in> set (update_where P f rs). Q r) \<longleftrightarrow> (\<exists>r \<in> set rs. Q (if P r then f r else r))"
  by (auto simp: update_where_def)

lemma Bex_update_key:
  assumes "\<exists>p \<in> set rs. k p = i" and "\<And>p. k (f p) = k p" and "\<And>p. lv (f p) = l"
  shows "(\<exists>p \<in> set (update_where (\<lambda>p. k p = i) f rs). k p = j \<and> Q (lv p)) \<longleftrightarrow>
    (if j = i then Q l else \<exists>p \<in> set rs. k p = j \<and> Q (lv p))"
  unfolding Bex_update_where using assms by auto

lemma SetDirect_shape:
  assumes "SetDirect flt now i level by s = (Inr (), s')"
  shows "ac_users s' = ac_users s" "ac_user_seq s' = ac_user_seq s" "ac_groups s' = ac_groups s" "ac_members s' = ac_members s"
    and "\<And>Q. (\<exists>p \<in> set (ac_perms s'). pm_user p = j \<and> Q (pm_level p)) \<longleftrightarrow>
            (if j = i then Q level else \<exists>p \<in> set (ac_perms s). pm_user p = j \<and> Q (pm_level p))"
    and "acct_ok s \<Longrightarrow> acct_ok s'"
proof -
  let ?f = "\<lambda>p. p\<lparr>pm_level := level, pm_by := by, pm_at := now\<rparr>"
  let ?r = "\<lparr>pm_user = i, pm_level = level, pm_by = by, pm_at = now\<rparr>"
  let ?old = "\<exists>p \<in> set (ac_perms s). pm_user p = i"
  have s': "s' = s\<lparr>ac_perms := (if ?old then update_where (\<lambda>p. pm_user p = i) ?f (ac_perms s) else ac_perms s @ [?r])\<rparr>"
    using assms by (auto simp: SetDirect_def split: if_splits)
  show "ac_users s' = ac_users s" "ac_user_seq s' = ac_user_seq s" "ac_groups s' = ac_groups s" "ac_members s' = ac_members s"
    by (simp_all add: s')
  show "(\<exists>p \<in> set (ac_perms s'). pm_user p = j \<and> Q (pm_level p)) \<longleftrightarrow>
            (if j = i then Q level else \<exists>p \<in> set (ac_perms s). pm_user p = j \<and> Q (pm_level p))" for Q
  proof (cases ?old)
    case True
    then have "ac_perms s' = update_where (\<lambda>p. pm_user p = i) ?f (ac_perms s)" by (simp add: s')
    then show ?thesis using Bex_update_key [of "ac_perms s" pm_user i ?f pm_level level j Q] True by simp
  next
    case False
    then have "ac_perms s' = ac_perms s @ [?r]" by (simp add: s')
    then show ?thesis using False by auto
  qed
  show "acct_ok s'" if "acct_ok s"
    using that by (auto simp: acct_ok_def s' map_update_where_id)
qed

lemma live_admin_SetDirect:
  assumes ok: "acct_ok s" and d: "SetDirect flt now i level by s = (Inr (), s')" and u: "live_admin s u"
    and "us_id u \<noteq> i \<or> level = ''admin''"
  shows "live_admin s' u"
proof -
  note shape = SetDirect_shape [OF d]
  have "IsAdmin no_faults (us_id u) s' = Inr True"
    using u assms(4) unfolding IsAdmin_iff [OF shape(6) [OF ok]] live_admin_def IsAdmin_iff [OF ok]
      shape(3,4) shape(5) [of "us_id u" "\<lambda>l. l = ''admin''"] by auto
  then show ?thesis using u by (simp add: live_admin_def shape)
qed

lemma two_admins:
  assumes "acct_ok s" and "CountAdmins no_faults s = Inr n" and "1 < n"
  shows "\<exists>u. live_admin s u \<and> us_id u \<noteq> i"
proof (rule ccontr)
  assume "\<not> ?thesis"
  then have "{us_id u | u. live_admin s u} \<subseteq> {i}" by blast
  then have "card {us_id u | u. live_admin s u} \<le> card {i}" by (intro card_mono) simp
  then show False using assms CountAdmins_eq [OF assms(1)] by simp
qed

lemma AdminSetPermissions_keeps:
  assumes ok: "acct_ok (st_acct st)" and c: "live_admin (st_acct st) c" and flt: "\<not> flt 0" "\<not> flt 1" "\<not> flt 2"
  shows "\<exists>u. live_admin (st_acct (snd (AdminSetPermissions flt now r callerID path body st))) u"
proof -
  let ?s = "st_acct st"
  have eff: "GetEffective flt i ?s = GetEffective no_faults i ?s" for i
    using flt by (simp add: GetEffective_def GetDirect_def del: One_nat_def split: option.split)
  have cnt: "CountAdmins (later 2 flt) ?s = CountAdmins no_faults ?s" using flt by (simp add: CountAdmins_def)
  obtain n where n: "CountAdmins no_faults ?s = Inr n" by (simp add: CountAdmins_def)
  have keep: "\<exists>u. live_admin s' u"
    if d: "SetDirect f now i level callerID ?s = (Inr (), s')"
      and g: "\<not> (level \<noteq> ''admin'' \<and> GetEffective no_faults i ?s = Inr ''admin'' \<and> n \<le> 1)" for f i level s'
  proof (cases "us_id c \<noteq> i \<or> level = ''admin''")
    case True
    then show ?thesis using live_admin_SetDirect [OF ok d c] by blast
  next
    case False
    then have i: "us_id c = i" "level \<noteq> ''admin''" by auto
    then have "GetEffective no_faults i ?s = Inr ''admin''"
      using c by (auto simp: live_admin_def IsAdmin_def split: sum.splits)
    then have "1 < n" using g i(2) by simp
    then obtain u where "live_admin ?s u" "us_id u \<noteq> i" using two_admins [OF ok n] by blast
    then show ?thesis using live_admin_SetDirect [OF ok d] by blast
  qed
  have same: "s' = ?s" if "SetDirect f now i level callerID ?s = (Inl e, s')" for f i level e s'
    using that by (auto simp: SetDirect_def split: if_splits)
  show ?thesis
    using c unfolding AdminSetPermissions_def eff cnt n
    by (auto split: option.split sum.split prod.split simp: Let_def dest: same intro: keep)
qed

text \<open>Deleting leaves permissions, groups and every other user row as they are.\<close>

lemma SoftDelete_shape:
  "ac_perms (snd (SoftDelete flt now i s)) = ac_perms s" "ac_groups (snd (SoftDelete flt now i s)) = ac_groups s"
  "ac_members (snd (SoftDelete flt now i s)) = ac_members s"
  "u \<in> set (ac_users s) \<Longrightarrow> us_id u \<noteq> i \<Longrightarrow> u \<in> set (ac_users (snd (SoftDelete flt now i s)))"
  by (auto simp: SoftDelete_def Let_def update_where_def image_iff intro: bexI [of _ u])

lemma revoke_where_shape [simp]:
  "ac_perms (snd (revoke_where flt now by reason Q s)) = ac_perms s"
  "ac_groups (snd (revoke_where flt now by reason Q s)) = ac_groups s"
  "ac_members (snd (revoke_where flt now by reason Q s)) = ac_members s"
  "ac_users (snd (revoke_where flt now by reason Q s)) = ac_users s"
  "ac_user_seq (snd (revoke_where flt now by reason Q s)) = ac_user_seq s"
  "ac_resets (snd (revoke_where flt now by reason Q s)) = ac_resets s"
  "ac_verifs (snd (revoke_where flt now by reason Q s)) = ac_verifs s"
  by (simp_all add: revoke_where_def Let_def)

lemma IsAdmin_same_tables:
  "ac_perms s' = ac_perms s \<Longrightarrow> ac_groups s' = ac_groups s \<Longrightarrow> ac_members s' = ac_members s \<Longrightarrow> IsAdmin flt i s' = IsAdmin flt i s"
proof -
  assume *: "ac_perms s' = ac_perms s" "ac_groups s' = ac_groups s" "ac_members s' = ac_members s"
  then have "GetDirect flt i s' = GetDirect flt i s" "group_level i s' = group_level i s"
    by (simp_all only: GetDirect_def group_level_def group_levels_def)
  then show ?thesis by (simp only: IsAdmin_def GetEffective_def)
qed

lemma AdminDeleteUser_keeps:
  assumes c: "live_admin (st_acct st) c" and id: "us_id c = callerID"
  shows "live_admin (st_acct (snd (AdminDeleteUser flt now r callerID path st))) c"
proof -
  have kept: "live_admin (snd (SoftDelete f now i (snd (revoke_where g now callerID reason Q s)))) c"
    if "i \<noteq> callerID" "live_admin s c" for f g i reason Q s
  proof -
    let ?s1 = "snd (revoke_where g now callerID reason Q s)"
    let ?s2 = "snd (SoftDelete f now i ?s1)"
    have "IsAdmin no_faults (us_id c) ?s2 = IsAdmin no_faults (us_id c) s"
      by (rule IsAdmin_same_tables) (simp_all add: SoftDelete_shape)
    moreover have "c \<in> set (ac_users ?s2)"
      using that id by (intro SoftDelete_shape(4)) (simp_all add: live_admin_def)
    ultimately show ?thesis using that by (simp add: live_admin_def)
  qed
  have revoked: "live_admin (snd (revoke_where g now callerID reason Q s)) c" if "live_admin s c" for g reason Q s
  proof -
    have "IsAdmin no_faults (us_id c) (snd (revoke_where g now callerID reason Q s)) = IsAdmin no_faults (us_id c) s"
      by (rule IsAdmin_same_tables) simp_all
    then show ?thesis using that by (simp add: live_admin_def)
  qed
  have snd_eq: "x = (e, s') \<Longrightarrow> s' = snd x" for x :: "'x \<times> acct_db" and e s' by simp
  show ?thesis
    using c unfolding AdminDeleteUser_def RevokeAllByUser_def
    by (auto split: option.split sum.split prod.split dest!: snd_eq intro: revoked kept)
qed

text \<open>C20: when an active administrator asks, and the database answers the reads of the guard, neither setting a
  permission level nor deleting a user leaves the instance without an active administrator.\<close>

theorem admin_requests_keep_an_admin:
  assumes "acct_ok (st_acct st)" and "live_admin (st_acct st) c" and "us_id c = callerID"
    and "\<not> flt 0" "\<not> flt 1" "\<not> flt 2"
  shows "(\<exists>u. live_admin (st_acct (snd (AdminSetPermissions flt now r callerID path body st))) u) \<and>
         (\<exists>u. live_admin (st_acct (snd (AdminDeleteUser flt' now' r' callerID path' st))) u)"
  using AdminSetPermissions_keeps [OF assms(1,2,4,5,6)] AdminDeleteUser_keeps [OF assms(2,3)] by blast

section \<open>Authentication\<close>

text \<open>The evidence behind an accepted request.\<close>

definition session_evidence :: "auth_env \<Rightarrow> time \<Rightarrow> string \<Rightarrow> user \<Rightarrow> bool" where
  "session_evidence ae now token u \<longleftrightarrow>
     (\<exists>secret \<in> set (Keyring_Primary (ae_keys ae) # Keyring_Previous (ae_keys ae)). \<exists>c.
        jw_parse (ae_jwt ae) secret now token = Some c \<and> cl_user c = us_id u \<and>
        (\<forall>ch iat. us_changed u = Some ch \<and> cl_issued c = Some iat \<longrightarrow> ch \<le> iat))"

definition token_evidence :: "auth_env \<Rightarrow> time \<Rightarrow> string \<Rightarrow> acct_db \<Rightarrow> user \<Rightarrow> int \<Rightarrow> bool" where
  "token_evidence ae now token s u i \<longleftrightarrow>
     (\<exists>t \<in> set (ac_tokens s). at_id t = i \<and> at_user t = us_id u \<and> hh_check (ae_hasher ae) (at_hash t) token \<and>
        at_revoked t = None \<and> (\<forall>e. at_expires t = Some e \<longrightarrow> now \<le> e))"

lemma first_valid_SomeD: "first_valid jw now secrets token = Some c \<Longrightarrow> \<exists>k \<in> set secrets. jw_parse jw k now token = Some c"
  by (induction secrets) (auto split: option.splits)

lemma User_GetByID_D:
  "User_GetByID flt i s = Inr u \<Longrightarrow> u \<in> set (ac_users s) \<and> us_id u = i \<and> us_deleted u = None"
  by (auto simp: User_GetByID_def select_user_def split: if_splits option.splits dest: find_SomeD)

lemma Authenticate_cases:
  assumes "Authenticate ae flt now r s = (Inr i, s')"
  shows "\<exists>token u. credential r = Inr (token, id_source i) \<and> u \<in> set (ac_users s) \<and> us_id u = id_user i \<and> us_active u \<and>
     us_deleted u = None \<and> ac_users s' = ac_users s \<and>
     (id_token i = 0 \<and> session_evidence ae now token u \<or> token_evidence ae now token s u (id_token i))"
proof -
  obtain token source where c: "credential r = Inr (token, source)"
    using assms by (auto simp: Authenticate_def split: sum.splits)
  show ?thesis
  proof (cases "ValidateToken (ae_jwt ae) now (Keyring_Primary (ae_keys ae)) token (Keyring_Previous (ae_keys ae))")
    case None
    then obtain t u where t: "Token_ValidateSecret (ae_hasher ae) flt now token s = Inr t"
      and u: "User_GetByID (later 1 flt) (at_user t) s = Inr u" and a: "us_active u"
      and i: "i = \<lparr>id_user = at_user t, id_token = at_id t, id_source = source\<rparr>" "s' = Token_RecordUsage (later 2 flt) now (at_id t) s"
      using assms c by (auto simp: Authenticate_def split: sum.splits if_splits)
    have "t \<in> set (ac_tokens s) \<and> at_revoked t = None \<and> \<not> expired now t \<and> hh_check (ae_hasher ae) (at_hash t) token"
      using t by (auto simp: Token_ValidateSecret_def split: if_splits option.splits dest: find_SomeD)
    then have "token_evidence ae now token s u (at_id t)"
      using User_GetByID_D [OF u] by (auto simp: token_evidence_def expired_def intro!: bexI [of _ t])
    then show ?thesis
      using c a i User_GetByID_D [OF u] by (intro exI [of _ token] exI [of _ u]) (simp add: Token_RecordUsage_def)
  next
    case (Some cl)
    then obtain u where u: "User_GetByID flt (cl_user cl) s = Inr u" and a: "us_active u" "\<not> outdated_session u cl"
      and i: "i = \<lparr>id_user = cl_user cl, id_token = 0, id_source = source\<rparr>" "s' = s"
      using assms c by (auto simp: Authenticate_def split: sum.splits if_splits)
    obtain k where "k \<in> set (Keyring_Primary (ae_keys ae) # Keyring_Previous (ae_keys ae))" "jw_parse (ae_jwt ae) k now token = Some cl"
      using first_valid_SomeD Some unfolding ValidateToken_def by blast
    then have "session_evidence ae now token u"
      using a(2) User_GetByID_D [OF u] unfolding session_evidence_def outdated_session_def
      by (intro bexI [of _ k] exI [of _ cl]) (auto split: option.splits)
    then show ?thesis using c a i User_GetByID_D [OF u] by (intro exI [of _ token] exI [of _ u]) simp
  qed
qed

text \<open>The chains of \<open>router.go\<close> in front of the user and the admin handlers.\<close>

definition user_route ::
  "auth_env \<Rightarrow> faults \<Rightarrow> time \<Rightarrow> incoming \<Rightarrow> settings_db \<Rightarrow> acct_db \<Rightarrow> (reply + identity) \<times> acct_db" where
  "user_route ae flt now r g s =
     (case Authenticate ae flt now r s of
        (Inl e, s') \<Rightarrow> (Inl e, s')
      | (Inr i, s') \<Rightarrow>
          (case CSRF True (Some (id_source i)) r of
             Some e \<Rightarrow> (Inl e, s')
           | None \<Rightarrow> (case MaintenanceMode (later 3 flt) (id_user i) g s' of Some e \<Rightarrow> (Inl e, s') | None \<Rightarrow> (Inr i, s'))))"

definition admin_route :: "auth_env \<Rightarrow> faults \<Rightarrow> time \<Rightarrow> incoming \<Rightarrow> acct_db \<Rightarrow> (reply + identity) \<times> acct_db" where
  "admin_route ae flt now r s =
     (case Authenticate ae flt now r s of
        (Inl e, s') \<Rightarrow> (Inl e, s')
      | (Inr i, s') \<Rightarrow>
          (case CSRF True (Some (id_source i)) r of
             Some e \<Rightarrow> (Inl e, s')
           | None \<Rightarrow> (case RequireAdmin (later 3 flt) i s' of Some e \<Rightarrow> (Inl e, s') | None \<Rightarrow> (Inr i, s'))))"

definition csrf_proof :: "incoming \<Rightarrow> auth_source \<Rightarrow> bool" where
  "csrf_proof r source \<longleftrightarrow>
     in_method r \<in> {''GET'', ''HEAD'', ''OPTIONS''} \<or> source = FromHeader \<or>
     (in_csrf_header r \<noteq> [] \<and> in_csrf_cookie r = Some (in_csrf_header r))"

lemma CSRF_passes: "CSRF True (Some source) r = None \<longleftrightarrow> csrf_proof r source"
  by (cases source) (auto simp: CSRF_def csrf_proof_def split: option.splits)

lemma IsAdmin_no_faults: "IsAdmin flt i s = Inr b \<Longrightarrow> IsAdmin no_faults i s = Inr b"
proof -
  assume a: "IsAdmin flt i s = Inr b"
  then have f: "\<not> flt 0" "\<not> flt 1"
    by (auto simp: IsAdmin_def GetEffective_def GetDirect_def split: sum.splits if_splits option.splits)
  then have "GetEffective flt i s = GetEffective no_faults i s"
    by (simp add: GetEffective_def GetDirect_def del: One_nat_def split: option.split)
  then show ?thesis using a by (simp add: IsAdmin_def)
qed

text \<open>C7: whatever statements fail, a request that gets through to an admin handler comes with a credential of an
  existing, active user whose effective level is admin: a session token that a current or previous key verifies,
  not older than the last password change, or an API token that is neither revoked nor expired; and a request
  authenticated by cookie that is not a read carries the matching CSRF token.\<close>

theorem admin_route_guarded:
  assumes "admin_route ae flt now r s = (Inr i, s')"
  shows "\<exists>token u. credential r = Inr (token, id_source i) \<and> u \<in> set (ac_users s) \<and> us_id u = id_user i \<and>
     us_active u \<and> us_deleted u = None \<and> IsAdmin no_faults (us_id u) s' = Inr True \<and>
     (id_token i = 0 \<and> session_evidence ae now token u \<or> token_evidence ae now token s u (id_token i)) \<and>
     csrf_proof r (id_source i)"
proof -
  have a: "Authenticate ae flt now r s = (Inr i, s')" and p: "csrf_proof r (id_source i)"
    and q: "IsAdmin (later 3 flt) (id_user i) s' = Inr True"
    using assms by (auto simp: admin_route_def RequireAdmin_def CSRF_passes split: prod.splits sum.splits option.splits if_splits)
  from Authenticate_cases [OF a] obtain token u where
    "credential r = Inr (token, id_source i)" "u \<in> set (ac_users s)" "us_id u = id_user i" "us_active u" "us_deleted u = None"
    "id_token i = 0 \<and> session_evidence ae now token u \<or> token_evidence ae now token s u (id_token i)" by blast
  then show ?thesis using p IsAdmin_no_faults [OF q] by (intro exI [of _ token] exI [of _ u]) simp
qed

text \<open>The permissions a token was issued with play no part in any decision: they can be rewritten freely.\<close>

definition rescoped :: "(token_row \<Rightarrow> string) \<Rightarrow> acct_db \<Rightarrow> acct_db" where
  "rescoped f s = s\<lparr>ac_tokens := map (\<lambda>t. t\<lparr>at_perms := f t\<rparr>) (ac_tokens s)\<rparr>"

lemma admin_route_fst:
  "fst (admin_route ae flt now r s) =
     (case fst (Authenticate ae flt now r s) of
        Inl e \<Rightarrow> Inl e
      | Inr i \<Rightarrow> (case CSRF True (Some (id_source i)) r of
           Some e \<Rightarrow> Inl e
         | None \<Rightarrow> (case RequireAdmin (later 3 flt) i (snd (Authenticate ae flt now r s)) of Some e \<Rightarrow> Inl e | None \<Rightarrow> Inr i)))"
  by (simp add: admin_route_def split: prod.split sum.split option.split)

lemma token_scopes_not_enforced:
  "fst (admin_route ae flt now r (rescoped f s)) = fst (admin_route ae flt now r s)"
proof -
  have f1: "Token_ValidateSecret hh flt' now tok (rescoped f s) =
      map_sum id (\<lambda>t. t\<lparr>at_perms := f t\<rparr>) (Token_ValidateSecret hh flt' now tok s)" for hh flt' tok
    by (simp add: Token_ValidateSecret_def rescoped_def find_map_same expired_def split: option.split)
  have f2: "User_GetByID flt' i (rescoped f s) = User_GetByID flt' i s" for flt' i
    by (simp add: User_GetByID_def select_user_def rescoped_def)
  have f3: "IsAdmin g i (snd (Authenticate ae flt now r s0)) = IsAdmin g i s0" for g i s0
    by (rule IsAdmin_same_tables) (auto simp: Authenticate_def Token_RecordUsage_def split: sum.split option.split)
  have f4: "IsAdmin g i (rescoped f s) = IsAdmin g i s" for g i
    by (rule IsAdmin_same_tables) (simp_all add: rescoped_def)
  have eq: "fst (Authenticate ae flt now r (rescoped f s)) = fst (Authenticate ae flt now r s)"
  proof (cases "credential r")
    case (Inr c)
    obtain token source where c: "c = (token, source)" by force
    show ?thesis
    proof (cases "Token_ValidateSecret (ae_hasher ae) flt now token s")
      case (Inr t)
      then show ?thesis by (simp add: Authenticate_def f1 f2 \<open>credential r = Inr c\<close> c split: option.split sum.split)
    qed (simp add: Authenticate_def f1 f2 Inr c split: option.split sum.split)
  qed (simp add: Authenticate_def)
  show ?thesis unfolding admin_route_fst RequireAdmin_def f3 f4 eq ..
qed

section \<open>Runs of account requests\<close>

text \<open>A link that has been used (or replaced) stays in the table, so its token can never be issued again.\<close>

definition settled :: "string \<Rightarrow> link_row list \<Rightarrow> bool" where
  "settled tok rows \<longleftrightarrow> (\<exists>l \<in> set rows. lk_token l = tok) \<and> (\<forall>l \<in> set rows. lk_token l = tok \<longrightarrow> lk_used l \<noteq> None)"

text \<open>What one operation at a time \<open>now\<close> may do to users and links: rows keep their ids, a password time changes to
  the present only, new rows have new ids, and settled links stay settled.\<close>

definition evolves :: "time \<Rightarrow> acct_db \<Rightarrow> acct_db \<Rightarrow> bool" where
  "evolves now s s' \<longleftrightarrow>
     ac_user_seq s \<le> ac_user_seq s' \<and>
     (\<forall>u' \<in> set (ac_users s'). ac_user_seq s < us_id u' \<or>
        (\<exists>u \<in> set (ac_users s). us_id u = us_id u' \<and> (us_changed u' = us_changed u \<or> us_changed u' = Some now))) \<and>
     (\<forall>tok. settled tok (ac_resets s) \<longrightarrow> settled tok (ac_resets s')) \<and>
     (\<forall>tok. settled tok (ac_verifs s) \<longrightarrow> settled tok (ac_verifs s'))"

named_theorems evolve_intros \<open>operations on accounts evolve the tables\<close>

lemma evolves_trans [trans]:
  assumes a: "evolves now s1 s2" and b: "evolves now s2 s3"
  shows "evolves now s1 s3"
proof -
  have "ac_user_seq s1 < us_id u \<or> (\<exists>v \<in> set (ac_users s1). us_id v = us_id u \<and> (us_changed u = us_changed v \<or> us_changed u = Some now))"
    if u: "u \<in> set (ac_users s3)" for u
  proof -
    consider "ac_user_seq s2 < us_id u" | v where "v \<in> set (ac_users s2)" "us_id v = us_id u" "us_changed u = us_changed v \<or> us_changed u = Some now"
      using b u unfolding evolves_def by blast
    then show ?thesis
    proof cases
      case 1
      then show ?thesis using a by (simp add: evolves_def)
    next
      case (2 v)
      then show ?thesis using a unfolding evolves_def by (metis (full_types))
    qed
  qed
  then show ?thesis using a b unfolding evolves_def by (meson order_trans)
qed

lemma evolves_same:
  "ac_users s' = ac_users s \<Longrightarrow> ac_user_seq s' = ac_user_seq s \<Longrightarrow> ac_resets s' = ac_resets s \<Longrightarrow> ac_verifs s' = ac_verifs s \<Longrightarrow>
   evolves now s s'"
  unfolding evolves_def by auto

lemma evolves_refl [evolve_intros]: "evolves now s s"
  by (rule evolves_same) simp_all

lemma evolves_update:
  assumes "ac_users s' = update_where P f (ac_users s)"
    and "\<And>u. us_id (f u) = us_id u" and "\<And>u. us_changed (f u) = us_changed u \<or> us_changed (f u) = Some now" and "ac_user_seq s' = ac_user_seq s"
    and "ac_resets s' = ac_resets s" and "ac_verifs s' = ac_verifs s"
  shows "evolves now s s'"
proof -
  have "\<exists>u \<in> set (ac_users s). us_id u = us_id v \<and> (us_changed v = us_changed u \<or> us_changed v = Some now)"
    if v: "v \<in> set (ac_users s')" for v
  proof -
    obtain u where "u \<in> set (ac_users s)" "v = (if P u then f u else u)"
      using v unfolding assms(1) set_update_where by blast
    then show ?thesis using assms(2,3) by (intro bexI [of _ u]) auto
  qed
  then show ?thesis unfolding evolves_def using assms(4-6) by auto
qed

lemma settled_map:
  assumes "\<And>l. lk_token (g l) = lk_token l" and "\<And>l. lk_used l \<noteq> None \<Longrightarrow> lk_used (g l) \<noteq> None" and "settled tok rows"
  shows "settled tok (map g rows)"
  using assms unfolding settled_def by fastforce

lemma settled_update_used:
  "settled tok rows \<Longrightarrow> settled tok (update_where P (\<lambda>l. l\<lparr>lk_used := Some now\<rparr>) rows)"
  unfolding update_where_def by (rule settled_map) simp_all

lemma settled_issue:
  assumes "settled tok rows"
  shows "settled tok (snd (issue_link flt now life raw i s rows))"
proof -
  let ?r = "if flt 1 then rows else update_where (\<lambda>l. lk_user l = i \<and> lk_used l = None) (\<lambda>l. l\<lparr>lk_used := Some now\<rparr>) rows"
  have r: "settled tok ?r" using assms settled_update_used by simp
  have "settled tok (?r @ [\<lparr>lk_user = i, lk_token = t, lk_expires = e, lk_used = None\<rparr>])" if "\<not> (\<exists>l \<in> set ?r. lk_token l = t)" for t e
    using r that unfolding settled_def by auto
  then show ?thesis using r assms by (simp add: issue_link_def Let_def)
qed

lemma settled_redeem: "settled tok rows \<Longrightarrow> settled tok (snd (redeem_link flt now t rows))"
  by (auto simp: redeem_link_def settled_update_used split: option.split)

lemma evolves_update_user:
  assumes "\<And>u. us_id (f u) = us_id u" and "\<And>u. us_changed (f u) = us_changed u \<or> us_changed (f u) = Some now"
  shows "evolves now s (snd (update_user flt i f s))"
  unfolding update_user_def by (simp add: evolves_refl) (rule impI, rule evolves_update [OF _ assms], simp_all)

lemma evolves_insert_user [evolve_intros]: "evolves now s (snd (insert_user flt t email hash f l sv ext s))"
proof -
  have "us_id (fresh_user i t email hash f l sv ext) = i" for i by (simp add: fresh_user_def)
  then show ?thesis unfolding insert_user_def Let_def evolves_def by auto
qed

lemma evolves_services [evolve_intros]:
  "evolves now s (snd (UpdateLastLogin flt now i s))"
  "evolves now s (snd (UpdatePassword flt now i hash s))"
  "evolves now s (snd (UpdateRestrictions flt t i m ty s))"
  "evolves now s (snd (User_Update flt t i f l a s))"
  unfolding UpdateLastLogin_def UpdatePassword_def UpdateRestrictions_def User_Update_def
  by (auto intro!: evolves_update_user evolves_refl split: sum.split)

lemma evolves_more_services [evolve_intros]:
  "evolves now s (snd (SoftDelete flt t i s))"
  "evolves now s (snd (UpdateFromSCIM flt t i email f l ext a s))"
  "evolves now s (snd (Verification_Validate flt t tok s))"
proof -
  show "evolves now s (snd (SoftDelete flt t i s))"
    unfolding SoftDelete_def Let_def by (simp add: evolves_refl) (auto intro: evolves_update)
  show "evolves now s (snd (UpdateFromSCIM flt t i email f l ext a s))"
    unfolding UpdateFromSCIM_def Let_def by (simp add: evolves_refl) (auto intro: evolves_update)
  obtain res rows where r: "redeem_link flt t tok (ac_verifs s) = (res, rows)" by force
  have keep: "settled k (ac_verifs s) \<Longrightarrow> settled k rows" for k using settled_redeem [of k "ac_verifs s" flt t tok] by (simp add: r)
  have 1: "evolves now s (s\<lparr>ac_verifs := rows\<rparr>)" using keep unfolding evolves_def by auto
  have 2: "evolves now (s\<lparr>ac_verifs := rows\<rparr>) (s\<lparr>ac_verifs := rows, ac_users := update_where P (\<lambda>u. u\<lparr>us_verified := True\<rparr>) (ac_users s)\<rparr>)" for P
    by (rule evolves_update [where P = P and f = "\<lambda>u. u\<lparr>us_verified := True\<rparr>"]) simp_all
  show "evolves now s (snd (Verification_Validate flt t tok s))"
    using 1 evolves_trans [OF 1 2] by (auto simp: Verification_Validate_def r Let_def split: sum.split)
qed

lemma evolves_links [evolve_intros]:
  "evolves now s (snd (Reset_Create flt t raw i s))"
  "evolves now s (snd (Reset_Validate flt t tok s))"
  "evolves now s (snd (Verification_Create flt t raw i s))"
proof -
  show "evolves now s (snd (Reset_Create flt t raw i s))"
    using settled_issue [of _ "ac_resets s"] unfolding Reset_Create_def evolves_def by (auto split: prod.split) (metis snd_conv)
  show "evolves now s (snd (Reset_Validate flt t tok s))"
    using settled_redeem [of _ "ac_resets s"] unfolding Reset_Validate_def evolves_def by (auto split: prod.split) (metis snd_conv)
  show "evolves now s (snd (Verification_Create flt t raw i s))"
    using settled_issue [of _ "ac_verifs s"] unfolding Verification_Create_def evolves_def by (auto split: prod.split) (metis snd_conv)
qed

text \<open>Operations on other tables.\<close>

lemma evolves_unrelated [evolve_intros]:
  "evolves now s (snd (SetDirect flt t i l b s))"
  "evolves now s (snd (Group_Create flt t n d l s))"
  "evolves now s (snd (Group_Update flt t i n d l a s))"
  "evolves now s (snd (Group_Delete flt i s))"
  "evolves now s (snd (AddMember flt t g i b s))"
  "evolves now s (snd (RemoveMember flt g i s))"
  "evolves now s (snd (Token_Create hh flt t raw uuid ts s))"
  "evolves now s (snd (revoke_where flt t b reason Q s))"
  "evolves now s (Token_RecordUsage flt t i s)"
proof -
  show "evolves now s (snd (SetDirect flt t i l b s))" by (rule evolves_same) (auto simp: SetDirect_def)
  show "evolves now s (snd (Group_Create flt t n d l s))" by (rule evolves_same) (auto simp: Group_Create_def Let_def)
  show "evolves now s (snd (Group_Update flt t i n d l a s))"
    by (rule evolves_same) (auto simp: Group_Update_def Let_def split: sum.split)
  show "evolves now s (snd (Group_Delete flt i s))" by (rule evolves_same) (auto simp: Group_Delete_def Let_def)
  show "evolves now s (snd (AddMember flt t g i b s))"
    by (rule evolves_same) (auto simp: AddMember_def insert_member_def)
  show "evolves now s (snd (RemoveMember flt g i s))" by (rule evolves_same) (auto simp: RemoveMember_def Let_def)
  show "evolves now s (snd (Token_Create hh flt t raw uuid ts s))"
    by (rule evolves_same) (auto simp: Token_Create_def Let_def split: option.split)
  show "evolves now s (snd (revoke_where flt t b reason Q s))" by (rule evolves_same) simp_all
  show "evolves now s (Token_RecordUsage flt t i s)" by (rule evolves_same) (simp_all add: Token_RecordUsage_def)
qed

text \<open>The requests that change accounts, and the SCIM calls, at a time \<open>now\<close>. Every argument is free: who asks, with what
  body, and which statements fail.\<close>

inductive acct_step :: "time \<Rightarrow> site \<Rightarrow> site \<Rightarrow> bool" where
  login: "acct_step now st (snd (Login ae flt now r body st))"
| logout: "acct_step now st (snd (Logout flt now r i st))"
| register: "acct_step now st (snd (Register hh ve cfg flt now raw nu st))"
| change: "acct_step now st (snd (ChangePassword hh flt now r i body st))"
| forgot: "acct_step now st (snd (ForgotPassword cfg flt now raw r mail st))"
| reset: "acct_step now st (snd (ResetPassword hh flt now r body st))"
| verify: "acct_step now st (snd (VerifyEmail flt now r tok st))"
| resend: "acct_step now st (snd (ResendVerification cfg flt now raw r i st))"
| profile: "acct_step now st (snd (UpdateProfile flt now i body st))"
| update: "acct_step now st (snd (AdminUpdateUser mj flt now r c path patch st))"
| delete_user: "acct_step now st (snd (AdminDeleteUser flt now r c path st))"
| create_user: "acct_step now st (snd (AdminCreateUser hh ve flt now r c nup st))"
| service: "acct_step now st (snd (AdminCreateServiceAccount flt now r c sv st))"
| permissions: "acct_step now st (snd (AdminSetPermissions flt now r c path level st))"
| create_group: "acct_step now st (snd (AdminCreateGroup flt now r c gb st))"
| update_group: "acct_step now st (snd (AdminUpdateGroup flt now r c path gpb st))"
| delete_group: "acct_step now st (snd (AdminDeleteGroup flt now r c path st))"
| add_member: "acct_step now st (snd (AdminAddGroupMember flt now r c path mem st))"
| remove_member: "acct_step now st (snd (AdminRemoveGroupMember flt now r c path path2 st))"
| create_token: "acct_step now st (snd (CreateToken hh mj flt now raw uuid r i tq st))"
| revoke_token: "acct_step now st (snd (RevokeToken flt now r i uuid reason st))"
| bulk_revoke: "acct_step now st (snd (AdminBulkRevokeTokens flt now r c br st))"
| authenticate: "acct_step now st (st\<lparr>st_acct := snd (Authenticate ae flt now r (st_acct st))\<rparr>)"
| scim_create: "acct_step now st (st\<lparr>st_acct := snd (CreateFromSCIM flt now e f l x (st_acct st))\<rparr>)"
| scim_update: "acct_step now st (st\<lparr>st_acct := snd (UpdateFromSCIM flt now i e f l ox oa (st_acct st))\<rparr>)"
| scim_delete: "acct_step now st (st\<lparr>st_acct := snd (SoftDelete flt now i (st_acct st))\<rparr>)"

text \<open>A run: steps at times from \<open>T\<close> on.\<close>

inductive acct_run :: "time \<Rightarrow> site \<Rightarrow> site \<Rightarrow> bool" for T where
  none: "acct_run T st st"
| more: "acct_run T st st1 \<Longrightarrow> T \<le> now \<Longrightarrow> acct_step now st1 st2 \<Longrightarrow> acct_run T st st2"

lemma evolves_snd: "x = (e, s') \<Longrightarrow> evolves now s (snd x) \<Longrightarrow> evolves now s s'"
  by simp

lemma evolves_sndD: "x = (e, s') \<Longrightarrow> s' = snd x"
  by simp

lemma update_restrictions_evolves: "update_restrictions mj flt t i b s = Inr s' \<Longrightarrow> evolves now s s'"
proof (cases "up_max b = None \<and> up_types b = None")
  case False
  assume "update_restrictions mj flt t i b s = Inr s'"
  then obtain f m ty where "s' = snd (UpdateRestrictions f t i m ty s)"
    using False by (auto simp: update_restrictions_def Let_def split: sum.splits prod.splits dest: evolves_sndD)
  then show ?thesis by (simp add: evolves_services)
qed (simp add: update_restrictions_def evolves_refl)

lemma AdminUpdateUser_evolves: "evolves now (st_acct st) (st_acct (snd (AdminUpdateUser mj flt now r c path patch st)))"
proof (cases "Atoi path")
  case (Some i)
  show ?thesis
  proof (cases patch)
    case (Some b)
    obtain y s1 where u: "User_Update (later 1 flt) now i (case up_first b of None \<Rightarrow> [] | Some t \<Rightarrow> TrimSpace t)
        (case up_last b of None \<Rightarrow> [] | Some t \<Rightarrow> TrimSpace t) (up_active b) (st_acct st) = (y, s1)"
      by fastforce
    have upd: "evolves now (st_acct st) s1" by (rule evolves_snd [OF u evolves_services(4)])
    have revoked: "evolves now (st_acct st) (if x then snd (RevokeAllByUser f now i c reason s2) else s2)"
      if "update_restrictions mj f1 now i b s1 = Inr s2" for x f reason f1 s2
      unfolding RevokeAllByUser_def
      using evolves_trans [OF upd update_restrictions_evolves [OF that]] evolves_trans [OF _ evolves_unrelated(8)] by simp
    have if_audit [simp]: "st_acct (if x then auditEvent f t q e l u d s else s) = st_acct s" for x f t q e l u d s
      by simp
    show ?thesis
    proof (cases y)
      case (Inl e)
      then show ?thesis using upd by (simp add: AdminUpdateUser_def Let_def u \<open>Atoi path = Some i\<close> \<open>patch = Some b\<close>
            del: One_nat_def split del: if_split)
    next
      case (Inr n)
      show ?thesis
      proof (cases "update_restrictions mj (later 3 flt) now i b s1")
        case (Inl e)
        then show ?thesis
          using upd \<open>y = Inr n\<close> by (simp add: AdminUpdateUser_def Let_def u \<open>Atoi path = Some i\<close> \<open>patch = Some b\<close>
            del: One_nat_def split del: if_split)
      next
        case (Inr s2)
        show ?thesis
          using revoked [OF Inr] \<open>y = Inr n\<close>
          by (simp add: AdminUpdateUser_def Let_def u Inr \<open>Atoi path = Some i\<close> \<open>patch = Some b\<close>
              
              del: One_nat_def split del: if_split)
      qed
    qed
  qed (simp add: AdminUpdateUser_def evolves_refl Some)
qed (simp add: AdminUpdateUser_def evolves_refl)

text \<open>Each step is a composition of the services above.\<close>

lemma acct_step_evolves: "acct_step now st st' \<Longrightarrow> evolves now (st_acct st) (st_acct st')"
proof (induction rule: acct_step.induct)
  case (login now st ae flt r body)
  show ?case by (auto simp: Login_def Let_def intro: evolve_intros split: option.split sum.split)
next
  case (logout now st flt r i)
  show ?case by (simp add: Logout_def evolves_refl)
next
  case (register now st hh ve cfg flt raw nu)
  have "evolves now s (snd (Verification_Create f2 now raw i (snd (SetDirect f1 now i l i (snd (User_Create f0 now e h a b s))))))"
    for s f0 f1 f2 e h a b i l
    unfolding User_Create_def by (rule evolves_trans [OF evolves_insert_user evolves_trans [OF evolves_unrelated(1) evolves_links(3)]])
  moreover have "evolves now s (snd (User_Create f0 now e h a b s))" for s f0 e h a b
    unfolding User_Create_def by (rule evolve_intros)
  ultimately show ?case
    by (auto simp: Register_def Let_def intro: evolves_refl dest!: evolves_sndD split: option.split sum.split prod.split)
next
  case (change now st hh flt r i body)
  show ?case by (auto simp: ChangePassword_def intro: evolve_intros dest!: evolves_sndD split: option.split sum.split prod.split)
next
  case (forgot now st cfg flt raw r mail)
  show ?case by (auto simp: ForgotPassword_def Let_def intro: evolve_intros dest!: evolves_sndD split: option.split sum.split prod.split)
next
  case (reset now st hh flt r body)
  have "evolves now s (snd (UpdatePassword g now i h (snd (Reset_Validate f now tok s))))" for s f g i h tok
    by (rule evolves_trans [OF evolves_links(2) evolves_services(2)])
  then show ?case
    by (auto simp: ResetPassword_def Let_def intro: evolve_intros dest!: evolves_sndD split: option.split sum.split prod.split)
next
  case (verify now st flt r tok)
  show ?case by (auto simp: VerifyEmail_def intro: evolve_intros dest!: evolves_sndD split: sum.split prod.split)
next
  case (resend now st cfg flt raw r i)
  show ?case by (auto simp: ResendVerification_def intro: evolve_intros dest!: evolves_sndD split: sum.split prod.split)
next
  case (profile now st flt i body)
  show ?case by (auto simp: UpdateProfile_def intro: evolve_intros dest!: evolves_sndD split: option.split sum.split prod.split)
next
  case (update now st mj flt r c path patch)
  show ?case by (rule AdminUpdateUser_evolves)
next
  case (delete_user now st flt r c path)
  have "evolves now s (snd (SoftDelete f now i (snd (revoke_where g now c reason Q s))))" for s f g i reason Q
    by (rule evolves_trans [OF evolves_unrelated(8) evolves_more_services(1)])
  then show ?case
    by (auto simp: AdminDeleteUser_def RevokeAllByUser_def intro: evolve_intros dest!: evolves_sndD split: option.split sum.split prod.split)
next
  case (create_user now st hh ve flt r c nup)
  have "evolves now s (snd (SetDirect f1 now i l c (snd (User_Create f0 now e h a b s))))" for s f0 f1 e h a b i l
    unfolding User_Create_def by (rule evolves_trans [OF evolves_insert_user evolves_unrelated(1)])
  moreover have "evolves now s (snd (User_Create f0 now e h a b s))" for s f0 e h a b
    unfolding User_Create_def by (rule evolve_intros)
  ultimately show ?case
    by (auto simp: AdminCreateUser_def Let_def intro: evolves_refl dest!: evolves_sndD split: option.split sum.split prod.split)
next
  case (service now st flt r c sv)
  have "evolves now s (snd (SetDirect f1 now i l c (snd (CreateServiceAccount f0 now e a b s))))" for s f0 f1 e a b i l
    unfolding CreateServiceAccount_def by (rule evolves_trans [OF evolves_insert_user evolves_unrelated(1)])
  moreover have "evolves now s (snd (CreateServiceAccount f0 now e a b s))" for s f0 e a b
    unfolding CreateServiceAccount_def by (rule evolve_intros)
  ultimately show ?case
    by (auto simp: AdminCreateServiceAccount_def Let_def intro: evolves_refl dest!: evolves_sndD split: option.split sum.split prod.split)
next
  case (permissions now st flt r c path level)
  show ?case by (auto simp: AdminSetPermissions_def Let_def intro: evolve_intros dest!: evolves_sndD split: option.split sum.split prod.split)
next
  case (create_group now st flt r c gb)
  show ?case by (auto simp: AdminCreateGroup_def Let_def intro: evolve_intros dest!: evolves_sndD split: option.split sum.split prod.split)
next
  case (update_group now st flt r c path gpb)
  show ?case by (auto simp: AdminUpdateGroup_def intro: evolve_intros dest!: evolves_sndD split: option.split sum.split prod.split)
next
  case (delete_group now st flt r c path)
  show ?case by (auto simp: AdminDeleteGroup_def intro: evolve_intros dest!: evolves_sndD split: option.split sum.split prod.split)
next
  case (add_member now st flt r c path mem)
  show ?case by (auto simp: AdminAddGroupMember_def intro: evolve_intros dest!: evolves_sndD split: option.split sum.split prod.split)
next
  case (remove_member now st flt r c path path2)
  show ?case by (auto simp: AdminRemoveGroupMember_def intro: evolve_intros dest!: evolves_sndD split: option.split sum.split prod.split)
next
  case (create_token now st hh mj flt raw uuid r i tq)
  have issued: "st_acct (snd (case res of (Inl _, s') \<Rightarrow> (A, st\<lparr>st_acct := s'\<rparr>)
      | (Inr (secret, t), s') \<Rightarrow> (B secret, auditEvent f now r e l u (D t) (st\<lparr>st_acct := s'\<rparr>)))) = snd res"
    for res A B D f e l u and st :: site
    by (cases "fst res"; cases res) auto
  show ?case
    by (cases tq) (simp_all add: CreateToken_def Let_def if_distrib [of snd] if_distrib [of st_acct] issued
        evolves_refl evolves_unrelated(7) cong: if_cong)
next
  case (revoke_token now st flt r i uuid reason)
  show ?case by (auto simp: RevokeToken_def Revoke_def intro: evolve_intros dest!: evolves_sndD split: sum.split prod.split)
next
  case (bulk_revoke now st flt r c br)
  show ?case by (auto simp: AdminBulkRevokeTokens_def BulkRevoke_def intro: evolve_intros dest!: evolves_sndD split: option.split sum.split prod.split)
next
  case (authenticate now st ae flt r)
  show ?case by (auto simp: Authenticate_def intro: evolve_intros split: sum.split option.split)
next
  case (scim_create now st flt e f l x)
  show ?case by (simp add: CreateFromSCIM_def evolve_intros)
next
  case (scim_update now st flt i e f l ox oa)
  show ?case by (simp add: evolve_intros)
next
  case (scim_delete now st flt i)
  show ?case by (simp add: evolve_intros)
qed

section \<open>Password changes and links\<close>

text \<open>Every row of the user has a password time of \<open>T\<close> or later, and the id has been given out.\<close>

definition changed_since :: "time \<Rightarrow> int \<Rightarrow> acct_db \<Rightarrow> bool" where
  "changed_since T i s \<longleftrightarrow>
     i \<le> ac_user_seq s \<and> (\<forall>u \<in> set (ac_users s). us_id u = i \<longrightarrow> (\<exists>ch. us_changed u = Some ch \<and> T \<le> ch))"

lemma changed_since_evolves:
  assumes "changed_since T i s" and e: "evolves now s s'" and "T \<le> now"
  shows "changed_since T i s'"
proof -
  have "\<exists>ch. us_changed u = Some ch \<and> T \<le> ch" if u: "u \<in> set (ac_users s')" "us_id u = i" for u
  proof -
    have "\<not> ac_user_seq s < us_id u" using assms(1) u(2) by (simp add: changed_since_def)
    then obtain v where v: "v \<in> set (ac_users s)" "us_id v = i" "us_changed u = us_changed v \<or> us_changed u = Some now"
      using e u unfolding evolves_def by blast
    obtain ch where "us_changed v = Some ch" "T \<le> ch" using assms(1) v unfolding changed_since_def by blast
    then show ?thesis using v(3) assms(3) by fastforce
  qed
  then show ?thesis using assms(1) e unfolding changed_since_def evolves_def by auto
qed

lemma acct_run_changed_since:
  "acct_run T st st' \<Longrightarrow> changed_since T i (st_acct st) \<Longrightarrow> changed_since T i (st_acct st')"
  by (induction rule: acct_run.induct) (auto intro: changed_since_evolves acct_step_evolves)

lemma acct_run_settled:
  "acct_run T st st' \<Longrightarrow>
     (settled tok (ac_resets (st_acct st)) \<longrightarrow> settled tok (ac_resets (st_acct st'))) \<and>
     (settled tok (ac_verifs (st_acct st)) \<longrightarrow> settled tok (ac_verifs (st_acct st')))"
  by (induction rule: acct_run.induct) (auto simp: evolves_def dest!: acct_step_evolves)

lemma update_where_hit: "x \<in> set (update_where P f rs) \<Longrightarrow> P x \<Longrightarrow> \<exists>r \<in> set rs. x = f r"
  by (auto simp: update_where_def split: if_splits)

lemma UpdatePassword_shape:
  assumes "UpdatePassword flt T i hash s = (Inr x, s')"
  shows "ac_users s' = update_where (\<lambda>u. us_id u = i) (\<lambda>u. u\<lparr>us_hash := Some hash, us_changed := Some T, us_updated := T\<rparr>) (ac_users s)"
    and "ac_user_seq s' = ac_user_seq s" and "ac_resets s' = ac_resets s"
proof -
  have "s' = s\<lparr>ac_users := update_where (\<lambda>u. us_id u = i) (\<lambda>u. u\<lparr>us_hash := Some hash, us_changed := Some T, us_updated := T\<rparr>) (ac_users s)\<rparr>"
    using assms by (auto simp only: UpdatePassword_def update_user_def prod.inject sum.distinct split: if_splits)
  then show "ac_users s' = update_where (\<lambda>u. us_id u = i) (\<lambda>u. u\<lparr>us_hash := Some hash, us_changed := Some T, us_updated := T\<rparr>) (ac_users s)"
    "ac_user_seq s' = ac_user_seq s" "ac_resets s' = ac_resets s" by simp_all
qed

lemma UpdatePassword_changed:
  assumes "UpdatePassword flt T i hash s = (Inr x, s')" and "i \<le> ac_user_seq s"
  shows "changed_since T i s'"
proof -
  note sh = UpdatePassword_shape [OF assms(1)]
  have "us_changed u = Some T" if "u \<in> set (ac_users s')" "us_id u = i" for u
    using update_where_hit [OF that(1) [unfolded sh(1)] that(2)] by auto
  then show ?thesis using assms(2) sh(2) by (simp add: changed_since_def)
qed

lemma redeem_link_settles:
  assumes "redeem_link flt now tok rows = (Inr i, rows')" and "\<not> flt 1"
  shows "settled tok rows'"
proof -
  obtain l where l: "find (\<lambda>l. lk_token l = tok \<and> lk_used l = None) rows = Some l"
    and r: "rows' = update_where (\<lambda>x. lk_token x = tok) (\<lambda>x. x\<lparr>lk_used := Some now\<rparr>) rows"
    using assms by (auto simp: redeem_link_def simp del: One_nat_def split: if_splits option.splits)
  have "l \<in> set rows" "lk_token l = tok" using l by (auto dest: find_SomeD)
  then have "l\<lparr>lk_used := Some now\<rparr> \<in> set rows'" unfolding r update_where_def by force
  then have "\<exists>x \<in> set rows'. lk_token x = tok" using \<open>lk_token l = tok\<close> by (intro bexI [of _ "l\<lparr>lk_used := Some now\<rparr>"]) simp_all
  moreover have "lk_used x \<noteq> None" if "x \<in> set rows'" "lk_token x = tok" for x
    using update_where_hit [OF that(1) [unfolded r] that(2)] by auto
  ultimately show ?thesis unfolding settled_def by blast
qed

lemma redeem_link_refuses: "settled tok rows \<Longrightarrow> redeem_link flt now tok rows \<noteq> (Inr i, rows')"
  by (auto simp: redeem_link_def settled_def split: if_splits option.splits dest!: find_SomeD)

text \<open>The two requests that replace a password, with the user it belongs to.\<close>

definition password_replaced :: "time \<Rightarrow> int \<Rightarrow> site \<Rightarrow> site \<Rightarrow> bool" where
  "password_replaced T i st st' \<longleftrightarrow>
     (\<exists>hh flt r body m. ChangePassword hh flt T r i body st = (Reply 200 m, st')) \<or>
     (\<exists>hh flt r tok pw l m. ResetPassword hh flt T r (Some (tok, pw)) st = (Reply 200 m, st') \<and>
        find (\<lambda>l. lk_token l = tok \<and> lk_used l = None) (ac_resets (st_acct st)) = Some l \<and> lk_user l = i)"

lemma ChangePassword_changed:
  assumes "ChangePassword hh flt T r i body st = (Reply 200 m, st')" and "i \<le> ac_user_seq (st_acct st)"
  shows "changed_since T i (st_acct st')"
  using assms
  by (auto simp: ChangePassword_def simp del: One_nat_def split: option.splits prod.splits sum.splits if_splits intro: UpdatePassword_changed)

lemma ResetPassword_changed:
  assumes a: "ResetPassword hh flt T r (Some (tok, pw)) st = (Reply 200 m, st')"
    and l: "find (\<lambda>l. lk_token l = tok \<and> lk_used l = None) (ac_resets (st_acct st)) = Some l" "lk_user l = i"
    and i: "i \<le> ac_user_seq (st_acct st)"
  shows "changed_since T i (st_acct st')"
proof -
  obtain j s1 where v: "Reset_Validate flt T tok (st_acct st) = (Inr j, s1)"
    using a by (auto simp: ResetPassword_def Let_def split: option.splits prod.splits sum.splits if_splits)
  then have j: "j = i" and s: "ac_user_seq s1 = ac_user_seq (st_acct st)"
    using l by (auto simp: Reset_Validate_def redeem_link_def split: if_splits)
  obtain hash x s2 where "UpdatePassword (later 2 flt) T i hash s1 = (Inr x, s2)" "st_acct st' = s2"
    using a v j by (auto simp: ResetPassword_def Let_def split: option.splits prod.splits sum.splits if_splits)
  then show ?thesis using UpdatePassword_changed i s by metis
qed

text \<open>C4: once a request that replaces the password of a user is answered with 200 at a time \<open>T\<close>, then whatever
  account requests and SCIM calls follow, a session token of that user issued before \<open>T\<close> is refused with 401,
  whichever key verifies it and whatever statements fail.\<close>

theorem old_sessions_die_with_password:
  assumes "password_replaced T i st st1" and "i \<le> ac_user_seq (st_acct st)" and "acct_run T st1 st2"
    and "credential r = Inr (token, source)"
    and "ValidateToken (ae_jwt ae) now (Keyring_Primary (ae_keys ae)) token (Keyring_Previous (ae_keys ae)) = Some c"
    and "cl_user c = i" "cl_issued c = Some iat" "iat < T"
  shows "\<exists>m. Authenticate ae flt now r (st_acct st2) = (Inl (Reply 401 m), st_acct st2)"
proof -
  have "changed_since T i (st_acct st1)"
    using assms(1,2) ChangePassword_changed ResetPassword_changed unfolding password_replaced_def by blast
  then have ch: "changed_since T i (st_acct st2)" by (rule acct_run_changed_since [OF assms(3)])
  have "outdated_session u c" if "User_GetByID flt i (st_acct st2) = Inr u" for u
    using User_GetByID_D [OF that] ch assms(7,8) by (fastforce simp: changed_since_def outdated_session_def)
  then show ?thesis
    using assms(4-6) by (auto simp: Authenticate_def unauthorized_def split: sum.split)
qed

lemma VerifyEmail_settles:
  "VerifyEmail flt T r tok st = (Reply 200 m, st1) \<Longrightarrow> \<not> flt 1 \<Longrightarrow> settled tok (ac_verifs (st_acct st1))"
  by (auto simp: VerifyEmail_def Verification_Validate_def Let_def simp del: One_nat_def
      split: prod.splits sum.splits if_splits intro: redeem_link_settles)

lemma ResetPassword_settles:
  assumes a: "ResetPassword hh flt T r (Some (tok, pw)) st = (Reply 200 m, st1)" and "\<not> flt 1"
  shows "settled tok (ac_resets (st_acct st1))"
proof -
  obtain j s1 where v: "Reset_Validate flt T tok (st_acct st) = (Inr j, s1)"
    using a by (auto simp: ResetPassword_def Let_def split: option.splits prod.splits sum.splits if_splits)
  then have s1: "settled tok (ac_resets s1)"
    using assms(2) by (auto simp: Reset_Validate_def simp del: One_nat_def split: prod.splits intro: redeem_link_settles)
  obtain hash x s2 where "UpdatePassword (later 2 flt) T j hash s1 = (Inr x, s2)" "st_acct st1 = s2"
    using a v by (auto simp: ResetPassword_def Let_def split: option.splits prod.splits sum.splits if_splits)
  then show ?thesis using s1 UpdatePassword_shape(3) by metis
qed

lemma settled_link_refused:
  "settled tok (ac_resets (st_acct st)) \<Longrightarrow> rp_status (fst (ResetPassword hh flt now r (Some (tok, pw)) st)) \<in> {400, 401}"
  "settled tok (ac_verifs (st_acct st)) \<Longrightarrow> rp_status (fst (VerifyEmail flt now r tok st)) \<in> {400, 401}"
  using redeem_link_refuses
  by (fastforce simp: ResetPassword_def VerifyEmail_def Reset_Validate_def Verification_Validate_def Let_def
      split: prod.splits sum.splits)+

text \<open>C8: a reset link and a verification link that did their work, and whose use the database recorded, never work
  again, whatever account requests follow, including those that issue new links.\<close>

theorem links_work_once:
  assumes "acct_run T st1 st2" and "\<not> flt 1"
  shows "(ResetPassword hh flt T r (Some (tok, pw)) st = (Reply 200 m, st1) \<longrightarrow>
            rp_status (fst (ResetPassword hh' flt' now r' (Some (tok, pw')) st2)) \<in> {400, 401}) \<and>
         (VerifyEmail flt T r tok st = (Reply 200 m, st1) \<longrightarrow>
            rp_status (fst (VerifyEmail flt' now r' tok st2)) \<in> {400, 401})"
proof (intro conjI impI)
  assume "ResetPassword hh flt T r (Some (tok, pw)) st = (Reply 200 m, st1)"
  from ResetPassword_settles [OF this assms(2)]
  show "rp_status (fst (ResetPassword hh' flt' now r' (Some (tok, pw')) st2)) \<in> {400, 401}"
    using acct_run_settled [OF assms(1)] by (intro settled_link_refused) blast
next
  assume "VerifyEmail flt T r tok st = (Reply 200 m, st1)"
  from VerifyEmail_settles [OF this assms(2)]
  show "rp_status (fst (VerifyEmail flt' now r' tok st2)) \<in> {400, 401}"
    using acct_run_settled [OF assms(1)] by (intro settled_link_refused) blast
qed

section \<open>Examples\<close>

text \<open>An administrator and a reader; a password hash that is the password; one session token, of the administrator,
  issued at 10.\<close>

definition sample_accounts :: acct_db where
  "sample_accounts = empty_accounts\<lparr>
     ac_users := [fresh_user 1 5 ''root@x'' (Some ''oldsecret'') ''A'' ''B'' False None, fresh_user 2 6 ''u@x'' (Some ''readerpw'') ''C'' ''D'' False (Some ''ext'')],
     ac_user_seq := 2,
     ac_perms := [\<lparr>pm_user = 1, pm_level = ''admin'', pm_by = 1, pm_at = 5\<rparr>, \<lparr>pm_user = 2, pm_level = ''read'', pm_by = 1, pm_at = 6\<rparr>],
     ac_resets := [\<lparr>lk_user = 1, lk_token = ''t1'', lk_expires = 100, lk_used = None\<rparr>]\<rparr>"

definition sample_site :: site where
  "sample_site = \<lparr>st_acct = sample_accounts, st_logs = empty_log_db,
     st_settings = \<lparr>settings = [], config_audit = [], audit_seq = 0\<rparr>, st_mail = []\<rparr>"

definition plain_hasher :: hasher where
  "plain_hasher = \<lparr>hh_hash = Some, hh_check = (\<lambda>h p. h = p)\<rparr>"

definition sample_env :: auth_env where
  "sample_env = \<lparr>ae_jwt = \<lparr>jw_sign = (\<lambda>_ _ _. None),
       jw_parse = (\<lambda>k now t. if k = ''key'' \<and> t = ''jwt'' then Some \<lparr>cl_user = 1, cl_email = ''root@x'', cl_issued = Some 10\<rparr> else None)\<rparr>,
     ae_hasher = plain_hasher, ae_keys = \<lparr>kr_primary = ''p'', kr_order = [''p''], kr_keys = [(''p'', ''key'')]\<rparr>\<rparr>"

definition sample_request :: incoming where
  "sample_request = \<lparr>in_method = ''GET'', in_session = Some ''jwt'', in_authorization = [], in_csrf_header = [], in_csrf_cookie = None,
     in_remote = ''10.0.0.1:5'', in_forwarded = [], in_client = None, in_idem_key = [], in_agent = [], in_request_id = []\<rparr>"

lemmas sample_simps = sample_accounts_def sample_site_def plain_hasher_def sample_env_def sample_request_def empty_accounts_def fresh_user_def

lemma sample_ok: "acct_ok sample_accounts"
  by (simp add: acct_ok_def keyed_def sample_simps)

lemma sample_admin: "live_admin sample_accounts (fresh_user 1 5 ''root@x'' (Some ''oldsecret'') ''A'' ''B'' False None)"
proof -
  have "IsAdmin no_faults 1 sample_accounts = Inr True" by code_simp
  then show ?thesis by (simp add: live_admin_def sample_accounts_def fresh_user_def)
qed

theorem admin_count_matches_effective_level_witness:
  "CountAdmins no_faults sample_accounts = Inr 1 \<and> card {us_id u | u. live_admin sample_accounts u} = 1"
proof -
  have "CountAdmins no_faults sample_accounts = Inr 1" by code_simp
  then show ?thesis using admin_count_matches_effective_level [OF sample_ok] by simp
qed

theorem admin_requests_keep_an_admin_witness:
  "\<exists>u. live_admin (st_acct (snd (AdminSetPermissions no_faults 50 sample_request 1 ''1'' (Some ''read'') sample_site))) u"
  using admin_requests_keep_an_admin [of sample_site _ 1 no_faults 50 sample_request "''1''" "Some ''read''"] sample_ok sample_admin
  by (simp add: sample_site_def fresh_user_def)

theorem admin_route_guarded_witness:
  "\<exists>i. fst (admin_route sample_env no_faults 20 sample_request sample_accounts) = Inr i \<and> csrf_proof sample_request (id_source i)"
proof -
  let ?i = "\<lparr>id_user = 1, id_token = 0, id_source = FromCookie\<rparr>"
  have "admin_route sample_env no_faults 20 sample_request sample_accounts = (Inr ?i, sample_accounts)" by code_simp
  then show ?thesis using admin_route_guarded by force
qed

theorem old_sessions_die_with_password_witness:
  "\<exists>st1 m. ChangePassword plain_hasher no_faults 40 sample_request 1 (Some (''oldsecret'', ''newsecret'')) sample_site = (Reply 200 ''password updated'', st1) \<and>
     fst (Authenticate sample_env no_faults 41 sample_request (st_acct st1)) = Inl (Reply 401 m)"
proof -
  obtain a st1 where r: "ChangePassword plain_hasher no_faults 40 sample_request 1 (Some (''oldsecret'', ''newsecret'')) sample_site = (a, st1)" by force
  have "fst (ChangePassword plain_hasher no_faults 40 sample_request 1 (Some (''oldsecret'', ''newsecret'')) sample_site) = Reply 200 ''password updated''"
    by (simp add: ChangePassword_def User_GetByID_def select_user_def UpdatePassword_def update_user_def sample_simps)
  then have a: "a = Reply 200 ''password updated''" using r by simp
  then have p: "password_replaced 40 1 sample_site st1" using r unfolding password_replaced_def by blast
  have "ValidateToken (ae_jwt sample_env) 41 (Keyring_Primary (ae_keys sample_env)) ''jwt'' (Keyring_Previous (ae_keys sample_env)) =
      Some \<lparr>cl_user = 1, cl_email = ''root@x'', cl_issued = Some 10\<rparr>" by code_simp
  moreover have "credential sample_request = Inr (''jwt'', FromCookie)" by code_simp
  ultimately have "\<exists>m. Authenticate sample_env no_faults 41 sample_request (st_acct st1) = (Inl (Reply 401 m), st_acct st1)"
    using old_sessions_die_with_password [OF p _ acct_run.none] by (simp add: sample_simps)
  then show ?thesis using r a by auto
qed

theorem links_work_once_witness:
  "\<exists>st1. ResetPassword plain_hasher no_faults 40 sample_request (Some (''t1'', ''newsecret'')) sample_site = (Reply 200 ''password reset successfully'', st1) \<and>
     rp_status (fst (ResetPassword plain_hasher no_faults 41 sample_request (Some (''t1'', ''othersecret'')) st1)) \<in> {400, 401}"
proof -
  obtain a st1 where r: "ResetPassword plain_hasher no_faults 40 sample_request (Some (''t1'', ''newsecret'')) sample_site = (a, st1)" by force
  have "fst (ResetPassword plain_hasher no_faults 40 sample_request (Some (''t1'', ''newsecret'')) sample_site) = Reply 200 ''password reset successfully''"
    by (simp add: ResetPassword_def Reset_Validate_def redeem_link_def UpdatePassword_def update_user_def sample_simps)
  then have "a = Reply 200 ''password reset successfully''" using r by simp
  then show ?thesis using r links_work_once [OF acct_run.none, of no_faults] by blast
qed

section \<open>Where the guards end\<close>

text \<open>The guard of \<open>AdminSetPermissions\<close> is the only one: the last administrator can deactivate their own account.\<close>

lemma last_admin_can_deactivate_self:
  "fst (AdminUpdateUser concat no_faults 50 sample_request 1 ''1''
      (Some \<lparr>up_first = None, up_last = None, up_active = Some False, up_max = None, up_types = None\<rparr>) sample_site) = Reply 200 [] \<and>
   CountAdmins no_faults (st_acct (snd (AdminUpdateUser concat no_faults 50 sample_request 1 ''1''
      (Some \<lparr>up_first = None, up_last = None, up_active = Some False, up_max = None, up_types = None\<rparr>) sample_site))) = Inr 0"
proof -
  have "Atoi ''1'' = Some 1" by code_simp
  then show ?thesis
    by (simp add: AdminUpdateUser_def User_Update_def User_GetByID_def select_user_def update_user_def update_restrictions_def
        RevokeAllByUser_def revoke_where_def update_where_def CountAdmins_def rows_affected_def sample_simps)
qed

text \<open>With the read of the count failing too, the guard takes the count to be 0 and refuses; with the read of the
  current level failing, it lets the request pass.\<close>

lemma guard_needs_its_read:
  "CountAdmins no_faults (st_acct (snd (AdminSetPermissions (\<lambda>n. n = 0) 50 sample_request 1 ''1'' (Some ''read'') sample_site))) = Inr 0"
proof -
  have "Atoi ''1'' = Some 1" by code_simp
  then show ?thesis
    by (simp add: AdminSetPermissions_def validPermissionLevel_def GetEffective_def GetDirect_def SetDirect_def user_exists_def
        update_where_def CountAdmins_def sample_simps)
qed

text \<open>A deleted user keeps the external id, whose index counts deleted rows: the identity provider cannot create the
  account again.\<close>

lemma deleted_user_blocks_scim_create:
  "fst (CreateFromSCIM no_faults 60 ''u@x'' ''C'' ''D'' ''ext'' (snd (SoftDelete no_faults 50 2 sample_accounts))) = Inl ErrEmailTaken"
  by code_simp

text \<open>A deactivated administrator still gets the detailed health report.\<close>

lemma health_report_ignores_deactivation:
  assumes "s = snd (User_Update no_faults 50 1 [] [] (Some False) sample_accounts)"
  shows "healthRequesterIsAdmin sample_env no_faults 51 sample_request s \<and>
         fst (Authenticate sample_env no_faults 51 sample_request s) = Inl (unauthorized ''user not found or inactive'')"
  unfolding assms by code_simp

text \<open>A grant with granter 0, as the SCIM handler makes it, breaks the foreign key.\<close>

lemma scim_grant_fails: "\<forall>u \<in> set (ac_users s). us_id u \<noteq> 0 \<Longrightarrow> fst (SetDirect flt now i level 0 s) \<noteq> Inr ()"
  by (auto simp: SetDirect_def user_exists_def)

text \<open>An expiry of zero, or of more than 3650 days, means a token that never expires.\<close>

lemma long_expiry_is_none: "days \<le> 0 \<or> 3650 < days \<Longrightarrow> token_expiry now days = None"
  by (auto simp: token_expiry_def)

end
