(* ===== verification/Middleware_Guarantees.thy ===== *)
theory Middleware_Guarantees
  imports Sessions
begin

text \<open>
  What the middleware guarantees: the rate limiter over a whole run of requests and clean-up passes, seen from one
  peer address, and the replay of stored answers for idempotency keys.
\<close>

section \<open>Rate limits\<close>

text \<open>A run of the limiter of one route: requests that pass through \<open>RateLimit\<close> and passes of the clean-up loop. The
  log of a run has, for each request, its time, the request, the verdict of the limiter and the answer.\<close>

datatype lim_op = Ask time incoming | Sweep time

fun op_time :: "lim_op \<Rightarrow> time" where
  "op_time (Ask t r) = t"
| "op_time (Sweep t) = t"

fun limiter_run :: "netlib \<Rightarrow> string list \<Rightarrow> lim_op list \<Rightarrow> limiter \<Rightarrow> (time \<times> incoming \<times> verdict \<times> reply option) list" where
  "limiter_run nl tp [] l = []"
| "limiter_run nl tp (Ask t r # ops) l =
     (t, r, fst (limiter_Check t (ClientIP nl r tp) l), fst (RateLimit nl tp t r l)) # limiter_run nl tp ops (snd (RateLimit nl tp t r l))"
| "limiter_run nl tp (Sweep t # ops) l = limiter_run nl tp ops (limiter_cleanup t l)"

text \<open>The requests of one key that passed, with their times and the end of the period that counted them.\<close>

definition passes :: "netlib \<Rightarrow> string list \<Rightarrow> string \<Rightarrow> (time \<times> incoming \<times> verdict \<times> reply option) list \<Rightarrow> (time \<times> time) list" where
  "passes nl tp k log = map (\<lambda>(t, r, v, a). (t, vd_reset v)) (filter (\<lambda>(t, r, v, a). ClientIP nl r tp = k \<and> a = None) log)"

lemma passes_simps [simp]:
  "passes nl tp k [] = []"
  "passes nl tp k (xs @ ys) = passes nl tp k xs @ passes nl tp k ys"
  "passes nl tp k [(t, r, v, a)] = (if ClientIP nl r tp = k \<and> a = None then [(t, vd_reset v)] else [])"
  by (simp_all add: passes_def)

definition in_period :: "time \<Rightarrow> (time \<times> time) list \<Rightarrow> nat" where
  "in_period R ps = length (filter (\<lambda>p. snd p = R) ps)"

text \<open>Periods of a key: a request lies in its period, no period counts more than \<open>n\<close>, and a later period ends more than
  a window after an earlier one.\<close>

definition periods_ok :: "int \<Rightarrow> int \<Rightarrow> (time \<times> time) list \<Rightarrow> bool" where
  "periods_ok n w ps \<longleftrightarrow>
     (\<forall>(t, R) \<in> set ps. t \<le> R \<and> R \<le> t + w) \<and> (\<forall>R. int (in_period R ps) \<le> n) \<and>
     (\<forall>p \<in> set ps. \<forall>q \<in> set ps. snd p < snd q \<longrightarrow> snd p + w < snd q)"

text \<open>The entry of the key agrees with the log: its count, cut off at \<open>n\<close>, is the number of passes in its period.\<close>

definition entry_ok :: "int \<Rightarrow> int \<Rightarrow> time \<Rightarrow> (int \<times> time) option \<Rightarrow> (time \<times> time) list \<Rightarrow> bool" where
  "entry_ok n w T e ps \<longleftrightarrow>
     (case e of
        None \<Rightarrow> \<forall>p \<in> set ps. snd p < T
      | Some (m, R) \<Rightarrow> 1 \<le> m \<and> R \<le> T + w \<and> int (in_period R ps) = min m n \<and>
          (\<forall>p \<in> set ps. snd p = R \<or> snd p + w < R))"

lemma entry_ok_later: "entry_ok n w T e ps \<Longrightarrow> T \<le> T' \<Longrightarrow> entry_ok n w T' e ps"
  by (cases e) (force simp: entry_ok_def split: prod.splits)+

lemma entry_ok_expired:
  "entry_ok n w T (Some (m, R)) ps \<Longrightarrow> R < t \<Longrightarrow> 0 \<le> w \<Longrightarrow> p \<in> set ps \<Longrightarrow> snd p < t"
  by (force simp: entry_ok_def)

text \<open>A pass opening a period, and a pass within one.\<close>

lemma fresh_period:
  assumes "periods_ok n w ps" and "1 \<le> n" "0 \<le> w" and old: "\<forall>p \<in> set ps. snd p < t"
  shows "periods_ok n w (ps @ [(t, t + w)])" "entry_ok n w t (Some (1, t + w)) (ps @ [(t, t + w)])"
proof -
  have z: "in_period (t + w) ps = 0" using old assms(3) by (auto simp: in_period_def filter_empty_conv)
  have c: "in_period R (ps @ [(t, t + w)]) = (if R = t + w then 1 else in_period R ps)" for R
    using z by (simp add: in_period_def)
  show "periods_ok n w (ps @ [(t, t + w)])"
    using assms unfolding periods_ok_def c by (fastforce simp: )
  show "entry_ok n w t (Some (1, t + w)) (ps @ [(t, t + w)])"
    using assms(2,3) old unfolding entry_ok_def option.case prod.case c by auto
qed

lemma running_period:
  assumes p: "periods_ok n w ps" and e: "entry_ok n w T (Some (m, R)) ps" and t: "T \<le> t" "t \<le> R" and n: "1 \<le> n"
  shows "m + 1 \<le> n \<Longrightarrow> periods_ok n w (ps @ [(t, R)])"
    and "m + 1 \<le> n \<Longrightarrow> entry_ok n w t (Some (m + 1, R)) (ps @ [(t, R)])"
    and "\<not> m + 1 \<le> n \<Longrightarrow> entry_ok n w t (Some (m + 1, R)) ps"
    and "\<not> m + 1 \<le> n \<Longrightarrow> int (in_period R ps) = n"
proof -
  have c: "in_period R' (ps @ [(t, R)]) = (if R' = R then 1 + in_period R ps else in_period R' ps)" for R'
    by (simp add: in_period_def)
  note e' = e [unfolded entry_ok_def option.case prod.case]
  show "m + 1 \<le> n \<Longrightarrow> entry_ok n w t (Some (m + 1, R)) (ps @ [(t, R)])"
    using e' t unfolding entry_ok_def option.case prod.case c by auto
  show "\<not> m + 1 \<le> n \<Longrightarrow> entry_ok n w t (Some (m + 1, R)) ps"
    using e' t unfolding entry_ok_def option.case prod.case by auto
  show "\<not> m + 1 \<le> n \<Longrightarrow> int (in_period R ps) = n" using e' by auto
  assume m: "m + 1 \<le> n"
  have "int (in_period R' (ps @ [(t, R)])) \<le> n" for R' using p e' m unfolding c periods_ok_def by auto
  moreover have "\<forall>p \<in> set (ps @ [(t, R)]). \<forall>q \<in> set (ps @ [(t, R)]). snd p < snd q \<longrightarrow> snd p + w < snd q"
    using p e' unfolding periods_ok_def by fastforce
  moreover have "\<forall>(t, R) \<in> set (ps @ [(t, R)]). t \<le> R \<and> R \<le> t + w" using p e' t unfolding periods_ok_def by auto
  ultimately show "periods_ok n w (ps @ [(t, R)])" unfolding periods_ok_def by blast
qed

text \<open>The invariant of a run that has reached time \<open>T\<close>: both facts for every key, and for every refusal \<open>n\<close> passes of its
  key within the window before it.\<close>

definition passed_within :: "time \<Rightarrow> time \<Rightarrow> (time \<times> time) list \<Rightarrow> nat" where
  "passed_within a b ps = length (filter (\<lambda>p. a \<le> fst p \<and> fst p \<le> b) ps)"

definition refusals_due ::
  "netlib \<Rightarrow> string list \<Rightarrow> int \<Rightarrow> int \<Rightarrow> (time \<times> incoming \<times> verdict \<times> reply option) list \<Rightarrow> bool" where
  "refusals_due nl tp n w log \<longleftrightarrow>
     (\<forall>(t, r, v, a) \<in> set log. a \<noteq> None \<longrightarrow> n \<le> int (passed_within (t - w) t (passes nl tp (ClientIP nl r tp) log)))"

definition limiter_inv ::
  "netlib \<Rightarrow> string list \<Rightarrow> int \<Rightarrow> int \<Rightarrow> time \<Rightarrow> (time \<times> incoming \<times> verdict \<times> reply option) list \<Rightarrow> limiter \<Rightarrow> bool" where
  "limiter_inv nl tp n w T log l \<longleftrightarrow>
     rl_max l = n \<and> rl_window l = w \<and> refusals_due nl tp n w log \<and> (\<forall>(t, r, v, a) \<in> set log. t \<le> T) \<and>
     (\<forall>k. periods_ok n w (passes nl tp k log) \<and> entry_ok n w T (rl_entries l k) (passes nl tp k log))"

lemma passed_within_append: "passed_within a b xs \<le> passed_within a b (xs @ ys)"
  by (simp add: passed_within_def)

lemma refusals_due_append:
  assumes "refusals_due nl tp n w log"
    and "a \<noteq> None \<Longrightarrow> n \<le> int (passed_within (t - w) t (passes nl tp (ClientIP nl r tp) log))"
  shows "refusals_due nl tp n w (log @ [(t, r, v, a)])"
proof -
  have "n \<le> int (passed_within (t' - w) t' (passes nl tp (ClientIP nl r' tp) (log @ [(t, r, v, a)])))"
    if "(t', r', v', a') \<in> set (log @ [(t, r, v, a)])" "a' \<noteq> None" for t' r' v' a'
  proof -
    have "n \<le> int (passed_within (t' - w) t' (passes nl tp (ClientIP nl r' tp) log))"
      using that assms unfolding refusals_due_def by auto
    also have "\<dots> \<le> int (passed_within (t' - w) t' (passes nl tp (ClientIP nl r' tp) (log @ [(t, r, v, a)])))"
      using passed_within_append by simp
    finally show ?thesis .
  qed
  then show ?thesis unfolding refusals_due_def by blast
qed

lemma period_within_window:
  assumes "periods_ok n w ps" and "\<forall>p \<in> set ps. fst p \<le> t" and "t \<le> R"
  shows "in_period R ps \<le> passed_within (t - w) t ps"
proof -
  have "filter (\<lambda>p. snd p = R) ps = filter (\<lambda>p. snd p = R) (filter (\<lambda>p. t - w \<le> fst p \<and> fst p \<le> t) ps)"
    using assms unfolding filter_filter by (intro filter_cong) (auto simp: periods_ok_def)
  then have "in_period R ps = length (filter (\<lambda>p. snd p = R) (filter (\<lambda>p. t - w \<le> fst p \<and> fst p \<le> t) ps))"
    by (simp add: in_period_def)
  also have "\<dots> \<le> passed_within (t - w) t ps" unfolding passed_within_def by (rule length_filter_le)
  finally show ?thesis .
qed

lemma limiter_inv_ask:
  assumes i: "limiter_inv nl tp n w T log l" and "T \<le> t" "1 \<le> n" "0 \<le> w"
    and v: "v = fst (limiter_Check t (ClientIP nl r tp) l)" and a: "a = fst (RateLimit nl tp t r l)" and l': "l' = snd (RateLimit nl tp t r l)"
  shows "limiter_inv nl tp n w t (log @ [(t, r, v, a)]) l'"
proof -
  let ?k = "ClientIP nl r tp"
  let ?ps = "passes nl tp ?k log"
  have l: "rl_max l = n" "rl_window l = w" and ps: "periods_ok n w ?ps" "entry_ok n w T (rl_entries l ?k) ?ps"
    and due: "refusals_due nl tp n w log" and times: "\<forall>p \<in> set ?ps. fst p \<le> t"
    using i \<open>T \<le> t\<close> by (auto simp: limiter_inv_def passes_def)
  have a': "a = None \<longleftrightarrow> vd_allowed v" and c: "limiter_Check t ?k l = (v, l')"
    using a l' v by (auto simp: RateLimit_def split: prod.splits)
  have keep: "rl_max l' = n" "rl_window l' = w" "k \<noteq> ?k \<Longrightarrow> rl_entries l' k = rl_entries l k" for k
    using c l by (auto simp: limiter_Check_def Let_def split: option.splits prod.splits if_splits)
  have step: "periods_ok n w (passes nl tp ?k (log @ [(t, r, v, a)])) \<and> entry_ok n w t (rl_entries l' ?k) (passes nl tp ?k (log @ [(t, r, v, a)])) \<and>
      (a \<noteq> None \<longrightarrow> n \<le> int (passed_within (t - w) t ?ps))"
  proof (cases "\<exists>m R. rl_entries l ?k = Some (m, R) \<and> t \<le> R")
    case True
    then obtain m R where e: "rl_entries l ?k = Some (m, R)" "t \<le> R" by blast
    then have "v = \<lparr>vd_allowed = m + 1 \<le> n, vd_limit = n, vd_remaining = (if n - (m + 1) < 0 then 0 else n - (m + 1)), vd_reset = R\<rparr>"
      and l1: "rl_entries l' ?k = Some (m + 1, R)" using c l by (auto simp: limiter_Check_def)
    then have v: "vd_allowed v \<longleftrightarrow> m + 1 \<le> n" "vd_reset v = R" by simp_all
    note run = running_period [OF ps(1) ps(2) [unfolded e(1)] \<open>T \<le> t\<close> e(2) \<open>1 \<le> n\<close>]
    show ?thesis
    proof (cases "m + 1 \<le> n")
      case True
      then show ?thesis using run(1,2) a' v by (simp add: l1)
    next
      case False
      then have "n \<le> int (passed_within (t - w) t ?ps)"
        using run(4) period_within_window [OF ps(1) times e(2)] by simp
      then show ?thesis using False run(3) ps(1) a' v by (auto simp: l1)
    qed
  next
    case False
    then have fresh: "v = \<lparr>vd_allowed = True, vd_limit = n, vd_remaining = n - 1, vd_reset = t + w\<rparr>"
      and l1: "rl_entries l' ?k = Some (1, t + w)"
      using c l by (auto simp: limiter_Check_def Let_def split: option.splits prod.splits if_splits)
    have "\<forall>p \<in> set ?ps. snd p < t"
    proof (cases "rl_entries l ?k")
      case None
      then show ?thesis using ps(2) \<open>T \<le> t\<close> by (auto simp: entry_ok_def)
    next
      case (Some e)
      then obtain m R where "rl_entries l ?k = Some (m, R)" "R < t" using False by (cases e) auto
      then show ?thesis using entry_ok_expired ps(2) \<open>0 \<le> w\<close> by (metis (no_types, lifting))
    qed
    then show ?thesis using fresh_period [OF ps(1) \<open>1 \<le> n\<close> \<open>0 \<le> w\<close>] a' fresh by (simp add: l1)
  qed
  have other: "passes nl tp k (log @ [(t, r, v, a)]) = passes nl tp k log" if "k \<noteq> ?k" for k using that by simp
  have "periods_ok n w (passes nl tp k (log @ [(t, r, v, a)])) \<and> entry_ok n w t (rl_entries l' k) (passes nl tp k (log @ [(t, r, v, a)]))" for k
  proof (cases "k = ?k")
    case True
    then show ?thesis using step by blast
  next
    case False
    then show ?thesis using i entry_ok_later [OF _ \<open>T \<le> t\<close>] keep(3) unfolding other [OF False] limiter_inv_def by metis
  qed
  moreover have "refusals_due nl tp n w (log @ [(t, r, v, a)])" by (rule refusals_due_append [OF due]) (use step in blast)
  ultimately show ?thesis
    using i \<open>T \<le> t\<close> keep(1,2) unfolding limiter_inv_def by force
qed

lemma limiter_inv_sweep:
  assumes i: "limiter_inv nl tp n w T log l" and "T \<le> t" "0 \<le> w"
  shows "limiter_inv nl tp n w t log (limiter_cleanup t l)"
proof -
  have "entry_ok n w t (rl_entries (limiter_cleanup t l) k) (passes nl tp k log)" for k
  proof -
    have e: "entry_ok n w T (rl_entries l k) (passes nl tp k log)" using i by (simp add: limiter_inv_def)
    show ?thesis
    proof (cases "\<exists>m R. rl_entries l k = Some (m, R) \<and> R < t")
      case True
      then obtain m R where r: "rl_entries l k = Some (m, R)" "R < t" by blast
      have "rl_entries (limiter_cleanup t l) k = None" using r by (simp add: limiter_cleanup_def)
      then show ?thesis using entry_ok_expired [OF e [unfolded r(1)] r(2) \<open>0 \<le> w\<close>] by (simp add: entry_ok_def)
    next
      case False
      then have "rl_entries (limiter_cleanup t l) k = rl_entries l k" by (auto simp: limiter_cleanup_def split: option.splits)
      then show ?thesis using entry_ok_later [OF e \<open>T \<le> t\<close>] by simp
    qed
  qed
  then show ?thesis using i \<open>T \<le> t\<close> by (force simp: limiter_inv_def limiter_cleanup_def)
qed

lemma limiter_run_inv:
  assumes "limiter_inv nl tp n w T log l" and "1 \<le> n" "0 \<le> w" and "sorted (T # map op_time ops)"
  shows "\<exists>T' l'. limiter_inv nl tp n w T' (log @ limiter_run nl tp ops l) l'"
  using assms(1,4)
proof (induction ops arbitrary: T log l)
  case (Cons x ops)
  show ?case
  proof (cases x)
    case (Ask t r)
    let ?e = "(t, r, fst (limiter_Check t (ClientIP nl r tp) l), fst (RateLimit nl tp t r l))"
    have "limiter_inv nl tp n w t (log @ [?e]) (snd (RateLimit nl tp t r l))"
      using Cons.prems Ask by (intro limiter_inv_ask [OF Cons.prems(1) _ assms(2,3)]) auto
    from Cons.IH [OF this] show ?thesis using Cons.prems(2) Ask by simp
  next
    case (Sweep t)
    have "limiter_inv nl tp n w t log (limiter_cleanup t l)"
      using Cons.prems Sweep by (intro limiter_inv_sweep [OF Cons.prems(1) _ assms(3)]) auto
    from Cons.IH [OF this] show ?thesis using Cons.prems(2) Sweep by simp
  qed
qed auto

lemma limiter_inv_start: "0 \<le> n \<Longrightarrow> limiter_inv nl tp n w T [] (NewRateLimiter n w)"
  by (simp add: limiter_inv_def NewRateLimiter_def refusals_due_def periods_ok_def entry_ok_def in_period_def)

text \<open>At most two periods meet an interval of one window, so at most twice the limit passes in it.\<close>

lemma periods_in_window:
  assumes "periods_ok n w ps" and "0 \<le> w"
  shows "card {R. \<exists>t. (t, R) \<in> set ps \<and> a \<le> t \<and> t \<le> a + w} \<le> 2"
proof (rule ccontr)
  let ?S = "{R. \<exists>t. (t, R) \<in> set ps \<and> a \<le> t \<and> t \<le> a + w}"
  assume "\<not> card ?S \<le> 2"
  then have "3 \<le> card ?S" by simp
  then obtain T where "T \<subseteq> ?S" "card T = 3" by (rule obtain_subset_with_card_n)
  moreover obtain x y z where "T = {x, y, z}" "x < y" "y < z"
  proof -
    have "finite T" using \<open>card T = 3\<close> by (metis card.infinite zero_neq_numeral)
    then have s: "set (sorted_list_of_set T) = T" "sorted_wrt (<) (sorted_list_of_set T)" "length (sorted_list_of_set T) = 3"
      using \<open>card T = 3\<close> by simp_all
    have three: "\<exists>x y z. xs = [x, y, z]" if "length xs = 3" for xs :: "int list"
      using that by (cases xs; cases "tl xs"; cases "tl (tl xs)") auto
    obtain x y z where "sorted_list_of_set T = [x, y, z]" using three [OF s(3)] by blast
    then show thesis using s by (intro that [of x y z]) auto
  qed
  ultimately obtain tx ty tz where "(tx, x) \<in> set ps" "a \<le> tx" "(ty, y) \<in> set ps" "(tz, z) \<in> set ps" "tz \<le> a + w"
    by auto
  moreover have "x + w < y" "y + w < z" using assms(1) calculation \<open>x < y\<close> \<open>y < z\<close> unfolding periods_ok_def by fastforce+
  moreover have "tx \<le> x" "z \<le> tz + w" using assms(1) calculation unfolding periods_ok_def by fastforce+
  ultimately show False by linarith
qed

lemma length_by_class:
  assumes "finite S" and "\<forall>x \<in> set xs. f x \<in> S"
  shows "length xs = (\<Sum>c \<in> S. length (filter (\<lambda>x. f x = c) xs))"
  using assms(2)
proof (induction xs)
  case (Cons x xs)
  have "(\<Sum>c \<in> S. length (filter (\<lambda>y. f y = c) (x # xs))) = (\<Sum>c \<in> S. (if f x = c then 1 else 0) + length (filter (\<lambda>y. f y = c) xs))"
    by (intro sum.cong) auto
  also have "\<dots> = 1 + length xs" using Cons assms(1) by (simp add: sum.distrib sum.delta)
  finally show ?case by simp
qed simp

lemma length_filter_mono: "(\<And>x. P x \<Longrightarrow> Q x) \<Longrightarrow> length (filter P xs) \<le> length (filter Q xs)"
  by (induction xs) auto

lemma window_bound:
  assumes ok: "periods_ok n w ps" and "0 \<le> w" "0 \<le> n"
  shows "int (passed_within a (a + w) ps) \<le> 2 * n"
proof -
  let ?S = "{R. \<exists>t. (t, R) \<in> set ps \<and> a \<le> t \<and> t \<le> a + w}"
  let ?qs = "filter (\<lambda>p. a \<le> fst p \<and> fst p \<le> a + w) ps"
  have f: "finite ?S" by (rule finite_subset [of _ "snd ` set ps"]) force+
  have "length ?qs = (\<Sum>R \<in> ?S. length (filter (\<lambda>p. snd p = R) ?qs))" by (rule length_by_class [OF f]) force
  also have "\<dots> \<le> (\<Sum>R \<in> ?S. nat n)"
  proof (rule sum_mono)
    fix R
    have "length (filter (\<lambda>p. snd p = R) ?qs) \<le> in_period R ps"
      unfolding in_period_def filter_filter by (rule length_filter_mono) simp
    moreover have "int (in_period R ps) \<le> n" using ok by (simp add: periods_ok_def)
    ultimately show "length (filter (\<lambda>p. snd p = R) ?qs) \<le> nat n" by linarith
  qed
  also have "\<dots> = card ?S * nat n" by simp
  also have "\<dots> \<le> 2 * nat n" using periods_in_window [OF ok \<open>0 \<le> w\<close>] by (rule mult_le_mono1)
  finally show ?thesis using \<open>0 \<le> n\<close> by (simp add: passed_within_def)
qed

lemma untrusted_ClientIP: "\<not> isTrustedProxy nl (remote_host r) tp \<Longrightarrow> ClientIP nl r tp = remote_host r"
  by (simp add: ClientIP_def Let_def)

text \<open>C18: over any run of requests and clean-up passes in time order, at most twice the limit of requests whose peer
  address is \<open>h\<close>, not a trusted proxy, passes in any interval as long as the window, whatever headers they send; and a request is
  refused only when at least the limit of requests counted under the same address passed within the window before it.\<close>

theorem rate_limit_bounds_peer:
  assumes "1 \<le> n" "0 \<le> w" and "sorted (map op_time ops)" and "\<not> isTrustedProxy nl h tp"
    and "log = limiter_run nl tp ops (NewRateLimiter n w)"
  shows "int (length (filter (\<lambda>(t, r, v, a). remote_host r = h \<and> a = None \<and> b \<le> t \<and> t \<le> b + w) log)) \<le> 2 * n \<and>
    (\<forall>(t, r, v, a) \<in> set log. a \<noteq> None \<longrightarrow> n \<le> int (passed_within (t - w) t (passes nl tp (ClientIP nl r tp) log)))"
proof -
  obtain T0 where "sorted (T0 # map op_time ops)" using assms(3) by (cases ops) auto
  from limiter_run_inv [OF limiter_inv_start assms(1,2) this, of nl tp] obtain T' l' where
    i: "limiter_inv nl tp n w T' log l'" using assms(1,5) by auto
  have "length (filter (\<lambda>(t, r, v, a). remote_host r = h \<and> a = None \<and> b \<le> t \<and> t \<le> b + w) log) \<le> passed_within b (b + w) (passes nl tp h log)"
  proof -
    have "passed_within b (b + w) (passes nl tp h log) =
        length (filter (\<lambda>(t, r, v, a). ClientIP nl r tp = h \<and> a = None \<and> b \<le> t \<and> t \<le> b + w) log)"
      unfolding passed_within_def passes_def filter_map length_map filter_filter
      by (intro arg_cong [of _ _ length] filter_cong) auto
    then show ?thesis using untrusted_ClientIP assms(4) by (auto intro!: length_filter_mono)
  qed
  also have "int \<dots> \<le> 2 * n" using i assms(1,2) by (intro window_bound) (auto simp: limiter_inv_def)
  finally show ?thesis using i by (auto simp: limiter_inv_def refusals_due_def)
qed

text \<open>Behind a proxy that appends to \<open>X-Forwarded-For\<close>, the first hop is what the client wrote: it picks its own key.\<close>

lemma first_hop_is_forgeable:
  assumes "isTrustedProxy nl (remote_host r) tp" "tp \<noteq> []" and "CHR '','' \<notin> set x" "TrimSpace x \<noteq> []"
  shows "ClientIP nl (r\<lparr>in_forwarded := x @ '','' @ real_address\<rparr>) tp = TrimSpace x"
proof -
  have "takeWhile (\<lambda>c. c \<noteq> CHR '','') (x @ '','' @ real_address) = x"
    using assms(3) by (subst takeWhile_append2) auto
  moreover have "remote_host (r\<lparr>in_forwarded := f\<rparr>) = remote_host r" for f by (simp add: remote_host_def split: option.split)
  ultimately show ?thesis using assms by (simp add: ClientIP_def Let_def)
qed

section \<open>Idempotent requests\<close>

text \<open>Requests of any users with any keys and handlers, and clean-up passes, all no later than \<open>T\<close>.\<close>

inductive idem_run :: "time \<Rightarrow> idem_row list \<times> 's \<Rightarrow> idem_row list \<times> 's \<Rightarrow> bool" for T where
  none: "idem_run T x x"
| request: "idem_run T x y \<Longrightarrow> now \<le> T \<Longrightarrow> idem_run T x (snd (Idempotency flt now r u handler y))"
| cleanup: "idem_run T x (rows, s) \<Longrightarrow> now \<le> T \<Longrightarrow> idem_run T x (CleanupIdempotencyKeys flt now rows, s)"
| other: "idem_run T x (rows, s) \<Longrightarrow> idem_run T x (rows, s')"

lemma find_filter_hit: "find P xs = Some x \<Longrightarrow> Q x \<Longrightarrow> find P (filter Q xs) = Some x"
  by (induction xs) (auto split: if_splits)

lemma idem_run_keeps:
  "idem_run T x y \<Longrightarrow> find P (fst x) = Some k \<Longrightarrow> T - 86400 \<le> ik_created k \<Longrightarrow> find P (fst y) = Some k"
proof (induction rule: idem_run.induct)
  case (request x y now flt r u handler)
  obtain rows s where y: "y = (rows, s)" by force
  have "fst (snd (Idempotency flt now r u handler (rows, s))) = rows \<or> (\<exists>z. fst (snd (Idempotency flt now r u handler (rows, s))) = rows @ [z])"
    by (auto simp: Idempotency_def Let_def split: option.split prod.split)
  then show ?case using request y by (auto simp: find_append)
next
  case (cleanup x rows s now flt)
  then show ?case by (auto simp: CleanupIdempotencyKeys_def delete_where_def intro!: find_filter_hit)
qed auto


text \<open>The lookup error is dropped: a request whose lookup fails runs its handler again.\<close>

lemma failed_lookup_runs_again:
  assumes "in_method r = ''POST''" "in_idem_key r \<noteq> []" "flt 0"
  shows "snd (snd (Idempotency flt now r u handler (rows, s))) = snd (handler s)"
  using assms by (simp add: Idempotency_def Let_def split: prod.split)

section \<open>Examples\<close>

definition sample_post :: incoming where
  "sample_post = \<lparr>in_method = ''POST'', in_session = None, in_authorization = [], in_csrf_header = [], in_csrf_cookie = None,
     in_remote = ''10.0.0.1:5'', in_forwarded = ''1.2.3.4'', in_client = None, in_idem_key = ''k'', in_agent = [], in_request_id = []\<rparr>"

definition sample_net :: netlib where
  "sample_net = \<lparr>nl_ip = (\<lambda>_. None), nl_cidr = (\<lambda>_. None)\<rparr>"

theorem rate_limit_bounds_peer_witness:
  "map (\<lambda>(t, r, v, a). a = None) (limiter_run sample_net [] [Ask 0 sample_post, Ask 1 sample_post, Sweep 5, Ask 5 sample_post, Ask 11 sample_post]
      (NewRateLimiter 2 10)) = [True, True, False, True] \<and>
   int (length (filter (\<lambda>(t, r, v, a). remote_host r = ''10.0.0.1'' \<and> a = None \<and> 1 \<le> t \<and> t \<le> 1 + 10)
      (limiter_run sample_net [] [Ask 0 sample_post, Ask 1 sample_post, Sweep 5, Ask 5 sample_post, Ask 11 sample_post] (NewRateLimiter 2 10)))) \<le> 4"
proof -
  have "map (\<lambda>(t, r, v, a). a = None) (limiter_run sample_net [] [Ask 0 sample_post, Ask 1 sample_post, Sweep 5, Ask 5 sample_post, Ask 11 sample_post]
      (NewRateLimiter 2 10)) = [True, True, False, True]" by code_simp
  moreover have "\<not> isTrustedProxy sample_net ''10.0.0.1'' []" by code_simp
  ultimately show ?thesis
    using rate_limit_bounds_peer [of 2 10 "[Ask 0 sample_post, Ask 1 sample_post, Sweep 5, Ask 5 sample_post, Ask 11 sample_post]"
        sample_net "''10.0.0.1''" "[]" _ 1] by auto
qed


end
