(* ===== verification/Selector.thy ===== *)
theory Selector
  imports Numbers
begin

text \<open>
  \<open>internal/services/selector.go\<close>: label selectors. A selector text is split at the commas outside parentheses,
  each part is parsed into a requirement on the tags of an upload, and the requirements become SQL clauses with
  placeholders. Of an error text the fixed part is kept. A printer of selectors, in the syntax the comment of
  \<open>ParseSelector\<close> gives, is the inverse of the parser.
\<close>

section \<open>Requirements\<close>

datatype sel_op = OpEq | OpNeq | OpIn | OpNotIn | OpExists | OpNotExists

record requirement =
  sr_key :: string
  sr_op :: sel_op
  sr_values :: "string list"

definition maxRequirements :: nat where "maxRequirements = 10"
definition maxValues :: nat where "maxValues = 20"

definition is_alnum :: "char \<Rightarrow> bool" where
  "is_alnum c \<longleftrightarrow> (let n = of_char c :: nat in 48 \<le> n \<and> n \<le> 57 \<or> 65 \<le> n \<and> n \<le> 90 \<or> 97 \<le> n \<and> n \<le> 122)"

text \<open>\<open>keyRegex\<close> and \<open>valueRegex\<close>.\<close>

definition key_matches :: "string \<Rightarrow> bool" where
  "key_matches k \<longleftrightarrow>
     (case k of [] \<Rightarrow> False | c # cs \<Rightarrow> is_alnum c \<and> length cs \<le> 62 \<and> list_all (\<lambda>x. is_alnum x \<or> x \<in> set ''._-'') cs)"

definition value_matches :: "string \<Rightarrow> bool" where
  "value_matches v \<longleftrightarrow>
     (case v of [] \<Rightarrow> False
      | c # cs \<Rightarrow> (is_alnum c \<or> c = CHR ''/'') \<and> length cs \<le> 253 \<and> list_all (\<lambda>x. is_alnum x \<or> x \<in> set ''._/ -'') cs)"

definition validateKey :: "string \<Rightarrow> error option" where
  "validateKey k =
     (if k = [] then Some (ErrMsg ''key must not be empty'') else if \<not> key_matches k then Some (ErrMsg ''invalid key'') else None)"

definition validateValue :: "string \<Rightarrow> error option" where
  "validateValue v =
     (if v = [] then Some (ErrMsg ''value must not be empty'') else if \<not> value_matches v then Some (ErrMsg ''invalid value'') else None)"

section \<open>Parsing\<close>

text \<open>\<open>strings.Index\<close> and \<open>strings.Split\<close> at a character.\<close>

fun index_sub :: "string \<Rightarrow> string \<Rightarrow> nat option" where
  "index_sub pat [] = (if pat = [] then Some 0 else None)"
| "index_sub pat (c # cs) = (if take (length pat) (c # cs) = pat then Some 0 else map_option Suc (index_sub pat cs))"

fun split_on :: "char \<Rightarrow> string \<Rightarrow> string list" where
  "split_on d [] = [[]]"
| "split_on d (c # cs) =
     (if c = d then [] # split_on d cs else (case split_on d cs of [] \<Rightarrow> [[c]] | p # ps \<Rightarrow> (c # p) # ps))"

definition part_of :: "string \<Rightarrow> string list" where
  "part_of cur = (let p = TrimSpace cur in if p = [] then [] else [p])"

text \<open>The loop of \<open>splitSelector\<close>: \<open>cur\<close> is the text since \<open>start\<close>.\<close>

fun split_loop :: "int \<Rightarrow> string \<Rightarrow> string list \<Rightarrow> string \<Rightarrow> error + string list" where
  "split_loop depth cur parts [] = (if depth \<noteq> 0 then Inl (ErrMsg ''unclosed '') else Inr (parts @ part_of cur))"
| "split_loop depth cur parts (c # cs) =
     (if c = CHR ''('' then split_loop (depth + 1) (cur @ [c]) parts cs
      else if c = CHR '')'' then (if depth - 1 < 0 then Inl (ErrMsg ''unexpected '') else split_loop (depth - 1) (cur @ [c]) parts cs)
      else if c = CHR '','' \<and> depth = 0 then split_loop depth [] (parts @ part_of cur) cs
      else split_loop depth (cur @ [c]) parts cs)"

definition splitSelector :: "string \<Rightarrow> error + string list" where
  "splitSelector input = split_loop 0 [] [] input"

definition parseComparisonRequirement :: "string \<Rightarrow> nat \<Rightarrow> sel_op \<Rightarrow> nat \<Rightarrow> error + requirement" where
  "parseComparisonRequirement s idx opr opLen =
     (let key = TrimSpace (take idx s); v = TrimSpace (drop (idx + opLen) s)
      in case validateKey key of Some e \<Rightarrow> Inl e
         | None \<Rightarrow> (case validateValue v of Some e \<Rightarrow> Inl e | None \<Rightarrow> Inr \<lparr>sr_key = key, sr_op = opr, sr_values = [v]\<rparr>))"

fun parse_values :: "string list \<Rightarrow> error + string list" where
  "parse_values [] = Inr []"
| "parse_values (r # rs) =
     (let v = TrimSpace r
      in if v = [] then Inl (ErrMsg ''operator contains empty value'')
         else case validateValue v of
                Some e \<Rightarrow> Inl e
              | None \<Rightarrow> (case parse_values rs of Inl e \<Rightarrow> Inl e | Inr vs \<Rightarrow> Inr (v # vs)))"

definition parseSetRequirement :: "string \<Rightarrow> nat \<Rightarrow> string \<Rightarrow> sel_op \<Rightarrow> error + requirement" where
  "parseSetRequirement s idx keyword opr =
     (let key = TrimSpace (take idx s); rest = TrimSpace (drop (idx + length keyword) s)
      in case validateKey key of
           Some e \<Rightarrow> Inl e
         | None \<Rightarrow>
             if take 1 rest \<noteq> ''('' \<or> drop (length rest - 1) rest \<noteq> '')''
             then Inl (ErrMsg ''operator requires parenthesised value list'')
             else let rawVals = split_on (CHR '','') (butlast (drop 1 rest))
                  in if rawVals = [] then Inl (ErrMsg ''operator requires at least one value'')
                     else if maxValues < length rawVals then Inl (ErrMsg ''operator has too many values'')
                     else case parse_values rawVals of
                            Inl e \<Rightarrow> Inl e
                          | Inr vs \<Rightarrow> Inr \<lparr>sr_key = key, sr_op = opr, sr_values = vs\<rparr>)"

definition parseRequirement :: "string \<Rightarrow> error + requirement" where
  "parseRequirement text =
     (let s = TrimSpace text
      in if take 1 s = ''!''
         then (let key = TrimSpace (drop 1 s)
               in case validateKey key of Some e \<Rightarrow> Inl e | None \<Rightarrow> Inr \<lparr>sr_key = key, sr_op = OpNotExists, sr_values = []\<rparr>)
         else case index_sub '' notin '' s of
                Some i \<Rightarrow> parseSetRequirement s i '' notin '' OpNotIn
              | None \<Rightarrow>
             (case index_sub '' in '' s of
                Some i \<Rightarrow> parseSetRequirement s i '' in '' OpIn
              | None \<Rightarrow>
             (case index_sub ''!='' s of
                Some i \<Rightarrow> parseComparisonRequirement s i OpNeq 2
              | None \<Rightarrow>
             (case index_sub ''='' s of
                Some i \<Rightarrow> parseComparisonRequirement s i OpEq 1
              | None \<Rightarrow>
                  (case validateKey s of Some e \<Rightarrow> Inl e | None \<Rightarrow> Inr \<lparr>sr_key = s, sr_op = OpExists, sr_values = []\<rparr>)))))"

fun parse_parts :: "string list \<Rightarrow> error + requirement list" where
  "parse_parts [] = Inr []"
| "parse_parts (p # ps) =
     (case parseRequirement p of
        Inl e \<Rightarrow> Inl e
      | Inr r \<Rightarrow> (case parse_parts ps of Inl e \<Rightarrow> Inl e | Inr rs \<Rightarrow> Inr (r # rs)))"

definition ParseSelector :: "string \<Rightarrow> error + requirement list" where
  "ParseSelector text =
     (let input = TrimSpace text
      in if input = [] then Inr []
         else case splitSelector input of
                Inl e \<Rightarrow> Inl e
              | Inr parts \<Rightarrow> if maxRequirements < length parts then Inl (ErrMsg ''selector has too many requirements'') else parse_parts parts)"

section \<open>SQL\<close>

definition question_marks :: "nat \<Rightarrow> string" where
  "question_marks n = (if n = 0 then [] else ''?'' @ concat (replicate (n - 1) '',?''))"

definition tag_query :: string where
  "tag_query = ''(SELECT 1 FROM file_tags ft WHERE ft.upload_id = u.id AND ft.tag_key = ?''"

text \<open>\<open>r.Values[0]\<close> panics on an empty list: there \<open>None\<close>.\<close>

definition selector_clause :: "requirement \<Rightarrow> (string \<times> string list) option" where
  "selector_clause r =
     (let one = tag_query @ '' AND ft.tag_value = ?)''; many = tag_query @ '' AND ft.tag_value IN ('' @ question_marks (length (sr_values r)) @ ''))'';
          some_key = tag_query @ '')''
      in case sr_op r of
           OpEq \<Rightarrow> (case sr_values r of [] \<Rightarrow> None | v # _ \<Rightarrow> Some (''EXISTS '' @ one, [sr_key r, v]))
         | OpNeq \<Rightarrow> (case sr_values r of [] \<Rightarrow> None | v # _ \<Rightarrow> Some (''NOT EXISTS '' @ one, [sr_key r, v]))
         | OpIn \<Rightarrow> Some (''EXISTS '' @ many, sr_key r # sr_values r)
         | OpNotIn \<Rightarrow> Some (''NOT EXISTS '' @ many, sr_key r # sr_values r)
         | OpExists \<Rightarrow> Some (''EXISTS '' @ some_key, [sr_key r])
         | OpNotExists \<Rightarrow> Some (''NOT EXISTS '' @ some_key, [sr_key r]))"

fun BuildSelectorSQL :: "requirement list \<Rightarrow> (string list \<times> string list) option" where
  "BuildSelectorSQL [] = Some ([], [])"
| "BuildSelectorSQL (r # rs) =
     (case selector_clause r of
        None \<Rightarrow> None
      | Some (c, vals) \<Rightarrow> map_option (\<lambda>(cs, args). (c # cs, vals @ args)) (BuildSelectorSQL rs))"

text \<open>What the clause of a requirement means for the tags of an upload.\<close>

definition tag_holds :: "(string \<times> string) list \<Rightarrow> requirement \<Rightarrow> bool" where
  "tag_holds tags r =
     (let has = (\<lambda>vs. \<exists>(k, v) \<in> set tags. k = sr_key r \<and> v \<in> set vs); has_key = (\<exists>(k, v) \<in> set tags. k = sr_key r)
      in case sr_op r of
           OpEq \<Rightarrow> has (take 1 (sr_values r)) | OpNeq \<Rightarrow> \<not> has (take 1 (sr_values r))
         | OpIn \<Rightarrow> has (sr_values r) | OpNotIn \<Rightarrow> \<not> has (sr_values r)
         | OpExists \<Rightarrow> has_key | OpNotExists \<Rightarrow> \<not> has_key)"

section \<open>Parsing what was printed\<close>

fun join :: "string \<Rightarrow> string list \<Rightarrow> string" where
  "join sep [] = []"
| "join sep [x] = x"
| "join sep (x # y # zs) = x @ sep @ join sep (y # zs)"

definition print_requirement :: "requirement \<Rightarrow> string" where
  "print_requirement r =
     (case sr_op r of
        OpEq \<Rightarrow> sr_key r @ ''='' @ concat (sr_values r) | OpNeq \<Rightarrow> sr_key r @ ''!='' @ concat (sr_values r)
      | OpIn \<Rightarrow> sr_key r @ '' in ('' @ join '','' (sr_values r) @ '')''
      | OpNotIn \<Rightarrow> sr_key r @ '' notin ('' @ join '','' (sr_values r) @ '')''
      | OpExists \<Rightarrow> sr_key r | OpNotExists \<Rightarrow> ''!'' @ sr_key r)"

definition print_selector :: "requirement list \<Rightarrow> string" where
  "print_selector rs = join '','' (map print_requirement rs)"

text \<open>A value as the parser returns it: valid, with no space at its end.\<close>

definition clean_value :: "string \<Rightarrow> bool" where
  "clean_value v \<longleftrightarrow> value_matches v \<and> TrimSpace v = v"

definition wf_requirement :: "requirement \<Rightarrow> bool" where
  "wf_requirement r \<longleftrightarrow> key_matches (sr_key r) \<and> list_all clean_value (sr_values r) \<and>
     (case sr_op r of
        OpEq \<Rightarrow> length (sr_values r) = 1 | OpNeq \<Rightarrow> length (sr_values r) = 1
      | OpIn \<Rightarrow> sr_values r \<noteq> [] \<and> length (sr_values r) \<le> maxValues
      | OpNotIn \<Rightarrow> sr_values r \<noteq> [] \<and> length (sr_values r) \<le> maxValues
      | OpExists \<Rightarrow> sr_values r = [] | OpNotExists \<Rightarrow> sr_values r = [])"

text \<open>Values may hold spaces, and the operator words are looked for in the whole part: a value that holds one is read
  differently.\<close>

definition no_word :: "requirement \<Rightarrow> bool" where
  "no_word r \<longleftrightarrow>
     (sr_op r \<in> {OpEq, OpNeq} \<longrightarrow> list_all (\<lambda>v. index_sub '' in '' v = None) (sr_values r)) \<and>
     (sr_op r \<in> {OpEq, OpNeq, OpIn} \<longrightarrow> list_all (\<lambda>v. index_sub '' notin '' v = None) (sr_values r))"

subsection \<open>Searching\<close>

lemma index_sub_absent: "c \<in> set pat \<Longrightarrow> c \<notin> set s \<Longrightarrow> index_sub pat s = None"
proof (induction s)
  case (Cons x xs)
  have "take (length pat) (x # xs) \<noteq> pat" using Cons.prems by (metis in_set_takeD)
  then show ?case using Cons by simp
qed auto

lemma index_sub_skip:
  "p \<notin> set xs \<Longrightarrow> index_sub (p # ps) (xs @ ys) = map_option (\<lambda>i. i + length xs) (index_sub (p # ps) ys)"
  by (induction xs) (auto simp: option.map_comp comp_def option.map_ident)

lemma index_sub_front: "pat \<noteq> [] \<Longrightarrow> index_sub pat (pat @ s) = Some 0"
  by (cases pat) auto

lemma index_sub_sep:
  assumes "d \<notin> set pat" and "pat \<noteq> []" and "index_sub pat ys = None"
  shows "index_sub pat xs = None \<Longrightarrow> index_sub pat (xs @ d # ys) = None"
proof (induction xs)
  case Nil
  have "take (length pat) (d # ys) \<noteq> pat" using assms(1,2) by (cases pat) auto
  then show ?case using assms by simp
next
  case (Cons x xs)
  then have n: "take (length pat) (x # xs) \<noteq> pat" "index_sub pat xs = None" by (auto split: if_splits)
  have "take (length pat) ((x # xs) @ d # ys) \<noteq> pat"
  proof
    assume a: "take (length pat) ((x # xs) @ d # ys) = pat"
    show False
    proof (cases "length pat \<le> length (x # xs)")
      case True
      then show False using a n(1) by (simp only: take_append diff_is_0_eq' take_0 append_Nil2)
    next
      case False
      then have "d \<in> set (take (length pat) ((x # xs) @ d # ys))" using assms(2) by (simp add: take_Cons')
      then show False using a assms(1) by simp
    qed
  qed
  then show ?case using Cons.IH n(2) by simp
qed

lemma index_sub_join:
  assumes "d \<notin> set pat" "e \<notin> set pat" "pat \<noteq> []"
  shows "list_all (\<lambda>v. index_sub pat v = None) vs \<Longrightarrow> index_sub pat (join [d] vs @ [e]) = None"
proof (induction vs)
  case Nil
  then show ?case using assms by (cases pat) auto
next
  case (Cons v vs)
  have nil: "index_sub pat [] = None" using assms(3) by simp
  show ?case
  proof (cases vs)
    case Nil
    then show ?thesis using Cons.prems index_sub_sep [OF assms(2,3) nil] by simp
  next
    case (Cons w ws)
    then show ?thesis using Cons.prems Cons.IH index_sub_sep [OF assms(1,3), of "join [d] vs @ [e]" v] by simp
  qed
qed

subsection \<open>Trimming and splitting\<close>

lemma TrimSpace_id: "s \<noteq> [] \<Longrightarrow> \<not> is_space (hd s) \<Longrightarrow> \<not> is_space (List.last s) \<Longrightarrow> TrimSpace s = s"
proof -
  assume s: "s \<noteq> []" "\<not> is_space (hd s)" "\<not> is_space (List.last s)"
  have keep: "dropWhile is_space t = t" if "t \<noteq> []" "\<not> is_space (hd t)" for t using that by (cases t) auto
  have "dropWhile is_space s = s" "dropWhile is_space (rev s) = rev s" using s by (auto intro!: keep simp: hd_rev)
  then show ?thesis by (simp add: TrimSpace_def)
qed

lemma TrimSpace_ends: "TrimSpace s = s \<Longrightarrow> s \<noteq> [] \<Longrightarrow> \<not> is_space (hd s) \<and> \<not> is_space (List.last s)"
proof -
  assume a: "TrimSpace s = s" "s \<noteq> []"
  let ?t = "dropWhile is_space s"
  have l: "length s = length (dropWhile is_space (rev ?t))" using a(1) unfolding TrimSpace_def by (metis length_rev)
  then have "length ?t = length s" using length_dropWhile_le [of is_space "rev ?t"] length_dropWhile_le [of is_space s] by simp
  then have t: "?t = s" by (metis dropWhile_append3 takeWhile_dropWhile_id append_eq_conv_conj length_append add_cancel_right_left length_0_conv append_Nil)
  then have h: "\<not> is_space (hd s)" using a(2) hd_dropWhile by metis
  have "dropWhile is_space (rev s) = rev s" using l t by (metis length_rev takeWhile_dropWhile_id length_append add_cancel_right_left length_0_conv append_Nil)
  then have "\<not> is_space (hd (rev s))" using a(2) hd_dropWhile by (metis rev_is_Nil_conv)
  then show ?thesis using h a(2) by (simp add: hd_rev)
qed

lemma split_on_none: "d \<notin> set s \<Longrightarrow> split_on d s = [s]"
  by (induction s) auto

lemma split_on_cons: "d \<notin> set s \<Longrightarrow> split_on d (s @ d # t) = s # split_on d t"
  by (induction s) auto

lemma split_on_join: "vs \<noteq> [] \<Longrightarrow> list_all (\<lambda>v. d \<notin> set v) vs \<Longrightarrow> split_on d (join [d] vs) = vs"
proof (induction vs)
  case (Cons v vs)
  then show ?case by (cases vs) (simp_all add: split_on_none split_on_cons)
qed simp

lemma split_plain:
  "(\<forall>c \<in> set p. c \<notin> set ''(),'') \<Longrightarrow> split_loop d cur parts (p @ rest) = split_loop d (cur @ p) parts rest"
  by (induction p arbitrary: cur) auto

lemma split_inside:
  "0 < d \<Longrightarrow> (\<forall>c \<in> set p. c \<notin> set ''()'') \<Longrightarrow> split_loop d cur parts (p @ rest) = split_loop d (cur @ p) parts rest"
  by (induction p arbitrary: cur) auto

text \<open>A part without commas outside its value list.\<close>

definition part_shape :: "string \<Rightarrow> bool" where
  "part_shape p \<longleftrightarrow> p \<noteq> [] \<and> TrimSpace p = p \<and>
     ((\<forall>c \<in> set p. c \<notin> set ''(),'') \<or>
      (\<exists>a b. p = a @ ''('' @ b @ '')'' \<and> (\<forall>c \<in> set a. c \<notin> set ''(),'') \<and> (\<forall>c \<in> set b. c \<notin> set ''()'')))"

lemma part_shape_plain:
  "p \<noteq> [] \<Longrightarrow> TrimSpace p = p \<Longrightarrow> (\<forall>c \<in> set p. c \<notin> set ''(),'') \<Longrightarrow> part_shape p"
  unfolding part_shape_def by blast

lemma split_part:
  assumes "part_shape p"
  shows "split_loop 0 cur parts (p @ rest) = split_loop 0 (cur @ p) parts rest"
proof (cases "\<forall>c \<in> set p. c \<notin> set ''(),''")
  case True
  then show ?thesis by (rule split_plain)
next
  case False
  then obtain a b where p: "p = a @ ''('' @ b @ '')''" and a: "\<forall>c \<in> set a. c \<notin> set ''(),''" and b: "\<forall>c \<in> set b. c \<notin> set ''()''"
    using assms unfolding part_shape_def by blast
  have "split_loop 0 cur parts (a @ ''('' @ b @ '')'' @ rest) = split_loop 1 (cur @ a @ ''('') parts (b @ '')'' @ rest)"
    using split_plain [OF a, of 0 cur parts "''('' @ b @ '')'' @ rest"] by simp
  also have "\<dots> = split_loop 0 (cur @ a @ ''('' @ b @ '')'') parts rest"
    using split_inside [OF _ b, of 1 "cur @ a @ ''(''" parts "'')'' @ rest"] by simp
  finally show ?thesis by (simp add: p)
qed

lemma part_shape_part: "part_shape p \<Longrightarrow> part_of p = [p]"
  by (simp add: part_shape_def part_of_def)

lemma split_parts:
  "ps \<noteq> [] \<Longrightarrow> list_all part_shape ps \<Longrightarrow> split_loop 0 [] acc (join '','' ps) = Inr (acc @ ps)"
proof (induction ps arbitrary: acc)
  case (Cons p ps)
  then have p: "part_shape p" by simp
  show ?case
  proof (cases ps)
    case Nil
    then show ?thesis using split_part [OF p, of "[]" acc "[]"] part_shape_part [OF p] by simp
  next
    case (Cons q qs)
    then show ?thesis
      using split_part [OF p, of "[]" acc "'','' @ join '','' ps"] part_shape_part [OF p] Cons.IH Cons.prems by simp
  qed
qed simp

subsection \<open>One requirement\<close>

lemma key_chars: "key_matches k \<Longrightarrow> c \<in> set k \<Longrightarrow> is_alnum c \<or> c \<in> set ''._-''"
  by (cases k) (auto simp: key_matches_def list_all_iff)

lemma value_chars: "value_matches v \<Longrightarrow> c \<in> set v \<Longrightarrow> is_alnum c \<or> c \<in> set ''._/ -''"
  by (cases v) (auto simp: value_matches_def list_all_iff)

lemma not_alnum [simp]:
  "\<not> is_alnum (CHR '' '')" "\<not> is_alnum (CHR ''='')" "\<not> is_alnum (CHR ''!'')" "\<not> is_alnum (CHR '','')" "\<not> is_alnum (CHR ''('')" "\<not> is_alnum (CHR '')'')"
  by (simp_all add: is_alnum_def)

lemma alnum_not_space: "is_alnum c \<Longrightarrow> \<not> is_space c"
  by (auto simp: is_alnum_def is_space_def Let_def)

lemma key_free:
  assumes "key_matches k"
  shows "CHR '' '' \<notin> set k" "CHR ''='' \<notin> set k" "CHR ''!'' \<notin> set k" "CHR '','' \<notin> set k" "CHR ''('' \<notin> set k" "CHR '')'' \<notin> set k"
  using key_chars [OF assms] by (auto dest: key_chars [OF assms])

lemma value_free:
  assumes "value_matches v"
  shows "CHR ''='' \<notin> set v" "CHR ''!'' \<notin> set v" "CHR '','' \<notin> set v" "CHR ''('' \<notin> set v" "CHR '')'' \<notin> set v"
  by (auto dest: value_chars [OF assms])

lemma key_ends: "key_matches k \<Longrightarrow> k \<noteq> [] \<and> \<not> is_space (hd k) \<and> \<not> is_space (List.last k)"
proof -
  assume k: "key_matches k"
  then have "k \<noteq> []" "is_alnum (hd k)" by (auto simp: key_matches_def split: list.splits)
  moreover have "is_alnum (List.last k) \<or> List.last k \<in> set ''._-''" using key_chars [OF k] calculation(1) by simp
  ultimately show ?thesis using alnum_not_space by (auto simp: is_space_def)
qed

lemma key_trim: "key_matches k \<Longrightarrow> TrimSpace k = k"
  using key_ends TrimSpace_id by blast

lemma value_ends: "clean_value v \<Longrightarrow> v \<noteq> [] \<and> \<not> is_space (hd v) \<and> \<not> is_space (List.last v)"
  using TrimSpace_ends [of v] by (auto simp: clean_value_def value_matches_def split: list.splits)

lemma validate_ok: "key_matches k \<Longrightarrow> validateKey k = None" "clean_value v \<Longrightarrow> validateValue v = None"
  using key_ends value_ends by (auto simp: validateKey_def validateValue_def clean_value_def)

lemma parse_values_clean: "list_all clean_value vs \<Longrightarrow> parse_values vs = Inr vs"
proof (induction vs)
  case (Cons v vs)
  then have "TrimSpace v = v" "v \<noteq> []" "validateValue v = None" "parse_values vs = Inr vs"
    using value_ends validate_ok by (auto simp: clean_value_def)
  then show ?case by simp
qed simp

lemma join_chars: "c \<in> set (join '','' vs) \<Longrightarrow> c = CHR '','' \<or> (\<exists>v \<in> set vs. c \<in> set v)"
  by (induction vs rule: induct_list012) auto

lemma key_trim_space: "key_matches k \<Longrightarrow> TrimSpace (take (length k) (k @ t)) = k"
  by (simp add: key_trim)

lemma parse_comparison:
  assumes k: "key_matches k" and v: "clean_value v" and "length sep = n"
  shows "parseComparisonRequirement (k @ sep @ v) (length k) opr n = Inr \<lparr>sr_key = k, sr_op = opr, sr_values = [v]\<rparr>"
  using assms validate_ok by (simp add: parseComparisonRequirement_def Let_def key_trim clean_value_def)

lemma parse_set:
  assumes k: "key_matches k" and vs: "list_all clean_value vs" "vs \<noteq> []" "length vs \<le> maxValues" and w: "word = ws @ '' ''"
  shows "parseSetRequirement (k @ word @ ''('' @ join '','' vs @ '')'') (length k) word opr = Inr \<lparr>sr_key = k, sr_op = opr, sr_values = vs\<rparr>"
proof -
  let ?rest = "''('' @ join '','' vs @ '')''"
  have t: "TrimSpace ?rest = ?rest" by (rule TrimSpace_id) (simp_all add: is_space_def)
  have "list_all (\<lambda>v. CHR '','' \<notin> set v) vs" using vs(1) value_free(3) by (auto simp: list_all_iff clean_value_def)
  then have "split_on (CHR '','') (butlast (drop 1 ?rest)) = vs" using split_on_join [of vs "CHR '',''"] vs(2) by simp
  then show ?thesis
    using t validate_ok(1) [OF k] parse_values_clean [OF vs(1)] vs(2,3) by (simp add: parseSetRequirement_def Let_def key_trim [OF k])
qed

lemma index_word_none:
  assumes k: "key_matches k" and "CHR '' '' \<notin> set sep" and "index_sub (CHR '' '' # ws) v = None"
  shows "index_sub (CHR '' '' # ws) (k @ sep @ v) = None"
  using index_sub_skip [of "CHR '' ''" "k @ sep" ws v] key_free(1) [OF k] assms(2,3) by simp

lemma requirement_start:
  assumes "key_matches k" shows "take 1 (k @ t) \<noteq> ''!''"
  using assms key_free(3) [OF assms] key_ends [OF assms] by (cases k) auto

lemma parse_steps:
  assumes "TrimSpace s = s" and "take 1 s \<noteq> ''!''"
  shows "index_sub '' notin '' s = Some i \<Longrightarrow> parseRequirement s = parseSetRequirement s i '' notin '' OpNotIn"
    "index_sub '' notin '' s = None \<Longrightarrow> index_sub '' in '' s = Some i \<Longrightarrow> parseRequirement s = parseSetRequirement s i '' in '' OpIn"
    "index_sub '' notin '' s = None \<Longrightarrow> index_sub '' in '' s = None \<Longrightarrow> index_sub ''!='' s = Some i \<Longrightarrow>
       parseRequirement s = parseComparisonRequirement s i OpNeq 2"
    "index_sub '' notin '' s = None \<Longrightarrow> index_sub '' in '' s = None \<Longrightarrow> index_sub ''!='' s = None \<Longrightarrow> index_sub ''='' s = Some i \<Longrightarrow>
       parseRequirement s = parseComparisonRequirement s i OpEq 1"
    "index_sub '' notin '' s = None \<Longrightarrow> index_sub '' in '' s = None \<Longrightarrow> index_sub ''!='' s = None \<Longrightarrow> index_sub ''='' s = None \<Longrightarrow>
       validateKey s = None \<Longrightarrow> parseRequirement s = Inr \<lparr>sr_key = s, sr_op = OpExists, sr_values = []\<rparr>"
  using assms by (simp_all add: parseRequirement_def Let_def)

lemma parse_eq:
  assumes k: "key_matches k" and v: "clean_value v" and w: "index_sub '' in '' v = None" "index_sub '' notin '' v = None"
  shows "parseRequirement (k @ ''='' @ v) = Inr \<lparr>sr_key = k, sr_op = OpEq, sr_values = [v]\<rparr>"
    "parseRequirement (k @ ''!='' @ v) = Inr \<lparr>sr_key = k, sr_op = OpNeq, sr_values = [v]\<rparr>"
proof -
  have vm: "value_matches v" using v by (simp add: clean_value_def)
  have trim: "TrimSpace (k @ sep @ v) = k @ sep @ v" for sep
    using key_ends [OF k] value_ends [OF v] by (intro TrimSpace_id) (simp_all add: hd_append)
  have start: "take 1 (k @ sep @ v) \<noteq> ''!''" for sep using requirement_start [OF k] by blast
  have none: "index_sub '' notin '' (k @ sep @ v) = None" "index_sub '' in '' (k @ sep @ v) = None" if "CHR '' '' \<notin> set sep" for sep
    using index_word_none [OF k that] w by auto
  have neq: "index_sub ''!='' (k @ ''='' @ v) = None"
    by (rule index_sub_absent [of "CHR ''!''"]) (use key_free(3) [OF k] value_free(2) [OF vm] in auto)
  have at: "index_sub ''='' (k @ ''='' @ v) = Some (length k)" "index_sub ''!='' (k @ ''!='' @ v) = Some (length k)"
    using index_sub_skip [of "CHR ''=''" k "[]" "''='' @ v"] index_sub_skip [of "CHR ''!''" k "''=''" "''!='' @ v"] key_free(2,3) [OF k] by simp_all
  show "parseRequirement (k @ ''='' @ v) = Inr \<lparr>sr_key = k, sr_op = OpEq, sr_values = [v]\<rparr>"
    using parse_steps(4) [OF trim start none [of "''=''"] neq at(1)] parse_comparison [OF k v, of "''=''" 1 OpEq] by simp
  show "parseRequirement (k @ ''!='' @ v) = Inr \<lparr>sr_key = k, sr_op = OpNeq, sr_values = [v]\<rparr>"
    using parse_steps(3) [OF trim start none [of "''!=''"] at(2)] parse_comparison [OF k v, of "''!=''" 2 OpNeq] by simp
qed

lemma parse_in:
  assumes k: "key_matches k" and vs: "list_all clean_value vs" "vs \<noteq> []" "length vs \<le> maxValues"
  shows "list_all (\<lambda>v. index_sub '' notin '' v = None) vs \<Longrightarrow>
      parseRequirement (k @ '' in ('' @ join '','' vs @ '')'') = Inr \<lparr>sr_key = k, sr_op = OpIn, sr_values = vs\<rparr>"
    "parseRequirement (k @ '' notin ('' @ join '','' vs @ '')'') = Inr \<lparr>sr_key = k, sr_op = OpNotIn, sr_values = vs\<rparr>"
proof -
  let ?t = "join '','' vs @ '')''"
  have trim: "TrimSpace (k @ a @ ?t) = k @ a @ ?t" for a
    using key_ends [OF k] by (intro TrimSpace_id) (simp_all add: hd_append is_space_def)
  have start: "take 1 (k @ a) \<noteq> ''!''" for a using requirement_start [OF k] by blast
  show "parseRequirement (k @ '' notin ('' @ join '','' vs @ '')'') = Inr \<lparr>sr_key = k, sr_op = OpNotIn, sr_values = vs\<rparr>"
  proof -
    have i: "index_sub '' notin '' (k @ '' notin ('' @ ?t) = Some (length k)"
      using index_sub_skip [of "CHR '' ''" k "''notin ''" "'' notin ('' @ ?t"] key_free(1) [OF k] by simp
    show ?thesis
      using parse_steps(1) [OF trim start i] parse_set [OF k vs, of "'' notin ''" "'' notin''" OpNotIn] by simp
  qed
  assume w: "list_all (\<lambda>v. index_sub '' notin '' v = None) vs"
  have "index_sub '' notin '' ?t = None" using index_sub_join [of "CHR '',''" "'' notin ''" "CHR '')''"] w by simp
  then have "index_sub '' notin '' ('' in ('' @ ?t) = None" by simp
  then have n: "index_sub '' notin '' (k @ '' in ('' @ ?t) = None"
    using index_sub_skip [of "CHR '' ''" k "''notin ''" "'' in ('' @ ?t"] key_free(1) [OF k] by simp
  have i: "index_sub '' in '' (k @ '' in ('' @ ?t) = Some (length k)"
    using index_sub_skip [of "CHR '' ''" k "''in ''" "'' in ('' @ ?t"] key_free(1) [OF k] by simp
  show "parseRequirement (k @ '' in ('' @ join '','' vs @ '')'') = Inr \<lparr>sr_key = k, sr_op = OpIn, sr_values = vs\<rparr>"
    using parse_steps(2) [OF trim start n i] parse_set [OF k vs, of "'' in ''" "'' in''" OpIn] by simp
qed

lemma parse_exists:
  assumes k: "key_matches k"
  shows "parseRequirement k = Inr \<lparr>sr_key = k, sr_op = OpExists, sr_values = []\<rparr>"
    "parseRequirement (''!'' @ k) = Inr \<lparr>sr_key = k, sr_op = OpNotExists, sr_values = []\<rparr>"
proof -
  have none: "index_sub '' notin '' k = None" "index_sub '' in '' k = None" "index_sub ''!='' k = None" "index_sub ''='' k = None"
    using key_free [OF k] by (auto intro: index_sub_absent [of "CHR '' ''"] index_sub_absent [of "CHR ''=''"])
  have "TrimSpace (''!'' @ k) = ''!'' @ k" using key_ends [OF k] by (intro TrimSpace_id) (simp_all add: is_space_def)
  then show "parseRequirement (''!'' @ k) = Inr \<lparr>sr_key = k, sr_op = OpNotExists, sr_values = []\<rparr>"
    using validate_ok(1) [OF k] by (simp add: parseRequirement_def Let_def key_trim [OF k])
  have "take 1 k \<noteq> ''!''" using requirement_start [OF k, of "[]"] by simp
  then show "parseRequirement k = Inr \<lparr>sr_key = k, sr_op = OpExists, sr_values = []\<rparr>"
    using parse_steps(5) [OF key_trim [OF k] _ none validate_ok(1) [OF k]] by blast
qed

lemma parse_print_requirement:
  assumes w: "wf_requirement r" and n: "no_word r"
  shows "parseRequirement (print_requirement r) = Inr r"
proof -
  obtain k opr vs where r: "r = \<lparr>sr_key = k, sr_op = opr, sr_values = vs\<rparr>" by (cases r)
  have k: "key_matches k" and vs: "list_all clean_value vs" using w by (auto simp: wf_requirement_def r)
  have one: "\<exists>v. vs = [v] \<and> clean_value v" if "length vs = 1" using that vs by (cases vs) auto
  show ?thesis
    using w n one vs unfolding r wf_requirement_def no_word_def print_requirement_def
    by (cases opr) (auto simp: parse_eq [OF k, simplified] parse_in [OF k, simplified] parse_exists [OF k, simplified])
qed

subsection \<open>Whole selectors\<close>

lemma print_shape:
  assumes "wf_requirement r"
  shows "part_shape (print_requirement r)"
proof -
  obtain k opr vs where r: "r = \<lparr>sr_key = k, sr_op = opr, sr_values = vs\<rparr>" by (cases r)
  have k: "key_matches k" and vs: "list_all clean_value vs" using assms by (auto simp: wf_requirement_def r)
  have plain: "\<forall>c \<in> set k. c \<notin> set ''(),''" using key_free [OF k] by auto
  have inner: "\<forall>c \<in> set (join '','' vs). c \<notin> set ''()''"
    using join_chars [of _ vs] vs value_free(4,5) by (fastforce simp: list_all_iff clean_value_def)
  have ends: "k \<noteq> []" "\<not> is_space (hd k)" "\<not> is_space (List.last k)" using key_ends [OF k] by auto
  have cmp: "part_shape (k @ sep @ v)" if v: "clean_value v" and sep: "\<forall>c \<in> set sep. c \<notin> set ''(),''" for sep v
  proof -
    have "\<forall>c \<in> set v. c \<notin> set ''(),''" using value_free(3-5) v by (auto simp: clean_value_def)
    moreover have "TrimSpace (k @ sep @ v) = k @ sep @ v"
    proof (rule TrimSpace_id)
      show "k @ sep @ v \<noteq> []" using ends(1) by blast
      show "\<not> is_space (hd (k @ sep @ v))" using ends(1,2) by (metis hd_append2)
      show "\<not> is_space (List.last (k @ sep @ v))" using value_ends [OF v] by (simp add: last_append)
    qed
    moreover have "k @ sep @ v \<noteq> []" using ends(1) by blast
    moreover have "\<forall>c \<in> set (k @ sep @ v). c \<notin> set ''(),''" if "\<forall>c \<in> set v. c \<notin> set ''(),''"
      using plain sep that unfolding set_append ball_Un by blast
    ultimately show ?thesis using part_shape_plain by blast
  qed
  have set: "part_shape ((k @ word) @ ''('' @ join '','' vs @ '')'')" if "\<forall>c \<in> set word. c \<notin> set ''(),''" for word
  proof -
    have "TrimSpace ((k @ word) @ ''('' @ join '','' vs @ '')'') = (k @ word) @ ''('' @ join '','' vs @ '')''"
      using ends by (intro TrimSpace_id) (simp_all add: hd_append is_space_def)
    moreover have "\<forall>c \<in> set (k @ word). c \<notin> set ''(),''" using plain that by auto
    ultimately show ?thesis unfolding part_shape_def using inner by blast
  qed
  have neg: "part_shape (''!'' @ k)"
    using plain ends TrimSpace_id [of "''!'' @ k"] by (auto simp: part_shape_def is_space_def)
  have one: "\<exists>v. vs = [v] \<and> clean_value v" if "length vs = 1" using that vs by (cases vs) auto
  have "part_shape k" using plain ends key_trim [OF k] by (simp add: part_shape_def)
  then show ?thesis
    using assms one neg cmp [of _ "''=''"] cmp [of _ "''!=''"] set [of "'' in ''"] set [of "'' notin ''"]
    unfolding r wf_requirement_def print_requirement_def by (cases opr) auto
qed

lemma parse_print_parts:
  "list_all wf_requirement rs \<Longrightarrow> list_all no_word rs \<Longrightarrow> parse_parts (map print_requirement rs) = Inr rs"
  by (induction rs) (simp_all add: parse_print_requirement)

lemma join_ends:
  assumes "ps \<noteq> []" and "list_all part_shape ps"
  shows "join '','' ps \<noteq> [] \<and> hd (join '','' ps) = hd (hd ps) \<and> List.last (join '','' ps) = List.last (List.last ps)"
  using assms by (induction ps rule: induct_list012) (auto simp: part_shape_def hd_append)

lemma join_trim:
  assumes "ps \<noteq> []" and ps: "list_all part_shape ps"
  shows "TrimSpace (join '','' ps) = join '','' ps"
proof -
  have "part_shape (hd ps)" "part_shape (List.last ps)" using assms by (auto simp: list_all_iff)
  then have "\<not> is_space (hd (hd ps))" "\<not> is_space (List.last (List.last ps))" using TrimSpace_ends by (auto simp: part_shape_def)
  then show ?thesis using join_ends [OF assms] by (intro TrimSpace_id) simp_all
qed

lemma TrimSpace_idem [simp]: "TrimSpace (TrimSpace s) = TrimSpace s"
proof (cases "TrimSpace s = []")
  case True
  have "TrimSpace [] = []" by (simp add: TrimSpace_def)
  then show ?thesis by (simp only: True)
next
  case False
  let ?t = "dropWhile is_space s"
  have d: "dropWhile is_space (rev ?t) \<noteq> []" using False unfolding TrimSpace_def by (metis rev.simps(1))
  have l: "\<not> is_space (List.last (TrimSpace s))" using hd_dropWhile [OF d] by (simp add: TrimSpace_def last_rev)
  have "?t \<noteq> []" using d by (metis dropWhile.simps(1) rev.simps(1))
  moreover obtain us where us: "?t = TrimSpace s @ us"
    unfolding TrimSpace_def by (metis takeWhile_dropWhile_id rev_append rev_rev_ident)
  ultimately have "\<not> is_space (hd (TrimSpace s))" using hd_dropWhile [of is_space s] False by (metis hd_append2)
  then show ?thesis using TrimSpace_id [OF False] l by blast
qed

lemma parse_values_sound: "parse_values rs = Inr vs \<Longrightarrow> list_all clean_value vs \<and> length vs = length rs"
  by (induction rs arbitrary: vs) (auto simp: Let_def clean_value_def validateValue_def split: if_splits sum.splits)

lemma parseComparison_sound:
  "parseComparisonRequirement s i opr n = Inr r \<Longrightarrow> opr \<in> {OpEq, OpNeq} \<Longrightarrow> wf_requirement r"
  by (auto simp: parseComparisonRequirement_def Let_def wf_requirement_def clean_value_def validateKey_def validateValue_def split: if_splits)

lemma parseSet_sound: "parseSetRequirement s i w opr = Inr r \<Longrightarrow> opr \<in> {OpIn, OpNotIn} \<Longrightarrow> wf_requirement r"
  by (auto simp: parseSetRequirement_def Let_def wf_requirement_def validateKey_def split: if_splits sum.splits dest!: parse_values_sound)

lemma parseRequirement_sound: "parseRequirement s = Inr r \<Longrightarrow> wf_requirement r"
  by (auto simp: parseRequirement_def Let_def split: if_splits option.splits dest: parseComparison_sound parseSet_sound)
    (auto simp: wf_requirement_def validateKey_def split: if_splits)

lemma parse_parts_sound: "parse_parts ps = Inr rs \<Longrightarrow> list_all wf_requirement rs \<and> length rs = length ps"
  by (induction ps arbitrary: rs) (auto split: sum.splits dest: parseRequirement_sound)

lemma ParseSelector_sound: "ParseSelector text = Inr rs \<Longrightarrow> list_all wf_requirement rs \<and> length rs \<le> maxRequirements"
  by (auto simp: ParseSelector_def Let_def split: if_splits sum.splits dest: parse_parts_sound)


text \<open>A value with the word \<open>in\<close>: the documented equality form is refused.\<close>

lemma value_with_word_refused: "\<exists>e. ParseSelector ''origin=made in x'' = Inl e"
  by (rule exI [of _ "ErrMsg ''invalid key''"]) code_simp

section \<open>The SQL of a selector\<close>

definition marks :: "string \<Rightarrow> nat" where
  "marks s = length (filter (\<lambda>c. c = CHR ''?'') s)"

lemma marks_append [simp]: "marks (s @ t) = marks s + marks t" "marks [] = 0"
  by (simp_all add: marks_def)

lemma marks_concat_replicate: "marks (concat (replicate n s)) = n * marks s"
  by (induction n) simp_all

lemma marks_question: "marks (question_marks n) = n"
proof (cases n)
  case (Suc m)
  have "marks ''?'' = 1" "marks '',?'' = 1" by (simp_all add: marks_def)
  then have "marks (''?'' @ concat (replicate m '',?'')) = Suc m"
    unfolding marks_append marks_concat_replicate by simp
  then show ?thesis unfolding question_marks_def Suc by simp
qed (simp add: question_marks_def)

lemma marks_literals:
  "marks ''EXISTS '' = 0" "marks ''NOT EXISTS '' = 0" "marks tag_query = 1" "marks '' AND ft.tag_value = ?)'' = 1"
  "marks '' AND ft.tag_value IN ('' = 0" "marks ''))'' = 0" "marks '')'' = 0"
  by (simp_all add: marks_def tag_query_def)

lemma marks_clause: "selector_clause r = Some (c, vals) \<Longrightarrow> marks c = length vals"
  by (cases "sr_op r"; cases "sr_values r")
    (auto simp only: selector_clause_def Let_def marks_append marks_literals marks_question sel_op.case list.case
       option.inject option.distinct prod.inject list.size)

definition req_shape :: "requirement \<Rightarrow> sel_op \<times> nat" where
  "req_shape r = (sr_op r, length (sr_values r))"

lemma clause_by_shape:
  "req_shape r = req_shape r' \<Longrightarrow> map_option fst (selector_clause r) = map_option fst (selector_clause r')"
  by (auto simp: selector_clause_def req_shape_def Let_def split: sel_op.splits list.splits)

lemma sql_by_shape:
  "map req_shape rs = map req_shape rs' \<Longrightarrow> map_option fst (BuildSelectorSQL rs) = map_option fst (BuildSelectorSQL rs')"
proof (induction rs arbitrary: rs')
  case (Cons r rs)
  then obtain r' rest where r': "rs' = r' # rest" "req_shape r = req_shape r'" "map req_shape rs = map req_shape rest" by (cases rs') auto
  have c: "map_option fst (selector_clause r) = map_option fst (selector_clause r')" by (rule clause_by_shape [OF r'(2)])
  have "map_option fst (BuildSelectorSQL rs) = map_option fst (BuildSelectorSQL rest)" by (rule Cons.IH [OF r'(3)])
  with c show ?case
    by (cases "selector_clause r"; cases "selector_clause r'"; cases "BuildSelectorSQL rs"; cases "BuildSelectorSQL rest")
      (auto simp: r'(1) split: prod.splits)
qed simp

lemma sql_of_wf:
  "list_all wf_requirement rs \<Longrightarrow>
     \<exists>cs args. BuildSelectorSQL rs = Some (cs, args) \<and> length cs = length rs \<and> marks (concat cs) = length args"
proof (induction rs)
  case (Cons r rs)
  then obtain cs args where i: "BuildSelectorSQL rs = Some (cs, args)" "length cs = length rs" "marks (concat cs) = length args" by auto
  have "\<exists>c vals. selector_clause r = Some (c, vals)"
    using Cons.prems by (auto simp: selector_clause_def wf_requirement_def Let_def split: sel_op.splits list.splits)
  then obtain c vals where c: "selector_clause r = Some (c, vals)" by blast
  then show ?case using i marks_clause [OF c] by simp
qed simp

text \<open>The SQL of a selector the parser accepted is built without a panic, one clause per requirement; its
  placeholders are as many as its arguments; and the text of the clauses depends on the operators and the numbers of
  values only, never on a key or a value.\<close>

lemma selector_sql_parameterised:
  assumes "ParseSelector text = Inr rs"
  shows "\<exists>cs args. BuildSelectorSQL rs = Some (cs, args) \<and> length cs = length rs \<and> marks (concat cs) = length args \<and>
     (\<forall>rs'. map req_shape rs' = map req_shape rs \<longrightarrow> (\<exists>args'. BuildSelectorSQL rs' = Some (cs, args')))"
proof -
  have "list_all wf_requirement rs" using ParseSelector_sound [OF assms] by blast
  from sql_of_wf [OF this] obtain cs args where b: "BuildSelectorSQL rs = Some (cs, args)" "length cs = length rs" "marks (concat cs) = length args"
    by blast
  have "\<exists>args'. BuildSelectorSQL rs' = Some (cs, args')" if "map req_shape rs' = map req_shape rs" for rs'
    using sql_by_shape [OF that] b(1) by (cases "BuildSelectorSQL rs'") auto
  then show ?thesis using b by blast
qed

definition sample_selector :: "requirement list" where
  "sample_selector = [\<lparr>sr_key = ''env'', sr_op = OpIn, sr_values = [''a b'', ''c'']\<rparr>, \<lparr>sr_key = ''x.y'', sr_op = OpNeq, sr_values = [''1'']\<rparr>,
     \<lparr>sr_key = ''old'', sr_op = OpNotExists, sr_values = []\<rparr>]"


end
