(* ===== verification/Labels.thy ===== *)
theory Labels
  imports Selector Upload_Service "HOL-Library.Sublist"
begin

text \<open>
  \<open>internal/services\<close>: \<open>tag.go\<close>, \<open>tag_rule.go\<close>, \<open>collection.go\<close> and \<open>collection_tags.go\<close>: the tags of
  uploads, the rules that give tags at upload, the tree of collections and the tags a collection hands to its files.

  A Go map from a key to values is the list of its pairs in the order of the \<open>range\<close> loop, which Go leaves open. The
  compiler of regular expressions is a parameter \<open>rx\<close>: \<open>None\<close> where the pattern does not compile. The
  \<open>added_at\<close> column of \<open>collection_files\<close> is not kept, so \<open>ListFiles\<close> and \<open>AddedTimes\<close> are not modelled.
\<close>

section \<open>State\<close>

type_synonym tag_map = "(string \<times> string list) list"

type_synonym rx_compiler = "string \<Rightarrow> (string \<Rightarrow> bool) option"

record tag_rule =
  tr_id :: int
  tr_name :: string
  tr_desc :: string
  tr_field :: string
  tr_op :: string
  tr_value :: string
  tr_key :: string
  tr_apply :: string
  tr_priority :: int
  tr_enabled :: bool
  tr_by :: int
  tr_created :: time
  tr_updated :: time

record collection =
  cl_id :: int
  cl_name :: string
  cl_desc :: string
  cl_parent :: "int option"
  cl_by :: int
  cl_created :: time
  cl_updated :: time

record label_db =
  lb_db :: db
  lb_rules :: "tag_rule list"
  lb_rule_seq :: int
  lb_colls :: "collection list"
  lb_coll_seq :: int
  lb_ctags :: "(int \<times> string \<times> string) list"

definition ErrTagRuleNotFound :: error where "ErrTagRuleNotFound = ErrMsg ''tag rule not found''"
definition ErrInvalidMatchField :: error where "ErrInvalidMatchField = ErrMsg ''match_field''"
definition ErrInvalidMatchOp :: error where "ErrInvalidMatchOp = ErrMsg ''match_op''"
definition ErrInvalidApplyKey :: error where "ErrInvalidApplyKey = ErrMsg ''apply_key''"
definition ErrCollectionNotFound :: error where "ErrCollectionNotFound = ErrMsg ''collection not found''"
definition ErrFileAlreadyInCollection :: error where "ErrFileAlreadyInCollection = ErrMsg ''file already in collection''"
definition ErrFileNotInCollection :: error where "ErrFileNotInCollection = ErrMsg ''file not in collection''"

section \<open>Tags of uploads\<close>

definition tag_rows :: "'i \<Rightarrow> tag_map \<Rightarrow> ('i \<times> string \<times> string) list" where
  "tag_rows i tags = concat (map (\<lambda>(k, vs). map (\<lambda>v. (i, k, v)) vs) tags)"

text \<open>A transaction: \<open>Begin\<close> (0), the DELETE (1), one INSERT per value (from 3), \<open>Commit\<close> (2). An INSERT for an
  upload that is gone violates the foreign key.\<close>

definition Tag_SetTags :: "faults \<Rightarrow> int \<Rightarrow> tag_map \<Rightarrow> db \<Rightarrow> (error + unit) \<times> db" where
  "Tag_SetTags flt uploadID tags s =
     (let rows = tag_rows uploadID tags
      in if flt 0 \<or> flt 1 then (Inl DBError, s)
         else if (\<exists>i \<in> set [0..<length rows]. flt (3 + i)) then (Inl DBError, s)
         else if rows \<noteq> [] \<and> uploadID \<notin> u_id ` set (uploads s) then (Inl FKViolation, s)
         else if flt 2 then (Inl DBError, s)
         else (Inr (), s\<lparr>file_tags := delete_where (\<lambda>(i, _). i = uploadID) (file_tags s) @ rows\<rparr>))"

text \<open>The loop \<open>tags[k] = append(tags[k], v)\<close> over the rows ordered by key, then by id.\<close>

fun add_tag :: "string \<Rightarrow> string \<Rightarrow> tag_map \<Rightarrow> tag_map" where
  "add_tag k v [] = [(k, [v])]"
| "add_tag k v ((k', vs) # rest) = (if k' = k then (k', vs @ [v]) # rest else (k', vs) # add_tag k v rest)"

definition group_tags :: "(string \<times> string) list \<Rightarrow> tag_map" where
  "group_tags rows = foldl (\<lambda>m (k, v). add_tag k v m) [] rows"

definition Tag_GetTags :: "faults \<Rightarrow> int \<Rightarrow> db \<Rightarrow> error + tag_map" where
  "Tag_GetTags flt uploadID s =
     (if flt 0 then Inl DBError
      else Inr (group_tags (order_asc fst (map snd (filter (\<lambda>(i, _). i = uploadID) (file_tags s))))))"

text \<open>The tags of the uploads of one user: the join of \<open>ListKeys\<close> and \<open>ListValues\<close>.\<close>

definition user_tags :: "int \<Rightarrow> db \<Rightarrow> (string \<times> string) list" where
  "user_tags userID s =
     map snd (filter (\<lambda>(i, _). \<exists>u \<in> set (uploads s). u_id u = i \<and> u_user u = userID) (file_tags s))"

definition ListKeys :: "faults \<Rightarrow> int \<Rightarrow> db \<Rightarrow> error + string list" where
  "ListKeys flt userID s =
     (if flt 0 then Inl DBError else Inr (order_asc (\<lambda>x. x) (remdups (map fst (user_tags userID s)))))"

definition ListValues :: "faults \<Rightarrow> int \<Rightarrow> string \<Rightarrow> db \<Rightarrow> error + string list" where
  "ListValues flt userID key s =
     (if flt 0 then Inl DBError
      else Inr (order_asc (\<lambda>x. x) (remdups (map snd (filter (\<lambda>(k, _). k = key) (user_tags userID s))))))"

definition tags_of :: "int \<Rightarrow> db \<Rightarrow> (string \<times> string) list" where
  "tags_of uploadID s = map snd (filter (\<lambda>(i, _). i = uploadID) (file_tags s))"

text \<open>The selector's clauses are the ones \<open>BuildSelectorSQL\<close> makes of \<open>rs\<close>; here what they mean.\<close>

definition SearchBySelector :: "faults \<Rightarrow> int \<Rightarrow> requirement list \<Rightarrow> int \<Rightarrow> db \<Rightarrow> error + upload list" where
  "SearchBySelector flt userID rs limit s =
     (let n = (if limit \<le> 0 \<or> 10000 < limit then 100 else limit)
      in if flt 0 then Inl DBError
         else Inr (limit_offset n 0 (order_desc u_created_at
                (filter (\<lambda>u. u_user u = userID \<and> list_all (tag_holds (tags_of (u_id u) s)) rs) (uploads s)))))"

section \<open>Tag rules\<close>

definition validOpsForField :: "string \<Rightarrow> string list option" where
  "validOpsForField =
     [''content_type'' \<mapsto> [''equals'', ''regex'', ''contains''], ''filename'' \<mapsto> [''equals'', ''regex'', ''contains''],
      ''file_size'' \<mapsto> [''gt'', ''lt''], ''visibility'' \<mapsto> [''equals'']]"

definition validateRule :: "string \<Rightarrow> string \<Rightarrow> string \<Rightarrow> error option" where
  "validateRule matchField matchOp applyKey =
     (case validOpsForField matchField of
        None \<Rightarrow> Some ErrInvalidMatchField
      | Some ops \<Rightarrow>
          if matchOp \<notin> set ops then Some ErrInvalidMatchOp
          else if \<not> key_matches applyKey then Some ErrInvalidApplyKey
          else None)"

definition Rule_GetByID :: "faults \<Rightarrow> int \<Rightarrow> label_db \<Rightarrow> error + tag_rule" where
  "Rule_GetByID flt i s =
     (if flt 0 then Inl DBError
      else case find (\<lambda>r. tr_id r = i) (lb_rules s) of None \<Rightarrow> Inl ErrTagRuleNotFound | Some r \<Rightarrow> Inr r)"

record rule_spec =
  rs_name :: string
  rs_desc :: string
  rs_field :: string
  rs_op :: string
  rs_value :: string
  rs_key :: string
  rs_apply :: string
  rs_priority :: int

definition Rule_Create :: "faults \<Rightarrow> time \<Rightarrow> rule_spec \<Rightarrow> int \<Rightarrow> label_db \<Rightarrow> (error + tag_rule) \<times> label_db" where
  "Rule_Create flt now a createdBy s =
     (case validateRule (rs_field a) (rs_op a) (rs_key a) of
        Some e \<Rightarrow> (Inl e, s)
      | None \<Rightarrow>
          if flt 0 then (Inl DBError, s)
          else if createdBy \<notin> set (users (lb_db s)) then (Inl FKViolation, s)
          else let i = lb_rule_seq s + 1;
                   r = \<lparr>tr_id = i, tr_name = rs_name a, tr_desc = rs_desc a, tr_field = rs_field a, tr_op = rs_op a,
                        tr_value = rs_value a, tr_key = rs_key a, tr_apply = rs_apply a, tr_priority = rs_priority a,
                        tr_enabled = True, tr_by = createdBy, tr_created = now, tr_updated = now\<rparr>;
                   s' = s\<lparr>lb_rules := lb_rules s @ [r], lb_rule_seq := i\<rparr>
               in (Rule_GetByID (later 1 flt) i s', s'))"

definition by_priority :: "tag_rule list \<Rightarrow> tag_rule list" where
  "by_priority rs = order_asc tr_priority (order_asc tr_id rs)"

definition Rule_List :: "faults \<Rightarrow> label_db \<Rightarrow> error + tag_rule list" where
  "Rule_List flt s = (if flt 0 then Inl DBError else Inr (by_priority (lb_rules s)))"

definition Rule_Update :: "faults \<Rightarrow> time \<Rightarrow> int \<Rightarrow> rule_spec \<Rightarrow> bool \<Rightarrow> label_db \<Rightarrow> (error + tag_rule) \<times> label_db" where
  "Rule_Update flt now i a isEnabled s =
     (case validateRule (rs_field a) (rs_op a) (rs_key a) of
        Some e \<Rightarrow> (Inl e, s)
      | None \<Rightarrow>
          if flt 0 then (Inl DBError, s)
          else let s' = s\<lparr>lb_rules := update_where (\<lambda>r. tr_id r = i)
                     (\<lambda>r. r\<lparr>tr_name := rs_name a, tr_desc := rs_desc a, tr_field := rs_field a, tr_op := rs_op a,
                           tr_value := rs_value a, tr_key := rs_key a, tr_apply := rs_apply a, tr_priority := rs_priority a,
                           tr_enabled := isEnabled, tr_updated := now\<rparr>) (lb_rules s)\<rparr>
               in if flt 1 then (Inl DBError, s')
                  else if rows_affected (\<lambda>r. tr_id r = i) (lb_rules s) = 0 then (Inl ErrTagRuleNotFound, s')
                  else (Rule_GetByID (later 2 flt) i s', s'))"

definition Rule_Delete :: "faults \<Rightarrow> int \<Rightarrow> label_db \<Rightarrow> (error + unit) \<times> label_db" where
  "Rule_Delete flt i s =
     (if flt 0 then (Inl DBError, s)
      else let s' = s\<lparr>lb_rules := delete_where (\<lambda>r. tr_id r = i) (lb_rules s)\<rparr>
           in if flt 1 then (Inl DBError, s')
              else if rows_affected (\<lambda>r. tr_id r = i) (lb_rules s) = 0 then (Inl ErrTagRuleNotFound, s')
              else (Inr (), s'))"

text \<open>The cache of compiled patterns: a pattern that did not compile is kept as such.\<close>

type_synonym rx_cache = "(string \<times> (string \<Rightarrow> bool) option) list"

definition getOrCompileRegex :: "rx_compiler \<Rightarrow> string \<Rightarrow> rx_cache \<Rightarrow> (string \<Rightarrow> bool) option \<times> rx_cache" where
  "getOrCompileRegex rx pattern c =
     (case map_of c pattern of
        Some r \<Rightarrow> (r, c)
      | None \<Rightarrow> (rx pattern, (pattern, rx pattern) # c))"

definition matchRegex :: "rx_compiler \<Rightarrow> string \<Rightarrow> string \<Rightarrow> rx_cache \<Rightarrow> bool \<times> rx_cache" where
  "matchRegex rx pattern v c =
     (case getOrCompileRegex rx pattern c of
        (None, c') \<Rightarrow> (False, c')
      | (Some m, c') \<Rightarrow> (m v, c'))"

definition matchString :: "rx_compiler \<Rightarrow> tag_rule \<Rightarrow> string \<Rightarrow> rx_cache \<Rightarrow> bool \<times> rx_cache" where
  "matchString rx r v c =
     (if tr_op r = ''equals'' then (v = tr_value r, c)
      else if tr_op r = ''contains'' then (index_sub (tr_value r) v \<noteq> None, c)
      else if tr_op r = ''regex'' then matchRegex rx (tr_value r) v c
      else (False, c))"

definition matchSize :: "tag_rule \<Rightarrow> int \<Rightarrow> bool" where
  "matchSize r fileSize \<longleftrightarrow>
     (case Atoi (tr_value r) of
        None \<Rightarrow> False
      | Some threshold \<Rightarrow>
          if tr_op r = ''gt'' then threshold < fileSize else if tr_op r = ''lt'' then fileSize < threshold else False)"

record file_facts =
  ff_name :: string
  ff_type :: string
  ff_size :: int
  ff_visibility :: string

definition ruleMatches :: "rx_compiler \<Rightarrow> tag_rule \<Rightarrow> file_facts \<Rightarrow> rx_cache \<Rightarrow> bool \<times> rx_cache" where
  "ruleMatches rx r f c =
     (if tr_field r = ''content_type'' then matchString rx r (ff_type f) c
      else if tr_field r = ''filename'' then matchString rx r (ff_name f) c
      else if tr_field r = ''file_size'' then (matchSize r (ff_size f), c)
      else if tr_field r = ''visibility'' then (tr_op r = ''equals'' \<and> ff_visibility f = tr_value r, c)
      else (False, c))"

fun evaluate_rows :: "rx_compiler \<Rightarrow> tag_rule list \<Rightarrow> file_facts \<Rightarrow> tag_map \<Rightarrow> rx_cache \<Rightarrow> tag_map \<times> rx_cache" where
  "evaluate_rows rx [] f tags c = (tags, c)"
| "evaluate_rows rx (r # rs) f tags c =
     (if tr_key r \<in> fst ` set tags then evaluate_rows rx rs f tags c
      else case ruleMatches rx r f c of
             (True, c') \<Rightarrow> evaluate_rows rx rs f (tags @ [(tr_key r, [tr_apply r])]) c'
           | (False, c') \<Rightarrow> evaluate_rows rx rs f tags c')"

definition EvaluateRules ::
  "rx_compiler \<Rightarrow> faults \<Rightarrow> file_facts \<Rightarrow> label_db \<Rightarrow> rx_cache \<Rightarrow> (error + tag_map) \<times> rx_cache" where
  "EvaluateRules rx flt f s c =
     (if flt 0 then (Inl DBError, c)
      else case evaluate_rows rx (by_priority (filter tr_enabled (lb_rules s))) f [] c of
             (tags, c') \<Rightarrow> (if flt 1 then Inl DBError else Inr tags, c'))"

section \<open>Collections\<close>

definition Coll_GetByID :: "faults \<Rightarrow> int \<Rightarrow> label_db \<Rightarrow> error + (collection \<times> int)" where
  "Coll_GetByID flt i s =
     (if flt 0 then Inl DBError
      else case find (\<lambda>c. cl_id c = i) (lb_colls s) of
             None \<Rightarrow> Inl ErrCollectionNotFound
           | Some c \<Rightarrow> Inr (c, rows_affected (\<lambda>(ci, _). ci = i) (collection_files (lb_db s))))"

text \<open>Statements: the check of the parent (0, a failure reads as "not there"), the INSERT (1), the read (2). The
  table has no UNIQUE constraint on the name, so the branch \<open>ErrCollectionNameTaken\<close> has no cause.\<close>

definition Coll_Create ::
  "faults \<Rightarrow> time \<Rightarrow> string \<Rightarrow> string \<Rightarrow> int option \<Rightarrow> int \<Rightarrow> label_db \<Rightarrow> (error + (collection \<times> int)) \<times> label_db" where
  "Coll_Create flt now name desc parent createdBy s =
     (if (case parent of None \<Rightarrow> False | Some p \<Rightarrow> flt 0 \<or> p \<notin> cl_id ` set (lb_colls s)) then (Inl ErrCollectionNotFound, s)
      else if flt 1 then (Inl DBError, s)
      else if createdBy \<notin> set (users (lb_db s)) then (Inl FKViolation, s)
      else let i = lb_coll_seq s + 1;
               c = \<lparr>cl_id = i, cl_name = name, cl_desc = desc, cl_parent = parent, cl_by = createdBy, cl_created = now, cl_updated = now\<rparr>;
               s' = s\<lparr>lb_colls := lb_colls s @ [c], lb_coll_seq := i\<rparr>
           in (Coll_GetByID (later 2 flt) i s', s'))"

definition Coll_List :: "faults \<Rightarrow> int \<Rightarrow> int option \<Rightarrow> label_db \<Rightarrow> error + (collection \<times> int) list" where
  "Coll_List flt userID parent s =
     (if flt 0 then Inl DBError
      else Inr (map (\<lambda>c. (c, rows_affected (\<lambda>(ci, _). ci = cl_id c) (collection_files (lb_db s))))
                 (order_asc cl_name (filter (\<lambda>c. cl_by c = userID \<and> cl_parent c = parent) (lb_colls s)))))"

definition Coll_Update :: "faults \<Rightarrow> time \<Rightarrow> int \<Rightarrow> string \<Rightarrow> string \<Rightarrow> label_db \<Rightarrow> (error + (collection \<times> int)) \<times> label_db" where
  "Coll_Update flt now i name desc s =
     (if flt 0 then (Inl DBError, s)
      else let s' = s\<lparr>lb_colls := update_where (\<lambda>c. cl_id c = i) (\<lambda>c. c\<lparr>cl_name := name, cl_desc := desc, cl_updated := now\<rparr>) (lb_colls s)\<rparr>
           in (Coll_GetByID (later 1 flt) i s', s'))"

definition child_ids :: "int \<Rightarrow> label_db \<Rightarrow> int list" where
  "child_ids i s = map cl_id (filter (\<lambda>c. cl_parent c = Some i) (lb_colls s))"

text \<open>The DELETE of the row takes the tags of the collection with it (\<open>ON DELETE CASCADE\<close>).\<close>

definition drop_collection :: "int \<Rightarrow> label_db \<Rightarrow> label_db" where
  "drop_collection i s =
     s\<lparr>lb_db := (lb_db s)\<lparr>collection_files := delete_where (\<lambda>cf. fst cf = i) (collection_files (lb_db s))\<rparr>,
       lb_colls := delete_where (\<lambda>c. cl_id c = i) (lb_colls s),
       lb_ctags := delete_where (\<lambda>cf. fst cf = i) (lb_ctags s)\<rparr>"

text \<open>The recursion runs on fuel; the statements for one collection are its SELECT (0), the DELETE of its files (1) and
  of its row (2), and \<open>flt i\<close> is the plan for the collection \<open>i\<close>. \<open>None\<close>: the fuel is used up.\<close>

fun deleteCollectionRecursive :: "nat \<Rightarrow> (int \<Rightarrow> faults) \<Rightarrow> int \<Rightarrow> label_db \<Rightarrow> (error + label_db) option"
and delete_children :: "nat \<Rightarrow> (int \<Rightarrow> faults) \<Rightarrow> int list \<Rightarrow> label_db \<Rightarrow> (error + label_db) option" where
  "deleteCollectionRecursive 0 flt i s = None"
| "deleteCollectionRecursive (Suc n) flt i s =
     (if flt i 0 then Some (Inl DBError)
      else case delete_children n flt (child_ids i s) s of
             None \<Rightarrow> None
           | Some (Inl e) \<Rightarrow> Some (Inl e)
           | Some (Inr s') \<Rightarrow> if flt i 1 \<or> flt i 2 then Some (Inl DBError) else Some (Inr (drop_collection i s')))"
| "delete_children n flt [] s = Some (Inr s)"
| "delete_children n flt (i # is) s =
     (case deleteCollectionRecursive n flt i s of
        None \<Rightarrow> None
      | Some (Inl e) \<Rightarrow> Some (Inl e)
      | Some (Inr s') \<Rightarrow> delete_children n flt is s')"

text \<open>\<open>Begin\<close> (0) and \<open>Commit\<close> (1); any error rolls back.\<close>

definition Coll_Delete :: "nat \<Rightarrow> faults \<Rightarrow> (int \<Rightarrow> faults) \<Rightarrow> int \<Rightarrow> label_db \<Rightarrow> ((error + unit) \<times> label_db) option" where
  "Coll_Delete n flt rflt i s =
     (if flt 0 then Some (Inl DBError, s)
      else case deleteCollectionRecursive n rflt i s of
             None \<Rightarrow> None
           | Some (Inl e) \<Rightarrow> Some (Inl e, s)
           | Some (Inr s') \<Rightarrow> if flt 1 then Some (Inl DBError, s) else Some (Inr (), s'))"

definition AddFile :: "faults \<Rightarrow> int \<Rightarrow> int \<Rightarrow> label_db \<Rightarrow> (error + unit) \<times> label_db" where
  "AddFile flt collectionID uploadID s =
     (if flt 0 then (Inl DBError, s)
      else if (collectionID, uploadID) \<in> set (collection_files (lb_db s)) then (Inl ErrFileAlreadyInCollection, s)
      else if collectionID \<notin> cl_id ` set (lb_colls s) \<or> uploadID \<notin> u_id ` set (uploads (lb_db s)) then (Inl FKViolation, s)
      else (Inr (), s\<lparr>lb_db := (lb_db s)\<lparr>collection_files := collection_files (lb_db s) @ [(collectionID, uploadID)]\<rparr>\<rparr>))"

definition CollectionIDsForUpload :: "faults \<Rightarrow> int \<Rightarrow> label_db \<Rightarrow> error + int list" where
  "CollectionIDsForUpload flt uploadID s =
     (if flt 0 then Inl DBError else Inr (map fst (filter (\<lambda>(_, u). u = uploadID) (collection_files (lb_db s)))))"

definition RemoveFile :: "faults \<Rightarrow> int \<Rightarrow> int \<Rightarrow> label_db \<Rightarrow> (error + unit) \<times> label_db" where
  "RemoveFile flt collectionID uploadID s =
     (if flt 0 then (Inl DBError, s)
      else if (collectionID, uploadID) \<notin> set (collection_files (lb_db s)) then (Inl ErrFileNotInCollection, s)
      else (Inr (), s\<lparr>lb_db := (lb_db s)\<lparr>collection_files :=
              delete_where (\<lambda>cf. cf = (collectionID, uploadID)) (collection_files (lb_db s))\<rparr>\<rparr>))"

section \<open>Tags of collections\<close>

definition Coll_SetTags :: "faults \<Rightarrow> int \<Rightarrow> tag_map \<Rightarrow> label_db \<Rightarrow> (error + unit) \<times> label_db" where
  "Coll_SetTags flt collectionID tags s =
     (let rows = tag_rows collectionID tags
      in if flt 0 \<or> flt 1 then (Inl DBError, s)
         else if (\<exists>i \<in> set [0..<length rows]. flt (3 + i)) then (Inl DBError, s)
         else if rows \<noteq> [] \<and> collectionID \<notin> cl_id ` set (lb_colls s) then (Inl FKViolation, s)
         else if flt 2 then (Inl DBError, s)
         else (Inr (), s\<lparr>lb_ctags := delete_where (\<lambda>(i, _). i = collectionID) (lb_ctags s) @ rows\<rparr>))"

definition Coll_GetTags :: "faults \<Rightarrow> int \<Rightarrow> label_db \<Rightarrow> error + tag_map" where
  "Coll_GetTags flt collectionID s =
     (if flt 0 then Inl DBError
      else Inr (group_tags (order_asc fst (map snd (filter (\<lambda>(i, _). i = collectionID) (lb_ctags s))))))"

text \<open>The INSERTs of \<open>InheritToFile\<close>, each on its own: one that fails is not counted.\<close>

fun inherit_rows :: "faults \<Rightarrow> (int \<times> string \<times> string) list \<Rightarrow> db \<Rightarrow> int \<times> db" where
  "inherit_rows flt [] s = (0, s)"
| "inherit_rows flt (r # rs) s =
     (if flt 0 \<or> fst r \<notin> u_id ` set (uploads s) then inherit_rows (later 1 flt) rs s
      else (case inherit_rows (later 1 flt) rs (s\<lparr>file_tags := file_tags s @ [r]\<rparr>) of (n, s') \<Rightarrow> (n + 1, s')))"

definition InheritToFile :: "faults \<Rightarrow> int \<Rightarrow> int \<Rightarrow> label_db \<Rightarrow> (error + int) \<times> label_db" where
  "InheritToFile flt collectionID uploadID s =
     (case Coll_GetTags flt collectionID s of
        Inl e \<Rightarrow> (Inl e, s)
      | Inr collTags \<Rightarrow>
          if collTags = [] then (Inr 0, s)
          else if flt 1 then (Inl DBError, s)
          else let existing = map fst (tags_of uploadID (lb_db s));
                   (added, d) = inherit_rows (later 2 flt)
                      (tag_rows uploadID (filter (\<lambda>(k, _). k \<notin> set existing) collTags)) (lb_db s)
               in (Inr added, s\<lparr>lb_db := d\<rparr>))"

section \<open>Which rule gives a tag\<close>

text \<open>What a rule says of a file, without the cache.\<close>

definition string_holds :: "rx_compiler \<Rightarrow> tag_rule \<Rightarrow> string \<Rightarrow> bool" where
  "string_holds rx r v \<longleftrightarrow>
     tr_op r = ''equals'' \<and> v = tr_value r \<or> tr_op r = ''contains'' \<and> index_sub (tr_value r) v \<noteq> None \<or>
     tr_op r = ''regex'' \<and> (\<exists>m. rx (tr_value r) = Some m \<and> m v)"

definition rule_holds :: "rx_compiler \<Rightarrow> tag_rule \<Rightarrow> file_facts \<Rightarrow> bool" where
  "rule_holds rx r f \<longleftrightarrow>
     tr_field r = ''content_type'' \<and> string_holds rx r (ff_type f) \<or> tr_field r = ''filename'' \<and> string_holds rx r (ff_name f) \<or>
     tr_field r = ''file_size'' \<and> matchSize r (ff_size f) \<or>
     tr_field r = ''visibility'' \<and> tr_op r = ''equals'' \<and> ff_visibility f = tr_value r"

definition cache_coherent :: "rx_compiler \<Rightarrow> rx_cache \<Rightarrow> bool" where
  "cache_coherent rx c \<longleftrightarrow> (\<forall>(p, m) \<in> set c. m = rx p)"

lemma compile_coherent:
  assumes "cache_coherent rx c"
  shows "fst (getOrCompileRegex rx p c) = rx p" and "cache_coherent rx (snd (getOrCompileRegex rx p c))"
  using assms by (auto simp: getOrCompileRegex_def cache_coherent_def split: option.splits dest: map_of_SomeD)

lemma matchString_holds:
  assumes "cache_coherent rx c"
  shows "fst (matchString rx r v c) = string_holds rx r v" and "cache_coherent rx (snd (matchString rx r v c))"
proof -
  obtain m c' where g: "getOrCompileRegex rx (tr_value r) c = (m, c')" by (meson surj_pair)
  have "m = rx (tr_value r)" "cache_coherent rx c'" using compile_coherent [OF assms, of "tr_value r"] g by simp_all
  then show "fst (matchString rx r v c) = string_holds rx r v" "cache_coherent rx (snd (matchString rx r v c))"
    using assms g by (auto simp: matchString_def matchRegex_def string_holds_def split: option.splits)
qed

lemma ruleMatches_holds:
  assumes "cache_coherent rx c"
  shows "fst (ruleMatches rx r f c) = rule_holds rx r f" and "cache_coherent rx (snd (ruleMatches rx r f c))"
  using assms matchString_holds [OF assms] by (auto simp: ruleMatches_def rule_holds_def)

definition first_value :: "rx_compiler \<Rightarrow> tag_rule list \<Rightarrow> file_facts \<Rightarrow> tag_map \<Rightarrow> string \<Rightarrow> string list option" where
  "first_value rx rs f tags k =
     (case map_of tags k of
        Some vs \<Rightarrow> Some vs
      | None \<Rightarrow> map_option (\<lambda>r. [tr_apply r]) (find (\<lambda>r. tr_key r = k \<and> rule_holds rx r f) rs))"

lemma first_value_Cons:
  "first_value rx (r # rs) f tags =
     (if tr_key r \<notin> fst ` set tags \<and> rule_holds rx r f then first_value rx rs f (tags @ [(tr_key r, [tr_apply r])])
      else first_value rx rs f tags)"
proof (cases "tr_key r \<in> fst ` set tags")
  case True
  then obtain vs where "map_of tags (tr_key r) = Some vs" by (metis map_of_eq_None_iff not_None_eq)
  then show ?thesis using True by (auto simp: first_value_def fun_eq_iff split: option.split)
next
  case False
  then have "map_of tags (tr_key r) = None" by (simp add: map_of_eq_None_iff)
  then show ?thesis using False by (auto simp: first_value_def fun_eq_iff map_add_def split: option.split)
qed

lemma evaluate_rows_find:
  assumes "cache_coherent rx c"
  shows "\<exists>tags' c'. evaluate_rows rx rs f tags c = (tags', c') \<and> cache_coherent rx c' \<and> map_of tags' = first_value rx rs f tags"
  using assms
proof (induction rs arbitrary: tags c)
  case Nil
  then show ?case by (auto simp: first_value_def fun_eq_iff split: option.split)
next
  case (Cons r rs)
  obtain b c1 where m: "ruleMatches rx r f c = (b, c1)" by (meson surj_pair)
  then have "b = rule_holds rx r f" and c1: "cache_coherent rx c1" using ruleMatches_holds [OF Cons.prems, of r f] by simp_all
  then show ?case
    using Cons.IH [OF c1] Cons.IH [OF Cons.prems, of tags] m by (cases b) (simp_all add: first_value_Cons)
qed

text \<open>A stable sort by a second key keeps the order of the first among equals.\<close>

definition before :: "('r \<Rightarrow> 'k::linorder) \<Rightarrow> ('r \<Rightarrow> 'r \<Rightarrow> bool) \<Rightarrow> 'r \<Rightarrow> 'r \<Rightarrow> bool" where
  "before k R a b \<longleftrightarrow> k a < k b \<or> k a = k b \<and> R a b"

lemma insort_before:
  "sorted_wrt (before k R) ys \<Longrightarrow> \<forall>y \<in> set ys. R x y \<Longrightarrow> sorted_wrt (before k R) (insort_key k x ys)"
  by (induction ys) (fastforce simp: before_def set_insort_key)+

lemma sort_before: "sorted_wrt R xs \<Longrightarrow> sorted_wrt (before k R) (sort_key k xs)"
  by (induction xs) (simp_all add: insort_before)

lemma by_priority_sorted: "sorted_wrt (before tr_priority (\<lambda>a b. tr_id a \<le> tr_id b)) (by_priority rs)"
proof -
  have "sorted_wrt (\<lambda>a b. tr_id a \<le> tr_id b) (sort_key tr_id rs)" using sorted_sort_key [of tr_id rs] by (simp only: sorted_map)
  then show ?thesis unfolding by_priority_def order_asc_def by (rule sort_before)
qed

lemma set_by_priority [simp]: "set (by_priority rs) = set rs"
  by (simp add: by_priority_def)

lemma find_first:
  assumes "sorted_wrt R xs" and "find P xs = Some w" and "r \<in> set xs" and "P r"
  shows "r = w \<or> R w r"
  using assms by (induction xs) (auto split: if_splits)

text \<open>C28: evaluating the tag rules gives, for each key, the value of the enabled rule that matches the file and comes
  first by priority number and then by age, and no value exactly when no enabled rule for the key matches; the cache of
  compiled patterns changes nothing.\<close>

theorem tag_rule_precedence:
  assumes "cache_coherent rx c"
  shows "\<exists>m c'. EvaluateRules rx no_faults f s c = (Inr m, c') \<and> cache_coherent rx c' \<and>
     (\<forall>k. case map_of m k of
            None \<Rightarrow> \<forall>r \<in> set (lb_rules s). tr_enabled r \<and> tr_key r = k \<longrightarrow> \<not> rule_holds rx r f
          | Some vs \<Rightarrow> \<exists>w \<in> set (lb_rules s). tr_enabled w \<and> tr_key w = k \<and> rule_holds rx w f \<and> vs = [tr_apply w] \<and>
              (\<forall>r \<in> set (lb_rules s). tr_enabled r \<and> tr_key r = k \<and> rule_holds rx r f \<longrightarrow>
                 tr_priority w < tr_priority r \<or> tr_priority w = tr_priority r \<and> tr_id w \<le> tr_id r))"
proof -
  let ?rs = "by_priority (filter tr_enabled (lb_rules s))"
  obtain m c' where e: "evaluate_rows rx ?rs f [] c = (m, c')" "cache_coherent rx c'"
    "\<forall>k. map_of m k = map_option (\<lambda>r. [tr_apply r]) (find (\<lambda>r. tr_key r = k \<and> rule_holds rx r f) ?rs)"
    using evaluate_rows_find [OF assms, of ?rs f "[]"] by (auto simp: first_value_def)
  have "case map_of m k of
          None \<Rightarrow> \<forall>r \<in> set (lb_rules s). tr_enabled r \<and> tr_key r = k \<longrightarrow> \<not> rule_holds rx r f
        | Some vs \<Rightarrow> \<exists>w \<in> set (lb_rules s). tr_enabled w \<and> tr_key w = k \<and> rule_holds rx w f \<and> vs = [tr_apply w] \<and>
            (\<forall>r \<in> set (lb_rules s). tr_enabled r \<and> tr_key r = k \<and> rule_holds rx r f \<longrightarrow>
               tr_priority w < tr_priority r \<or> tr_priority w = tr_priority r \<and> tr_id w \<le> tr_id r)" for k
  proof (cases "find (\<lambda>r. tr_key r = k \<and> rule_holds rx r f) ?rs")
    case None
    then show ?thesis using e(3) find_NoneD [OF None] by auto
  next
    case (Some w)
    have w: "w \<in> set (lb_rules s)" "tr_enabled w" "tr_key w = k" "rule_holds rx w f" using find_SomeD [OF Some] by auto
    have "tr_priority w < tr_priority r \<or> tr_priority w = tr_priority r \<and> tr_id w \<le> tr_id r"
      if "r \<in> set (lb_rules s)" "tr_enabled r" "tr_key r = k" "rule_holds rx r f" for r
      using find_first [OF by_priority_sorted Some, of r] that by (auto simp: before_def)
    then show ?thesis using e(3) Some w by auto
  qed
  then show ?thesis using e(1,2) by (auto simp: EvaluateRules_def)
qed

section \<open>Deleting a tree of collections\<close>

definition coll_edges :: "label_db \<Rightarrow> (int \<times> int) set" where
  "coll_edges s = {(p, cl_id c) |p c. c \<in> set (lb_colls s) \<and> cl_parent c = Some p}"

definition below :: "int \<Rightarrow> label_db \<Rightarrow> int set" where
  "below i s = {j. (i, j) \<in> (coll_edges s)\<^sup>*}"

definition without :: "int set \<Rightarrow> label_db \<Rightarrow> label_db" where
  "without D s =
     s\<lparr>lb_db := (lb_db s)\<lparr>collection_files := filter (\<lambda>cf. fst cf \<notin> D) (collection_files (lb_db s))\<rparr>,
       lb_colls := filter (\<lambda>c. cl_id c \<notin> D) (lb_colls s),
       lb_ctags := filter (\<lambda>cf. fst cf \<notin> D) (lb_ctags s)\<rparr>"

text \<open>The invariant of the tree: a parent is older than its children, so there is no cycle.\<close>

definition colls_ok :: "label_db \<Rightarrow> bool" where
  "colls_ok s \<longleftrightarrow> keyed cl_id (lb_coll_seq s) (lb_colls s) \<and>
     (\<forall>c \<in> set (lb_colls s). \<forall>p. cl_parent c = Some p \<longrightarrow> p < cl_id c \<and> p \<in> cl_id ` set (lb_colls s))"

lemma without_empty: "without {} s = s"
  by (cases s; cases "lb_db s") (simp add: without_def)

lemma without_without: "without E (without D s) = without (D \<union> E) s"
  by (simp add: without_def conj_commute)

lemma drop_is_without: "drop_collection i s = without {i} s"
  by (simp add: drop_collection_def without_def delete_where_def)

lemma edges_without: "coll_edges (without D s) = {(p, c) \<in> coll_edges s. c \<notin> D}"
  by (auto simp: coll_edges_def without_def)

lemma below_refl: "i \<in> below i s"
  by (simp add: below_def)

lemma below_step: "(i, k) \<in> coll_edges s \<Longrightarrow> below k s \<subseteq> below i s"
  by (auto simp: below_def intro: converse_rtrancl_into_rtrancl)

text \<open>Taking away a set that is closed downwards loses nothing else of what is below.\<close>

lemma below_without:
  assumes "\<And>x y. x \<in> D \<Longrightarrow> (x, y) \<in> coll_edges s \<Longrightarrow> y \<in> D"
  shows "D \<union> below k (without D s) = D \<union> below k s"
proof -
  have closed: "y \<in> D" if "x \<in> D" "(x, y) \<in> (coll_edges s)\<^sup>*" for x y
    using that(2,1) by induction (auto intro: assms)
  have "j \<in> D \<or> (k, j) \<in> (coll_edges (without D s))\<^sup>*" if "(k, j) \<in> (coll_edges s)\<^sup>*" for j
    using that
  proof induction
    case (step x y)
    show ?case
    proof (cases "y \<in> D")
      case False
      then have "x \<notin> D" using assms step.hyps(2) by blast
      then show ?thesis using step False by (auto simp: edges_without intro: rtrancl_into_rtrancl)
    qed simp
  qed simp
  moreover have "(coll_edges (without D s))\<^sup>* \<subseteq> (coll_edges s)\<^sup>*" by (rule rtrancl_mono) (auto simp: edges_without)
  ultimately show ?thesis by (auto simp: below_def)
qed

lemma below_closed: "x \<in> below k s \<Longrightarrow> (x, y) \<in> coll_edges s \<Longrightarrow> y \<in> below k s"
  by (auto simp: below_def intro: rtrancl_into_rtrancl)

definition climbing :: "int \<Rightarrow> label_db \<Rightarrow> bool" where
  "climbing hi s \<longleftrightarrow> (\<forall>(p, c) \<in> coll_edges s. p < c \<and> c \<le> hi)"

lemma climbing_without: "climbing hi s \<Longrightarrow> climbing hi (without D s)"
  by (auto simp: climbing_def edges_without)

definition calm :: "(int \<Rightarrow> faults) \<Rightarrow> bool" where
  "calm flt \<longleftrightarrow> (\<forall>i. \<not> flt i 0 \<and> \<not> flt i 1 \<and> \<not> flt i 2)"

lemma child_edges: "set (child_ids i s) = {k. (i, k) \<in> coll_edges s}"
  by (auto simp: child_ids_def coll_edges_def)

lemma below_children: "below i s = insert i (\<Union>k \<in> set (child_ids i s). below k s)"
  unfolding child_edges below_def by (auto elim: converse_rtranclE intro: converse_rtrancl_into_rtrancl)

lemma delete_children_without:
  assumes one: "\<And>k t. k \<in> set ks \<Longrightarrow> climbing hi t \<Longrightarrow> deleteCollectionRecursive n flt k t = Some (Inr (without (below k t) t))"
    and "climbing hi s"
  shows "delete_children n flt ks s = Some (Inr (without (\<Union>k \<in> set ks. below k s) s))"
  using assms
proof (induction ks arbitrary: s)
  case Nil
  then show ?case by (simp add: without_empty)
next
  case (Cons k ks)
  let ?D = "below k s" and ?t = "without (below k s) s"
  have k: "deleteCollectionRecursive n flt k s = Some (Inr ?t)" using Cons.prems by simp
  have "delete_children n flt ks ?t = Some (Inr (without (\<Union>j \<in> set ks. below j ?t) ?t))"
    using Cons.IH [of ?t] Cons.prems climbing_without by simp
  moreover have "?D \<union> (\<Union>j \<in> set ks. below j ?t) = ?D \<union> (\<Union>j \<in> set ks. below j s)"
    using below_without [of ?D s] below_closed [of _ k s] by blast
  ultimately show ?case using k by (simp add: without_without)
qed

lemma delete_recursive_without:
  assumes "climbing hi s" and "calm flt" and "hi < i + int n"
  shows "0 < n \<Longrightarrow> deleteCollectionRecursive n flt i s = Some (Inr (without (below i s) s))"
  using assms
proof (induction n arbitrary: i s)
  case (Suc n)
  have kids: "deleteCollectionRecursive n flt k t = Some (Inr (without (below k t) t))"
    if "k \<in> set (child_ids i s)" "climbing hi t" for k t
  proof -
    have "i < k" "k \<le> hi" using that(1) Suc.prems(2) by (auto simp: child_edges climbing_def)
    then show ?thesis using Suc.IH [of t k] Suc.prems that(2) by simp
  qed
  have "delete_children n flt (child_ids i s) s = Some (Inr (without (\<Union>k \<in> set (child_ids i s). below k s) s))"
    using delete_children_without [OF kids Suc.prems(2)] by simp
  moreover have "(\<Union>k \<in> set (child_ids i s). below k s) \<union> {i} = below i s" using below_children [of i s] by simp
  ultimately show ?case using Suc.prems(3) by (simp add: calm_def drop_is_without without_without)
qed simp

lemma colls_climbing: "colls_ok s \<Longrightarrow> climbing (lb_coll_seq s) s"
  by (auto simp: colls_ok_def climbing_def coll_edges_def keyed_def)

lemma colls_ok_without:
  assumes "colls_ok s"
  shows "colls_ok (without (below i s) s)"
proof -
  have "p \<notin> below i s" if "c \<in> set (lb_colls s)" "cl_parent c = Some p" "cl_id c \<notin> below i s" for c p
    using that below_closed [of p i s "cl_id c"] by (auto simp: coll_edges_def)
  then show ?thesis using assms by (force simp: colls_ok_def without_def keyed_filter)
qed

text \<open>Whatever fails, the recursion ends, and it never adds a row.\<close>

definition ends_below :: "int \<Rightarrow> (error + label_db) option \<Rightarrow> bool" where
  "ends_below hi r \<longleftrightarrow> (\<exists>e. r = Some (Inl e)) \<or> (\<exists>s'. r = Some (Inr s') \<and> climbing hi s')"

lemma delete_children_ends:
  assumes "\<And>k t. k \<in> set ks \<Longrightarrow> climbing hi t \<Longrightarrow> ends_below hi (deleteCollectionRecursive n flt k t)" and "climbing hi s"
  shows "ends_below hi (delete_children n flt ks s)"
  using assms
proof (induction ks arbitrary: s)
  case (Cons k ks)
  have "ends_below hi (delete_children n flt ks t)" if "climbing hi t" for t using Cons.IH [OF _ that] Cons.prems(1) by simp
  moreover have "ends_below hi (deleteCollectionRecursive n flt k s)" using Cons.prems by simp
  ultimately show ?case unfolding ends_below_def [of _ "deleteCollectionRecursive n flt k s"] by (auto simp: ends_below_def [of _ "Some _"])
qed (simp add: ends_below_def)

lemma delete_recursive_ends:
  "0 < n \<Longrightarrow> climbing hi s \<Longrightarrow> hi < i + int n \<Longrightarrow> ends_below hi (deleteCollectionRecursive n flt i s)"
proof (induction n arbitrary: i s)
  case (Suc n)
  have kids: "ends_below hi (deleteCollectionRecursive n flt k t)" if "k \<in> set (child_ids i s)" "climbing hi t" for k t
  proof -
    have "i < k" "k \<le> hi" using that(1) Suc.prems(2) by (auto simp: child_edges climbing_def)
    then show ?thesis using Suc.IH [of t k] Suc.prems that(2) by simp
  qed
  have "ends_below hi (delete_children n flt (child_ids i s) s)" by (rule delete_children_ends [OF kids Suc.prems(2)])
  then show ?case by (cases "flt i 1"; cases "flt i 2") (auto simp: ends_below_def drop_is_without climbing_without)
qed simp

text \<open>C29: deleting a collection ends whatever statement fails, for every fuel above the number of ids given out; when none
  fails it removes the collection and everything below it in the tree, with their file links and tags, and nothing else,
  and the tree stays well formed; an error leaves the tables as they were.\<close>

theorem collection_delete_removes_tree:
  assumes "colls_ok s" and "0 < i" and "lb_coll_seq s < int n"
  shows "(\<exists>r s'. Coll_Delete n flt rflt i s = Some (r, s') \<and> (\<forall>e. r = Inl e \<longrightarrow> s' = s)) \<and>
         (calm rflt \<and> \<not> flt 0 \<and> \<not> flt 1 \<longrightarrow>
            Coll_Delete n flt rflt i s = Some (Inr (), without (below i s) s) \<and> colls_ok (without (below i s) s))"
proof -
  have n: "0 < n" using assms by (auto simp: colls_ok_def keyed_def)
  have fuel: "lb_coll_seq s < i + int n" using assms(2,3) by simp
  have "\<exists>r s'. Coll_Delete n flt rflt i s = Some (r, s') \<and> (\<forall>e. r = Inl e \<longrightarrow> s' = s)"
    using delete_recursive_ends [OF n colls_climbing [OF assms(1)] fuel, of rflt] by (auto simp: Coll_Delete_def ends_below_def)
  then show ?thesis
    using delete_recursive_without [OF colls_climbing [OF assms(1)] _ fuel n, of rflt] colls_ok_without [OF assms(1), of i]
    by (simp add: Coll_Delete_def)
qed

lemma colls_ok_create: "colls_ok s \<Longrightarrow> colls_ok (snd (Coll_Create flt now name desc parent by s))"
proof -
  assume ok: "colls_ok s"
  let ?c = "\<lparr>cl_id = lb_coll_seq s + 1, cl_name = name, cl_desc = desc, cl_parent = parent, cl_by = by, cl_created = now, cl_updated = now\<rparr>"
  have "keyed cl_id (lb_coll_seq s + 1) (lb_colls s @ [?c])" using ok by (intro keyed_append) (simp_all add: colls_ok_def)
  moreover have "p < lb_coll_seq s + 1" if "p \<in> cl_id ` set (lb_colls s)" for p using ok that by (auto simp: colls_ok_def keyed_def)
  ultimately show ?thesis using ok by (force simp: Coll_Create_def Let_def colls_ok_def split: option.splits)
qed

lemma colls_ok_update: "colls_ok s \<Longrightarrow> colls_ok (snd (Coll_Update flt now i name desc s))"
proof -
  assume ok: "colls_ok s"
  let ?f = "\<lambda>c. c\<lparr>cl_name := name, cl_desc := desc, cl_updated := now\<rparr>" and ?P = "\<lambda>c. cl_id c = i"
  have "map cl_id (update_where ?P ?f (lb_colls s)) = map cl_id (lb_colls s)" by (rule map_update_where_id) simp
  then have ids: "cl_id ` set (update_where ?P ?f (lb_colls s)) = cl_id ` set (lb_colls s)" by (metis list.set_map)
  have "p < cl_id c \<and> p \<in> cl_id ` set (lb_colls s)" if "c \<in> set (update_where ?P ?f (lb_colls s))" "cl_parent c = Some p" for c p
    using that ok by (auto simp: set_update_where colls_ok_def split: if_splits)
  then show ?thesis using ok keyed_update [of cl_id "lb_coll_seq s" "lb_colls s" ?f ?P]
    by (auto simp: Coll_Update_def Let_def colls_ok_def ids)
qed

section \<open>Tags: what is set is read back\<close>

lemma map_of_add_tag:
  "map_of (add_tag k v m) k' = (if k' = k then Some ((case map_of m k of None \<Rightarrow> [] | Some vs \<Rightarrow> vs) @ [v]) else map_of m k')"
  by (induction m) auto

definition values_of :: "string \<Rightarrow> (string \<times> string) list \<Rightarrow> string list" where
  "values_of k rows = map snd (filter (\<lambda>r. fst r = k) rows)"

definition some_values :: "string list \<Rightarrow> string list option" where
  "some_values vs = (if vs = [] then None else Some vs)"

lemma group_tags_fold:
  "map_of (foldl (\<lambda>m (k, v). add_tag k v m) m rows) k =
     (case map_of m k of None \<Rightarrow> some_values (values_of k rows) | Some vs \<Rightarrow> Some (vs @ values_of k rows))"
  by (induction rows arbitrary: m) (auto simp: map_of_add_tag values_of_def some_values_def split: option.split)

lemma map_of_group_tags: "map_of (group_tags rows) k = some_values (values_of k rows)"
  by (simp add: group_tags_def group_tags_fold)

lemma values_of_sorted: "values_of k (order_asc fst rows) = values_of k rows"
  using sort_key_stable [of fst k rows] by (simp add: values_of_def order_asc_def)

lemma values_of_tag_rows: "distinct (map fst tags) \<Longrightarrow> values_of k (map snd (tag_rows i tags)) = (case map_of tags k of None \<Rightarrow> [] | Some vs \<Rightarrow> vs)"
proof (induction tags)
  case Nil
  then show ?case by (simp add: tag_rows_def values_of_def)
next
  case (Cons t tags)
  obtain k0 vs where t: "t = (k0, vs)" by (cases t)
  have head: "filter (\<lambda>r. fst r = k) (map (\<lambda>v. (k0, v)) vs) = (if k0 = k then map (\<lambda>v. (k0, v)) vs else [])" by (induction vs) auto
  have "map_of tags k0 = None" using Cons.prems t by (simp add: map_of_eq_None_iff)
  then show ?case using Cons t head by (auto simp: tag_rows_def values_of_def comp_def)
qed

lemma tag_rows_of: "filter (\<lambda>(i, _). i = j) (tag_rows i tags) = (if i = j then tag_rows i tags else [])"
proof -
  have "\<forall>r \<in> set (tag_rows i tags). fst r = i" by (auto simp: tag_rows_def)
  then show ?thesis by (auto simp: filter_empty_conv intro!: filter_True)
qed

text \<open>The contract of a table of tags, which the tags of uploads and the tags of collections both keep.\<close>

locale tag_table =
  fixes rows :: "'s \<Rightarrow> (int \<times> string \<times> string) list"
    and set_tags :: "faults \<Rightarrow> int \<Rightarrow> tag_map \<Rightarrow> 's \<Rightarrow> (error + unit) \<times> 's"
    and get_tags :: "faults \<Rightarrow> int \<Rightarrow> 's \<Rightarrow> error + tag_map"
  assumes set_refused: "set_tags flt i tags s = (Inl e, s') \<Longrightarrow> s' = s"
    and set_done: "set_tags flt i tags s = (Inr (), s') \<Longrightarrow> rows s' = delete_where (\<lambda>(j, _). j = i) (rows s) @ tag_rows i tags"
    and get_rows: "get_tags no_faults i s = Inr (group_tags (order_asc fst (map snd (filter (\<lambda>(j, _). j = i) (rows s)))))"
begin

lemma round_trip:
  assumes "distinct (map fst tags)" and "set_tags flt i tags s = (r, s')"
  shows "(\<forall>e. r = Inl e \<longrightarrow> s' = s) \<and>
     (r = Inr () \<longrightarrow> (\<exists>m. get_tags no_faults i s' = Inr m \<and>
        (\<forall>k. map_of m k = (case map_of tags k of None \<Rightarrow> None | Some vs \<Rightarrow> some_values vs))) \<and>
        (\<forall>j. j \<noteq> i \<longrightarrow> get_tags no_faults j s' = get_tags no_faults j s))"
proof (cases r)
  case (Inl e)
  then show ?thesis using assms(2) set_refused by auto
next
  case (Inr x)
  then have r: "r = Inr ()" and new: "rows s' = delete_where (\<lambda>(j, _). j = i) (rows s) @ tag_rows i tags" using assms(2) set_done by auto
  have mine: "filter (\<lambda>(j, _). j = i) (rows s') = tag_rows i tags"
    unfolding new by (auto simp: delete_where_def tag_rows_of filter_empty_conv)
  have others: "filter (\<lambda>(k, _). k = j) (rows s') = filter (\<lambda>(k, _). k = j) (rows s)" if "j \<noteq> i" for j
    unfolding new using that by (auto simp: delete_where_def tag_rows_of intro!: filter_cong)
  have "\<exists>m. get_tags no_faults i s' = Inr m \<and> (\<forall>k. map_of m k = (case map_of tags k of None \<Rightarrow> None | Some vs \<Rightarrow> some_values vs))"
    unfolding get_rows mine
    by (auto simp: map_of_group_tags values_of_sorted values_of_tag_rows [OF assms(1)] some_values_def split: option.split)
  moreover have "get_tags no_faults j s' = get_tags no_faults j s" if "j \<noteq> i" for j
    by (simp only: get_rows others [OF that])
  ultimately show ?thesis using r by blast
qed

end

interpretation file_tag_table: tag_table file_tags Tag_SetTags Tag_GetTags
  by unfold_locales (auto simp: Tag_SetTags_def Tag_GetTags_def Let_def split: if_splits)

interpretation coll_tag_table: tag_table lb_ctags Coll_SetTags Coll_GetTags
  by unfold_locales (auto simp: Coll_SetTags_def Coll_GetTags_def Let_def split: if_splits)

text \<open>Setting the tags of an upload or of a collection replaces them: reading them back gives for each key the values in
  their order and no other key, and every other tag stays; when it fails, nothing changes.\<close>

lemmas set_tags_round_trip = file_tag_table.round_trip
lemmas collection_tags_round_trip = coll_tag_table.round_trip

section \<open>Inherited tags\<close>

lemma inherit_rows_all:
  "\<forall>r \<in> set rs. fst r \<in> u_id ` set (uploads s) \<Longrightarrow>
     inherit_rows no_faults rs s = (int (length rs), s\<lparr>file_tags := file_tags s @ rs\<rparr>)"
  by (induction rs arbitrary: s) auto

lemma inherit_rows_adds:
  "inherit_rows flt rs s = (n, s') \<Longrightarrow> \<exists>kept. s' = s\<lparr>file_tags := file_tags s @ kept\<rparr> \<and> subseq kept rs \<and> n = int (length kept)"
proof (induction rs arbitrary: flt s n)
  case Nil
  then show ?case by (intro exI [of _ "[]"]) simp
next
  case (Cons r rs)
  show ?case
  proof (cases "flt 0 \<or> fst r \<notin> u_id ` set (uploads s)")
    case True
    then have "inherit_rows (later 1 flt) rs s = (n, s')" using Cons.prems by (simp split: if_splits)
    then show ?thesis using Cons.IH by (meson list_emb_Cons)
  next
    case False
    obtain n' where n': "inherit_rows (later 1 flt) rs (s\<lparr>file_tags := file_tags s @ [r]\<rparr>) = (n', s')" "n = n' + 1"
      using False Cons.prems by (auto split: prod.splits)
    from Cons.IH [OF n'(1)] obtain kept where "s' = s\<lparr>file_tags := file_tags s @ r # kept\<rparr>" "subseq kept rs" "n' = int (length kept)"
      by auto
    then show ?thesis using n'(2) by (intro exI [of _ "r # kept"]) simp
  qed
qed

lemma add_tag_keys: "fst ` set (add_tag k v m) = insert k (fst ` set m)"
  by (induction k v m rule: add_tag.induct) auto

lemma distinct_add_tag: "distinct (map fst m) \<Longrightarrow> distinct (map fst (add_tag k v m))"
  by (induction k v m rule: add_tag.induct) (auto simp: add_tag_keys)

lemma distinct_group_tags: "distinct (map fst (group_tags rows))"
proof -
  have "distinct (map fst m) \<Longrightarrow> distinct (map fst (foldl (\<lambda>m (k, v). add_tag k v m) m rows))" for m
    by (induction rows arbitrary: m) (auto simp: distinct_add_tag)
  then show ?thesis by (simp add: group_tags_def)
qed

lemma map_of_filter_key: "map_of (filter (\<lambda>(k, _). P k) m) k = (if P k then map_of m k else None)"
  by (induction m) auto

definition inherited_rows :: "int \<Rightarrow> int \<Rightarrow> label_db \<Rightarrow> (int \<times> string \<times> string) list" where
  "inherited_rows c i s = tag_rows i (filter (\<lambda>(k, _). k \<notin> set (map fst (tags_of i (lb_db s))))
     (group_tags (order_asc fst (map snd (filter (\<lambda>(j, _). j = c) (lb_ctags s))))))"

lemma inherited_rows_from:
  assumes "(j, k, v) \<in> set (inherited_rows c i s)"
  shows "j = i \<and> k \<notin> fst ` set (tags_of i (lb_db s)) \<and> (c, k, v) \<in> set (lb_ctags s)"
proof -
  let ?rows = "order_asc fst (map snd (filter (\<lambda>(j, _). j = c) (lb_ctags s)))"
  from assms obtain vs where g: "(k, vs) \<in> set (group_tags ?rows)" "v \<in> set vs" "j = i" "k \<notin> set (map fst (tags_of i (lb_db s)))"
    by (auto simp: inherited_rows_def tag_rows_def)
  have "map_of (group_tags ?rows) k = Some vs" by (rule map_of_is_SomeI [OF distinct_group_tags g(1)])
  then have "vs = values_of k ?rows" by (simp add: map_of_group_tags some_values_def split: if_splits)
  then have "(k, v) \<in> set ?rows" using g(2) by (force simp: values_of_def)
  then show ?thesis using g(3,4) by auto
qed

lemma inherited_values:
  "k \<notin> fst ` set (tags_of i (lb_db s)) \<Longrightarrow>
     values_of k (map snd (inherited_rows c i s)) = values_of k (map snd (filter (\<lambda>(j, _). j = c) (lb_ctags s)))"
  unfolding inherited_rows_def
  by (subst values_of_tag_rows)
    (simp_all add: distinct_map_filter distinct_group_tags map_of_filter_key map_of_group_tags values_of_sorted some_values_def)

lemma InheritToFile_rows:
  assumes "InheritToFile flt c i s = (r, s')"
  shows "(\<exists>e. r = Inl e \<and> s' = s) \<or>
    (\<exists>n d. inherit_rows (later 2 flt) (inherited_rows c i s) (lb_db s) = (n, d) \<and> r = Inr n \<and> s' = s\<lparr>lb_db := d\<rparr>)"
  using assms
  by (auto simp: InheritToFile_def Coll_GetTags_def Let_def inherited_rows_def tag_rows_def split: if_splits sum.splits prod.splits)

text \<open>A file put into a collection inherits the collection's tags only for keys it has no tag for: whatever INSERT
  fails, its own tags and those of every other upload stay as they were and only rows of the collection's tags are
  added, as many as reported; when none fails, every key the file lacked has exactly the collection's values.\<close>

lemma inherited_tags_never_override:
  assumes "InheritToFile flt c i s = (r, s')"
  shows "\<exists>kept. lb_db s' = (lb_db s)\<lparr>file_tags := file_tags (lb_db s) @ kept\<rparr> \<and>
     (\<forall>(j, k, v) \<in> set kept. j = i \<and> k \<notin> fst ` set (tags_of i (lb_db s)) \<and> (c, k, v) \<in> set (lb_ctags s)) \<and>
     (\<forall>n. r = Inr n \<longrightarrow> n = int (length kept)) \<and>
     (flt = no_faults \<and> i \<in> u_id ` set (uploads (lb_db s)) \<longrightarrow>
        (\<forall>k. k \<notin> fst ` set (tags_of i (lb_db s)) \<longrightarrow>
           values_of k (tags_of i (lb_db s')) = values_of k (map snd (filter (\<lambda>(j, _). j = c) (lb_ctags s)))))"
  using InheritToFile_rows [OF assms]
proof (elim disjE exE conjE)
  fix e
  assume e: "r = Inl e" "s' = s"
  then have "flt \<noteq> no_faults" using assms by (auto simp: InheritToFile_def Coll_GetTags_def Let_def split: if_splits prod.splits)
  then show ?thesis using e by (intro exI [of _ "[]"]) simp
next
  fix n d
  assume n: "inherit_rows (later 2 flt) (inherited_rows c i s) (lb_db s) = (n, d)" "r = Inr n" "s' = s\<lparr>lb_db := d\<rparr>"
  from inherit_rows_adds [OF n(1)] obtain kept where kept: "d = (lb_db s)\<lparr>file_tags := file_tags (lb_db s) @ kept\<rparr>"
    "subseq kept (inherited_rows c i s)" "n = int (length kept)" by blast
  have sub: "set kept \<subseteq> set (inherited_rows c i s)" using kept(2) by (auto elim: list_emb_set)
  have "values_of k (tags_of i d) = values_of k (map snd (filter (\<lambda>(j, _). j = c) (lb_ctags s)))"
    if "flt = no_faults" "i \<in> u_id ` set (uploads (lb_db s))" "k \<notin> fst ` set (tags_of i (lb_db s))" for k
  proof -
    have "\<forall>r \<in> set (inherited_rows c i s). fst r \<in> u_id ` set (uploads (lb_db s))" using inherited_rows_from that(2) by force
    then have d: "d = (lb_db s)\<lparr>file_tags := file_tags (lb_db s) @ inherited_rows c i s\<rparr>"
      using inherit_rows_all [of "inherited_rows c i s" "lb_db s"] n(1) that(1) by (simp add: later_def)
    have mine: "filter (\<lambda>(j, _). j = i) (inherited_rows c i s) = inherited_rows c i s" using inherited_rows_from by (intro filter_True) force
    have none: "filter (\<lambda>r. fst r = k) (tags_of i (lb_db s)) = []" using that(3) by (auto simp: filter_empty_conv)
    have "tags_of i d = tags_of i (lb_db s) @ map snd (inherited_rows c i s)" by (simp add: tags_of_def d mine)
    then show ?thesis using inherited_values [OF that(3), of c] none by (simp add: values_of_def)
  qed
  moreover have "\<forall>(j, k, v) \<in> set kept. j = i \<and> k \<notin> fst ` set (tags_of i (lb_db s)) \<and> (c, k, v) \<in> set (lb_ctags s)"
  proof (clarify, intro conjI)
    fix j k v
    assume "(j, k, v) \<in> set kept"
    then have m: "(j, k, v) \<in> set (inherited_rows c i s)" using sub by blast
    show "j = i" "k \<notin> fst ` set (tags_of i (lb_db s))" "(c, k, v) \<in> set (lb_ctags s)" using inherited_rows_from [OF m] by blast+
  qed
  moreover have "lb_db s' = (lb_db s)\<lparr>file_tags := file_tags (lb_db s) @ kept\<rparr>" "lb_db s' = d" using kept(1) n(3) by simp_all
  ultimately show ?thesis using kept(3) n(2) by (intro exI [of _ kept] conjI) simp_all
qed

text \<open>What a search with a selector returns.\<close>

lemma search_by_selector_exact:
  assumes "SearchBySelector flt userID rs limit s = Inr us"
  shows "\<forall>u \<in> set us. u \<in> set (uploads s) \<and> u_user u = userID \<and> list_all (tag_holds (tags_of (u_id u) s)) rs"
    and "length us \<le> 10000"
  using assms set_limit_offset length_limit_offset
  by (auto simp: SearchBySelector_def Let_def split: if_splits dest!: subsetD [OF set_limit_offset] intro: order_trans [OF length_limit_offset])

section \<open>Examples\<close>

definition sample_rule :: "int \<Rightarrow> int \<Rightarrow> string \<Rightarrow> string \<Rightarrow> string \<Rightarrow> tag_rule" where
  "sample_rule i prio field v app = \<lparr>tr_id = i, tr_name = ''r'', tr_desc = [], tr_field = field, tr_op = ''equals'',
     tr_value = v, tr_key = ''kind'', tr_apply = app, tr_priority = prio, tr_enabled = True, tr_by = 1, tr_created = 0, tr_updated = 0\<rparr>"

definition sample_coll :: "int \<Rightarrow> int option \<Rightarrow> collection" where
  "sample_coll i p = \<lparr>cl_id = i, cl_name = ''c'', cl_desc = [], cl_parent = p, cl_by = 1, cl_created = 0, cl_updated = 0\<rparr>"

definition sample_labels :: label_db where
  "sample_labels = \<lparr>lb_db = empty_db\<lparr>collection_files := [(2, 7), (4, 7)], users := [1],
       uploads := [new_upload 7 ''u'' 0 1 None ''f'' ''f'' 1 ''t'' Public ''p'' None]\<rparr>,
     lb_rules = [sample_rule 1 20 ''visibility'' ''public'' ''open'', sample_rule 2 10 ''filename'' ''a.txt'' ''text'',
                 sample_rule 3 20 ''filename'' ''a.txt'' ''late''],
     lb_rule_seq = 3, lb_colls = [sample_coll 1 None, sample_coll 2 (Some 1), sample_coll 3 (Some 2), sample_coll 4 None],
     lb_coll_seq = 4, lb_ctags = [(1, ''a'', ''b''), (4, ''a'', ''c'')]\<rparr>"

definition sample_facts :: file_facts where
  "sample_facts = \<lparr>ff_name = ''a.txt'', ff_type = ''text/plain'', ff_size = 3, ff_visibility = ''public''\<rparr>"

theorem tag_rule_precedence_witness:
  "\<exists>m c'. EvaluateRules (\<lambda>_. None) no_faults sample_facts sample_labels [] = (Inr m, c') \<and> map_of m ''kind'' = Some [''text'']"
proof -
  have c: "cache_coherent (\<lambda>_. None) []" by (simp add: cache_coherent_def)
  have e: "fst (EvaluateRules (\<lambda>_. None) no_faults sample_facts sample_labels []) = Inr [(''kind'', [''text''])]" by code_simp
  from tag_rule_precedence [OF c, of sample_facts sample_labels]
  obtain m c' where "EvaluateRules (\<lambda>_. None) no_faults sample_facts sample_labels [] = (Inr m, c')" by blast
  then show ?thesis using e by (intro exI [of _ m] exI [of _ c']) simp
qed

theorem collection_delete_removes_tree_witness:
  "Coll_Delete 5 no_faults (\<lambda>_. no_faults) 1 sample_labels = Some (Inr (), without (below 1 sample_labels) sample_labels) \<and>
   map cl_id (lb_colls (without (below 1 sample_labels) sample_labels)) = [4]"
proof -
  have ok: "colls_ok sample_labels"
    by (auto simp: colls_ok_def keyed_def sample_labels_def sample_coll_def)
  have r: "Coll_Delete 5 no_faults (\<lambda>_. no_faults) 1 sample_labels = Some (Inr (), without (below 1 sample_labels) sample_labels)"
    using collection_delete_removes_tree [OF ok, of 1 5 no_faults "\<lambda>_. no_faults"] by (simp add: calm_def sample_labels_def)
  have "map_option (\<lambda>(x, s). map cl_id (lb_colls s)) (Coll_Delete 5 no_faults (\<lambda>_. no_faults) 1 sample_labels) = Some [4]"
    by code_simp
  with r show ?thesis by simp
qed

end
