(* ===== verification/Search.thy ===== *)
theory Search
  imports Labels Account_Handlers
begin

text \<open>
  \<open>internal/services/search.go\<close>, the global search, and the two searches of \<open>tag.go\<close> by tags and file name. SQL's
  \<open>LIKE\<close> is a definition here: \<open>%\<close> stands for any text, \<open>_\<close> for one character, and the escape character, where the
  statement or the database sets one, makes the next character literal. SQLite compares without case (on ASCII),
  Postgres exactly; without an \<open>ESCAPE\<close> clause SQLite has no escape character and Postgres the backslash.
\<close>

section \<open>LIKE\<close>

definition like_fold :: "dialect \<Rightarrow> char \<Rightarrow> char" where
  "like_fold d c = (case d of SQLite \<Rightarrow> lower_char c | Postgres \<Rightarrow> c)"

definition backslash :: char where "backslash = CHR 0x5C"

function sql_like :: "dialect \<Rightarrow> char option \<Rightarrow> string \<Rightarrow> string \<Rightarrow> bool" where
  "sql_like d esc [] s = (s = [])"
| "sql_like d esc (c # p) s =
     (if esc = Some c then (case p of [] \<Rightarrow> False
        | x # p' \<Rightarrow> (case s of [] \<Rightarrow> False | y # s' \<Rightarrow> like_fold d x = like_fold d y \<and> sql_like d esc p' s'))
      else if c = CHR ''%'' then sql_like d esc p s \<or> (case s of [] \<Rightarrow> False | y # s' \<Rightarrow> sql_like d esc (c # p) s')
      else (case s of [] \<Rightarrow> False | y # s' \<Rightarrow> (c = CHR ''_'' \<or> like_fold d c = like_fold d y) \<and> sql_like d esc p s'))"
  by pat_completeness auto
termination by (relation "measure (\<lambda>(d, esc, p, s). length p + length s)") auto

definition default_escape :: "dialect \<Rightarrow> char option" where
  "default_escape d = (case d of SQLite \<Rightarrow> None | Postgres \<Rightarrow> Some backslash)"

definition escape_like :: "string \<Rightarrow> string" where
  "escape_like q = concat (map (\<lambda>c. if c \<in> {backslash, CHR ''%'', CHR ''_''} then [backslash, c] else [c]) q)"

definition likePattern :: "string \<Rightarrow> string" where
  "likePattern q = ''%'' @ escape_like q @ ''%''"

definition matches :: "dialect \<Rightarrow> string \<Rightarrow> string \<Rightarrow> bool" where
  "matches d q s \<longleftrightarrow> sql_like d (Some backslash) (likePattern q) s"

section \<open>The global search\<close>

record search_hit =
  sh_type :: string
  sh_id :: string
  sh_label :: string
  sh_sublabel :: string

definition Search_Files :: "dialect \<Rightarrow> faults \<Rightarrow> int \<Rightarrow> string \<Rightarrow> int \<Rightarrow> db \<Rightarrow> error + search_hit list" where
  "Search_Files d flt userID q limit s =
     (if flt 0 then Inl DBError
      else Inr (map (\<lambda>u. \<lparr>sh_type = ''file'', sh_id = u_uuid u, sh_label = u_original u, sh_sublabel = status_text (u_status u)\<rparr>)
        (limit_offset limit 0 (order_desc u_created_at
          (filter (\<lambda>u. u_user u = userID \<and> (matches d q (u_original u) \<or> matches d q (u_filename u))) (uploads s))))))"

definition Search_Collections :: "dialect \<Rightarrow> faults \<Rightarrow> int \<Rightarrow> string \<Rightarrow> int \<Rightarrow> label_db \<Rightarrow> error + search_hit list" where
  "Search_Collections d flt userID q limit s =
     (if flt 0 then Inl DBError
      else Inr (map (\<lambda>c. \<lparr>sh_type = ''collection'', sh_id = show_int (cl_id c), sh_label = cl_name c, sh_sublabel = cl_desc c\<rparr>)
        (limit_offset limit 0 (order_asc cl_name
          (filter (\<lambda>c. cl_by c = userID \<and> (matches d q (cl_name c) \<or> matches d q (cl_desc c))) (lb_colls s))))))"

text \<open>Distinct pairs, by key and then by value.\<close>

definition Search_Tags :: "dialect \<Rightarrow> faults \<Rightarrow> int \<Rightarrow> string \<Rightarrow> int \<Rightarrow> db \<Rightarrow> error + search_hit list" where
  "Search_Tags d flt userID q limit s =
     (if flt 0 then Inl DBError
      else Inr (map (\<lambda>(k, v). \<lparr>sh_type = ''tag'', sh_id = k @ ''='' @ v, sh_label = k @ '': '' @ v, sh_sublabel = []\<rparr>)
        (limit_offset limit 0 (order_asc fst (order_asc snd
          (remdups (filter (\<lambda>(k, v). matches d q k \<or> matches d q v) (user_tags userID s))))))))"

definition Search_Users :: "dialect \<Rightarrow> faults \<Rightarrow> string \<Rightarrow> int \<Rightarrow> acct_db \<Rightarrow> error + search_hit list" where
  "Search_Users d flt q limit s =
     (if flt 0 then Inl DBError
      else Inr (map (\<lambda>u. \<lparr>sh_type = ''user'', sh_id = show_int (us_id u), sh_label = us_email u, sh_sublabel = TrimSpace (us_first u @ '' '' @ us_last u)\<rparr>)
        (limit_offset limit 0 (order_asc us_email
          (filter (\<lambda>u. us_deleted u = None \<and> (matches d q (us_email u) \<or> matches d q (us_first u) \<or> matches d q (us_last u))) (ac_users s))))))"

definition Search_Tokens :: "dialect \<Rightarrow> faults \<Rightarrow> string \<Rightarrow> int \<Rightarrow> acct_db \<Rightarrow> error + search_hit list" where
  "Search_Tokens d flt q limit s =
     (if flt 0 then Inl DBError
      else Inr (map (\<lambda>t. \<lparr>sh_type = ''token'', sh_id = at_uuid t, sh_label = at_name t, sh_sublabel = at_desc t\<rparr>)
        (limit_offset limit 0 (order_desc at_created (filter (\<lambda>t. matches d q (at_name t) \<or> matches d q (at_desc t)) (ac_tokens s))))))"

definition Search_Webhooks :: "dialect \<Rightarrow> faults \<Rightarrow> string \<Rightarrow> int \<Rightarrow> hook_db \<Rightarrow> error + search_hit list" where
  "Search_Webhooks d flt q limit s =
     (if flt 0 then Inl DBError
      else Inr (map (\<lambda>h. \<lparr>sh_type = ''webhook'', sh_id = show_int (wh_id h), sh_label = wh_url h, sh_sublabel = wh_type h\<rparr>)
        (limit_offset limit 0 (order_asc wh_created_at (filter (\<lambda>h. matches d q (wh_url h) \<or> matches d q (wh_type h)) (hooks s))))))"

section \<open>Search by tags\<close>

text \<open>The alias of the i-th join is \<open>t\<close> and the character \<open>i\<close> places after the digit 0: from the eleventh on it is not a name, and the
  statement does not parse. The pattern of the name is not escaped and has no \<open>ESCAPE\<close> clause.\<close>

definition name_like :: "dialect \<Rightarrow> string \<Rightarrow> upload \<Rightarrow> bool" where
  "name_like d q u \<longleftrightarrow>
     q = [] \<or> sql_like d (default_escape d) (''%'' @ q @ ''%'') (u_original u) \<or> sql_like d (default_escape d) (''%'' @ q @ ''%'') (u_filename u)"

definition tagged :: "(upload \<Rightarrow> bool) \<Rightarrow> int \<Rightarrow> int \<Rightarrow> int \<Rightarrow> db \<Rightarrow> (upload \<times> tag_map) list \<times> int" where
  "tagged P userID limit offset s =
     (let n = (if limit \<le> 0 \<or> 100 < limit then 50 else limit);
          rows = filter (\<lambda>u. P u \<and> (0 < userID \<longrightarrow> u_user u = userID)) (uploads s)
      in (map (\<lambda>u. (u, case Tag_GetTags no_faults (u_id u) s of Inl _ \<Rightarrow> [] | Inr m \<Rightarrow> m)) (limit_offset n offset (order_desc u_created_at rows)),
          int (length rows)))"

definition Tag_Search ::
  "dialect \<Rightarrow> faults \<Rightarrow> (string \<times> string) list \<Rightarrow> string \<Rightarrow> int \<Rightarrow> int \<Rightarrow> int \<Rightarrow> db \<Rightarrow> error + (upload \<times> tag_map) list \<times> int" where
  "Tag_Search d flt filters q userID limit offset s =
     (if flt 0 \<or> 10 < length filters then Inl DBError
      else if flt 1 then Inl DBError
      else Inr (tagged (\<lambda>u. list_all (\<lambda>f. f \<in> set (tags_of (u_id u) s)) filters \<and> name_like d q u) userID limit offset s))"

definition SearchWithSelector ::
  "dialect \<Rightarrow> faults \<Rightarrow> requirement list \<Rightarrow> string \<Rightarrow> int \<Rightarrow> int \<Rightarrow> int \<Rightarrow> db \<Rightarrow> error + (upload \<times> tag_map) list \<times> int" where
  "SearchWithSelector d flt rs q userID limit offset s =
     (if flt 0 then Inl DBError
      else if flt 1 then Inl DBError
      else Inr (tagged (\<lambda>u. list_all (tag_holds (tags_of (u_id u) s)) rs \<and> name_like d q u) userID limit offset s))"

section \<open>What is searched is found literally\<close>

lemma like_percent: "esc \<noteq> Some (CHR ''%'') \<Longrightarrow> sql_like d esc (CHR ''%'' # p) s \<longleftrightarrow> (\<exists>x y. s = x @ y \<and> sql_like d esc p y)"
proof (induction s)
  case Nil
  then show ?case by simp
next
  case (Cons c s)
  have "sql_like d esc (CHR ''%'' # p) (c # s) \<longleftrightarrow> sql_like d esc p (c # s) \<or> (\<exists>x y. s = x @ y \<and> sql_like d esc p y)"
    using Cons by simp
  also have "\<dots> \<longleftrightarrow> (\<exists>x y. c # s = x @ y \<and> sql_like d esc p y)" by (auto simp: Cons_eq_append_conv)
  finally show ?case .
qed

lemma like_escaped:
  "sql_like d (Some backslash) (escape_like q @ p) s \<longleftrightarrow>
     (\<exists>x y. s = x @ y \<and> map (like_fold d) x = map (like_fold d) q \<and> sql_like d (Some backslash) p y)"
proof (induction q arbitrary: s)
  case Nil
  then show ?case by (simp add: escape_like_def)
next
  case (Cons c q)
  have one: "sql_like d (Some backslash) (escape_like (c # q) @ p) s \<longleftrightarrow>
      (case s of [] \<Rightarrow> False | y # s' \<Rightarrow> like_fold d c = like_fold d y \<and> sql_like d (Some backslash) (escape_like q @ p) s')" for s
    by (auto simp: escape_like_def split: list.split)
  show ?case
  proof (cases s)
    case Nil
    then show ?thesis by (simp add: one del: sql_like.simps)
  next
    case s: (Cons y s')
    have "(\<exists>x z. y # s' = x @ z \<and> map (like_fold d) x = map (like_fold d) (c # q) \<and> sql_like d (Some backslash) p z) \<longleftrightarrow>
        like_fold d c = like_fold d y \<and> (\<exists>x z. s' = x @ z \<and> map (like_fold d) x = map (like_fold d) q \<and> sql_like d (Some backslash) p z)"
      by (auto simp: Cons_eq_append_conv map_eq_Cons_conv) (metis append_Cons list.simps(9))+
    then show ?thesis by (simp add: one s Cons.IH del: sql_like.simps)
  qed
qed

lemma index_sub_iff: "index_sub pat s \<noteq> None \<longleftrightarrow> (\<exists>x y. s = x @ pat @ y)"
proof (induction s)
  case Nil
  then show ?case by simp
next
  case (Cons c s)
  have "(\<exists>x y. c # s = x @ pat @ y) \<longleftrightarrow> (\<exists>y. c # s = pat @ y) \<or> (\<exists>x y. s = x @ pat @ y)"
    by (auto simp: Cons_eq_append_conv)
  moreover have "(\<exists>y. c # s = pat @ y) \<longleftrightarrow> take (length pat) (c # s) = pat"
    by (metis append_eq_conv_conj append_take_drop_id)
  ultimately show ?case using Cons.IH by auto
qed

text \<open>The global search finds a text exactly when the query occurs in it, character by character, whatever wildcards and
  backslashes the query holds (without case on SQLite); and what it returns belongs to the caller.\<close>

theorem search_is_literal:
  "matches d q s \<longleftrightarrow> index_sub (map (like_fold d) q) (map (like_fold d) s) \<noteq> None"
proof -
  have e: "Some backslash \<noteq> Some (CHR ''%'')" by (simp add: backslash_def)
  have any: "sql_like d (Some backslash) ''%'' y = True" for y using like_percent [OF e, of d "[]" y] by (metis append_Nil2 sql_like.simps(1))
  have "matches d q s \<longleftrightarrow> (\<exists>a t. s = a @ t \<and> sql_like d (Some backslash) (escape_like q @ ''%'') t)"
    unfolding matches_def likePattern_def using like_percent [OF e, of d "escape_like q @ ''%''" s] by (simp only: append_Cons append_Nil)
  also have "\<dots> \<longleftrightarrow> (\<exists>a x y. s = a @ x @ y \<and> map (like_fold d) x = map (like_fold d) q)"
    unfolding like_escaped any by blast
  also have "\<dots> \<longleftrightarrow> (\<exists>a y. map (like_fold d) s = a @ map (like_fold d) q @ y)"
  proof
    assume "\<exists>a x y. s = a @ x @ y \<and> map (like_fold d) x = map (like_fold d) q"
    then show "\<exists>a y. map (like_fold d) s = a @ map (like_fold d) q @ y" by (metis map_append)
  next
    assume "\<exists>a y. map (like_fold d) s = a @ map (like_fold d) q @ y"
    then obtain us vs y where "s = us @ vs" "map (like_fold d) vs = map (like_fold d) q @ y" by (metis map_eq_append_conv)
    moreover then obtain x z where "vs = x @ z" "map (like_fold d) x = map (like_fold d) q" by (metis map_eq_append_conv)
    ultimately show "\<exists>a x y. s = a @ x @ y \<and> map (like_fold d) x = map (like_fold d) q" by blast
  qed
  finally show ?thesis by (simp only: index_sub_iff)
qed

lemma search_files_own:
  "Search_Files d flt userID q limit s = Inr hs \<Longrightarrow> h \<in> set hs \<Longrightarrow> \<exists>u \<in> set (uploads s). u_user u = userID \<and> sh_id h = u_uuid u"
  by (fastforce simp: Search_Files_def split: if_splits dest!: subsetD [OF set_limit_offset])

text \<open>The other search treats the query as a pattern: an underscore finds every name.\<close>

lemma tag_search_underscore: "name_like d ''_'' u \<longleftrightarrow> u_original u \<noteq> [] \<or> u_filename u \<noteq> []"
proof -
  have "sql_like d (default_escape d) ''%_%'' s \<longleftrightarrow> s \<noteq> []" for s
  proof -
    have e: "default_escape d \<noteq> Some (CHR ''%'')" "default_escape d \<noteq> Some (CHR ''_'')"
      by (cases d; simp add: default_escape_def backslash_def)+
    have any: "sql_like d (default_escape d) ''%'' y = True" for y using like_percent [OF e(1), of d "[]" y] by (metis append_Nil2 sql_like.simps(1))
    have "sql_like d (default_escape d) ''_%'' y \<longleftrightarrow> y \<noteq> []" for y
      by (cases y) (simp_all only: sql_like.simps(2) [of _ _ "CHR ''_''"] e if_False list.case any, simp_all)
    then show ?thesis using like_percent [OF e(1), of d "''_%''" s] by (metis append_is_Nil_conv append_Nil)
  qed
  then show ?thesis by (simp add: name_like_def)
qed

lemma many_filters_fail: "10 < length filters \<Longrightarrow> Tag_Search d flt filters q userID limit offset s = Inl DBError"
  by (simp add: Tag_Search_def)

end
