(* ===== verification/Upload_Handlers.thy ===== *)
theory Upload_Handlers
  imports Labels Account_Handlers Quota Wallet_Service Cache_Sweep
begin

text \<open>
  \<open>internal/handlers/uploads.go\<close>, the requests on uploads except the download: accepting a file, listing, reading,
  quoting, cancelling, retrying and deleting. \<open>portal\<close> puts the tables, the logs, the settings, the webhooks that were
  fired and the files of the instance together; the temporary files live in the file system of the cache store.

  A multipart body is given by the number of bytes its parser reads and the form it finds (\<open>None\<close>: not a form).
  Removing a temporary file that was just written does not fail. \<open>strings.ToLower\<close> is taken on ASCII; the decoders of
  a JSON array of strings and of a pagination cursor are parameters.
\<close>

section \<open>State and requests\<close>

record portal =
  pt_site :: site
  pt_labels :: label_db
  pt_store :: store
  pt_rx :: rx_cache
  pt_hooks :: hook_db
  pt_fired :: "(webhook \<times> payload) list"

abbreviation pt_db :: "portal \<Rightarrow> db" where
  "pt_db p \<equiv> lb_db (pt_labels p)"

definition set_db :: "db \<Rightarrow> portal \<Rightarrow> portal" where
  "set_db d p = p\<lparr>pt_labels := (pt_labels p)\<lparr>lb_db := d\<rparr>\<rparr>"

definition write_file :: "string \<Rightarrow> int \<Rightarrow> portal \<Rightarrow> portal" where
  "write_file path n p = p\<lparr>pt_store := (pt_store p)\<lparr>s_files := put path (Regular n) (s_files (pt_store p))\<rparr>\<rparr>"

definition remove_file :: "string \<Rightarrow> portal \<Rightarrow> portal" where
  "remove_file path p = p\<lparr>pt_store := (pt_store p)\<lparr>s_files := del path (s_files (pt_store p))\<rparr>\<rparr>"

definition pt_audit :: "faults \<Rightarrow> time \<Rightarrow> incoming \<Rightarrow> string \<Rightarrow> string \<Rightarrow> int \<Rightarrow> string \<Rightarrow> portal \<Rightarrow> portal" where
  "pt_audit flt now r event severity userID detail p =
     p\<lparr>pt_site := auditEvent flt now r event severity (Some userID) detail (pt_site p)\<rparr>"

definition pt_access :: "faults \<Rightarrow> time \<Rightarrow> incoming \<Rightarrow> string \<Rightarrow> string \<Rightarrow> int \<Rightarrow> string \<Rightarrow> portal \<Rightarrow> portal" where
  "pt_access flt now r event severity userID detail p =
     p\<lparr>pt_site := fileAccessEvent flt now r event severity (Some userID) detail (pt_site p)\<rparr>"

abbreviation pt_setting :: "faults \<Rightarrow> string \<Rightarrow> portal \<Rightarrow> error + string" where
  "pt_setting flt key p \<equiv> Settings_Get flt key (st_settings (pt_site p))"

record upload_env =
  ue_temp_dir :: string
  ue_json_array :: "string \<Rightarrow> string list option"
  ue_rx :: rx_compiler
  ue_stamp :: "time \<Rightarrow> string"

record file_part =
  fp_name :: string
  fp_type :: string
  fp_size :: int

text \<open>\<open>uf_tags\<close>: the tags field as a map, \<open>None\<close> where it decodes as neither of the two shapes.\<close>

record upload_form =
  uf_file :: "file_part option"
  uf_visibility :: string
  uf_tags :: "tag_map option"

record upload_request =
  ur_body :: int
  ur_form :: "upload_form option"

section \<open>Names and content types\<close>

text \<open>\<open>filepath.Base\<close> and \<open>filepath.Ext\<close>.\<close>

definition path_Base :: "string \<Rightarrow> string" where
  "path_Base path =
     (if path = [] then ''.''
      else let cut = dropWhile (\<lambda>c. c = CHR ''/'') (rev path); name = rev (takeWhile (\<lambda>c. c \<noteq> CHR ''/'') cut)
           in if name = [] then ''/'' else name)"

definition path_Ext :: "string \<Rightarrow> string" where
  "path_Ext path =
     (let tail = takeWhile (\<lambda>c. c \<noteq> CHR ''/'') (rev path); ext = takeWhile (\<lambda>c. c \<noteq> CHR ''.'') tail
      in if CHR ''.'' \<in> set tail then CHR ''.'' # rev ext else [])"

definition clean_filename :: "string \<Rightarrow> string" where
  "clean_filename name = filter (\<lambda>c. c \<noteq> CHR 0x00) (path_Base name)"

definition jsonArrayToCSV :: "upload_env \<Rightarrow> string \<Rightarrow> string" where
  "jsonArrayToCSV ue s = (case ue_json_array ue s of None \<Rightarrow> [] | Some arr \<Rightarrow> join '','' arr)"

definition default_types :: string where
  "default_types = ''image/*,application/pdf,text/*,application/json,application/zip,application/gzip,application/x-tar,video/*,audio/*,application/octet-stream''"

text \<open>One tier of the override chain: \<open>None\<close> where it does not restrict.\<close>

definition tier_types :: "upload_env \<Rightarrow> string option \<Rightarrow> string option" where
  "tier_types ue types =
     (case types of
        None \<Rightarrow> None
      | Some s \<Rightarrow> if s \<noteq> [] \<and> jsonArrayToCSV ue s \<noteq> [] then Some (jsonArrayToCSV ue s) else None)"

definition effectiveAllowlist :: "upload_env \<Rightarrow> token_row option \<Rightarrow> user \<Rightarrow> error + string \<Rightarrow> string" where
  "effectiveAllowlist ue tok usr setting =
     (case tier_types ue (Option.bind tok at_types) of
        Some csv \<Rightarrow> csv
      | None \<Rightarrow>
          (case tier_types ue (us_types usr) of
             Some csv \<Rightarrow> csv
           | None \<Rightarrow> (case setting of Inl _ \<Rightarrow> default_types | Inr v \<Rightarrow> if v \<noteq> [] then v else default_types)))"

definition media_type :: "string \<Rightarrow> string" where
  "media_type ct =
     (let c = map lower_char (TrimSpace ct)
      in if CHR '';'' \<in> set c then TrimSpace (takeWhile (\<lambda>x. x \<noteq> CHR '';'') c) else c)"

definition type_pattern :: "string \<Rightarrow> string \<Rightarrow> bool" where
  "type_pattern ct pattern \<longleftrightarrow>
     pattern \<noteq> [] \<and>
     (pattern = ct \<or> drop (length pattern - 2) pattern = ''/*'' \<and> take (length pattern - 1) ct = butlast pattern)"

definition matchContentType :: "string \<Rightarrow> string \<Rightarrow> bool" where
  "matchContentType ct allowlist \<longleftrightarrow>
     TrimSpace allowlist \<noteq> [] \<and>
     list_ex (\<lambda>pat. type_pattern (media_type ct) (map lower_char (TrimSpace pat))) (split_on (CHR '','') allowlist)"

section \<open>Accepting a file\<close>

text \<open>The checks before the body is read. Faults: 0 the wallet, 1 to 3 the settings, 4 the counts.\<close>

definition queue_full :: "faults \<Rightarrow> int \<Rightarrow> db \<Rightarrow> bool" where
  "queue_full flt maxQueued s =
     (case CountByStatus flt s of
        Inl _ \<Rightarrow> False
      | Inr counts \<Rightarrow> maxQueued \<le> (case counts Queued of None \<Rightarrow> 0 | Some n \<Rightarrow> n) + (case counts Processing of None \<Rightarrow> 0 | Some n \<Rightarrow> n))"

definition upload_gates :: "faults \<Rightarrow> portal \<Rightarrow> reply option" where
  "upload_gates flt p =
     (case GetDefault flt (pt_db p) of
        Inl _ \<Rightarrow> Some (Reply 503 ''No wallet configured'')
      | Inr _ \<Rightarrow>
          if pt_setting (later 1 flt) ''uploads_paused'' p = Inr ''true''
          then Some (Reply 503 ''Uploads are temporarily paused due to low disk space'')
          else if pt_setting (later 2 flt) ''antd_unavailable'' p = Inr ''true''
          then Some (Reply 503 ''The Autonomi network is currently unreachable, please try again shortly'')
          else case pt_setting (later 3 flt) ''max_queued_uploads'' p of
                 Inl _ \<Rightarrow> None
               | Inr v \<Rightarrow>
                   (case Atoi v of
                      None \<Rightarrow> None
                    | Some n \<Rightarrow>
                        if 0 < n \<and> queue_full (later 4 flt) n (pt_db p)
                        then Some (Reply 429 ''Upload queue is full, please try again later'') else None))"

definition system_max :: "error + string \<Rightarrow> int" where
  "system_max v =
     (case v of Inl _ \<Rightarrow> 10737418240
      | Inr t \<Rightarrow> (case Atoi t of None \<Rightarrow> 10737418240 | Some n \<Rightarrow> if 0 < n then n else 10737418240))"

definition effective_max :: "token_row option \<Rightarrow> user \<Rightarrow> int \<Rightarrow> int" where
  "effective_max tok usr sys =
     (case Option.bind tok at_max of
        Some m \<Rightarrow>
          if 0 < m then (if m < sys then m else sys)
          else (case us_max usr of Some n \<Rightarrow> if 0 < n \<and> n < sys then n else sys | None \<Rightarrow> sys)
      | None \<Rightarrow> (case us_max usr of Some n \<Rightarrow> if 0 < n \<and> n < sys then n else sys | None \<Rightarrow> sys))"

record accepted =
  ac_original :: string
  ac_ctype :: string
  ac_vis :: visibility
  ac_tags :: tag_map
  ac_bytes :: int

text \<open>From the parsed body to the file that may be stored. Fault 8 is the setting of the allowlist.\<close>

definition read_form :: "upload_env \<Rightarrow> faults \<Rightarrow> int \<Rightarrow> token_row option \<Rightarrow> user \<Rightarrow> upload_request \<Rightarrow> portal \<Rightarrow> reply + accepted" where
  "read_form ue flt maxSize tok usr rq p =
     (if maxSize < ur_body rq then Inl (Reply 413 ''file exceeds maximum upload size'')
      else case ur_form rq of
             None \<Rightarrow> Inl (Reply 400 ''invalid multipart form'')
           | Some form \<Rightarrow>
          (case uf_file form of
             None \<Rightarrow> Inl (Reply 400 ''file field is required'')
           | Some part \<Rightarrow>
               let vis = (if uf_visibility form = [] then ''private'' else uf_visibility form);
                   original = clean_filename (fp_name part);
                   ctype = (if fp_type part = [] then ''application/octet-stream'' else fp_type part)
               in if vis \<noteq> ''public'' \<and> vis \<noteq> ''private'' then Inl (Reply 400 ''visibility must be public or private'')
                  else case uf_tags form of
                         None \<Rightarrow> Inl (Reply 400 ''tags must be a JSON object of key to string or string array'')
                       | Some tags \<Rightarrow>
                           if original = [] \<or> original = ''.'' then Inl (Reply 400 ''invalid filename'')
                           else if \<not> matchContentType ctype (effectiveAllowlist ue tok usr (pt_setting (later 8 flt) ''allowed_upload_content_types'' p))
                           then Inl (Reply 415 ''file type not allowed'')
                           else Inr \<lparr>ac_original = original, ac_ctype = ctype, ac_vis = (if vis = ''public'' then Public else Private),
                                     ac_tags = tags, ac_bytes = fp_size part\<rparr>))"

definition merge_tags :: "tag_map \<Rightarrow> tag_map \<Rightarrow> tag_map" where
  "merge_tags own auto = own @ filter (\<lambda>(k, _). k \<notin> fst ` set own) auto"

text \<open>After the row is in: the rules (faults 13 and 14), the tags (from 20), the webhooks (15), the audit row (16, 17). None
  of them changes the answer.\<close>

definition announce ::
  "upload_env \<Rightarrow> faults \<Rightarrow> time \<Rightarrow> incoming \<Rightarrow> int \<Rightarrow> accepted \<Rightarrow> upload \<Rightarrow> portal \<Rightarrow> portal" where
  "announce ue flt now r userID a u p =
     (let (auto, rx) = EvaluateRules (ue_rx ue) (later 13 flt)
              \<lparr>ff_name = ac_original a, ff_type = ac_ctype a, ff_size = ac_bytes a, ff_visibility = visibility_text (ac_vis a)\<rparr>
              (pt_labels p) (pt_rx p);
          tags = merge_tags (ac_tags a) (case auto of Inl _ \<Rightarrow> [] | Inr m \<Rightarrow> m);
          p1 = (if tags = [] then p\<lparr>pt_rx := rx\<rparr>
                else set_db (snd (Tag_SetTags (later 20 flt) (u_id u) tags (pt_db p))) (p\<lparr>pt_rx := rx\<rparr>));
          p2 = p1\<lparr>pt_fired := pt_fired p1 @ FireUploadEvent (later 15 flt) (ue_stamp ue now) ''queued'' u (pt_hooks p1)\<rparr>
      in pt_audit (later 16 flt) now r ''file_uploaded'' ''info'' userID
           (''uuid='' @ u_uuid u @ '' filename='' @ ac_original a @ '' size='' @ show_int (ac_bytes a) @ '' visibility='' @ visibility_text (ac_vis a)) p2)"

definition request_token :: "faults \<Rightarrow> int \<Rightarrow> portal \<Rightarrow> token_row option" where
  "request_token flt tokenID p =
     (if tokenID = 0 then None
      else case Token_GetByID flt tokenID (st_acct (pt_site p)) of Inl _ \<Rightarrow> None | Inr t \<Rightarrow> Some t)"

text \<open>Faults: 0 to 4 the gates, 5 the size setting, 6 the token, 7 the user, 8 the allowlist, 9 \<open>os.Create\<close>, 10
  \<open>io.Copy\<close>, 11 and 12 the INSERT and its read-back, then those of \<open>announce\<close>, 18 and 19 the audit row of a refusal;
  \<open>qflt\<close> is for the quota check. \<open>fid\<close> and \<open>uid\<close> are the random names of the file and of the row. A reply of 202
  carries the uuid.\<close>

definition CreateUpload ::
  "upload_env \<Rightarrow> faults \<Rightarrow> (nat \<Rightarrow> faults) \<Rightarrow> time \<Rightarrow> incoming \<Rightarrow> string \<Rightarrow> string \<Rightarrow> int \<Rightarrow> int \<Rightarrow> upload_request \<Rightarrow> portal \<Rightarrow> reply \<times> portal" where
  "CreateUpload ue flt qflt now r fid uid userID tokenID rq p =
     (case upload_gates flt p of
        Some refused \<Rightarrow> (refused, p)
      | None \<Rightarrow>
          let sys = system_max (pt_setting (later 5 flt) ''max_upload_size_bytes'' p);
              tok = request_token (later 6 flt) tokenID p;
              tID = (if tokenID = 0 then None else Some tokenID)
          in case User_GetByID (later 7 flt) userID (st_acct (pt_site p)) of
               Inl _ \<Rightarrow> (Reply 500 ''failed to load user'', p)
             | Inr usr \<Rightarrow>
                 let maxSize = effective_max tok usr sys
                 in case read_form ue flt maxSize tok usr rq p of
                      Inl refused \<Rightarrow> (refused, p)
                    | Inr a \<Rightarrow>
                        let name = fid @ path_Ext (ac_original a); path = ue_temp_dir ue @ ''/'' @ name
                        in if flt 9 then (Reply 500 ''failed to create temp file'', p)
                           else if flt 10 then (Reply 500 ''failed to save file'', remove_file path p)
                           else let p1 = write_file path (ac_bytes a) p
                                in if maxSize < ac_bytes a then (Reply 413 ''file exceeds maximum upload size'', remove_file path p1)
                                   else case CheckUserQuota qflt userID tID (ac_bytes a) (pt_db p1) of
                                          Inl _ \<Rightarrow>
                                            (Reply 403 ''quota exceeded'',
                                             pt_audit (later 18 flt) now r ''file_upload_denied'' ''warn'' userID
                                               (''reason=quota_exceeded filename='' @ ac_original a @ '' size='' @ show_int (ac_bytes a))
                                               (remove_file path p1))
                                        | Inr _ \<Rightarrow>
                                            (case Upload_Create (later 11 flt) now uid userID tID name (ac_original a) (ac_bytes a)
                                                    (ac_ctype a) (ac_vis a) path None (pt_db p1) of
                                               (Inl _, d) \<Rightarrow> (Reply 500 ''failed to queue upload'', remove_file path (set_db d p1))
                                             | (Inr u, d) \<Rightarrow> (Reply 202 (u_uuid u), announce ue flt now r userID a u (set_db d p1))))"

section \<open>Listing and reading\<close>

record cursor =
  cu_id :: int
  cu_dir :: string

record list_query =
  lq_limit :: string
  lq_offset :: string
  lq_cursor :: string
  lq_sort :: string
  lq_status :: string
  lq_from :: "time option"
  lq_to :: "time option"
  lq_dates :: bool

record upload_page =
  up_rows :: "upload list"
  up_total :: "int option"
  up_next :: "cursor option"
  up_prev :: "cursor option"

text \<open>\<open>strconv.Atoi\<close> with its error dropped.\<close>

definition atoi_or_zero :: "string \<Rightarrow> int" where
  "atoi_or_zero s = (case Atoi s of None \<Rightarrow> 0 | Some n \<Rightarrow> n)"

definition cursor_page :: "int \<Rightarrow> upload list \<Rightarrow> upload_page" where
  "cursor_page limit rows =
     (let hasMore = limit < int (length rows); shown = (if hasMore then take (nat limit) rows else rows)
      in \<lparr>up_rows = shown, up_total = None,
          up_next = (if hasMore \<and> shown \<noteq> [] then Some \<lparr>cu_id = u_id (List.last shown), cu_dir = ''next''\<rparr> else None),
          up_prev = (if shown \<noteq> [] then Some \<lparr>cu_id = u_id (hd shown), cu_dir = ''prev''\<rparr> else None)\<rparr>)"

definition sort_parts :: "string \<Rightarrow> string \<times> string" where
  "sort_parts s =
     (if CHR '':'' \<in> set s then (takeWhile (\<lambda>c. c \<noteq> CHR '':'') s, tl (dropWhile (\<lambda>c. c \<noteq> CHR '':'') s)) else (s, []))"

text \<open>\<open>decode\<close> is \<open>DecodeCursor\<close>; \<open>lq_dates\<close> says that one of the date parameters is present, \<open>lq_from\<close> and
  \<open>lq_to\<close> are their instants where they parse.\<close>

definition ListUploads :: "(string \<Rightarrow> cursor option) \<Rightarrow> dialect \<Rightarrow> faults \<Rightarrow> int \<Rightarrow> list_query \<Rightarrow> db \<Rightarrow> reply + upload_page" where
  "ListUploads decode d flt userID q s =
     (let limit = atoi_or_zero (lq_limit q); offset = atoi_or_zero (lq_offset q)
      in if lq_cursor q \<noteq> []
         then (let n = (if limit \<le> 0 then 50 else limit)
               in case decode (lq_cursor q) of
                    None \<Rightarrow> Inl (Reply 400 ''invalid cursor'')
                  | Some c \<Rightarrow>
                      (case ListByUserCursor flt userID (n + 1) (cu_id c) (cu_dir c \<noteq> ''prev'') s of
                         Inl _ \<Rightarrow> Inl (Reply 500 ''failed to list uploads'')
                       | Inr rows \<Rightarrow> Inr (cursor_page n rows)))
         else if lq_sort q \<noteq> [] \<or> lq_status q \<noteq> [] \<or> lq_dates q
         then (case ListByUserFiltered d flt \<lparr>o_user = userID, o_limit = limit, o_offset = offset, o_sort_by = fst (sort_parts (lq_sort q)),
                      o_sort_order = snd (sort_parts (lq_sort q)), o_status = lq_status q, o_from = lq_from q, o_to = lq_to q\<rparr> s of
                 Inl _ \<Rightarrow> Inl (Reply 500 ''failed to list uploads'')
               | Inr (rows, n) \<Rightarrow> Inr \<lparr>up_rows = rows, up_total = Some n, up_next = None, up_prev = None\<rparr>)
         else (case ListByUser flt userID limit offset s of
                 Inl _ \<Rightarrow> Inl (Reply 500 ''failed to list uploads'')
               | Inr (rows, n) \<Rightarrow>
                   Inr \<lparr>up_rows = rows, up_total = Some n,
                        up_next = (if rows \<noteq> [] then Some \<lparr>cu_id = u_id (List.last rows), cu_dir = ''next''\<rparr> else None), up_prev = None\<rparr>))"

text \<open>The lookup every request on one upload starts with.\<close>

definition own_upload :: "faults \<Rightarrow> int \<Rightarrow> string \<Rightarrow> db \<Rightarrow> reply + upload" where
  "own_upload flt userID uuid s =
     (case Upload_GetByUUID flt uuid s of
        Inl e \<Rightarrow> Inl (if e = ErrUploadNotFound then Reply 404 ''upload not found'' else Reply 500 ''failed to get upload'')
      | Inr u \<Rightarrow> if u_user u \<noteq> userID then Inl (Reply 404 ''upload not found'') else Inr u)"

definition GetUpload :: "faults \<Rightarrow> int \<Rightarrow> string \<Rightarrow> db \<Rightarrow> reply + upload" where
  "GetUpload flt userID uuid s = own_upload flt userID uuid s"

section \<open>A quote\<close>

text \<open>Faults: 0 \<open>os.Create\<close>, 1 \<open>io.Copy\<close>. \<open>cost\<close> is the daemon's answer for the file and its visibility.\<close>

definition QuoteUpload ::
  "upload_env \<Rightarrow> (int \<Rightarrow> bool \<Rightarrow> error + string) \<Rightarrow> faults \<Rightarrow> string \<Rightarrow> upload_request \<Rightarrow> portal \<Rightarrow> reply \<times> portal" where
  "QuoteUpload ue cost flt fid rq p =
     (if 10737418240 < ur_body rq then (Reply 400 ''file too large or invalid form'', p)
      else case ur_form rq of
             None \<Rightarrow> (Reply 400 ''file too large or invalid form'', p)
           | Some form \<Rightarrow>
          (case uf_file form of
             None \<Rightarrow> (Reply 400 ''file field required'', p)
           | Some part \<Rightarrow>
               let vis = (if uf_visibility form = [] then ''private'' else uf_visibility form);
                   path = ue_temp_dir ue @ ''/quote-'' @ fid
               in if flt 0 then (Reply 500 ''failed to create temp file'', p)
                  else if flt 1 then (Reply 500 ''failed to save file'', remove_file path p)
                  else let p1 = remove_file path (write_file path (fp_size part) p)
                       in case cost (fp_size part) (vis = ''public'') of
                            Inl _ \<Rightarrow> (Reply 502 ''cost estimation failed'', p1)
                          | Inr est \<Rightarrow> (Reply 200 est, p1)))"

section \<open>Cancelling, retrying, deleting\<close>

definition owner_request ::
  "(faults \<Rightarrow> int \<Rightarrow> db \<Rightarrow> (error + unit) \<times> db) \<Rightarrow> string \<Rightarrow> faults \<Rightarrow> int \<Rightarrow> string \<Rightarrow> db \<Rightarrow> reply \<times> db" where
  "owner_request act answer flt userID uuid s =
     (case own_upload flt userID uuid s of
        Inl refused \<Rightarrow> (refused, s)
      | Inr u \<Rightarrow> (case act (later 1 flt) (u_id u) s of
                   (Inl _, s') \<Rightarrow> (Reply 409 ''conflict'', s')
                 | (Inr _, s') \<Rightarrow> (Reply 200 answer, s')))"

definition CancelUpload :: "faults \<Rightarrow> time \<Rightarrow> int \<Rightarrow> string \<Rightarrow> db \<Rightarrow> reply \<times> db" where
  "CancelUpload flt now userID uuid s = owner_request (\<lambda>f i. Upload_Cancel f now i) ''upload cancelled'' flt userID uuid s"

definition RetryUpload :: "faults \<Rightarrow> time \<Rightarrow> int \<Rightarrow> string \<Rightarrow> db \<Rightarrow> reply \<times> db" where
  "RetryUpload flt now userID uuid s = owner_request (\<lambda>f i. Upload_Retry f now i) ''upload requeued'' flt userID uuid s"

definition ForceRetryUpload :: "faults \<Rightarrow> int \<Rightarrow> string \<Rightarrow> db \<Rightarrow> reply \<times> db" where
  "ForceRetryUpload flt userID uuid s = owner_request ForceRetry ''upload retry forced'' flt userID uuid s"

text \<open>The purge of every cache key: the first loop stops at an error, the second goes on. \<open>k\<close> numbers the removals.\<close>

fun drop_until_error :: "faults \<Rightarrow> string list \<Rightarrow> store \<Rightarrow> bool \<times> store" where
  "drop_until_error flt [] st = (True, st)"
| "drop_until_error flt (k # ks) st =
     (case Store_Drop flt k st of
        (Some _, st1) \<Rightarrow> (False, st1)
      | (None, st1) \<Rightarrow> drop_until_error (later 1 flt) ks st1)"

fun drop_all :: "faults \<Rightarrow> string list \<Rightarrow> store \<Rightarrow> store" where
  "drop_all flt [] st = st"
| "drop_all flt (k # ks) st = drop_all (later 1 flt) ks (snd (Store_Drop flt k st))"

text \<open>Faults: 0 the read, 1 and 2 the audit row, from 3 the row delete; \<open>f1\<close> and \<open>f2\<close> are for the two purges. \<open>mid\<close> is
  what other requests do to the store between the first purge and the end of the row delete (a download that promotes
  the bytes again). \<open>cached\<close>: the instance has a cache.\<close>

definition DeleteUpload ::
  "bool \<Rightarrow> faults \<Rightarrow> faults \<Rightarrow> faults \<Rightarrow> (store \<Rightarrow> store) \<Rightarrow> time \<Rightarrow> incoming \<Rightarrow> int \<Rightarrow> string \<Rightarrow> portal \<Rightarrow> reply \<times> portal" where
  "DeleteUpload cached flt f1 f2 mid now r userID uuid p =
     (case Upload_GetByUUID flt uuid (pt_db p) of
        Inl e \<Rightarrow> (if e = ErrUploadNotFound then Reply 404 ''upload not found'' else Reply 500 ''failed to get upload'', p)
      | Inr u \<Rightarrow>
          if u_user u \<noteq> userID
          then (Reply 404 ''upload not found'',
                pt_audit (later 1 flt) now r ''file_delete_denied'' ''warn'' userID (''uuid='' @ uuid @ '' reason=not_owner'') p)
          else let keys = CacheKeys u;
                   (purged, st1) = (if cached then drop_until_error f1 keys (pt_store p) else (True, pt_store p));
                   p1 = p\<lparr>pt_store := st1\<rparr>
               in if \<not> purged
                  then (Reply 500 ''failed to purge cached copy; upload not deleted'',
                        pt_audit (later 1 flt) now r ''file_delete_purge_failed'' ''warn'' userID (''uuid='' @ uuid) p1)
                  else case Upload_Delete (later 3 flt) now (u_id u) (pt_db p1) of
                         (Inl _, d) \<Rightarrow> (Reply 409 ''conflict'', set_db d p1)
                       | (Inr _, d) \<Rightarrow>
                           let st2 = mid st1; st3 = (if cached then drop_all f2 keys st2 else st2)
                           in (Reply 200 ''upload deleted'',
                               pt_audit (later 1 flt) now r ''file_deleted'' ''info'' userID
                                 (''uuid='' @ u_uuid u @ '' filename='' @ u_original u) (set_db d (p1\<lparr>pt_store := st3\<rparr>))))"

section \<open>An upload is queued whole or not at all\<close>

lemma gates_refuse: "upload_gates flt p = Some rp \<Longrightarrow> rp_status rp \<noteq> 202"
  by (auto simp: upload_gates_def split: sum.splits option.splits if_splits)

lemma read_form_refuses: "read_form ue flt n tok usr rq p = Inl rp \<Longrightarrow> rp_status rp \<noteq> 202"
  by (auto simp: read_form_def Let_def split: option.splits if_splits)

lemma read_form_type:
  "read_form ue flt n tok usr rq p = Inr a \<Longrightarrow>
     matchContentType (ac_ctype a) (effectiveAllowlist ue tok usr (pt_setting (later 8 flt) ''allowed_upload_content_types'' p))"
  by (auto simp: read_form_def Let_def split: option.splits if_splits)

lemma ext_no_slash: "CHR ''/'' \<notin> set (path_Ext s)"
  by (auto simp: path_Ext_def Let_def dest!: set_takeWhileD)

lemma del_absent: "map_of xs k = None \<Longrightarrow> del k xs = xs"
  by (force simp: del_def map_of_eq_None_iff intro!: filter_True)

lemma remove_written:
  assumes "file_at (pt_store p) path = None"
  shows "remove_file path (write_file path n p) = p" and "remove_file path p = p"
  using assms del_absent [of "s_files (pt_store p)" path]
  by (auto simp: remove_file_def write_file_def file_at_def put_def del_def)

lemma audit_keeps [simp]:
  "pt_labels (pt_audit flt now r e sv i d p) = pt_labels p" "pt_store (pt_audit flt now r e sv i d p) = pt_store p"
  "pt_fired (pt_audit flt now r e sv i d p) = pt_fired p"
  by (simp_all add: pt_audit_def)

lemma SetTags_uploads: "uploads (snd (Tag_SetTags flt i tags s)) = uploads s"
  by (simp add: Tag_SetTags_def Let_def)

lemma announce_keeps:
  "uploads (pt_db (announce ue flt now r i a u p)) = uploads (pt_db p)" "pt_store (announce ue flt now r i a u p) = pt_store p"
  by (auto simp: announce_def set_db_def SetTags_uploads Let_def split: prod.splits)

lemma Upload_Create_cases:
  assumes "Upload_Create flt now uid userID tID name original bytes ctype vis path est s = (res, s')" and "\<not> flt 1" and "db_ok s"
  shows "(\<exists>e. res = Inl e \<and> s' = s) \<or>
    (\<exists>u. u = new_upload (upload_seq s + 1) uid now userID tID name original bytes ctype vis path est \<and> res = Inr u \<and>
       s' = s\<lparr>uploads := uploads s @ [u], upload_seq := upload_seq s + 1\<rparr>)"
proof -
  let ?u = "new_upload (upload_seq s + 1) uid now userID tID name original bytes ctype vis path est"
  have "upload_seq s + 1 \<notin> u_id ` set (uploads s)" using assms(3) keyed_fresh [of u_id "upload_seq s" "uploads s"] by (simp add: db_ok_def)
  then have "find (\<lambda>u. u_id u = upload_seq s + 1) (uploads s) = None" by (force simp: find_None_iff)
  then have "find (\<lambda>u. u_id u = upload_seq s + 1) (uploads s @ [?u]) = Some ?u"
    by (simp add: find_append new_upload_def)
  then have "Upload_GetByID (later 1 flt) (upload_seq s + 1) (s\<lparr>uploads := uploads s @ [?u], upload_seq := upload_seq s + 1\<rparr>) = Inr ?u"
    using assms(2) by (simp add: Upload_GetByID_def upload_row_def)
  then show ?thesis using assms(1) by (auto simp: Upload_Create_def Let_def split: if_splits)
qed

text \<open>What a queued upload looks like: \<open>limit\<close> and \<open>types\<close> are the restrictions that hold for the request.\<close>

definition queued_row :: "upload_env \<Rightarrow> int \<Rightarrow> string \<Rightarrow> int \<Rightarrow> string \<Rightarrow> portal \<Rightarrow> upload \<Rightarrow> bool" where
  "queued_row ue userID uid limit types p u \<longleftrightarrow>
     u_uuid u = uid \<and> u_user u = userID \<and> u_status u = Queued \<and> u_size u \<le> limit \<and> matchContentType (u_ctype u) types \<and>
     CHR ''/'' \<notin> set (u_filename u) \<and> u_temp u = Some (ue_temp_dir ue @ ''/'' @ u_filename u) \<and>
     file_at (pt_store p) (ue_temp_dir ue @ ''/'' @ u_filename u) = Some (Regular (u_size u))"

definition untouched :: "portal \<Rightarrow> portal \<Rightarrow> bool" where
  "untouched p p' \<longleftrightarrow> pt_labels p' = pt_labels p \<and> pt_store p' = pt_store p \<and> pt_fired p' = pt_fired p"

lemma untouched_refl [simp]: "untouched p p" "untouched p (pt_audit flt now r e sv i d p)"
  by (simp_all add: untouched_def)

lemma set_db_simps [simp]:
  "pt_store (set_db d p) = pt_store p" "pt_db (set_db d p) = d" "set_db (pt_db p) p = p" "pt_db (write_file path n p) = pt_db p"
  "file_at (pt_store (write_file path n p)) path = Some (Regular n)" "set_db d (write_file path n p) = write_file path n (set_db d p)"
  by (simp_all add: set_db_def write_file_def file_at_def)

text \<open>The size limit and the allowed types of a request, and the row it queues.\<close>

abbreviation request_max :: "faults \<Rightarrow> int \<Rightarrow> user \<Rightarrow> portal \<Rightarrow> int" where
  "request_max flt tokenID usr p \<equiv>
     effective_max (request_token (later 6 flt) tokenID p) usr (system_max (pt_setting (later 5 flt) ''max_upload_size_bytes'' p))"

abbreviation request_types :: "upload_env \<Rightarrow> faults \<Rightarrow> int \<Rightarrow> user \<Rightarrow> portal \<Rightarrow> string" where
  "request_types ue flt tokenID usr p \<equiv>
     effectiveAllowlist ue (request_token (later 6 flt) tokenID p) usr (pt_setting (later 8 flt) ''allowed_upload_content_types'' p)"

abbreviation token_id :: "int \<Rightarrow> int option" where
  "token_id t \<equiv> (if t = 0 then None else Some t)"

abbreviation request_row :: "upload_env \<Rightarrow> time \<Rightarrow> string \<Rightarrow> string \<Rightarrow> int \<Rightarrow> int \<Rightarrow> accepted \<Rightarrow> db \<Rightarrow> upload" where
  "request_row ue now fid uid userID tokenID a s \<equiv>
     new_upload (upload_seq s + 1) uid now userID (token_id tokenID) (fid @ path_Ext (ac_original a)) (ac_original a) (ac_bytes a)
       (ac_ctype a) (ac_vis a) (ue_temp_dir ue @ ''/'' @ fid @ path_Ext (ac_original a)) None"

abbreviation with_row :: "upload \<Rightarrow> db \<Rightarrow> db" where
  "with_row u s \<equiv> s\<lparr>uploads := uploads s @ [u], upload_seq := upload_seq s + 1\<rparr>"

lemma CreateUpload_stages:
  assumes "CreateUpload ue flt qflt now r fid uid userID tokenID rq p = (rp, p')" and "\<not> flt 12" and "db_ok (pt_db p)"
    and fresh: "\<And>e. file_at (pt_store p) (ue_temp_dir ue @ ''/'' @ fid @ e) = None"
  shows "rp_status rp \<noteq> 202 \<and> untouched p p' \<or>
    (\<exists>usr a. User_GetByID (later 7 flt) userID (st_acct (pt_site p)) = Inr usr \<and>
       read_form ue flt (request_max flt tokenID usr p) (request_token (later 6 flt) tokenID p) usr rq p = Inr a \<and>
       ac_bytes a \<le> request_max flt tokenID usr p \<and> CheckUserQuota qflt userID (token_id tokenID) (ac_bytes a) (pt_db p) = Inr () \<and>
       rp = Reply 202 uid \<and>
       p' = announce ue flt now r userID a (request_row ue now fid uid userID tokenID a (pt_db p))
              (write_file (ue_temp_dir ue @ ''/'' @ fid @ path_Ext (ac_original a)) (ac_bytes a)
                (set_db (with_row (request_row ue now fid uid userID tokenID a (pt_db p)) (pt_db p)) p)))"
proof (cases "upload_gates flt p")
  case (Some x)
  then show ?thesis using assms(1) gates_refuse [OF Some] by (simp add: CreateUpload_def)
next
  case gates: None
  show ?thesis
  proof (cases "User_GetByID (later 7 flt) userID (st_acct (pt_site p))")
    case (Inl e)
    then show ?thesis using assms(1) gates by (auto simp: CreateUpload_def Let_def)
  next
    case (Inr usr)
    show ?thesis
    proof (cases "read_form ue flt (request_max flt tokenID usr p) (request_token (later 6 flt) tokenID p) usr rq p")
      case (Inl x)
      then show ?thesis using assms(1) gates Inr read_form_refuses [OF Inl] by (simp add: CreateUpload_def Let_def)
    next
      case form: (Inr a)
      let ?name = "fid @ path_Ext (ac_original a)"
      let ?path = "ue_temp_dir ue @ ''/'' @ ?name"
      have gone: "remove_file ?path (write_file ?path n p) = p" "remove_file ?path p = p" for n
        using remove_written [OF fresh [of "path_Ext (ac_original a)"]] by simp_all
      obtain res d where c: "Upload_Create (later 11 flt) now uid userID (token_id tokenID) ?name (ac_original a) (ac_bytes a) (ac_ctype a)
          (ac_vis a) ?path None (pt_db p) = (res, d)" by (meson surj_pair)
      have cs: "(\<exists>e. res = Inl e \<and> d = pt_db p) \<or> res = Inr (request_row ue now fid uid userID tokenID a (pt_db p)) \<and>
          d = with_row (request_row ue now fid uid userID tokenID a (pt_db p)) (pt_db p)"
        using Upload_Create_cases [OF c _ assms(3)] assms(2) by (simp add: later_def)
      show ?thesis
        using assms(1) gates Inr form cs c gone
        by (auto simp: CreateUpload_def Let_def new_upload_def split: if_splits sum.splits)
    qed
  qed
qed


section \<open>A deletion leaves no cached copy\<close>

lemma drop_until_error_gone:
  assumes "store_ok st" and "drop_until_error flt ks st = (b, st')"
  shows "store_ok st' \<and> (\<forall>k. gone_key k st \<longrightarrow> gone_key k st') \<and> (b \<longrightarrow> (\<forall>k \<in> set ks. gone_key k st'))"
  using assms
proof (induction ks arbitrary: flt st)
  case (Cons k ks)
  obtain e st1 where d: "Store_Drop flt k st = (e, st1)" by (meson surj_pair)
  note D = Drop_effect [OF Cons.prems(1) d]
  show ?case
  proof (cases e)
    case None
    then have "drop_until_error (later 1 flt) ks st1 = (b, st')" using Cons.prems(2) d by simp
    then show ?thesis using Cons.IH [OF D(1)] D(5,6) None by (simp only: list.set ball_simps) blast
  next
    case (Some x)
    then show ?thesis using Cons.prems(2) d D(1,5) by auto
  qed
qed simp

lemma drop_all_gone:
  assumes "store_ok st"
  shows "store_ok (drop_all flt ks st) \<and> (\<forall>k. gone_key k st \<longrightarrow> gone_key k (drop_all flt ks st)) \<and>
    ((\<forall>i. \<not> flt i) \<longrightarrow> (\<forall>k \<in> set ks. gone_key k (drop_all flt ks st)))"
  using assms
proof (induction ks arbitrary: flt st)
  case (Cons k ks)
  obtain e st1 where d: "Store_Drop flt k st = (e, st1)" by (meson surj_pair)
  note D = Drop_effect [OF Cons.prems d]
  have "e = None" if "\<not> flt 0" using Drop_no_fault [of st flt k] Cons.prems that d by simp
  moreover have "\<not> later 1 flt i" if "\<forall>i. \<not> flt i" for i using that by simp
  ultimately show ?case using Cons.IH [OF D(1), of "later 1 flt"] D(5,6) d by (simp only: drop_all.simps snd_conv list.set ball_simps) blast
qed simp

lemma GetByUUID_row: "Upload_GetByUUID flt uuid s = Inr u \<Longrightarrow> u \<in> set (uploads s) \<and> u_uuid u = uuid"
  by (auto simp: Upload_GetByUUID_def split: if_splits option.splits dest: find_SomeD)

lemma deleted_row_gone:
  assumes "db_ok s" and "u \<in> set (uploads s)" and "Upload_Delete flt now (u_id u) s = (Inr x, d)"
  shows "u_id u \<notin> u_id ` set (uploads d)"
proof -
  obtain v where v: "Upload_Delete flt now (u_id u) s = (Inr (), deleted now v s)" "upload_row s (u_id u) = Some v" "deletable (u_id u) v"
    by (rule Upload_Delete_cases [OF assms(1), of flt now "u_id u"]) (use assms(3) in auto)
  have "v = u" using upload_row_unique [OF assms(1,2)] v(2) by simp
  then have "\<forall>w \<in> set (uploads s). u_id w = u_id u \<longrightarrow> deletable (u_id u) w"
    using v(2,3) upload_row_unique [OF assms(1)] by (metis option.inject)
  moreover have "uploads d = delete_where (deletable (u_id u)) (uploads s)" using v(1) assms(3) \<open>v = u\<close> by (simp add: deleted_def)
  ultimately show ?thesis by auto
qed

text \<open>C15: deleting an upload answers 200 only to the owner, only after every cached copy of its content was removed from the
  instance and its row is gone; a copy that another request put back meanwhile is removed by the second purge unless that
  unlink fails. Any other answer leaves the tables as they were.\<close>

theorem delete_purges_cached_copies:
  assumes "DeleteUpload True flt f1 f2 mid now r userID uuid p = (rp, p')" and "db_ok (pt_db p)" and "store_ok (pt_store p)"
    and "\<And>st. store_ok st \<Longrightarrow> store_ok (mid st)"
  shows "(rp_status rp \<noteq> 200 \<longrightarrow> pt_labels p' = pt_labels p) \<and>
    (rp_status rp = 200 \<longrightarrow> (\<exists>u st1. u \<in> set (uploads (pt_db p)) \<and> u_uuid u = uuid \<and> u_user u = userID \<and>
       u_id u \<notin> u_id ` set (uploads (pt_db p')) \<and> (\<forall>k \<in> set (CacheKeys u). gone_key k st1) \<and>
       pt_store p' = drop_all f2 (CacheKeys u) (mid st1) \<and>
       ((\<forall>i. \<not> f2 i) \<longrightarrow> (\<forall>k \<in> set (CacheKeys u). gone_key k (pt_store p')))))"
proof (cases "\<exists>u. Upload_GetByUUID flt uuid (pt_db p) = Inr u \<and> u_user u = userID")
  case False
  then have "rp_status rp \<noteq> 200 \<and> pt_labels p' = pt_labels p"
    using assms(1) by (auto simp: DeleteUpload_def split: sum.splits if_splits)
  then show ?thesis by simp
next
  case True
  then obtain u where u: "Upload_GetByUUID flt uuid (pt_db p) = Inr u" "u_user u = userID" by blast
  obtain b st1 where d: "drop_until_error f1 (CacheKeys u) (pt_store p) = (b, st1)" by (meson surj_pair)
  note D = drop_until_error_gone [OF assms(3) d]
  obtain x s' where del: "Upload_Delete (later 3 flt) now (u_id u) (pt_db p) = (x, s')" by (meson surj_pair)
  have un: "s' = pt_db p" if "x = Inl e" for e
    by (rule Upload_Delete_cases [OF assms(2), of "later 3 flt" now "u_id u"]) (use del that in auto)
  consider (stuck) "\<not> b" | (refused) e where "b" "x = Inl e" | (gone) y where "b" "x = Inr y" by (cases b; cases x) auto
  then show ?thesis
  proof cases
    case stuck
    then have "rp_status rp = 500 \<and> pt_labels p' = pt_labels p" using assms(1) u d by (auto simp: DeleteUpload_def Let_def)
    then show ?thesis by simp
  next
    case refused
    then have "rp_status rp = 409 \<and> pt_labels p' = pt_labels p"
      using assms(1) u d del un [OF refused(2)] by (auto simp: DeleteUpload_def Let_def set_db_def)
    then show ?thesis by simp
  next
    case gone
    have row: "u \<in> set (uploads (pt_db p))" "u_uuid u = uuid" using GetByUUID_row [OF u(1)] by auto
    have p': "pt_store p' = drop_all f2 (CacheKeys u) (mid st1)" "pt_db p' = s'"
      using assms(1) u d del gone by (auto simp: DeleteUpload_def Let_def set_db_def)
    have "store_ok (mid st1)" using D assms(4) by blast
    then have "(\<forall>i. \<not> f2 i) \<longrightarrow> (\<forall>k \<in> set (CacheKeys u). gone_key k (pt_store p'))" using drop_all_gone [of "mid st1" f2 "CacheKeys u"] p'(1) by simp
    moreover have "u_id u \<notin> u_id ` set (uploads (pt_db p'))" using deleted_row_gone [OF assms(2) row(1)] del gone p'(2) by simp
    moreover have "rp_status rp = 200" using assms(1) u d del gone by (auto simp: DeleteUpload_def Let_def)
    ultimately show ?thesis using row u(2) p'(1) D gone(1) by (intro conjI impI exI [of _ u] exI [of _ st1]) simp_all
  qed
qed

section \<open>Requests of one user\<close>

text \<open>The contract of an action on one row: the other rows stay. A request of a user then leaves everybody else's uploads as they
  were.\<close>

locale row_action =
  fixes act :: "faults \<Rightarrow> int \<Rightarrow> db \<Rightarrow> (error + unit) \<times> db"
  assumes other_rows: "act flt i s = (r, s') \<Longrightarrow> u \<in> set (uploads s) \<Longrightarrow> u_id u \<noteq> i \<Longrightarrow> u \<in> set (uploads s')"
begin

lemma request_keeps_others:
  assumes "db_ok s" and "owner_request act answer flt userID uuid s = (rp, s')" and "u \<in> set (uploads s)" and "u_user u \<noteq> userID"
  shows "u \<in> set (uploads s')"
proof (cases "own_upload flt userID uuid s")
  case (Inl rf)
  then show ?thesis using assms(2,3) by (simp add: owner_request_def)
next
  case (Inr v)
  have v: "v \<in> set (uploads s)" "u_user v = userID"
    using Inr by (auto simp: own_upload_def Upload_GetByUUID_def split: sum.splits if_splits option.splits dest: find_SomeD)
  have "u_id u \<noteq> u_id v" using assms(1,3,4) v keyed_inj [of u_id "upload_seq s" "uploads s" u v] by (auto simp: db_ok_def)
  then show ?thesis using assms(2,3) Inr other_rows [of "later 1 flt" "u_id v" s] by (auto simp: owner_request_def split: prod.splits sum.splits)
qed

end

lemma exec_update_other_rows: "u \<in> set (uploads s) \<Longrightarrow> \<not> P u \<Longrightarrow> u \<in> set (uploads (snd (exec_update flt P f s)))"
  by (auto simp: exec_update_def set_update_where)

lemma err_if_none_other_rows:
  "err_if_none msg (exec_update flt P f s) = (r, s') \<Longrightarrow> u \<in> set (uploads s) \<Longrightarrow> \<not> P u \<Longrightarrow> u \<in> set (uploads s')"
  using exec_update_other_rows [of u s P flt f] by (auto simp: err_if_none_def)

interpretation cancel_action: row_action "\<lambda>flt i. Upload_Cancel flt now i" for now
  by unfold_locales (auto simp: Upload_Cancel_def elim: err_if_none_other_rows)

interpretation retry_action: row_action "\<lambda>flt i. Upload_Retry flt now i" for now
  by unfold_locales (auto simp: Upload_Retry_def elim: err_if_none_other_rows)

interpretation force_action: row_action ForceRetry
  by unfold_locales (auto simp: ForceRetry_def elim: err_if_none_other_rows)

lemmas cancel_keeps_others = cancel_action.request_keeps_others [folded CancelUpload_def]
lemmas retry_keeps_others = retry_action.request_keeps_others [folded RetryUpload_def]
lemmas force_retry_keeps_others = force_action.request_keeps_others [folded ForceRetryUpload_def]

section \<open>Pages\<close>

text \<open>Two things the cursor pages do not do. With a limit of 100 the service is asked for 101 rows, which it turns into 50,
  so the page ends the listing while rows remain; and a page backwards that is cut to the limit loses the row next to
  the cursor.\<close>

definition numbered :: "int \<Rightarrow> upload" where
  "numbered i = new_upload i (show_int i) i 1 None ''f'' ''f'' 1 ''t'' Public ''p'' None"

lemma long_cursor_page_ends_early:
  assumes "51 \<le> length rows" and "decode cur = Some \<lparr>cu_id = c, cu_dir = ''next''\<rparr>" and "cur \<noteq> []"
    and "rows = order_desc u_id (filter (\<lambda>u. u_user u = userID \<and> u_id u < c) (uploads s))" and "Atoi lim = Some 100"
  shows "\<exists>pg. ListUploads decode d no_faults userID \<lparr>lq_limit = lim, lq_offset = [], lq_cursor = cur, lq_sort = [], lq_status = [],
     lq_from = None, lq_to = None, lq_dates = False\<rparr> s = Inr pg \<and> length (up_rows pg) = 50 \<and> up_next pg = None"
proof -
  have "ListByUserCursor no_faults userID 101 c True s = Inr (take 50 rows)"
    using assms(4) by (simp add: ListByUserCursor_def clamp_limit_def limit_offset_def)
  then show ?thesis using assms(1,2,3,5) by (simp add: ListUploads_def atoi_or_zero_def cursor_page_def Let_def)
qed

lemma backward_page_skips_neighbour:
  "\<exists>pg. ListUploads (\<lambda>_. Some \<lparr>cu_id = 3, cu_dir = ''prev''\<rparr>) SQLite no_faults 1 \<lparr>lq_limit = ''2'', lq_offset = [], lq_cursor = ''c'', lq_sort = [],
     lq_status = [], lq_from = None, lq_to = None, lq_dates = False\<rparr> (empty_db\<lparr>uploads := map numbered [1, 2, 3, 4, 5, 6]\<rparr>) = Inr pg \<and>
     map u_id (up_rows pg) = [6, 5]"
proof -
  have "map_sum id (\<lambda>pg. map u_id (up_rows pg)) (ListUploads (\<lambda>_. Some \<lparr>cu_id = 3, cu_dir = ''prev''\<rparr>) SQLite no_faults 1
      \<lparr>lq_limit = ''2'', lq_offset = [], lq_cursor = ''c'', lq_sort = [], lq_status = [], lq_from = None, lq_to = None, lq_dates = False\<rparr>
      (empty_db\<lparr>uploads := map numbered [1, 2, 3, 4, 5, 6]\<rparr>)) = Inr [6, 5]"
    by code_simp
  then show ?thesis by (cases "ListUploads (\<lambda>_. Some \<lparr>cu_id = 3, cu_dir = ''prev''\<rparr>) SQLite no_faults 1
      \<lparr>lq_limit = ''2'', lq_offset = [], lq_cursor = ''c'', lq_sort = [], lq_status = [], lq_from = None, lq_to = None, lq_dates = False\<rparr>
      (empty_db\<lparr>uploads := map numbered [1, 2, 3, 4, 5, 6]\<rparr>)") simp_all
qed

section \<open>Examples\<close>

lemma Upload_Create_code [code]:
  "Upload_Create flt now uid userID tokenID filename originalFilename fileSize contentType vis tempPath est s =
     (if flt 0 then (Inl DBError, s)
      else if uid \<in> u_uuid ` set (uploads s) then (Inl UniqueViolation, s)
      else if userID \<notin> set (users s) \<or> (case tokenID of None \<Rightarrow> False | Some k \<Rightarrow> k \<notin> k_id ` set (api_tokens s)) then (Inl FKViolation, s)
      else let i = upload_seq s + 1;
               row = new_upload i uid now userID tokenID filename originalFilename fileSize contentType vis tempPath est;
               s' = s\<lparr>uploads := uploads s @ [row], upload_seq := i\<rparr>
           in (Upload_GetByID (later 1 flt) i s', s'))"
  by (simp add: Upload_Create_def split: option.split)

definition portal_user :: user where
  "portal_user = \<lparr>us_id = 1, us_email = ''a@b'', us_hash = None, us_first = [], us_last = [], us_active = True, us_service = False,
     us_verified = True, us_external = None, us_last_login = None, us_max = Some 10, us_types = None, us_changed = None,
     us_created = 0, us_updated = 0, us_deleted = None\<rparr>"

definition sample_portal :: portal where
  "sample_portal = \<lparr>pt_site = \<lparr>st_acct = empty_accounts\<lparr>ac_users := [portal_user]\<rparr>, st_logs = empty_log_db, st_settings = empty_settings, st_mail = []\<rparr>,
     pt_labels = sample_labels\<lparr>lb_db := empty_db\<lparr>users := [1], wallets := [sample_wallet 1 True], wallet_seq := 1\<rparr>\<rparr>,
     pt_store = Store_New ''/c'' [], pt_rx = [], pt_hooks = \<lparr>hooks = [], hook_seq = 0, deliveries = [], delivery_seq = 0, dead_letters = [], dead_letter_seq = 0, hook_logs = empty_log_db\<rparr>,
     pt_fired = []\<rparr>"

definition portal_env :: upload_env where
  "portal_env = \<lparr>ue_temp_dir = ''/t'', ue_json_array = (\<lambda>_. None), ue_rx = (\<lambda>_. None), ue_stamp = (\<lambda>_. [])\<rparr>"

definition sample_upload_request :: upload_request where
  "sample_upload_request = \<lparr>ur_body = 9, ur_form = Some \<lparr>uf_file = Some \<lparr>fp_name = ''../a.txt'', fp_type = ''text/plain; x=y'', fp_size = 5\<rparr>,
     uf_visibility = [], uf_tags = Some []\<rparr>\<rparr>"

definition sample_incoming :: incoming where
  "sample_incoming = \<lparr>in_method = ''POST'', in_session = None, in_authorization = [], in_csrf_header = [], in_csrf_cookie = None, in_remote = [],
     in_forwarded = [], in_client = None, in_idem_key = [], in_agent = [], in_request_id = []\<rparr>"

text \<open>The audit row's read fails here, so no hash is computed.\<close>

definition only_fault :: "nat \<Rightarrow> faults" where
  "only_fault k = (\<lambda>i. i = k)"

lemma sample_portal_ok: "db_ok (pt_db sample_portal)" "file_at (pt_store sample_portal) f = None" "store_ok (pt_store sample_portal)"
  by (simp_all add: sample_portal_def db_ok_def empty_db_def keyed_def sample_wallet_def fk_uploads_def fk_wallets_def Store_New_def file_at_def
      store_ok_def entry_sizes_def)

abbreviation sample_create :: "faults \<Rightarrow> reply \<times> portal" where
  "sample_create flt \<equiv> CreateUpload portal_env flt (\<lambda>_. no_faults) 0 sample_incoming ''f'' ''u'' 1 0 sample_upload_request sample_portal"


text \<open>When the read-back of the new row fails, the answer is 500 and the file is removed, but the row stays queued.\<close>

lemma failed_read_back_leaves_row:
  "(let (rp, p') = sample_create (only_fault 12)
    in (rp_status rp, map u_status (uploads (pt_db p')), s_files (pt_store p'))) = (500, [Queued], [])"
  by code_simp

definition done_upload :: upload where
  "done_upload = (new_upload 1 ''u'' 0 1 None ''f'' ''f'' 3 ''t'' Public ''p'' None)\<lparr>u_status := Completed\<rparr>"

definition stored_portal :: portal where
  "stored_portal = set_db (empty_db\<lparr>users := [1], uploads := [done_upload], upload_seq := 1\<rparr>) sample_portal"

theorem delete_purges_cached_copies_witness:
  "\<exists>p'. DeleteUpload True (only_fault 1) no_faults no_faults (\<lambda>st. st) 0 sample_incoming 1 ''u'' stored_portal = (Reply 200 ''upload deleted'', p') \<and>
     uploads (pt_db p') = []"
proof -
  let ?run = "DeleteUpload True (only_fault 1) no_faults no_faults (\<lambda>st. st) 0 sample_incoming 1 ''u'' stored_portal"
  obtain rp p' where c: "?run = (rp, p')" by (meson surj_pair)
  have "fst ?run = Reply 200 ''upload deleted''" by code_simp
  then have rp: "rp = Reply 200 ''upload deleted''" using c by simp
  have ok: "db_ok (pt_db stored_portal)" "store_ok (pt_store stored_portal)"
    using sample_portal_ok(3) by (simp_all add: stored_portal_def db_ok_def empty_db_def keyed_def done_upload_def new_upload_def fk_uploads_def fk_wallets_def)
  have "\<exists>u. u \<in> set (uploads (pt_db stored_portal)) \<and> u_id u \<notin> u_id ` set (uploads (pt_db p'))"
    using delete_purges_cached_copies [OF c ok] rp by auto
  moreover have "map u_uuid (uploads (pt_db (snd ?run))) = []" by code_simp
  ultimately show ?thesis using c rp by auto
qed

end
