(* ===== verification/Download_Handler.thy ===== *)
theory Download_Handler
  imports Upload_Handlers
begin

text \<open>
  \<open>internal/handlers\<close>: \<open>download_gate.go\<close> and the download request of \<open>uploads.go\<close>. A \<open>reader\<close> is the state one
  instance shares between its requests: the portal, the fills in flight, the miss counter and the gate.

  A request runs from start to end; where it waits (for a fill, for a slot, for the daemon) the other requests of the
  instance act, and \<open>dl_world\<close> says what they do to the reader there, how the wait ended and what the daemon answered.
  The wait for a slot runs on fuel. A setting is the value the cached settings service returned for it.
\<close>

section \<open>The gate\<close>

record gate =
  gt_inflight :: int
  gt_notify :: nat

datatype wait_outcome = Woken | TimerFired | ContextDone

definition newDownloadGate :: gate where
  "newDownloadGate = \<lparr>gt_inflight = 0, gt_notify = 0\<rparr>"

text \<open>The critical section of \<open>acquire\<close>.\<close>

definition try_acquire :: "int \<Rightarrow> gate \<Rightarrow> gate option" where
  "try_acquire limit g = (if gt_inflight g < limit then Some (g\<lparr>gt_inflight := gt_inflight g + 1\<rparr>) else None)"

definition gate_release :: "gate \<Rightarrow> gate" where
  "gate_release g = \<lparr>gt_inflight = gt_inflight g - 1, gt_notify = gt_notify g + 1\<rparr>"

section \<open>Shared state\<close>

record reader =
  rd_portal :: portal
  rd_flight :: flight
  rd_counter :: counter
  rd_gate :: gate

abbreviation rd_store :: "reader \<Rightarrow> store" where
  "rd_store x \<equiv> pt_store (rd_portal x)"

definition set_store :: "store \<Rightarrow> reader \<Rightarrow> reader" where
  "set_store st x = x\<lparr>rd_portal := (rd_portal x)\<lparr>pt_store := st\<rparr>\<rparr>"

definition rd_count :: "(metrics \<Rightarrow> metrics) \<Rightarrow> reader \<Rightarrow> reader" where
  "rd_count f x = set_store ((rd_store x)\<lparr>s_metrics := f (s_metrics (rd_store x))\<rparr>) x"

definition count_wait :: "metrics \<Rightarrow> metrics" where
  "count_wait m = m\<lparr>m_coalesced_waits := m_coalesced_waits m + 1\<rparr>"

definition count_timeout :: "metrics \<Rightarrow> metrics" where
  "count_timeout m = m\<lparr>m_coalesce_timeouts := m_coalesce_timeouts m + 1\<rparr>"

definition count_fetch :: "int \<Rightarrow> bool \<Rightarrow> metrics \<Rightarrow> metrics" where
  "count_fetch n eligible m = m\<lparr>m_bytes_fetch := m_bytes_fetch m + n, m_misses := m_misses m + (if eligible then 1 else 0)\<rparr>"

definition count_reject :: "metrics \<Rightarrow> metrics" where
  "count_reject m = m\<lparr>m_min_uses_rejects := m_min_uses_rejects m + 1\<rparr>"

definition count_promoted :: "metrics \<Rightarrow> metrics" where
  "count_promoted m = m\<lparr>m_promoted_read_through := m_promoted_read_through m + 1\<rparr>"

text \<open>The errors of the daemon and their answers (\<open>jsonAntdError\<close>).\<close>

datatype antd_error = AntdBadRequest | AntdPayment | AntdNotFound | AntdTooLarge | AntdNetwork | AntdUnavailable | AntdOther

definition jsonAntdError :: "antd_error \<Rightarrow> reply" where
  "jsonAntdError e =
     (case e of
        AntdBadRequest \<Rightarrow> Reply 400 ''invalid request'' | AntdPayment \<Rightarrow> Reply 402 ''payment failed''
      | AntdNotFound \<Rightarrow> Reply 404 ''not found on network'' | AntdTooLarge \<Rightarrow> Reply 413 ''file too large for network''
      | AntdNetwork \<Rightarrow> Reply 502 ''network unreachable'' | AntdUnavailable \<Rightarrow> Reply 503 ''storage daemon unavailable''
      | AntdOther \<Rightarrow> Reply 502 ''operation failed'')"

record dl_world =
  dw_fill_wait :: "nat \<Rightarrow> wait_outcome"
  dw_fill :: "nat \<Rightarrow> reader \<Rightarrow> reader"
  dw_limit :: "nat \<Rightarrow> int"
  dw_gate_wait :: "nat \<Rightarrow> wait_outcome"
  dw_gate :: "nat \<Rightarrow> reader \<Rightarrow> reader"
  dw_fetch :: "reader \<Rightarrow> reader"
  dw_promoted :: "reader \<Rightarrow> reader"
  dw_antd :: "string \<Rightarrow> bool \<Rightarrow> antd_error + int"

record dl_settings =
  ds_budget :: int
  ds_wait :: int
  ds_private :: bool
  ds_max_object :: int
  ds_min_uses :: int

definition download_settings :: "int option \<Rightarrow> (string \<Rightarrow> string option) \<Rightarrow> dl_settings" where
  "download_settings override get =
     \<lparr>ds_budget = DownloadCacheBudget override (int_setting (get ''download_cache_max_bytes'') 0 0 1125899906842624),
      ds_wait = int_setting (get ''download_queue_wait_secs'') 30 0 600,
      ds_private = bool_setting (get ''download_cache_private'') False,
      ds_max_object = int_setting (get ''download_cache_max_object_bytes'') 67108864 1 1099511627776,
      ds_min_uses = int_setting (get ''download_cache_min_uses'') 1 1 100\<rparr>"

section \<open>Validators\<close>

definition quoted_key :: "string \<Rightarrow> string" where
  "quoted_key k = [CHR 0x22] @ k @ [CHR 0x22]"

definition downloadETag :: "upload \<Rightarrow> string" where
  "downloadETag u =
     (if u_datamap u \<noteq> None \<and> u_datamap u \<noteq> Some [] then quoted_key (KeyForIdentifier (the (u_datamap u)))
      else if u_address u \<noteq> None \<and> u_address u \<noteq> Some [] then quoted_key (KeyForIdentifier (the (u_address u)))
      else [])"

definition trim_weak :: "string \<Rightarrow> string" where
  "trim_weak c = (if take 2 c = ''W/'' then drop 2 c else c)"

definition etagMatches :: "string \<Rightarrow> string \<Rightarrow> bool" where
  "etagMatches ifNoneMatch etag \<longleftrightarrow>
     ifNoneMatch \<noteq> [] \<and>
     (TrimSpace ifNoneMatch = ''*'' \<or> list_ex (\<lambda>c. trim_weak (TrimSpace c) = etag) (split_on (CHR '','') ifNoneMatch))"

text \<open>\<open>strings.Trim(etag, quote)\<close>.\<close>

definition unquote :: "string \<Rightarrow> string" where
  "unquote s = rev (dropWhile (\<lambda>c. c = CHR 0x22) (rev (dropWhile (\<lambda>c. c = CHR 0x22) s)))"

definition cache_key_of :: "dl_settings \<Rightarrow> upload \<Rightarrow> string" where
  "cache_key_of ds u =
     (if 0 < ds_budget ds \<and> downloadETag u \<noteq> [] \<and> (u_visibility u = Public \<or> ds_private ds) then unquote (downloadETag u) else [])"

datatype dl_reply = Refused reply | NotModified string | Serve fnode string

section \<open>Coalescing and admission\<close>

datatype fill_end = FillHit fnode | FillLeader | FillOwn | FillGone

definition maxFillRounds :: nat where "maxFillRounds = 4"

text \<open>\<open>cf n\<close> is the fault plan of the lookup of round \<open>n\<close>.\<close>

function fill_loop :: "dl_world \<Rightarrow> (nat \<Rightarrow> faults) \<Rightarrow> time \<Rightarrow> string \<Rightarrow> nat \<Rightarrow> bool \<Rightarrow> reader \<Rightarrow> fill_end \<times> reader" where
  "fill_loop w cf now key round waited x =
     (case Store_Open (cf round) now key (rd_store x) of
        (Some f, st) \<Rightarrow> (FillHit f, set_store st x)
      | (None, st) \<Rightarrow>
          (case Flight_Begin key (rd_flight x) of
             ((leader, ch), fl) \<Rightarrow>
               let x1 = (set_store st x)\<lparr>rd_flight := fl\<rparr>
               in if leader then (FillLeader, x1)
                  else if maxFillRounds \<le> round then (FillOwn, rd_count count_timeout x1)
                  else let x2 = dw_fill w round (if waited then x1 else rd_count count_wait x1)
                       in case dw_fill_wait w round of
                            Woken \<Rightarrow> fill_loop w cf now key (round + 1) True x2
                          | TimerFired \<Rightarrow> (FillOwn, rd_count count_timeout x2)
                          | ContextDone \<Rightarrow> (FillGone, x2)))"
  by pat_completeness auto
termination by (relation "measure (\<lambda>(w, cf, now, key, round, waited, x). 5 - round)") (auto simp: maxFillRounds_def)

fun gate_acquire :: "nat \<Rightarrow> dl_world \<Rightarrow> nat \<Rightarrow> reader \<Rightarrow> (bool \<times> reader) option" where
  "gate_acquire 0 w n x = None"
| "gate_acquire (Suc fuel) w n x =
     (case try_acquire (dw_limit w n) (rd_gate x) of
        Some g \<Rightarrow> Some (True, x\<lparr>rd_gate := g\<rparr>)
      | None \<Rightarrow>
          let x1 = dw_gate w n x
          in case dw_gate_wait w n of Woken \<Rightarrow> gate_acquire fuel w (n + 1) x1 | _ \<Rightarrow> Some (False, x1))"

section \<open>Fetching, promoting, serving\<close>

definition rd_release :: "reader \<Rightarrow> reader" where
  "rd_release x = x\<lparr>rd_gate := gate_release (rd_gate x)\<rparr>"

definition rd_access :: "faults \<Rightarrow> time \<Rightarrow> incoming \<Rightarrow> upload \<Rightarrow> int \<Rightarrow> string \<Rightarrow> reader \<Rightarrow> reader" where
  "rd_access flt now r u userID tail x =
     x\<lparr>rd_portal := pt_access flt now r ''file_downloaded'' ''info'' userID
         (''uuid='' @ u_uuid u @ '' filename='' @ u_original u @ '' visibility='' @ visibility_text (u_visibility u) @ tail) (rd_portal x)\<rparr>"

text \<open>The resurrection guard: \<open>flt 0\<close> is the read of the row, then the drop.\<close>

definition verify_promoted :: "faults \<Rightarrow> string \<Rightarrow> string \<Rightarrow> db \<Rightarrow> store \<Rightarrow> store" where
  "verify_promoted flt uuid key s st =
     (if Upload_GetByUUID flt uuid s = Inl ErrUploadNotFound then snd (Store_Drop (later 1 flt) key st) else st)"

text \<open>Promotion: the stat (fault 0), the store's faults (from 1), then the guard (from 4).\<close>

definition promote_fetched ::
  "dl_world \<Rightarrow> dl_settings \<Rightarrow> faults \<Rightarrow> time \<Rightarrow> string \<Rightarrow> string \<Rightarrow> upload \<Rightarrow> int \<Rightarrow> reader \<Rightarrow> reader" where
  "promote_fetched w ds flt now key path u n x =
     (if key = [] then x
      else let (uses, c) = (if 1 < ds_min_uses ds then Bump key (rd_counter x) else (ds_min_uses ds, rd_counter x)); x1 = x\<lparr>rd_counter := c\<rparr>
           in if 1 < ds_min_uses ds \<and> uses < ds_min_uses ds then rd_count count_reject x1
              else if flt 0 \<or> ds_max_object ds < n then x1
              else case PromoteIfFits (later 1 flt) now key path (ds_budget ds) (rd_store x1) of
                     (Inl _, st) \<Rightarrow> set_store st x1
                   | (Inr _, st) \<Rightarrow>
                       let x2 = dw_promoted w (rd_count count_promoted (set_store st x1))
                       in set_store (verify_promoted (later 4 flt) (u_uuid u) key (pt_db (rd_portal x2)) (rd_store x2)) x2)"

text \<open>What the daemon is asked: the DataMap where the row has one, else the address, which for a public upload is public.\<close>

definition fetch_from :: "upload \<Rightarrow> (string \<times> bool) option" where
  "fetch_from u =
     (case u_datamap u of
        Some m \<Rightarrow> Some (m, False)
      | None \<Rightarrow> (case u_address u of Some a \<Rightarrow> Some (a, u_visibility u = Public) | None \<Rightarrow> None))"

text \<open>From the admission on, the slot held; \<open>of\<close> is for the second lookup, faults: 0 the open of the fetched file, 1 the
  access row, from 2 the promotion. The temporary file is removed and the slot given back at the end.\<close>

definition download_path :: "upload_env \<Rightarrow> string \<Rightarrow> string" where
  "download_path ue fid = ue_temp_dir ue @ ''/dl-'' @ fid"

definition fetch_and_serve ::
  "upload_env \<Rightarrow> dl_world \<Rightarrow> dl_settings \<Rightarrow> faults \<Rightarrow> faults \<Rightarrow> time \<Rightarrow> incoming \<Rightarrow> string \<Rightarrow> int \<Rightarrow> upload \<Rightarrow> string \<Rightarrow> bool \<Rightarrow> reader
     \<Rightarrow> dl_reply \<times> reader" where
  "fetch_and_serve ue w ds flt opf now r fid userID u key eligible x =
     (let path = download_path ue fid;
          end_request = (\<lambda>y. rd_release (y\<lparr>rd_portal := remove_file path (rd_portal y)\<rparr>));
          (hit, st) = (if key = [] then (None, rd_store x) else Store_Open opf now key (rd_store x));
          x0 = set_store st x
      in case hit of
           Some f \<Rightarrow> (Serve f (downloadETag u), rd_access (later 1 flt) now r u userID '' cache=hit'' (rd_release x0))
         | None \<Rightarrow>
             (case fetch_from u of
                None \<Rightarrow> (Refused (Reply 500 ''upload has no data map or network address''), end_request x0)
              | Some (ident, public) \<Rightarrow>
                  (case dw_antd w ident public of
                     Inl e \<Rightarrow> (Refused (jsonAntdError e), end_request (dw_fetch w x0))
                   | Inr n \<Rightarrow>
                       let x1 = dw_fetch w x0; x2 = x1\<lparr>rd_portal := write_file path n (rd_portal x1)\<rparr>
                       in if flt 0 then (Refused (Reply 500 ''failed to read downloaded file''), end_request x2)
                          else let x3 = promote_fetched w ds (later 2 flt) now key path u n (rd_count (count_fetch n eligible) x2)
                               in (Serve (Regular n) (downloadETag u), end_request (rd_access (later 1 flt) now r u userID [] x3)))))"

text \<open>Faults: 0 the row, 1 the access row of a refusal or of a hit, from 2 those of \<open>fetch_and_serve\<close>. \<open>None\<close>: the fuel of the gate is
  used up.\<close>

definition DownloadUpload ::
  "nat \<Rightarrow> upload_env \<Rightarrow> dl_world \<Rightarrow> dl_settings \<Rightarrow> faults \<Rightarrow> (nat \<Rightarrow> faults) \<Rightarrow> time \<Rightarrow> incoming \<Rightarrow> string \<Rightarrow> int \<Rightarrow> string \<Rightarrow> string \<Rightarrow> reader
     \<Rightarrow> (dl_reply \<times> reader) option" where
  "DownloadUpload fuel ue w ds flt cf now r fid userID uuid ifNoneMatch x =
     (case Upload_GetByUUID flt uuid (pt_db (rd_portal x)) of
        Inl e \<Rightarrow> Some (Refused (if e = ErrUploadNotFound then Reply 404 ''upload not found'' else Reply 500 ''failed to get upload''), x)
      | Inr u \<Rightarrow>
          if u_user u \<noteq> userID
          then Some (Refused (Reply 404 ''upload not found''),
                 x\<lparr>rd_portal := pt_access (later 1 flt) now r ''file_download_denied'' ''warn'' userID (''uuid='' @ uuid @ '' reason=not_owner'') (rd_portal x)\<rparr>)
          else if u_status u \<noteq> Completed \<and> u_status u \<noteq> AlreadyStored then Some (Refused (Reply 409 ''not ready for download''), x)
          else if downloadETag u \<noteq> [] \<and> etagMatches ifNoneMatch (downloadETag u) then Some (NotModified (downloadETag u), x)
          else let key = cache_key_of ds u; eligible = (key \<noteq> []);
                   (fill, x1) = (if key = [] then (FillOwn, x) else fill_loop w cf now key 0 False x);
                   held = (if fill = FillLeader then key else []);
                   finish = (\<lambda>y. if held = [] then y else y\<lparr>rd_flight := Flight_Finish held (rd_flight y)\<rparr>)
               in case fill of
                    FillHit f \<Rightarrow> Some (Serve f (downloadETag u), rd_access (later 1 flt) now r u userID '' cache=hit'' x1)
                  | FillGone \<Rightarrow> Some (Refused (Reply 0 []), x1)
                  | _ \<Rightarrow>
                      (case gate_acquire fuel w 0 x1 of
                         None \<Rightarrow> None
                       | Some (False, x2) \<Rightarrow>
                           Some (Refused (Reply 503 ''concurrent download limit reached, retry shortly''), finish x2)
                       | Some (True, x2) \<Rightarrow>
                           (case fetch_and_serve ue w ds (later 2 flt) (cf 9) now r fid userID u held eligible x2 of
                              (rp, x3) \<Rightarrow> Some (rp, finish x3))))"

section \<open>The gate bounds what runs at once\<close>

text \<open>The accesses to the gate in the order of its mutex: an attempt with the limit just read, and a release. \<open>held\<close> counts the
  slots given out and not given back; a release without one cannot happen, since each follows a successful attempt.\<close>

datatype gate_event = Attempt int | Give

fun gate_run :: "gate_event list \<Rightarrow> gate \<Rightarrow> nat \<Rightarrow> (gate \<times> nat) option" where
  "gate_run [] g held = Some (g, held)"
| "gate_run (Attempt limit # es) g held =
     (case try_acquire limit g of Some g' \<Rightarrow> gate_run es g' (held + 1) | None \<Rightarrow> gate_run es g held)"
| "gate_run (Give # es) g held = (if held = 0 then None else gate_run es (gate_release g) (held - 1))"

lemma gate_run_bound:
  assumes "gate_run es g held = Some (g', held')" and "gt_inflight g = int held" and "int held \<le> L"
    and "\<forall>l. Attempt l \<in> set es \<longrightarrow> l \<le> L"
  shows "gt_inflight g' = int held' \<and> int held' \<le> L"
  using assms
proof (induction es g held rule: gate_run.induct)
  case (2 limit es g held)
  show ?case
  proof (cases "gt_inflight g < limit")
    case True
    then show ?thesis using 2(2) [of "g\<lparr>gt_inflight := gt_inflight g + 1\<rparr>"] "2.prems" by (auto simp: try_acquire_def)
  next
    case False
    then show ?thesis using 2(1) "2.prems" by (auto simp: try_acquire_def)
  qed
next
  case (3 es g held)
  then show ?case by (auto simp: gate_release_def split: if_splits)
qed simp

lemma gate_run_append:
  "gate_run (es @ fs) g held = (case gate_run es g held of None \<Rightarrow> None | Some (g', h') \<Rightarrow> gate_run fs g' h')"
  by (induction es g held rule: gate_run.induct) (auto split: option.split)

text \<open>C16: however admissions and releases interleave, the gate's counter is the number of slots held and never exceeds the
  largest limit that was read; and once the limit is lowered, no attempt succeeds until the excess has drained.\<close>

theorem download_gate_bounds:
  assumes "gate_run es newDownloadGate 0 = Some (g, held)" and "\<forall>l. Attempt l \<in> set es \<longrightarrow> l \<le> L" and "0 \<le> L"
  shows "gt_inflight g = int held \<and> int held \<le> L \<and>
    (\<forall>low fs g' h'. gate_run fs g held = Some (g', h') \<and> (\<forall>l. Attempt l \<in> set fs \<longrightarrow> l \<le> low) \<longrightarrow> int h' \<le> max low (int held)) \<and>
    (\<forall>low. low \<le> int held \<longrightarrow> try_acquire low g = None)"
proof -
  have b: "gt_inflight g = int held \<and> int held \<le> L"
    using gate_run_bound [OF assms(1) _ _ assms(2)] assms(3) by (simp add: newDownloadGate_def)
  have "int h' \<le> max low (int held)" if "gate_run fs g held = Some (g', h')" "\<forall>l. Attempt l \<in> set fs \<longrightarrow> l \<le> low" for low fs g' h'
    using gate_run_bound [OF that(1), of "max low (int held)"] that(2) b by (auto simp: le_max_iff_disj)
  then show ?thesis using b by (auto simp: try_acquire_def)
qed

section \<open>Deletion against promotion\<close>

text \<open>The four steps a download and a deletion take on one instance: the promotion and its guard, the row delete and the purge
  after it. Both sides have passed their checks.\<close>

datatype purge_step = Promote | Verify | RowDelete | Purge

fun purge_run :: "time \<Rightarrow> upload \<Rightarrow> string \<Rightarrow> string \<Rightarrow> int \<Rightarrow> purge_step \<Rightarrow> db \<times> store \<Rightarrow> db \<times> store" where
  "purge_run now u key path budget Promote (s, st) = (s, snd (PromoteIfFits no_faults now key path budget st))"
| "purge_run now u key path budget Verify (s, st) = (s, verify_promoted no_faults (u_uuid u) key s st)"
| "purge_run now u key path budget RowDelete (s, st) = (snd (Upload_Delete no_faults now (u_id u) s), st)"
| "purge_run now u key path budget Purge (s, st) = (s, snd (Store_Drop no_faults key st))"

lemma drop_gone: "store_ok st \<Longrightarrow> gone_key k (snd (Store_Drop no_faults k st)) \<and> store_ok (snd (Store_Drop no_faults k st))"
proof -
  assume ok: "store_ok st"
  obtain r st' where d: "Store_Drop no_faults k st = (r, st')" by (meson surj_pair)
  have "r = None" using Drop_no_fault [OF ok, of no_faults k] d by simp
  then show ?thesis using Drop_effect(1,6) [OF ok d] d by simp
qed

lemma verify_gone:
  assumes "store_ok st"
  shows "store_ok (verify_promoted no_faults uuid k s st)" and "gone_key k st \<Longrightarrow> gone_key k (verify_promoted no_faults uuid k s st)"
    and "uuid \<notin> u_uuid ` set (uploads s) \<Longrightarrow> gone_key k (verify_promoted no_faults uuid k s st)"
proof -
  have "find (\<lambda>u. u_uuid u = uuid) (uploads s) = None" if "uuid \<notin> u_uuid ` set (uploads s)" using that by (force simp: find_None_iff)
  then show "store_ok (verify_promoted no_faults uuid k s st)" "gone_key k st \<Longrightarrow> gone_key k (verify_promoted no_faults uuid k s st)"
    "uuid \<notin> u_uuid ` set (uploads s) \<Longrightarrow> gone_key k (verify_promoted no_faults uuid k s st)"
    using drop_gone [OF assms, of k] assms by (auto simp: verify_promoted_def later_def Upload_GetByUUID_def)
qed


section \<open>A request gives back what it takes\<close>

definition no_fill :: "string \<Rightarrow> reader \<Rightarrow> bool" where
  "no_fill k x \<longleftrightarrow> map_of (f_inflight (rd_flight x)) k = None"

definition no_temp :: "string \<Rightarrow> reader \<Rightarrow> bool" where
  "no_temp path x \<longleftrightarrow> file_at (rd_store x) path = None"

abbreviation slots :: "reader \<Rightarrow> int" where
  "slots x \<equiv> gt_inflight (rd_gate x)"

text \<open>From \<open>x\<close> to \<open>y\<close> nothing is held any more: the same slots, no new temporary file, no new fill.\<close>

definition released :: "string \<Rightarrow> reader \<Rightarrow> reader \<Rightarrow> bool" where
  "released path x y \<longleftrightarrow> slots y = slots x \<and> (no_temp path x \<longrightarrow> no_temp path y) \<and> (\<forall>k. no_fill k x \<longrightarrow> no_fill k y)"

definition fair_world :: "string \<Rightarrow> dl_world \<Rightarrow> bool" where
  "fair_world path w \<longleftrightarrow>
     (\<forall>n y. released path y (dw_fill w n y) \<and> released path y (dw_gate w n y)) \<and> (\<forall>y. released path y (dw_fetch w y) \<and> released path y (dw_promoted w y))"

lemma released_refl [simp]: "released path x x"
  by (simp add: released_def)

lemma released_trans: "released path x y \<Longrightarrow> released path y z \<Longrightarrow> released path x z"
  by (simp add: released_def)

lemma Open_files: "file_at st path = None \<Longrightarrow> file_at (snd (Store_Open flt now key st)) path = None"
proof -
  assume n: "file_at st path = None"
  have u: "file_at (snd (unlinkLocked f k st)) path = None" for f k using n by (auto simp: unlinkLocked_def Let_def file_at_def)
  have "file_at (snd (DropGen f k g st)) path = None" for f k g
    using u [of f k] n by (auto simp: DropGen_def forget_def file_at_def split: option.split sum.split prod.split)
  then have "file_at (self_heal f k g st) path = None" for f k g
    by (auto simp: self_heal_def heal_count_def file_at_def split: prod.split) (metis snd_conv)+
  moreover have "file_at (hit_count z (touch_entry now key st)) path = None" for z
    using n by (simp add: hit_count_def touch_entry_def file_at_def split: option.split)
  ultimately show ?thesis using n by (auto simp: Store_Open_def Open_finish_def split: option.split prod.split)
qed

lemma set_store_simps [simp]:
  "rd_gate (set_store st x) = rd_gate x" "rd_flight (set_store st x) = rd_flight x" "rd_store (set_store st x) = st"
  "pt_labels (rd_portal (set_store st x)) = pt_labels (rd_portal x)" "rd_counter (set_store st x) = rd_counter x"
  by (simp_all add: set_store_def)

lemma rd_count_released [simp]: "released path (rd_count f x) y \<longleftrightarrow> released path x y" "released path y (rd_count f x) \<longleftrightarrow> released path y x"
  by (simp_all add: rd_count_def released_def no_temp_def no_fill_def file_at_def)

lemma released_open:
  "Store_Open flt now key (rd_store x) = (h, st) \<Longrightarrow> released path x (set_store st x)"
  using Open_files [of "rd_store x" path flt now key] by (simp add: released_def no_temp_def no_fill_def)

text \<open>A leader has put its key into the flights and has changed nothing else.\<close>

definition leads :: "string \<Rightarrow> string \<Rightarrow> reader \<Rightarrow> reader \<Rightarrow> bool" where
  "leads path key x y \<longleftrightarrow> slots y = slots x \<and> (no_temp path x \<longrightarrow> no_temp path y) \<and> (\<forall>k. k \<noteq> key \<and> no_fill k x \<longrightarrow> no_fill k y)"

lemma leads_step: "released path x y \<Longrightarrow> leads path key y z \<Longrightarrow> leads path key x z"
  by (auto simp: released_def leads_def)

lemma begin_step:
  assumes "Flight_Begin key (rd_flight x) = ((leader, ch), fl)"
  shows "if leader then leads path key x (x\<lparr>rd_flight := fl\<rparr>) else fl = rd_flight x"
  using assms by (auto simp: Flight_Begin_def leads_def no_temp_def no_fill_def split: option.splits)

declare fill_loop.simps [simp del]

lemma fill_loop_released:
  assumes "fair_world path w" and "fill_loop w cf now key round waited x = (e, y)"
  shows "if e = FillLeader then leads path key x y else released path x y"
  using assms
proof (induction w cf now key round waited x rule: fill_loop.induct)
  case (1 w cf now key round waited x)
  obtain h st where o: "Store_Open (cf round) now key (rd_store x) = (h, st)" by (meson surj_pair)
  obtain leader ch fl where b: "Flight_Begin key (rd_flight x) = ((leader, ch), fl)" by (metis surj_pair)
  note so = released_open [OF o, of path]
  let ?x1 = "(set_store st x)\<lparr>rd_flight := fl\<rparr>"
  let ?x2 = "dw_fill w round (if waited then ?x1 else rd_count count_wait ?x1)"
  have eq: "fill_loop w cf now key round waited x =
      (case h of Some f \<Rightarrow> (FillHit f, set_store st x)
       | None \<Rightarrow> if leader then (FillLeader, ?x1) else if maxFillRounds \<le> round then (FillOwn, rd_count count_timeout ?x1)
           else (case dw_fill_wait w round of Woken \<Rightarrow> fill_loop w cf now key (round + 1) True ?x2
                 | TimerFired \<Rightarrow> (FillOwn, rd_count count_timeout ?x2) | ContextDone \<Rightarrow> (FillGone, ?x2)))"
    by (subst fill_loop.simps, cases h) (simp_all add: o b Let_def)
  have x1: "if leader then leads path key x ?x1 else released path x ?x1"
    using begin_step [of key "set_store st x" leader ch fl path] b so leads_step [OF so] by (cases leader) (simp_all add: set_store_def)
  have x2: "released path x ?x2" if "\<not> leader"
  proof -
    have "released path (if waited then ?x1 else rd_count count_wait ?x1) ?x2" using "1.prems"(1) by (simp add: fair_world_def)
    then show ?thesis using x1 that by (cases waited) (auto intro: released_trans)
  qed
  show ?case
  proof (cases "h = None \<and> \<not> leader \<and> \<not> maxFillRounds \<le> round \<and> dw_fill_wait w round = Woken")
    case True
    then have r: "fill_loop w cf now key (round + 1) True ?x2 = (e, y)" using "1.prems"(2) eq by simp
    have "if e = FillLeader then leads path key ?x2 y else released path ?x2 y"
      using "1.IH" [of None st "(leader, ch)" fl leader ch] True o b r "1.prems"(1) by simp
    then show ?thesis using x2 True by (auto intro: leads_step released_trans split: if_splits)
  next
    case False
    then show ?thesis using "1.prems"(2) eq x1 x2 so by (cases h) (auto split: if_splits wait_outcome.splits)
  qed
qed

text \<open>With the slot of this request taken.\<close>

definition admitted :: "string \<Rightarrow> reader \<Rightarrow> reader \<Rightarrow> bool" where
  "admitted path x y \<longleftrightarrow> slots y = slots x + 1 \<and> (no_temp path x \<longrightarrow> no_temp path y) \<and> (\<forall>k. no_fill k x \<longrightarrow> no_fill k y)"

lemma gate_acquire_released:
  assumes "fair_world path w" and "gate_acquire fuel w n x = Some (b, y)"
  shows "if b then admitted path x y else released path x y"
  using assms(2)
proof (induction fuel arbitrary: n x)
  case (Suc fuel)
  have o: "released path x (dw_gate w n x)" using assms(1) by (simp add: fair_world_def)
  show ?case
  proof (cases "try_acquire (dw_limit w n) (rd_gate x)")
    case (Some g)
    then show ?thesis using Suc.prems by (auto simp: try_acquire_def admitted_def no_temp_def no_fill_def split: if_splits)
  next
    case None
    show ?thesis
    proof (cases "dw_gate_wait w n")
      case Woken
      then show ?thesis using Suc.IH [of "n + 1" "dw_gate w n x"] Suc.prems None o by (cases b) (auto simp: admitted_def released_def)
    qed (use Suc.prems None o in auto)
  qed
qed simp

lemma gate_acquire_ends: "n \<le> m \<Longrightarrow> dw_gate_wait w m \<noteq> Woken \<Longrightarrow> m < n + fuel \<Longrightarrow> \<exists>r. gate_acquire fuel w n x = Some r"
proof (induction fuel arbitrary: n x)
  case (Suc fuel)
  show ?case
  proof (cases "n = m")
    case True
    then show ?thesis using Suc.prems(2) by (auto simp: Let_def split: option.split wait_outcome.split)
  next
    case False
    then show ?thesis using Suc.IH [of "n + 1" "dw_gate w n x"] Suc.prems by (auto simp: Let_def split: option.split wait_outcome.split)
  qed
qed simp

lemma promote_keeps:
  assumes "fair_world path w"
  shows "slots (promote_fetched w ds flt now key p u n x) = slots x" and "no_fill k x \<Longrightarrow> no_fill k (promote_fetched w ds flt now key p u n x)"
proof -
  have "slots (dw_promoted w y) = slots y" "no_fill k y \<Longrightarrow> no_fill k (dw_promoted w y)" for y k
    using assms by (auto simp: fair_world_def released_def)
  moreover have "slots (rd_count f y) = slots y" "no_fill k (rd_count f y) = no_fill k y" for f y k by (simp_all add: rd_count_def no_fill_def)
  moreover have "no_fill k (set_store t y) = no_fill k y" "no_fill k (y\<lparr>rd_counter := c\<rparr>) = no_fill k y" for k t y c by (simp_all add: no_fill_def)
  ultimately show "slots (promote_fetched w ds flt now key p u n x) = slots x" "no_fill k x \<Longrightarrow> no_fill k (promote_fetched w ds flt now key p u n x)"
    by (auto simp: promote_fetched_def Let_def split: prod.split sum.split)
qed

lemma access_keeps [simp]:
  "rd_gate (rd_access flt now r u i tail x) = rd_gate x" "rd_flight (rd_access flt now r u i tail x) = rd_flight x"
  "rd_store (rd_access flt now r u i tail x) = rd_store x"
  by (simp_all add: rd_access_def pt_access_def)

text \<open>The end of a request that was admitted.\<close>

definition given_back :: "string \<Rightarrow> reader \<Rightarrow> reader \<Rightarrow> bool" where
  "given_back path x y \<longleftrightarrow> slots y = slots x - 1 \<and> (no_temp path x \<longrightarrow> no_temp path y) \<and> (\<forall>k. no_fill k x \<longrightarrow> no_fill k y)"

lemma end_request_given_back:
  assumes "slots y = slots x" and "\<And>k. no_fill k x \<Longrightarrow> no_fill k y"
  shows "given_back path x (rd_release (y\<lparr>rd_portal := remove_file path (rd_portal y)\<rparr>))"
  using assms by (simp add: given_back_def rd_release_def gate_release_def no_temp_def no_fill_def remove_file_def file_at_def)

lemma fetch_and_serve_given_back:
  assumes "fair_world (download_path ue fid) w"
    and "fetch_and_serve ue w ds flt opf now r fid userID u key eligible x = (rp, y)"
  shows "given_back (download_path ue fid) x y"
proof -
  let ?path = "download_path ue fid"
  obtain hit st where h: "(if key = [] then (None, rd_store x) else Store_Open opf now key (rd_store x)) = (hit, st)" by (meson surj_pair)
  have x0: "released ?path x (set_store st x)" using released_open [of opf now key x hit st ?path] h by (auto split: if_splits simp: set_store_def)
  have f: "released ?path (set_store st x) (dw_fetch w (set_store st x))" using assms(1) by (simp add: fair_world_def)
  let ?x1 = "dw_fetch w (set_store st x)"
  let ?x2 = "\<lambda>n. ?x1\<lparr>rd_portal := write_file ?path n (rd_portal ?x1)\<rparr>"
  have x1: "slots ?x1 = slots x" "no_fill k x \<Longrightarrow> no_fill k ?x1" for k using released_trans [OF x0 f] by (auto simp: released_def)
  have x2: "slots (?x2 n) = slots x" "no_fill k x \<Longrightarrow> no_fill k (?x2 n)" for k n using x1 by (simp_all add: no_fill_def)
  have c: "slots (rd_count g (?x2 n)) = slots x" "no_fill k x \<Longrightarrow> no_fill k (rd_count g (?x2 n))" for g n k
    using x2 by (simp_all add: rd_count_def no_fill_def)
  show ?thesis
  proof (cases hit)
    case (Some v)
    then show ?thesis using assms(2) h x0
      by (auto simp: fetch_and_serve_def Let_def given_back_def released_def rd_release_def gate_release_def no_temp_def no_fill_def)
  next
    case None
    note [intro!] = end_request_given_back
    have acc: "slots (rd_access f now r u userID [] y) = slots y" "no_fill k (rd_access f now r u userID [] y) = no_fill k y" for f y k
      by (simp_all add: no_fill_def)
    have x0': "slots (set_store st x) = slots x" "no_fill k x \<Longrightarrow> no_fill k (set_store st x)" for k by (simp_all add: no_fill_def)
    have w: "given_back ?path x (rd_release (?x1\<lparr>rd_portal := remove_file ?path (write_file ?path n (rd_portal ?x1))\<rparr>))" for n
      using end_request_given_back [OF x2, of ?path n] by simp
    show ?thesis using assms(2) h None x0' x1 w c promote_keeps [OF assms(1)] acc
      by (auto simp: fetch_and_serve_def Let_def split: option.splits sum.splits if_splits)
  qed
qed

lemma finish_settles:
  assumes "if lead then leads path key x y else released path x y"
    and "slots z = slots y" and "no_temp path y \<Longrightarrow> no_temp path z" and "\<And>k. no_fill k y \<Longrightarrow> no_fill k z"
  shows "released path x (if lead then z\<lparr>rd_flight := Flight_Finish key (rd_flight z)\<rparr> else z)"
proof (cases lead)
  case True
  have "no_fill k (z\<lparr>rd_flight := Flight_Finish key (rd_flight z)\<rparr>)" if "k = key \<or> no_fill k z" for k
    using that by (auto simp: no_fill_def Flight_Finish_def split: option.splits)
  then show ?thesis using assms True by (auto simp: released_def leads_def no_temp_def)
next
  case False
  then show ?thesis using assms by (simp add: released_def)
qed


section \<open>Who gets the bytes, and what stays in the cache\<close>

lemma fetch_reply: "fetch_and_serve ue w ds flt opf now r fid userID u key eligible x = (rp, y) \<Longrightarrow> (\<exists>e. rp = Refused e) \<or> (\<exists>f. rp = Serve f (downloadETag u))"
  by (auto simp: fetch_and_serve_def Let_def split: prod.splits option.splits sum.splits if_splits)

lemma served_reply:
  assumes "DownloadUpload fuel ue w ds flt cf now r fid userID uuid ifNoneMatch x = Some (rp, y)" and "\<forall>e. rp \<noteq> Refused e"
  shows "\<exists>u. Upload_GetByUUID flt uuid (pt_db (rd_portal x)) = Inr u \<and> u_user u = userID \<and> u_status u \<in> {Completed, AlreadyStored} \<and>
     (rp = NotModified (downloadETag u) \<and> etagMatches ifNoneMatch (downloadETag u) \<or> (\<exists>f. rp = Serve f (downloadETag u)))"
  using assms by (auto simp: DownloadUpload_def Let_def split: sum.splits if_splits prod.splits fill_end.splits option.splits bool.splits dest!: fetch_reply)

text \<open>The index of the cache, which the other requests leave alone here.\<close>

definition index_kept :: "dl_world \<Rightarrow> bool" where
  "index_kept w \<longleftrightarrow> (\<forall>n y. s_entries (rd_store (dw_gate w n y)) = s_entries (rd_store y)) \<and> (\<forall>y. s_entries (rd_store (dw_fetch w y)) = s_entries (rd_store y))"

lemma gate_index: "index_kept w \<Longrightarrow> gate_acquire fuel w n x = Some (b, y) \<Longrightarrow> s_entries (rd_store y) = s_entries (rd_store x)"
proof (induction fuel arbitrary: n x)
  case (Suc fuel)
  then show ?case by (fastforce simp: index_kept_def Let_def split: option.splits wait_outcome.splits)
qed simp

lemma fetch_index:
  "index_kept w \<Longrightarrow> fetch_and_serve ue w ds flt opf now r fid userID u [] eligible x = (rp, y) \<Longrightarrow> s_entries (rd_store y) = s_entries (rd_store x)"
  by (auto simp: fetch_and_serve_def index_kept_def Let_def rd_release_def remove_file_def write_file_def promote_fetched_def rd_count_def
      split: option.splits sum.splits if_splits prod.splits)

lemma gate_fetch_index:
  "index_kept w \<Longrightarrow> gate_acquire fuel w n x = Some (True, z) \<Longrightarrow> fetch_and_serve ue w ds flt opf now r fid userID u [] eligible z = (rp, y) \<Longrightarrow>
     s_entries (rd_store y) = s_entries (rd_store x)"
  using gate_index fetch_index by metis

lemma private_index:
  assumes "DownloadUpload fuel ue w ds flt cf now r fid userID uuid ifNoneMatch x = Some (rp, y)" and "index_kept w"
    and "Upload_GetByUUID flt uuid (pt_db (rd_portal x)) = Inr u" and "cache_key_of ds u = []"
  shows "s_entries (rd_store y) = s_entries (rd_store x)"
  using assms
  by (auto simp: DownloadUpload_def Let_def pt_access_def split: if_splits option.splits bool.splits prod.splits dest: gate_index gate_fetch_index)

text \<open>C11: a download answers with bytes, or with 304, only the owner of a stored upload, with the validator of that upload; for
  everybody else an upload that exists answers as one that does not; and a private upload leaves the index of the cache
  as it was unless the operator opted in.\<close>

theorem download_only_for_owner:
  assumes "DownloadUpload fuel ue w ds flt cf now r fid userID uuid ifNoneMatch x = Some (rp, y)" and "db_ok (pt_db (rd_portal x))"
  shows "((\<forall>e. rp \<noteq> Refused e) \<longrightarrow> (\<exists>u \<in> set (uploads (pt_db (rd_portal x))). u_uuid u = uuid \<and> u_user u = userID \<and>
       u_status u \<in> {Completed, AlreadyStored} \<and> (rp = NotModified (downloadETag u) \<or> (\<exists>f. rp = Serve f (downloadETag u))))) \<and>
     (\<not> flt 0 \<and> (\<forall>u \<in> set (uploads (pt_db (rd_portal x))). u_uuid u = uuid \<longrightarrow> u_user u \<noteq> userID) \<longrightarrow> rp = Refused (Reply 404 ''upload not found'')) \<and>
     (\<forall>u \<in> set (uploads (pt_db (rd_portal x))). u_uuid u = uuid \<and> u_visibility u = Private \<and> \<not> ds_private ds \<and> index_kept w \<longrightarrow>
        s_entries (rd_store y) = s_entries (rd_store x))"
proof (intro conjI impI ballI)
  assume "\<forall>e. rp \<noteq> Refused e"
  from served_reply [OF assms(1) this] show "\<exists>u \<in> set (uploads (pt_db (rd_portal x))). u_uuid u = uuid \<and> u_user u = userID \<and>
       u_status u \<in> {Completed, AlreadyStored} \<and> (rp = NotModified (downloadETag u) \<or> (\<exists>f. rp = Serve f (downloadETag u)))"
    using GetByUUID_row by metis
next
  assume n: "\<not> flt 0 \<and> (\<forall>u \<in> set (uploads (pt_db (rd_portal x))). u_uuid u = uuid \<longrightarrow> u_user u \<noteq> userID)"
  have "(\<exists>u. Upload_GetByUUID flt uuid (pt_db (rd_portal x)) = Inr u \<and> u_user u \<noteq> userID) \<or> Upload_GetByUUID flt uuid (pt_db (rd_portal x)) = Inl ErrUploadNotFound"
    using n by (auto simp: Upload_GetByUUID_def split: option.splits dest: find_SomeD)
  then show "rp = Refused (Reply 404 ''upload not found'')" using assms(1) by (auto simp: DownloadUpload_def)
next
  fix u
  assume u: "u \<in> set (uploads (pt_db (rd_portal x)))" "u_uuid u = uuid \<and> u_visibility u = Private \<and> \<not> ds_private ds \<and> index_kept w"
  then have key: "cache_key_of ds u = []" by (simp add: cache_key_of_def)
  have d: "distinct (map u_uuid (uploads (pt_db (rd_portal x))))" using assms(2) by (simp add: db_ok_def)
  have f: "find (\<lambda>v. u_uuid v = uuid) (uploads (pt_db (rd_portal x))) = Some u" using distinct_map_find [OF d u(1)] u(2) by simp
  show "s_entries (rd_store y) = s_entries (rd_store x)"
  proof (cases "flt 0")
    case True
    then have "Upload_GetByUUID flt uuid (pt_db (rd_portal x)) = Inl DBError" by (simp add: Upload_GetByUUID_def)
    then show ?thesis using assms(1) by (auto simp: DownloadUpload_def)
  next
    case False
    then have "Upload_GetByUUID flt uuid (pt_db (rd_portal x)) = Inr u" using f by (simp add: Upload_GetByUUID_def)
    then show ?thesis using private_index [OF assms(1) _ _ key] u(2) by blast
  qed
qed

section \<open>Examples\<close>

definition calm_world :: dl_world where
  "calm_world = \<lparr>dw_fill_wait = (\<lambda>_. TimerFired), dw_fill = (\<lambda>_ y. y), dw_limit = (\<lambda>_. 8), dw_gate_wait = (\<lambda>_. TimerFired), dw_gate = (\<lambda>_ y. y),
     dw_fetch = (\<lambda>y. y), dw_promoted = (\<lambda>y. y), dw_antd = (\<lambda>_ _. Inr 3)\<rparr>"

definition private_upload :: upload where
  "private_upload = done_upload\<lparr>u_visibility := Private, u_datamap := Some []\<rparr>"

definition sample_reader :: reader where
  "sample_reader = \<lparr>rd_portal = set_db (empty_db\<lparr>users := [1], uploads := [private_upload], upload_seq := 1\<rparr>) sample_portal,
     rd_flight = \<lparr>f_inflight = [], f_next = 0, f_closed = []\<rparr>, rd_counter = \<lparr>c_counts = [], c_cap = 9\<rparr>, rd_gate = newDownloadGate\<rparr>"

abbreviation sample_download :: "int \<Rightarrow> (dl_reply \<times> reader) option" where
  "sample_download userID \<equiv> DownloadUpload 1 portal_env calm_world (download_settings None (\<lambda>_. None)) no_faults (\<lambda>_. no_faults) 0 sample_incoming ''d''
     userID ''u'' [] sample_reader"

lemma sample_reader_ok: "db_ok (pt_db (rd_portal sample_reader))"
  by (simp add: sample_reader_def db_ok_def empty_db_def keyed_def private_upload_def done_upload_def new_upload_def fk_uploads_def fk_wallets_def)

theorem download_only_for_owner_witness:
  "(\<exists>y. sample_download 2 = Some (Refused (Reply 404 ''upload not found''), y)) \<and> (\<exists>f y. sample_download 1 = Some (Serve f [], y))"
proof -
  have "map_option fst (sample_download 2) = Some (Refused (Reply 404 ''upload not found''))" by code_simp
  moreover have "map_option fst (sample_download 1) = Some (Serve (Regular 3) [])" by code_simp
  ultimately obtain y y' where "sample_download 2 = Some (Refused (Reply 404 ''upload not found''), y)" and s: "sample_download 1 = Some (Serve (Regular 3) [], y')"
    by auto
  moreover have "\<exists>u \<in> set (uploads (pt_db (rd_portal sample_reader))). u_user u = 1" using download_only_for_owner [OF s sample_reader_ok] by auto
  ultimately show ?thesis by blast
qed


theorem download_gate_bounds_witness:
  "\<exists>g. gate_run [Attempt 2, Attempt 2, Attempt 2, Give, Attempt 1] newDownloadGate 0 = Some (g, 1) \<and> gt_inflight g = 1 \<and> try_acquire 1 g = None"
proof -
  obtain g where g: "gate_run [Attempt 2, Attempt 2, Attempt 2, Give, Attempt 1] newDownloadGate 0 = Some (g, 1)"
    by (simp add: try_acquire_def newDownloadGate_def gate_release_def)
  then show ?thesis using download_gate_bounds [OF g, of 2] by auto
qed


end
