(* ===== verification/Spec2Isabelle.thy ===== *)
theory Spec2Isabelle
  imports Upload_Properties Cache_Properties Cache_Sweep Settings Quota Keyring Wallet_Service Evm_Signer
    Upload_Worker Worker_Properties Worker_Guarantees Audit_Chain Publish Log_Reports Webhook_Guarantees
    Monitor_Guarantees Access_Guarantees Middleware_Guarantees Search Download_Handler
begin

text \<open>
  \<^bold>\<open>Indelible: the upload pipeline, its money and caches, its evidence and its access control.\<close>

  Indelible is a gateway to the Autonomi network. A client's file is staged on disk and queued in the
  \<open>uploads\<close> table; a background worker takes uploads from the queue, has the antd daemon prepare them,
  pays for them on chain from a wallet of the instance, finalizes them and records the outcome. Paid content
  is kept in a download cache on local disk. Requests come from users with sessions or API tokens, through a
  chain of middleware; what they do leaves rows in a hash-chained audit log, whose head can be anchored on the
  network; events go out as signed webhooks; monitors watch the disk, the daemon and the queue and pause uploads.
  The theories follow the Go packages under
  \<open>src/internal\<close>.

  \<^bold>\<open>Parts and theories.\<close>

  \<^item> \<open>Ind_Prelude\<close>: shared lemmas on lists and maps, SQL-like table helpers
    (\<open>update_where\<close>, \<open>order_asc\<close>, \<open>limit_offset\<close>), errors, time in seconds and fault
    plans. A fault plan says which of the numbered statements of an operation fail;
    \<open>no_faults\<close> is the ordinary run.
  \<^item> \<open>Schema\<close>: the tables as records of rows in insertion order (\<open>db\<close>), their key and
    foreign-key constraints (\<open>db_ok\<close>).
  \<^item> \<open>Hash\<close>, \<open>Numbers\<close>, \<open>Aes_Gcm\<close>: SHA-256 and hex, Go's integer parsing and printing
    with 64-bit wrap-around, AES-256-GCM; the parts of the standard library the code computes with. They are
    executable and agree with published test vectors.
  \<^item> \<open>Upload_Service\<close> (\<open>services/upload.go\<close>) and \<open>Ledger\<close>
    (\<open>services/transaction.go\<close>): one definition per method, from database state to result and state.
  \<^item> \<open>Queue_Machine\<close>: the calls as steps (\<open>queue_op\<close>, \<open>run_op\<close>) that workers,
    requests and loops interleave, the invariant \<open>queue_inv\<close>, and the locale \<open>payment_guard\<close>:
    what a worker needs from the queue and the ledger to pay once, interpreted on them.
    \<open>Upload_Properties\<close> holds the theorems about reachable queue states, the FIFO specification
    \<open>queue_view\<close> and the listings.
  \<^item> \<open>Quota\<close> (\<open>services/quota.go\<close>): the quota rows and the four tiers, against the reference
    condition \<open>within_limits\<close>.
  \<^item> \<open>Keyring\<close> (\<open>crypto\<close>, \<open>secrets\<close>) and \<open>Wallet_Service\<close>
    (\<open>services/wallet.go\<close>, \<open>keyrotation.go\<close>): encrypted envelopes tagged with key ids, the
    default wallet, and the rotation of all secrets to a new key.
  \<^item> \<open>Evm_Signer\<close> (\<open>evm/signer.go\<close>, \<open>evm/abi.go\<close>): allowance, payment and receipt,
    the bound on what a merkle plan can cost. The log of sent transactions \<open>ev_sent\<close> is what the
    theorems about money speak of.
  \<^item> \<open>Upload_Worker\<close> (\<open>worker/upload.go\<close>, \<open>upload_inflight.go\<close>,
    \<open>upload_finalize_resume.go\<close>, \<open>requeue_window.go\<close>): \<open>processUpload\<close> as the composition
    \<open>admission\<close>, \<open>prepare_call\<close>, \<open>cost_ceiling\<close>, \<open>resolve_signer\<close>, the merkle or
    wave branch and \<open>complete_upload\<close>; \<open>processOne\<close> with its retries; sweep, temp collector and
    one tick of the dispatch loop. State is the record \<open>world\<close>, everything outside the record
    \<open>env\<close>. \<open>Worker_Properties\<close> proves what each stage does to payments and to the payment
    guard; \<open>Worker_Guarantees\<close> holds the theorems about whole runs.
  \<^item> \<open>Download_Cache\<close> (\<open>downloadcache\<close>), \<open>Cache_Properties\<close>, and
    \<open>Cache_Sweep\<close> (\<open>worker/cache_sweep.go\<close>): index and files, generations, admission under a
    budget, single flight, purge; the sweeps, through the locale \<open>evictable\<close>, interpreted on the
    store.
  \<^item> \<open>Settings\<close> (\<open>services/settings*.go\<close>): rows, atomic audited updates, the cached view.
  \<^item> \<open>Audit_Log\<close> (\<open>services/log.go\<close>, \<open>file_access.go\<close>): the log tables, the chain of row
    hashes, verification, anchors, retention, queries, exports and statistics. \<open>Audit_Chain\<close> adds the writers
    that contend for the chain mutex as a step relation \<open>audit_step\<close> and proves what the chain promises;
    \<open>Log_Reports\<close> is about exports and the daily counts.
  \<^item> \<open>Publish\<close> (\<open>migrate/publish_datamaps.go\<close>, \<open>worker/audit_anchor.go\<close>): publishing chunks, the
    run over private uploads and one anchor pass, paying through \<open>Evm_Signer\<close>.
  \<^item> \<open>Webhooks\<close> (\<open>services/webhook.go\<close>, \<open>webhook_delivery.go\<close>, \<open>safehttp.go\<close>): webhook rows,
    event fan-out, HMAC signatures, the retry loop, delivery log and dead letters, the egress guard;
    \<open>Webhook_Guarantees\<close> has the theorems.
  \<^item> \<open>Floats\<close>: Go's \<open>float64\<close> division and printing, for \<open>Monitors\<close>
    (\<open>worker/disk_alert.go\<close>, \<open>system_monitor.go\<close>, \<open>log_retention.go\<close>): alert states, the two settings
    that gate uploads, retention; \<open>Monitor_Guarantees\<close> relates them to the history of readings.
  \<^item> \<open>Accounts\<close> (\<open>services/user.go\<close>, \<open>permission.go\<close>, \<open>group.go\<close>, \<open>token.go\<close> and the link,
    SCIM token, preference and seed services): the tables behind identity and access, in \<open>acct_db\<close>.
    \<open>Sessions\<close> (\<open>auth/jwt.go\<close>, \<open>middleware\<close>): a middleware is a decision on a request.
    \<open>Account_Handlers\<close> (\<open>handlers/auth.go\<close>, \<open>admin_users.go\<close>, \<open>admin_groups.go\<close>,
    \<open>tokens.go\<close>, \<open>audit.go\<close>): the requests that change accounts, on the record \<open>site\<close>.
    \<open>Access_Guarantees\<close> proves who gets through the routes and what holds along any run of these requests
    (\<open>acct_step\<close>, \<open>acct_run\<close>); \<open>Middleware_Guarantees\<close> is about the rate limiter and idempotency keys.
  \<^item> \<open>Selector\<close> (\<open>services/selector.go\<close>), \<open>Labels\<close> (\<open>services/tag.go\<close>, \<open>tag_rule.go\<close>,
    \<open>collection.go\<close>, \<open>collection_tags.go\<close>) and \<open>Search\<close> (\<open>services/search.go\<close> and the searches of
    \<open>tag.go\<close>): parsing and printing of selectors, tags of files and collections through the locale
    \<open>tag_table\<close> (interpreted on both tables), rules by priority, the collection tree, and LIKE patterns.
  \<^item> \<open>Upload_Handlers\<close> and \<open>Download_Handler\<close> (\<open>handlers/uploads.go\<close>,
    \<open>download_gate.go\<close>): the requests of users about uploads on the record \<open>portal\<close>, which joins the
    queue, quotas, tags, settings, log, temp files and download cache; the actions on one row share the locale
    \<open>row_action\<close>. A download runs on \<open>dl_world\<close>, with the gate's slots, the single flight of the
    cache and the network behind it.

  \<^bold>\<open>What the theorems show.\<close> Money: an upload is paid at most once per authorisation, under any
  interleaving of database calls and for whole runs of the worker (payments sent are an initial part of one
  prepared plan); the source of a paid upload survives failures and the temp collector; rotation keeps
  every secret readable; there is exactly one default wallet; the allowance covers the plan. Queue: FIFO
  refinement, exact sweep, reachable-state invariant, atomic delete. Finalization: at most six calls, and
  success whenever the daemon makes progress. Quotas: the check decides the reference condition and fails
  closed. Cache: the index covers the disk, the budget holds, stale decisions never hit a fresh entry,
  purged content is gone, sweeps end. Evidence: the audit chain holds exactly the acknowledged writes and
  verifies in every reachable state, anchored history cannot be rewritten, only the newest rows can vanish
  unnoticed, retention touches no evidence, an anchor is paid for once per head. Webhooks: a delivery settles
  once, signatures bind timestamp and body, dead letters wait for their operator, the guard refuses exactly the
  non-public ranges. Monitors: alerts and gates are functions of the readings. Access: what an admin request must
  carry, an administrator remains, a new password ends old sessions, links work once, the rate limit holds for
  every untrusted peer, a recorded idempotent request is replayed. Requests: an upload is queued with its staged file or
  leaves nothing behind, content is served to its owner only, every download gives its slot back and the gate never
  exceeds its capacity, deleting purges cached copies and a download in flight cannot bring them back. Labels: a
  printed selector parses to the same selector, the most urgent rule for a key wins, deleting a collection removes
  the whole tree below it, the file search takes its query literally. Some theorems show where the code falls short of its comments; the
  manifest lists them as findings.

  \<^bold>\<open>Bounds.\<close> Loops recurse on the rows, batches, delays or retries
  that are left (\<open>attempts\<close> on the three retries, \<open>finalize_resume\<close> on the five delays), and
  a polling loop reads the list of answers it gets until its context ends. Fuel appears twice: \<open>deleteCollectionRecursive\<close> is
  shown to end for every fuel above the number of collection ids given out, which bounds the depth of a tree whose
  parents are older than their children, and the wait of \<open>gate_acquire\<close> for every fuel above the number of
  wake-ups before its own timer ends it.

  \<^bold>\<open>Conventions.\<close> Times are whole seconds, as \<open>CURRENT_TIMESTAMP\<close> has them. Answers of the
  network, the clock and cancellation are functions of a tick, so they may change from call to call. Errors
  are values; of an error text only the fixed part is kept. \<open>x_others\<close> stands for everything other
  goroutines do to the database between two groups of statements of the worker.

  \<^bold>\<open>Not modelled.\<close> Goroutine scheduling, tickers and sleeping (the interleavings that matter are step
  relations: queue calls, audit writers, account requests); the handlers of collections, tags, tag
  rules, search, analytics, quotas, wallets, settings, webhooks and logs, which decode requests around services that
  are modelled where they live; the aggregates of \<open>services/analytics.go\<close>; the file listing of a collection,
  ordered by a time the model does not keep; range requests; OIDC login, SCIM
  handlers (their service calls are steps of \<open>acct_run\<close>), mail transport, backup, version check; process
  management; fixed response headers. The antd daemon, the Ethereum client with its ABI encoder, JWT, bcrypt, JSON
  and URL libraries, the HTTP exchange, the operating system's file system below the calls made, and the SQL
  engines are parameters or fault plans, not models.
\<close>

end
